(* ===== verification/Js_Prelude.thy ===== *)
theory Js_Prelude
  imports Main "HOL-Library.AList" "HOL-Library.Sublist" "HOL-Library.Char_ord"
    "HOL-Library.List_Lexorder"
begin

text \<open>
  The part of JavaScript the modelled TypeScript code rests on, and the automation the component
  theories share.

  \<^item> \<open>Map\<close>: an association list in insertion order. \<open>Map.prototype.set\<close> keeps the position of an
    existing key and appends a new one, which is what the library's \<open>AList.update\<close> does;
    \<open>Map.prototype.delete\<close> is \<open>AList.delete\<close> and \<open>Map.prototype.get\<close> is \<open>map_of\<close>.
  \<^item> exceptions: a value of \<open>'e + 'a\<close>, with \<open>Inl\<close> for a throw; \<open>bindE\<close> sequences, \<open>throwIf\<close> is
    \<open>if (c) throw e\<close>.
  \<^item> strings: the bytes of the string's (generalised) UTF-8 encoding, in which a lone surrogate is
    the three bytes \<open>ED A0..BF xx\<close>. So \<open>Buffer.byteLength\<close> is \<open>length\<close>, and
    \<open>Buffer.from(s).toString('utf8') !== s\<close> holds exactly where such a triple occurs.
  \<^item> numbers: \<open>int\<close>; \<open>isSafeInteger\<close> is the bound \<open>2 ^ 53 - 1\<close>.
  \<^item> JSON values are in \<open>Js_Json\<close>.
\<close>

named_theorems js_simps \<open>unfolding rules of the JavaScript helpers\<close>

subsection \<open>Insertion-ordered maps\<close>

type_synonym ('k, 'v) jsmap = "('k \<times> 'v) list"

abbreviation jget :: "('k, 'v) jsmap \<Rightarrow> 'k \<Rightarrow> 'v option" where
  "jget m k \<equiv> map_of m k"

abbreviation jset :: "'k \<Rightarrow> 'v \<Rightarrow> ('k, 'v) jsmap \<Rightarrow> ('k, 'v) jsmap" where
  "jset k v m \<equiv> AList.update k v m"

abbreviation jdel :: "'k \<Rightarrow> ('k, 'v) jsmap \<Rightarrow> ('k, 'v) jsmap" where
  "jdel k m \<equiv> AList.delete k m"

definition jvalues :: "('k, 'v) jsmap \<Rightarrow> 'v list" where
  "jvalues m = map snd m"

text \<open>The values of a map in which every key occurs once, as a map the code builds has it.\<close>

abbreviation jwf :: "('k, 'v) jsmap \<Rightarrow> bool" where
  "jwf m \<equiv> distinct (map fst m)"

lemma jget_jset [simp]: "jget (jset k v m) k' = (if k' = k then Some v else jget m k')"
  by (simp add: AList.update_conv')

lemma jget_jdel [simp]: "jget (jdel k m) k' = (if k' = k then None else jget m k')"
  by (simp add: AList.delete_conv')

lemma jwf_jset [simp, intro]: "jwf m \<Longrightarrow> jwf (jset k v m)"
  by (rule AList.distinct_update)

lemma jwf_jdel [simp, intro]: "jwf m \<Longrightarrow> jwf (jdel k m)"
  by (rule AList.distinct_delete)

lemma jget_in_set: "jget m k = Some v \<Longrightarrow> (k, v) \<in> set m"
  by (rule map_of_SomeD)

lemma in_set_jget: "jwf m \<Longrightarrow> (k, v) \<in> set m \<longleftrightarrow> jget m k = Some v"
  by (simp add: map_of_eq_Some_iff)

lemma in_jvalues: "jwf m \<Longrightarrow> v \<in> set (jvalues m) \<longleftrightarrow> (\<exists>k. jget m k = Some v)"
  by (force simp: jvalues_def in_set_jget [symmetric] image_iff)

lemma set_jset: "jwf m \<Longrightarrow>
    set (jset k v m) = insert (k, v) {p \<in> set m. fst p \<noteq> k}"
  by (induction m) (auto simp: image_iff)

lemma jget_map_value:
  "jget (map (\<lambda>(k, v). (k, f k v)) m) k = map_option (f k) (jget m k)"
  by (induction m) auto

lemma jwf_map_value [simp]: "jwf (map (\<lambda>(k, v). (k, f k v)) m) = jwf m"
  by (simp add: comp_def split_def)

subsection \<open>Exceptions as values\<close>

fun bindE :: "'e + 'a \<Rightarrow> ('a \<Rightarrow> 'e + 'b) \<Rightarrow> 'e + 'b" where
  "bindE (Inl e) f = Inl e"
| "bindE (Inr x) f = f x"

definition throwIf :: "bool \<Rightarrow> 'e \<Rightarrow> 'e + unit" where
  "throwIf c e = (if c then Inl e else Inr ())"

definition require :: "'e \<Rightarrow> 'a option \<Rightarrow> 'e + 'a" where
  "require e x = (case x of None \<Rightarrow> Inl e | Some v \<Rightarrow> Inr v)"

lemma bindE_eq_Inr [simp]: "bindE r f = Inr y \<longleftrightarrow> (\<exists>x. r = Inr x \<and> f x = Inr y)"
  by (cases r) auto

lemma bindE_eq_Inl: "bindE r f = Inl e \<longleftrightarrow> r = Inl e \<or> (\<exists>x. r = Inr x \<and> f x = Inl e)"
  by (cases r) auto

lemma throwIf_eq_Inr [simp]: "throwIf c e = Inr u \<longleftrightarrow> \<not> c"
  by (simp add: throwIf_def)

lemma throwIf_True [simp]: "throwIf True e = Inl e"
  and throwIf_False [simp]: "throwIf False e = Inr ()"
  by (simp_all add: throwIf_def)

lemma throwIf_eq_Inl [simp]: "throwIf c e = Inl e' \<longleftrightarrow> c \<and> e' = e"
  by (auto simp: throwIf_def)

lemma require_eq_Inr [simp]: "require e x = Inr v \<longleftrightarrow> x = Some v"
  by (simp add: require_def split: option.splits)

lemma require_simps [simp]: "require e None = Inl e" "require e (Some v) = Inr v"
  by (simp_all add: require_def)

text \<open>A loop whose body may throw.\<close>

fun foldE :: "('a \<Rightarrow> 's \<Rightarrow> 'e + 's) \<Rightarrow> 'a list \<Rightarrow> 's \<Rightarrow> 'e + 's" where
  "foldE f [] s = Inr s"
| "foldE f (x # xs) s = bindE (f x s) (foldE f xs)"

text \<open>An invariant of the body is an invariant of the loop.\<close>

lemma foldE_invariant:
  assumes "foldE f xs s = Inr s'" and "I s"
    and "\<And>x s s'. x \<in> set xs \<Longrightarrow> I s \<Longrightarrow> f x s = Inr s' \<Longrightarrow> I s'"
  shows "I s'"
  using assms
proof (induction xs arbitrary: s)
  case Nil
  then show ?case by simp
next
  case (Cons x xs)
  then obtain t where t: "f x s = Inr t" "foldE f xs t = Inr s'"
    by auto
  from Cons.prems(2,3) t(1) have "I t"
    by (meson list.set_intros(1))
  with t(2) Cons.prems(3) show ?case
    by (metis Cons.IH list.set_intros(2))
qed

subsection \<open>Numbers\<close>

definition isSafeInteger :: "int \<Rightarrow> bool" where
  "isSafeInteger n \<longleftrightarrow> \<bar>n\<bar> \<le> 9007199254740991"

text \<open>
  \<open>Date.parse\<close> and arithmetic on it give \<open>NaN\<close> for an invalid date: \<open>None\<close>. Every comparison
  with \<open>NaN\<close> is false.
\<close>

fun nan_gt :: "int option \<Rightarrow> int option \<Rightarrow> bool" where
  "nan_gt (Some a) (Some b) = (a > b)"
| "nan_gt _ _ = False"

fun nan_le :: "int option \<Rightarrow> int option \<Rightarrow> bool" where
  "nan_le (Some a) (Some b) = (a \<le> b)"
| "nan_le _ _ = False"

abbreviation nan_lt :: "int option \<Rightarrow> int option \<Rightarrow> bool" where
  "nan_lt a b \<equiv> nan_gt b a"

lemma nan_gt_iff: "nan_gt a b \<longleftrightarrow> (\<exists>x y. a = Some x \<and> b = Some y \<and> x > y)"
  by (cases "(a, b)" rule: nan_gt.cases) auto

lemma nan_le_iff: "nan_le a b \<longleftrightarrow> (\<exists>x y. a = Some x \<and> b = Some y \<and> x \<le> y)"
  by (cases "(a, b)" rule: nan_le.cases) auto

subsection \<open>Strings\<close>

text \<open>
  The length in UTF-16 code units: continuation bytes count for nothing and the lead byte of a
  four-byte sequence stands for a surrogate pair.
\<close>

definition js_length :: "string \<Rightarrow> nat" where
  "js_length s = sum_list (map (\<lambda>c. let b = (of_char c :: nat) in
     if 128 \<le> b \<and> b < 192 then 0 else if 240 \<le> b then 2 else 1) s)"

fun utf8_lossless :: "string \<Rightarrow> bool" where
  "utf8_lossless (a # b # r) \<longleftrightarrow>
     \<not> ((of_char a :: nat) = 237 \<and> 160 \<le> (of_char b :: nat)) \<and> utf8_lossless (b # r)"
| "utf8_lossless _ \<longleftrightarrow> True"

text \<open>The number of bytes of the white space or line terminator character the text starts with.\<close>

fun ws_width :: "nat list \<Rightarrow> nat" where
  "ws_width (a # r) =
    (if a \<in> {9, 10, 11, 12, 13, 32} then 1
     else case r of
       [] \<Rightarrow> 0
     | b # r' \<Rightarrow>
        (if a = 194 \<and> b = 160 then 2
         else case r' of
           [] \<Rightarrow> 0
         | c # _ \<Rightarrow>
            (if (a = 225 \<and> b = 154 \<and> c = 128)
              \<or> (a = 226 \<and> b = 128 \<and> (128 \<le> c \<and> c \<le> 138 \<or> c \<in> {168, 169, 175}))
              \<or> (a = 226 \<and> b = 129 \<and> c = 159)
              \<or> (a = 227 \<and> b = 128 \<and> c = 128)
              \<or> (a = 239 \<and> b = 187 \<and> c = 191) then 3 else 0)))"
| "ws_width [] = 0"

text \<open>\<open>!value.trim()\<close>: nothing but white space.\<close>

function js_blank_codes :: "nat list \<Rightarrow> bool" where
  "js_blank_codes cs =
     (if cs = [] then True
      else if ws_width cs = 0 then False
      else js_blank_codes (drop (ws_width cs) cs))"
  by pat_completeness auto
termination
  by (relation "measure length") auto

declare js_blank_codes.simps [simp del]

definition js_blank :: "string \<Rightarrow> bool" where
  "js_blank s = js_blank_codes (map of_char s)"

lemma js_blank_Nil [simp]: "js_blank []"
  by (simp add: js_blank_def js_blank_codes.simps [of "[]"])

lemma not_js_blank: "\<not> js_blank s \<Longrightarrow> s \<noteq> []"
  by auto

definition js_includes_nul :: "string \<Rightarrow> bool" where
  "js_includes_nul s \<longleftrightarrow> CHR 0x00 \<in> set s"

abbreviation startsWith :: "string \<Rightarrow> string \<Rightarrow> bool" where
  "startsWith s p \<equiv> prefix p s"

definition toLowerCase_ascii :: "string \<Rightarrow> string" where
  "toLowerCase_ascii = map (\<lambda>c. let b = (of_char c :: nat) in
     if 65 \<le> b \<and> b \<le> 90 then char_of (b + 32) else c)"

subsection \<open>Decimal numerals\<close>

fun dec_nat :: "nat \<Rightarrow> string" where
  "dec_nat n = (if n < 10 then [char_of (48 + n)] else dec_nat (n div 10) @ [char_of (48 + n mod 10)])"

declare dec_nat.simps [simp del]

definition dec_int :: "int \<Rightarrow> string" where
  "dec_int i = (if i < 0 then ''-'' @ dec_nat (nat (- i)) else dec_nat (nat i))"

text \<open>\<open>String(n).padStart(width, '0')\<close>.\<close>

definition pad_dec :: "nat \<Rightarrow> nat \<Rightarrow> string" where
  "pad_dec w n = (let s = dec_nat n in replicate (w - length s) CHR ''0'' @ s)"

definition is_digit :: "char \<Rightarrow> bool" where
  "is_digit c \<longleftrightarrow> 48 \<le> (of_char c :: nat) \<and> (of_char c :: nat) \<le> 57"

definition digit_val :: "char \<Rightarrow> nat" where
  "digit_val c = of_char c - 48"

definition digits_val :: "string \<Rightarrow> nat" where
  "digits_val s = foldl (\<lambda>v c. 10 * v + digit_val c) 0 s"

lemma of_char_char_of_lt [simp]: "n < 256 \<Longrightarrow> of_char (char_of (n :: nat) :: char) = n"
  by (simp add: of_char_of)

lemma digit_char [simp]:
  "n < 10 \<Longrightarrow> is_digit (char_of (48 + n))"
  "n < 10 \<Longrightarrow> digit_val (char_of (48 + n)) = n"
  by (simp_all add: is_digit_def digit_val_def)

lemma digits_val_snoc [simp]: "digits_val (s @ [c]) = 10 * digits_val s + digit_val c"
  by (simp add: digits_val_def)

lemma digits_val_Nil [simp]: "digits_val [] = 0"
  by (simp add: digits_val_def)

lemma digits_val_dec_nat [simp]: "digits_val (dec_nat n) = n"
proof (induction n rule: dec_nat.induct)
  case (1 n)
  show ?case
  proof (cases "n < 10")
    case True
    then show ?thesis
      by (subst dec_nat.simps) (simp add: digits_val_def)
  next
    case False
    with 1 have "digits_val (dec_nat (n div 10)) = n div 10"
      by simp
    with False show ?thesis
      by (subst dec_nat.simps) simp
  qed
qed

lemma dec_nat_digits: "\<forall>c \<in> set (dec_nat n). is_digit c"
proof (induction n rule: dec_nat.induct)
  case (1 n)
  then show ?case
    by (subst dec_nat.simps) (auto simp: ball_Un)
qed

lemma digits_val_zeros [simp]: "digits_val (replicate k CHR ''0'' @ s) = digits_val s"
proof -
  have "foldl (\<lambda>v c. 10 * v + digit_val c) 0 (replicate k CHR ''0'') = 0"
    by (induction k) (simp_all add: digit_val_def)
  then show ?thesis
    by (simp add: digits_val_def)
qed

lemma pad_dec_digits: "\<forall>c \<in> set (pad_dec w n). is_digit c"
  using dec_nat_digits [of n] by (auto simp: pad_dec_def Let_def) (simp add: is_digit_def)

lemma digits_val_pad_dec [simp]: "digits_val (pad_dec w n) = n"
  by (simp add: pad_dec_def Let_def)

lemma length_dec_nat_le: "n < 10 ^ w \<Longrightarrow> 0 < w \<Longrightarrow> length (dec_nat n) \<le> w"
proof (induction n arbitrary: w rule: dec_nat.induct)
  case (1 n)
  show ?case
  proof (cases "n < 10")
    case True
    with 1 show ?thesis by (subst dec_nat.simps) simp
  next
    case False
    with 1 obtain w' where w: "w = Suc w'" "0 < w'"
      by (metis One_nat_def Suc_pred bot_nat_0.not_eq_extremum power_one_right)
    with 1 False have "n div 10 < 10 ^ w'"
      by (simp add: less_mult_imp_div_less mult.commute)
    with 1 False w have "length (dec_nat (n div 10)) \<le> w'"
      by simp
    with False w show ?thesis
      by (subst dec_nat.simps) simp
  qed
qed

lemma length_pad_dec: "n < 10 ^ w \<Longrightarrow> 0 < w \<Longrightarrow> length (pad_dec w n) = w"
  using length_dec_nat_le [of n w] by (simp add: pad_dec_def Let_def)

end
