(* ===== verification/Js_Json.thy ===== *)
theory Js_Json
  imports Js_Prelude
begin

text \<open>
  JSON values and their printed forms, as \<open>JSON.stringify\<close> gives them.

  A value is a tree \<open>json\<close>; an object is the list of its entries in the order of
  \<open>Object.entries\<close>. Numbers are integers (every number the modelled code builds is one). A member
  that is \<open>undefined\<close> has no representation: where the code prints \<open>null\<close> for it the model holds
  \<open>JNull\<close>.

  \<open>utf16_units\<close> is the order in which JavaScript compares strings (\<open><\<close> and
  \<open>Array.prototype.sort()\<close> compare UTF-16 code units, which differs from the order of the bytes
  when a surrogate pair meets a character above it). \<open>sort_by\<close> is the stable
  \<open>Array.prototype.sort\<close> under a comparator.
\<close>

datatype json =
    JNull
  | JBool bool
  | JNum int
  | JStr string
  | JArr "json list"
  | JObj "(string \<times> json) list"

subsection \<open>String order and stable sorting\<close>

definition surrogates :: "nat \<Rightarrow> nat list" where
  "surrogates p = [55296 + (p - 65536) div 1024, 56320 + (p - 65536) mod 1024]"

fun utf16_codes :: "nat list \<Rightarrow> nat list" where
  "utf16_codes (a # b # c # d # r) =
    (if a < 192 then a # utf16_codes (b # c # d # r)
     else if a < 224 then ((a mod 32) * 64 + b mod 64) # utf16_codes (c # d # r)
     else if a < 240 then ((a mod 16) * 4096 + (b mod 64) * 64 + c mod 64) # utf16_codes (d # r)
     else surrogates ((a mod 8) * 262144 + (b mod 64) * 4096 + (c mod 64) * 64 + d mod 64)
       @ utf16_codes r)"
| "utf16_codes (a # b # c # []) =
    (if a < 192 then a # utf16_codes [b, c]
     else if a < 224 then ((a mod 32) * 64 + b mod 64) # utf16_codes [c]
     else [(a mod 16) * 4096 + (b mod 64) * 64 + c mod 64])"
| "utf16_codes (a # b # []) =
    (if a < 192 then a # utf16_codes [b] else [(a mod 32) * 64 + b mod 64])"
| "utf16_codes (a # []) = [a]"
| "utf16_codes [] = []"

definition utf16_units :: "string \<Rightarrow> nat list" where
  "utf16_units s = utf16_codes (map of_char s)"

definition js_less :: "string \<Rightarrow> string \<Rightarrow> bool" where
  "js_less a b \<longleftrightarrow> utf16_units a < utf16_units b"

fun insort_by :: "('a \<Rightarrow> 'a \<Rightarrow> bool) \<Rightarrow> 'a \<Rightarrow> 'a list \<Rightarrow> 'a list" where
  "insort_by le x [] = [x]"
| "insort_by le x (y # ys) = (if le x y then x # y # ys else y # insort_by le x ys)"

definition sort_by :: "('a \<Rightarrow> 'a \<Rightarrow> bool) \<Rightarrow> 'a list \<Rightarrow> 'a list" where
  "sort_by le xs = foldr (insort_by le) xs []"

lemma set_insort_by [simp]: "set (insort_by le x ys) = insert x (set ys)"
  by (induction ys) auto

lemma set_sort_by [simp]: "set (sort_by le xs) = set xs"
  by (induction xs) (simp_all add: sort_by_def)

lemma length_insort_by [simp]: "length (insort_by le x ys) = Suc (length ys)"
  by (induction ys) auto

lemma length_sort_by [simp]: "length (sort_by le xs) = length xs"
  by (induction xs) (simp_all add: sort_by_def)

lemma distinct_insort_by: "distinct (insort_by le x ys) \<longleftrightarrow> x \<notin> set ys \<and> distinct ys"
  by (induction ys) auto

lemma distinct_sort_by [simp]: "distinct (sort_by le xs) \<longleftrightarrow> distinct xs"
  by (induction xs) (simp_all add: sort_by_def distinct_insort_by set_sort_by [unfolded sort_by_def])

text \<open>Under a total preorder the result is in order.\<close>

lemma sorted_insort_by:
  assumes "\<And>a b. le a b \<or> le b a" and "\<And>a b c. le a b \<Longrightarrow> le b c \<Longrightarrow> le a c"
    and "sorted_wrt le ys"
  shows "sorted_wrt le (insort_by le x ys)"
  using assms(3)
proof (induction ys)
  case Nil
  then show ?case by simp
next
  case (Cons y ys)
  show ?case
  proof (cases "le x y")
    case True
    with Cons.prems show ?thesis
      using assms(2) by fastforce
  next
    case False
    with assms(1) have "le y x" by blast
    with False Cons show ?thesis by simp
  qed
qed

lemma sorted_sort_by:
  assumes "\<And>a b. le a b \<or> le b a" and "\<And>a b c. le a b \<Longrightarrow> le b c \<Longrightarrow> le a c"
  shows "sorted_wrt le (sort_by le xs)"
  by (induction xs)
    (simp_all add: sort_by_def sorted_insort_by [OF assms(1) assms(2)])

subsection \<open>Quoted strings\<close>

definition hex_digit :: "nat \<Rightarrow> char" where
  "hex_digit n = (if n < 10 then char_of (48 + n) else char_of (87 + n))"

definition hex4 :: "nat \<Rightarrow> string" where
  "hex4 n = [hex_digit (n div 4096 mod 16), hex_digit (n div 256 mod 16),
             hex_digit (n div 16 mod 16), hex_digit (n mod 16)]"

definition json_escape_char :: "char \<Rightarrow> string" where
  "json_escape_char c = (let n = (of_char c :: nat) in
     if n = 34 then [CHR 0x5C, CHR 0x22]
     else if n = 92 then [CHR 0x5C, CHR 0x5C]
     else if n = 8 then CHR 0x5C # ''b''
     else if n = 9 then CHR 0x5C # ''t''
     else if n = 10 then CHR 0x5C # ''n''
     else if n = 12 then CHR 0x5C # ''f''
     else if n = 13 then CHR 0x5C # ''r''
     else if n < 32 then CHR 0x5C # ''u'' @ hex4 n
     else [c])"

text \<open>A lone surrogate is escaped as well.\<close>

fun json_escape :: "string \<Rightarrow> string" where
  "json_escape (a # b # c # r) =
    (if (of_char a :: nat) = 237 \<and> 160 \<le> (of_char b :: nat)
     then (CHR 0x5C # ''u'' @ hex4 (53248 + (of_char b mod 64) * 64 + of_char c mod 64)) @ json_escape r
     else json_escape_char a @ json_escape (b # c # r))"
| "json_escape (a # b # []) = json_escape_char a @ json_escape_char b"
| "json_escape (a # []) = json_escape_char a"
| "json_escape [] = []"

definition json_quote :: "string \<Rightarrow> string" where
  "json_quote s = CHR 0x22 # json_escape s @ [CHR 0x22]"

subsection \<open>Printing\<close>

fun join_comma :: "string list \<Rightarrow> string" where
  "join_comma [] = []"
| "join_comma [x] = x"
| "join_comma (x # y # r) = x @ '','' @ join_comma (y # r)"

primrec JSON_stringify :: "json \<Rightarrow> string" where
  "JSON_stringify JNull = ''null''"
| "JSON_stringify (JBool b) = (if b then ''true'' else ''false'')"
| "JSON_stringify (JNum n) = dec_int n"
| "JSON_stringify (JStr s) = json_quote s"
| "JSON_stringify (JArr xs) = ''['' @ join_comma (map JSON_stringify xs) @ '']''"
| "JSON_stringify (JObj es) =
     ''{'' @ join_comma (map (\<lambda>(k, t). json_quote k @ '':'' @ t) (map (map_prod id JSON_stringify) es))
     @ ''}''"

end
