(* ===== verification/Iso_Time.thy ===== *)
theory Iso_Time
  imports Js_Prelude
begin

text \<open>
  Instants. The first part is the calendar arithmetic of the language's \<open>Date\<close> (days since the
  epoch, with the day of a year and month and its inverse), \<open>Date.prototype.toISOString\<close>, and
  \<open>Date.parse\<close> on the format \<open>toISOString\<close> writes and its ISO-8601 variants with an explicit zone;
  any other text is \<open>NaN\<close> (\<open>None\<close>) here. The second part is the repository's own lossless
  microsecond reader, \<open>instant-microseconds.ts\<close>. The last lemmas show that the calendar
  conversions are inverse to each other and that \<open>Date.parse\<close> reads back what \<open>toISOString\<close> wrote.
\<close>

subsection \<open>Days and civil dates\<close>

definition leap_year :: "int \<Rightarrow> bool" where
  "leap_year y \<longleftrightarrow> (y mod 4 = 0 \<and> y mod 100 \<noteq> 0) \<or> y mod 400 = 0"

text \<open>The number of the first day of a year, counted from 1970-01-01.\<close>

definition day_from_year :: "int \<Rightarrow> int" where
  "day_from_year y =
     365 * (y - 1970) + (y - 1969) div 4 - (y - 1901) div 100 + (y - 1601) div 400"

text \<open>Days of the year before the first day of month \<open>m\<close>, counted from 0.\<close>

definition days_before_month :: "bool \<Rightarrow> int \<Rightarrow> int" where
  "days_before_month leap m =
     (if m \<le> 0 then 0 else if m = 1 then 31
      else (if leap then 1 else 0) +
       (if m = 2 then 59 else if m = 3 then 90 else if m = 4 then 120 else if m = 5 then 151
        else if m = 6 then 181 else if m = 7 then 212 else if m = 8 then 243
        else if m = 9 then 273 else if m = 10 then 304 else if m = 11 then 334 else 365))"

definition make_day :: "int \<Rightarrow> int \<Rightarrow> int \<Rightarrow> int" where
  "make_day y m d = day_from_year y + days_before_month (leap_year y) m + d - 1"

definition year_from_day :: "int \<Rightarrow> int" where
  "year_from_day d =
     (let y = 1970 + (400 * d) div 146097 in
      if d < day_from_year y then y - 1
      else if day_from_year (y + 1) \<le> d then y + 1
      else y)"

definition month_of_yday :: "bool \<Rightarrow> int \<Rightarrow> int" where
  "month_of_yday leap k =
     (if k < 31 then 0
      else let j = k - (if leap then 1 else 0) in
       if j < 59 then 1 else if j < 90 then 2 else if j < 120 then 3 else if j < 151 then 4
       else if j < 181 then 5 else if j < 212 then 6 else if j < 243 then 7
       else if j < 273 then 8 else if j < 304 then 9 else if j < 334 then 10 else 11)"

text \<open>\<open>getUTCFullYear\<close>, \<open>getUTCMonth\<close> and \<open>getUTCDate\<close> of a day.\<close>

definition civil_of_day :: "int \<Rightarrow> int \<times> int \<times> int" where
  "civil_of_day d =
     (let y = year_from_day d; k = d - day_from_year y; m = month_of_yday (leap_year y) k
      in (y, m, k - days_before_month (leap_year y) m + 1))"

definition days_in_month :: "int \<Rightarrow> int \<Rightarrow> int" where
  "days_in_month y m =
     days_before_month (leap_year y) (m + 1) - days_before_month (leap_year y) m"

definition valid_civil :: "int \<Rightarrow> int \<Rightarrow> int \<Rightarrow> bool" where
  "valid_civil y m d \<longleftrightarrow> 0 \<le> m \<and> m \<le> 11 \<and> 1 \<le> d \<and> d \<le> days_in_month y m"

text \<open>\<open>getUTCDay\<close>: 0 is Sunday; the epoch was a Thursday.\<close>

definition week_day :: "int \<Rightarrow> int" where
  "week_day d = (d + 4) mod 7"

definition ms_per_day :: int where
  "ms_per_day = 86400000"

subsection \<open>Writing and reading ISO-8601\<close>

definition year_text :: "int \<Rightarrow> string" where
  "year_text y =
     (if 0 \<le> y \<and> y \<le> 9999 then pad_dec 4 (nat y)
      else (if y < 0 then ''-'' else ''+'') @ pad_dec 6 (nat \<bar>y\<bar>))"

definition toISOString :: "int \<Rightarrow> string" where
  "toISOString t =
     (let (y, m, d) = civil_of_day (t div ms_per_day); r = t mod ms_per_day in
      year_text y @ ''-'' @ pad_dec 2 (nat (m + 1)) @ ''-'' @ pad_dec 2 (nat d) @ ''T'' @
      pad_dec 2 (nat (r div 3600000)) @ '':'' @ pad_dec 2 (nat (r div 60000 mod 60)) @ '':'' @
      pad_dec 2 (nat (r div 1000 mod 60)) @ ''.'' @ pad_dec 3 (nat (r mod 1000)) @ ''Z'')"

text \<open>The range of time values a \<open>Date\<close> can hold.\<close>

definition date_in_range :: "int \<Rightarrow> bool" where
  "date_in_range t \<longleftrightarrow> \<bar>t\<bar> \<le> 8640000000000000"

text \<open>Exactly \<open>n\<close> decimal digits at the start of the text.\<close>

definition take_digits :: "nat \<Rightarrow> string \<Rightarrow> (nat \<times> string) option" where
  "take_digits n s =
     (if length (take n s) = n \<and> list_all is_digit (take n s)
      then Some (digits_val (take n s), drop n s) else None)"

definition take_char :: "char \<Rightarrow> string \<Rightarrow> string option" where
  "take_char c s = (case s of x # r \<Rightarrow> if x = c then Some r else None | [] \<Rightarrow> None)"

definition parse_year :: "string \<Rightarrow> (int \<times> string) option" where
  "parse_year s =
     (case s of
        c # r \<Rightarrow>
          (if c = CHR ''+'' then map_option (\<lambda>(v, q). (int v, q)) (take_digits 6 r)
           else if c = CHR ''-'' then
             Option.bind (take_digits 6 r)
               (\<lambda>(v, q). if v = 0 then None else Some (- int v, q))
           else map_option (\<lambda>(v, q). (int v, q)) (take_digits 4 s))
      | [] \<Rightarrow> None)"

definition parse_two :: "char \<Rightarrow> string \<Rightarrow> (nat \<times> string) option" where
  "parse_two c s = Option.bind (take_char c s) (take_digits 2)"

text \<open>A fraction of a second: the first three digits count, as milliseconds.\<close>

definition parse_fraction :: "string \<Rightarrow> (nat \<times> string) option" where
  "parse_fraction s =
     (case take_char CHR ''.'' s of
        None \<Rightarrow> Some (0, s)
      | Some r \<Rightarrow>
          (let ds = takeWhile is_digit r in
           if ds = [] then None
           else Some (digits_val (take 3 (ds @ ''00'')), dropWhile is_digit r)))"

text \<open>The zone, as milliseconds to subtract from the wall-clock time.\<close>

definition parse_zone :: "string \<Rightarrow> int option" where
  "parse_zone s =
     (if s = ''Z'' then Some 0
      else case s of
        [] \<Rightarrow> None
      | c # r \<Rightarrow>
         (if c = CHR ''+'' \<or> c = CHR ''-'' then
            Option.bind (take_digits 2 r) (\<lambda>(h, r1).
            Option.bind (parse_two CHR '':'' r1) (\<lambda>(m, r2).
              if r2 = [] \<and> h \<le> 23 \<and> m \<le> 59
              then Some ((if c = CHR ''+'' then 1 else - 1) * int (h * 60 + m) * 60000)
              else None))
          else None))"

definition parse_clock :: "string \<Rightarrow> (int \<times> string) option" where
  "parse_clock s =
     Option.bind (take_digits 2 s) (\<lambda>(h, r1).
     Option.bind (parse_two CHR '':'' r1) (\<lambda>(mi, r2).
     Option.bind (parse_two CHR '':'' r2) (\<lambda>(se, r3).
     Option.bind (parse_fraction r3) (\<lambda>(ms, r4).
       if (h \<le> 23 \<and> mi \<le> 59 \<and> se \<le> 59) \<or> (h = 24 \<and> mi = 0 \<and> se = 0 \<and> ms = 0)
       then Some (int (((h * 60 + mi) * 60 + se) * 1000 + ms), r4)
       else None))))"

definition date_parse :: "string \<Rightarrow> int option" where
  "date_parse s =
     Option.bind (parse_year s) (\<lambda>(y, r1).
     Option.bind (parse_two CHR ''-'' r1) (\<lambda>(mo, r2).
     Option.bind (parse_two CHR ''-'' r2) (\<lambda>(d, r3).
       if 1 \<le> mo \<and> mo \<le> 12 \<and> 1 \<le> d \<and> d \<le> 31 then
         (let day = make_day y (int mo - 1) (int d);
              result = (if r3 = [] then Some (day * ms_per_day)
                else Option.bind (take_char CHR ''T'' r3) (\<lambda>r4.
                     Option.bind (parse_clock r4) (\<lambda>(t, r5).
                     Option.bind (parse_zone r5) (\<lambda>z.
                       Some (day * ms_per_day + t - z)))))
          in Option.bind result (\<lambda>t. if date_in_range t then Some t else None))
       else None)))"

subsection \<open>instant-microseconds.ts\<close>

text \<open>
  The regular expression with its groups read left to right; \<open>refuse\<close> is \<open>None\<close>. The calendar
  \<open>Date\<close> of the source is set from the year, month and day and read back, so a day that the month
  does not have is refused.
\<close>

definition micro_fraction :: "string \<Rightarrow> (nat \<times> string) option" where
  "micro_fraction s =
     (case take_char CHR ''.'' s of
        None \<Rightarrow> Some (0, s)
      | Some r \<Rightarrow>
          (let ds = takeWhile is_digit r in
           if ds = [] \<or> 6 < length ds then None
           else Some (digits_val (take 6 (ds @ ''00000'')), dropWhile is_digit r)))"

definition micro_zone :: "string \<Rightarrow> (int \<times> nat \<times> nat) option" where
  "micro_zone s =
     (if s = ''Z'' then Some (1, 0, 0)
      else case s of
        [] \<Rightarrow> None
      | c # r \<Rightarrow>
         (if c = CHR ''+'' \<or> c = CHR ''-'' then
            Option.bind (take_digits 2 r) (\<lambda>(h, r1).
            Option.bind (parse_two CHR '':'' r1) (\<lambda>(m, r2).
              if r2 = [] then Some (if c = CHR ''-'' then - 1 else 1, h, m) else None))
          else None))"

definition instantMicroseconds :: "string \<Rightarrow> int option" where
  "instantMicroseconds value =
     Option.bind (take_digits 4 value) (\<lambda>(year, r1).
     Option.bind (parse_two CHR ''-'' r1) (\<lambda>(month, r2).
     Option.bind (parse_two CHR ''-'' r2) (\<lambda>(day, r3).
     Option.bind (parse_two CHR ''T'' r3) (\<lambda>(hour, r4).
     Option.bind (parse_two CHR '':'' r4) (\<lambda>(minute, r5).
     Option.bind (parse_two CHR '':'' r5) (\<lambda>(second, r6).
     Option.bind (micro_fraction r6) (\<lambda>(micros, r7).
     Option.bind (micro_zone r7) (\<lambda>(sign, zoneHours, zoneMinutes).
       if year < 1 \<or> month < 1 \<or> month > 12 \<or> day < 1 \<or> day > 31 \<or> hour > 23 \<or> minute > 59
          \<or> second > 59 \<or> zoneHours > 15 \<or> zoneMinutes > 59
       then None
       else
         (let calendar = make_day (int year) (int month - 1) (int day);
              time = calendar * ms_per_day + int ((hour * 60 + minute) * 60 + second) * 1000;
              offset = int (zoneHours * 60 + zoneMinutes) * 60000 * sign
          in if civil_of_day calendar \<noteq> (int year, int month - 1, int day) then None
             else Some ((time - offset) * 1000 + int micros))))))))))"

subsection \<open>The calendar conversions are inverse\<close>

lemma div_pred:
  fixes x n :: int
  assumes "0 < n"
  shows "x div n = (x - 1) div n + (if n dvd x then 1 else 0)"
proof -
  define q r where "q = (x - 1) div n" "r = (x - 1) mod n"
  have x: "x = n * q + (r + 1)"
    by (simp add: q_r_def algebra_simps flip: minus_mod_eq_mult_div)
  have r: "0 \<le> r" "r < n"
    using assms by (simp_all add: q_r_def)
  show ?thesis
  proof (cases "r + 1 = n")
    case True
    then have "x = n * (q + 1)"
      using x by (simp add: algebra_simps)
    then have "x div n = q + 1" "n dvd x"
      using assms by simp_all
    then show ?thesis
      by (simp add: q_r_def)
  next
    case False
    then have "x div n = q"
      using x r assms by (intro int_div_pos_eq [of x n q "r + 1"]) auto
    moreover have "\<not> n dvd x"
      using x r False assms zdvd_not_zless [of "r + 1" n]
      by (simp add: dvd_add_right_iff)
    ultimately show ?thesis
      by (simp flip: q_r_def)
  qed
qed

lemma day_from_year_Suc:
  "day_from_year (y + 1) = day_from_year y + (if leap_year y then 366 else 365)"
proof -
  define P Q R where "P = (4 dvd y)" "Q = (100 dvd y)" "R = (400 dvd y)"
  have d: "(4 dvd y - 1968) = P" "(100 dvd y - 1900) = Q" "(400 dvd y - 1600) = R"
    by (simp_all add: dvd_diff_left_iff P_Q_R_def)
  have i: "R \<Longrightarrow> Q" "Q \<Longrightarrow> P"
    unfolding P_Q_R_def by (auto elim!: dvd_trans [rotated])
  have l: "leap_year y = ((P \<and> \<not> Q) \<or> R)"
    by (simp only: leap_year_def mod_eq_0_iff_dvd P_Q_R_def)
  define a b c where "a = (y - 1969) div 4" "b = (y - 1901) div 100" "c = (y - 1601) div 400"
  have "(y - 1968) div 4 = a + (if P then 1 else 0)"
    "(y - 1900) div 100 = b + (if Q then 1 else 0)"
    "(y - 1600) div 400 = c + (if R then 1 else 0)"
    using div_pred [of 4 "y - 1968"] div_pred [of 100 "y - 1900"] div_pred [of 400 "y - 1600"]
    by (simp_all only: d a_b_c_def)
  then have "day_from_year (y + 1) = 365 * (y + 1 - 1970) + (a + (if P then 1 else 0))
      - (b + (if Q then 1 else 0)) + (c + (if R then 1 else 0))"
    by (simp add: day_from_year_def)
  moreover have "day_from_year y = 365 * (y - 1970) + a - b + c"
    by (simp only: day_from_year_def a_b_c_def)
  ultimately show ?thesis
    using i by (auto simp: l)
qed

lemma day_from_year_bounds:
  "146097 * (y - 1970) - 506 \<le> 400 * day_from_year y"
  "400 * day_from_year y \<le> 146097 * (y - 1970) + 589"
proof -
  define a b c where "a = (y - 1969) div 4" "b = (y - 1901) div 100" "c = (y - 1601) div 400"
  have 1: "4 * a \<le> y - 1969" "y - 1969 \<le> 4 * a + 3" "100 * b \<le> y - 1901" "y - 1901 \<le> 100 * b + 99"
    "400 * c \<le> y - 1601" "y - 1601 \<le> 400 * c + 399"
    by (simp_all add: a_b_c_def)
  have 2: "400 * day_from_year y = 146000 * (y - 1970) + 400 * a - 400 * b + 400 * c"
    by (simp add: day_from_year_def a_b_c_def)
  have "100 * y - 197200 \<le> 400 * a" "400 * b \<le> 4 * y - 7604" "y - 2000 \<le> 400 * c"
    using 1 by simp_all
  with 2 show "146097 * (y - 1970) - 506 \<le> 400 * day_from_year y"
    by (simp add: algebra_simps)
  have "400 * a \<le> 100 * y - 196900" "4 * y - 8000 \<le> 400 * b" "400 * c \<le> y - 1601"
    using 1 by simp_all
  with 2 show "400 * day_from_year y \<le> 146097 * (y - 1970) + 589"
    by (simp add: algebra_simps)
qed

lemma year_from_day:
  "day_from_year (year_from_day d) \<le> d" "d < day_from_year (year_from_day d + 1)"
proof -
  define q where "q = (400 * d) div 146097"
  have q: "146097 * q \<le> 400 * d" "400 * d < 146097 * q + 146097"
    by (simp_all add: q_def)
  have b: "146097 * (q + k) - 506 \<le> 400 * day_from_year (1970 + q + k)"
    "400 * day_from_year (1970 + q + k) \<le> 146097 * (q + k) + 589" for k
    using day_from_year_bounds [of "1970 + q + k"] by simp_all
  have "day_from_year (1970 + q - 1) \<le> d"
    using b [of "- 1"] q by (simp add: algebra_simps)
  moreover have "d < day_from_year (1970 + q + 1 + 1)"
    using b [of 2] q by (simp add: algebra_simps)
  ultimately show "day_from_year (year_from_day d) \<le> d" "d < day_from_year (year_from_day d + 1)"
    by (auto simp: year_from_day_def Let_def add.commute add.left_commute simp flip: q_def)
qed

lemma day_from_year_mono: "y < z \<Longrightarrow> day_from_year y + 365 \<le> day_from_year z"
proof (induction "nat (z - y - 1)" arbitrary: z)
  case 0
  then have "z = y + 1" by simp
  then show ?case by (simp add: day_from_year_Suc)
next
  case (Suc n)
  then have "day_from_year y + 365 \<le> day_from_year (z - 1)"
    by simp
  also have "\<dots> \<le> day_from_year z"
    using day_from_year_Suc [of "z - 1"] by simp
  finally show ?case .
qed

lemma year_from_day_unique:
  assumes "day_from_year y \<le> d" and "d < day_from_year (y + 1)"
  shows "year_from_day d = y"
proof -
  have "\<not> year_from_day d < y"
    using year_from_day(2) [of d] assms(1) day_from_year_mono [of "year_from_day d + 1" y]
    by (cases "year_from_day d + 1 = y") auto
  moreover have "\<not> y < year_from_day d"
    using year_from_day(1) [of d] assms(2) day_from_year_mono [of "y + 1" "year_from_day d"]
    by (cases "y + 1 = year_from_day d") auto
  ultimately show ?thesis by simp
qed

lemma month_of_yday:
  assumes "0 \<le> k" and "k < (if leap then 366 else 365)"
  shows "0 \<le> month_of_yday leap k" "month_of_yday leap k \<le> 11"
    "days_before_month leap (month_of_yday leap k) \<le> k"
    "k < days_before_month leap (month_of_yday leap k + 1)"
  using assms
  by (simp_all add: month_of_yday_def days_before_month_def Let_def split: if_splits)

lemma month_cases:
  assumes "0 \<le> (m::int)" and "m \<le> 11"
  shows "m \<in> {0, 1, 2, 3, 4, 5, 6, 7, 8, 9, 10, 11}"
  using assms by simp presburger

lemma month_of_yday_inverse:
  assumes "0 \<le> m" and "m \<le> 11" and "days_before_month leap m \<le> k"
    and "k < days_before_month leap (m + 1)"
  shows "month_of_yday leap k = m"
  using month_cases [OF assms(1,2)] assms(3,4)
  by (cases leap) (auto simp: month_of_yday_def days_before_month_def Let_def)

lemma days_before_month_bounds:
  "0 \<le> m \<Longrightarrow> m \<le> 12 \<Longrightarrow> 0 \<le> days_before_month leap m"
  "0 \<le> m \<Longrightarrow> m \<le> 12 \<Longrightarrow> days_before_month leap m \<le> (if leap then 366 else 365)"
  by (simp_all add: days_before_month_def)

lemma civil_of_make_day:
  assumes "valid_civil y m d"
  shows "civil_of_day (make_day y m d) = (y, m, d)"
proof -
  let ?l = "leap_year y"
  define k where "k = days_before_month ?l m + d - 1"
  from assms have m: "0 \<le> m" "m \<le> 11" and d: "1 \<le> d" "d \<le> days_in_month y m"
    by (simp_all add: valid_civil_def)
  then have k: "days_before_month ?l m \<le> k" "k < days_before_month ?l (m + 1)"
    by (simp_all add: k_def days_in_month_def)
  have "days_before_month ?l (m + 1) \<le> (if ?l then 366 else 365)"
    using m by (intro days_before_month_bounds) simp_all
  moreover have "0 \<le> days_before_month ?l m"
    using m by (intro days_before_month_bounds) simp_all
  ultimately have "year_from_day (day_from_year y + k) = y"
    using k by (intro year_from_day_unique) (simp_all add: day_from_year_Suc)
  moreover have "make_day y m d = day_from_year y + k"
    by (simp add: make_day_def k_def)
  moreover have "month_of_yday ?l k = m"
    using m k by (rule month_of_yday_inverse)
  ultimately show ?thesis
    by (simp add: civil_of_day_def Let_def k_def)
qed

lemma make_day_of_civil:
  assumes "civil_of_day n = (y, m, d)"
  shows "valid_civil y m d" and "make_day y m d = n"
proof -
  define k where "k = n - day_from_year (year_from_day n)"
  from assms have y: "y = year_from_day n"
    and m: "m = month_of_yday (leap_year y) k" and d: "d = k - days_before_month (leap_year y) m + 1"
    by (auto simp: civil_of_day_def Let_def k_def)
  have "0 \<le> k" "k < (if leap_year y then 366 else 365)"
    using year_from_day [of n] by (simp_all add: k_def y day_from_year_Suc)
  note mb = month_of_yday [OF this]
  then show "valid_civil y m d"
    by (simp add: valid_civil_def days_in_month_def m d)
  show "make_day y m d = n"
    by (simp add: make_day_def d k_def y)
qed

lemma days_in_month_le: "0 \<le> m \<Longrightarrow> m \<le> 11 \<Longrightarrow> days_in_month y m \<le> 31"
  by (simp add: days_in_month_def days_before_month_def)

subsection \<open>Reading back what was written\<close>

lemma take_digits_app:
  "length s = n \<Longrightarrow> \<forall>c \<in> set s. is_digit c \<Longrightarrow> take_digits n (s @ r) = Some (digits_val s, r)"
  by (simp add: take_digits_def list_all_iff)

lemma take_digits_pad [simp]:
  "n < 10 ^ w \<Longrightarrow> 0 < w \<Longrightarrow> take_digits w (pad_dec w n @ r) = Some (n, r)"
  by (simp add: take_digits_app length_pad_dec pad_dec_digits)

lemma take_char_Cons [simp]: "take_char c (c # r) = Some r"
  by (simp add: take_char_def)

lemma parse_two_pad [simp]: "n < 100 \<Longrightarrow> parse_two c (c # pad_dec 2 n @ r) = Some (n, r)"
  by (simp add: parse_two_def)

lemma pad_dec_hd:
  assumes "n < 10 ^ w" and "0 < w"
  obtains c r where "pad_dec w n = c # r" and "is_digit c"
  using length_pad_dec [OF assms] pad_dec_digits [of w n] assms(2)
  by (cases "pad_dec w n") auto

lemma parse_year_text:
  assumes "\<bar>y\<bar> < 1000000"
  shows "parse_year (year_text y @ r) = Some (y, r)"
proof (cases "0 \<le> y \<and> y \<le> 9999")
  case True
  then obtain c q where c: "pad_dec 4 (nat y) = c # q" "is_digit c"
    using pad_dec_hd [of "nat y" 4] by force
  then have "c \<noteq> CHR ''+''" "c \<noteq> CHR ''-''"
    by (auto simp: is_digit_def)
  with True c have "parse_year (year_text y @ r)
      = map_option (\<lambda>(v, q). (int v, q)) (take_digits 4 (pad_dec 4 (nat y) @ r))"
    by (simp add: parse_year_def year_text_def)
  also have "\<dots> = Some (y, r)"
  proof -
    have "nat y < 10 ^ 4"
      using True by (simp add: nat_less_iff)
    from take_digits_pad [OF this] True show ?thesis by simp
  qed
  finally show ?thesis .
next
  case False
  have "nat \<bar>y\<bar> < 10 ^ 6"
    using assms by simp
  from take_digits_pad [OF this] False show ?thesis
    by (auto simp: parse_year_def year_text_def)
qed

lemma parse_fraction_pad [simp]:
  assumes "n < 1000"
  shows "parse_fraction (CHR ''.'' # pad_dec 3 n @ ''Z'') = Some (n, ''Z'')"
proof -
  have Z: "\<not> is_digit CHR ''Z''"
    by (simp add: is_digit_def)
  have tw: "takeWhile is_digit (pad_dec 3 n @ ''Z'') = pad_dec 3 n"
    "dropWhile is_digit (pad_dec 3 n @ ''Z'') = ''Z''"
    using pad_dec_digits [of 3 n] Z by (simp_all add: takeWhile_append2 dropWhile_append2)
  have len: "length (pad_dec 3 n) = 3"
    using assms by (simp add: length_pad_dec)
  then have "pad_dec 3 n \<noteq> []"
    by auto
  then show ?thesis
    using len by (simp add: parse_fraction_def tw Let_def)
qed

lemma clock_parts:
  fixes r :: int
  assumes "0 \<le> r" and "r < ms_per_day"
  shows "((r div 3600000 * 60 + r div 60000 mod 60) * 60 + r div 1000 mod 60) * 1000 + r mod 1000 = r"
    "r div 3600000 < 24"
proof -
  define a b c where "a = r div 1000" "b = a div 60" "c = b div 60"
  have "b = r div 60000" "c = r div 3600000"
    by (simp_all add: a_b_c_def zdiv_zmult2_eq [symmetric])
  moreover have "(c * 60 + b mod 60) = b" "b * 60 + a mod 60 = a" "a * 1000 + r mod 1000 = r"
    by (simp_all add: a_b_c_def)
  ultimately show "((r div 3600000 * 60 + r div 60000 mod 60) * 60 + r div 1000 mod 60) * 1000
      + r mod 1000 = r"
    by (metis a_b_c_def(1))
  show "r div 3600000 < 24"
    using assms by (simp add: ms_per_day_def)
qed

lemma nat_less_numeral: "x < (numeral k :: int) \<Longrightarrow> nat x < numeral k"
  using nat_less_eq_zless [of x "numeral k"] by (cases "0 \<le> x") simp_all

lemma parse_clock_text:
  assumes "0 \<le> r" and "r < ms_per_day"
  shows "parse_clock (pad_dec 2 (nat (r div 3600000)) @ CHR '':'' # pad_dec 2 (nat (r div 60000 mod 60))
      @ CHR '':'' # pad_dec 2 (nat (r div 1000 mod 60)) @ CHR ''.'' # pad_dec 3 (nat (r mod 1000)) @ ''Z'')
    = Some (r, ''Z'')"
proof -
  note parts = clock_parts [OF assms]
  have nn: "0 \<le> r div 3600000" "0 \<le> r div 60000 mod 60" "0 \<le> r div 1000 mod 60" "0 \<le> r mod 1000"
    using assms(1) by simp_all
  define h mi se ms where "h = nat (r div 3600000)" "mi = nat (r div 60000 mod 60)"
    "se = nat (r div 1000 mod 60)" "ms = nat (r mod 1000)"
  have lt: "h < 24" "mi < 60" "se < 60" "ms < 1000"
    unfolding h_mi_se_ms_def
    by (intro nat_less_numeral parts(2) pos_mod_bound, simp)+
  have "int h = r div 3600000" "int mi = r div 60000 mod 60" "int se = r div 1000 mod 60"
    "int ms = r mod 1000"
    unfolding h_mi_se_ms_def by (rule int_nat_eq [THEN trans], simp only: nn if_True)+
  then have "int (((h * 60 + mi) * 60 + se) * 1000 + ms) = r"
    using parts(1) by (simp only: of_nat_add of_nat_mult of_nat_numeral)
  moreover have "h < 10 ^ 2" "mi < 100" "se < 100" "h \<le> 23" "mi \<le> 59" "se \<le> 59"
    using lt by simp_all
  ultimately show ?thesis
    using lt(4) by (simp add: parse_clock_def del: of_nat_add of_nat_mult flip: h_mi_se_ms_def)
qed

lemma civil_year_bound:
  assumes "date_in_range t" and "civil_of_day (t div ms_per_day) = (y, m, d)"
  shows "\<bar>y\<bar> < 1000000"
proof -
  have t: "- 100000000 \<le> t div ms_per_day" "t div ms_per_day \<le> 100000000"
    using assms(1) by (auto simp: date_in_range_def ms_per_day_def)
  have y: "y = year_from_day (t div ms_per_day)"
    using assms(2) by (simp add: civil_of_day_def Let_def)
  note b = year_from_day [of "t div ms_per_day", folded y]
    day_from_year_bounds [of y] day_from_year_bounds [of "y + 1"]
  from b t have "146097 * (y - 1970) - 506 \<le> 40000000000"
    by linarith
  moreover from b t have "- 40000000000 \<le> 146097 * (y + 1 - 1970) + 589"
    by linarith
  ultimately show ?thesis
    by simp
qed

theorem date_parse_toISOString:
  assumes "date_in_range t"
  shows "date_parse (toISOString t) = Some t"
proof -
  obtain y m d where c: "civil_of_day (t div ms_per_day) = (y, m, d)"
    by (metis prod_cases3)
  note cd = make_day_of_civil [OF c]
  define r where "r = t mod ms_per_day"
  have r: "0 \<le> r" "r < ms_per_day" "t = t div ms_per_day * ms_per_day + r"
    by (simp_all add: r_def ms_per_day_def)
  have md: "nat (m + 1) < 100" "1 \<le> nat (m + 1)" "nat (m + 1) \<le> 12" "int (nat (m + 1)) - 1 = m"
    "nat d < 100" "1 \<le> nat d" "nat d \<le> 31" "int (nat d) = d"
    using cd(1) days_in_month_le [of m y] by (auto simp: valid_civil_def)
  have z: "parse_zone ''Z'' = Some 0"
    by (simp add: parse_zone_def)
  show ?thesis
    using parse_year_text [OF civil_year_bound [OF assms c]] md parse_clock_text [OF r(1,2)] r(3)
      cd(2) assms z
    by (simp add: date_parse_def toISOString_def c r_def [symmetric] Let_def)
qed

end
