(* ===== verification/Offline_Types.thy ===== *)
theory Offline_Types
  imports Js_Json Iso_Time
begin

text \<open>
  The data model of numbering in \<open>packages/offline-sync/src\<close>: \<open>errors.ts\<close> (the error classes as one
  datatype), the numbering interfaces of \<open>types.ts\<close> as records, and the part of the state of
  \<open>InMemoryOfflineSyncStore\<close> that numbering uses. An optional or nullable member is an \<open>option\<close>.

  \<open>env\<close> holds what is not code of the repository: the SHA-256 hex digest of \<open>node:crypto\<close>, the order
  \<open>String.prototype.localeCompare\<close> of the host's locale and of the locale \<open>en\<close>, and \<open>randomUUID\<close>, the
  stream of identifiers drawn so far being counted by \<open>st_uuids\<close>.
\<close>

subsection \<open>Errors\<close>

datatype offline_code =
    OFFLINE_SYNC_UNAUTHENTICATED
  | OFFLINE_SYNC_FORBIDDEN
  | OFFLINE_SYNC_CONTEXT_OVERRIDE
  | OFFLINE_SYNC_INVALID_INPUT
  | OFFLINE_SYNC_RANGE_IDEMPOTENCY_CONFLICT
  | OFFLINE_SYNC_RANGE_CONFLICT
  | OFFLINE_SYNC_RANGE_STATE
  | OFFLINE_SYNC_RANGE_NOT_FOUND
  | OFFLINE_SYNC_RANGE_UNAVAILABLE
  | OFFLINE_SYNC_RESERVATION_NOT_FOUND
  | OFFLINE_SYNC_RECONCILIATION_IDEMPOTENCY_CONFLICT
  | OFFLINE_SYNC_RESERVATION_STATE
  | OFFLINE_SYNC_ACTIVE_RESERVATION
  | OFFLINE_SYNC_NUMBERING_NO_COVERAGE
  | OFFLINE_SYNC_NUMBERING_AMBIGUOUS
  | OFFLINE_SYNC_NUMBERING_EXPIRED
  | OFFLINE_SYNC_NUMBERING_ALREADY_APPLIED
  | OFFLINE_SYNC_QUEUE_ITEM_NOT_FOUND
  | OFFLINE_SYNC_QUEUE_ID_REUSED
  | OFFLINE_SYNC_CONFLICT_NOT_FOUND
  | OFFLINE_SYNC_CONFLICT_STATE
  | OFFLINE_SYNC_CONFLICT_RESOLUTION
  | OFFLINE_SYNC_BATCH_CONFLICT
  | OFFLINE_SYNC_BATCH_SEQUENCE
  | OFFLINE_SYNC_ITEM_INTEGRITY
  | OFFLINE_SYNC_INTEGRITY_REJECTION_NOT_FOUND
  | OFFLINE_SYNC_BATCH_in_progress

datatype range_unavailable_reason = Inactive | Exhausted | Insufficient_capacity

text \<open>
  \<open>DomainError\<close> is whatever a host port throws: its own \<open>code\<close>, the status when it is an
  \<open>HttpException\<close>, its message and its \<open>context\<close>.
\<close>

datatype offline_error =
    OfflineSyncError offline_code nat string bool "json option"
  | OfflineSyncNumberingOutcome offline_code int "string option"
  | OfflineSyncRangeUnavailableError range_unavailable_reason string
  | OfflineSyncReservationReplayError
  | OfflineSyncConfigurationError string
  | UnprocessableEntityException string
  | TypeError
  | RangeError
  | DomainError "string option" "nat option" string "json option"

definition error_status :: "offline_error \<Rightarrow> nat option" where
  "error_status e = (case e of
     OfflineSyncError c st m rt ctx \<Rightarrow> Some st
   | OfflineSyncNumberingOutcome c n r \<Rightarrow> Some 409
   | OfflineSyncRangeUnavailableError r m \<Rightarrow> Some 409
   | OfflineSyncReservationReplayError \<Rightarrow> Some 409
   | OfflineSyncConfigurationError opt \<Rightarrow> None
   | UnprocessableEntityException m \<Rightarrow> Some 422
   | TypeError \<Rightarrow> None
   | RangeError \<Rightarrow> None
   | DomainError c st m ctx \<Rightarrow> st)"

text \<open>\<open>new OfflineSyncError(code, status, message)\<close>: not retryable, no context.\<close>

abbreviation syncError :: "offline_code \<Rightarrow> nat \<Rightarrow> string \<Rightarrow> offline_error" where
  "syncError c st m \<equiv> OfflineSyncError c st m False None"

abbreviation invalidInput :: "string \<Rightarrow> offline_error" where
  "invalidInput m \<equiv> syncError OFFLINE_SYNC_INVALID_INPUT 400 m"

subsection \<open>Environment and scope\<close>

record env =
  env_sha256 :: "string \<Rightarrow> string"
  env_collate :: "string \<Rightarrow> string \<Rightarrow> bool"
  env_collate_en :: "string \<Rightarrow> string \<Rightarrow> bool"
  env_randomUUID :: "nat \<Rightarrow> string"

record scope =
  sc_tenantId :: string
  sc_actorId :: string
  sc_agentId :: "string option"
  sc_ctg9 :: bool

text \<open>\<open>scope.agentId ?? scope.actorId\<close>.\<close>

definition scopeAgent :: "scope \<Rightarrow> string" where
  "scopeAgent sc = (case sc_agentId sc of Some a \<Rightarrow> a | None \<Rightarrow> sc_actorId sc)"

subsection \<open>Numbering ranges and reservations\<close>

datatype range_status = Range_active | Range_exhausted | Range_cancelled

record numbering_range =
  rng_id :: string
  rng_tenantId :: string
  rng_orgUnitId :: string
  rng_entityType :: string
  rng_series :: string
  rng_startNumber :: int
  rng_endNumber :: int
  rng_nextNumber :: int
  rng_status :: range_status
  rng_consumerAttributes :: "json option"
  rng_createdBy :: "string option"
  rng_createdAt :: "string option"
  rng_updatedAt :: "string option"
  rng_cancelledBy :: "string option"
  rng_cancellationReason :: "string option"
  rng_cancelledAt :: "string option"

record create_range_input =
  cri_orgUnitId :: string
  cri_entityType :: string
  cri_series :: string
  cri_startNumber :: int
  cri_endNumber :: int
  cri_idempotencyKey :: "string option"
  cri_consumerAttributes :: "json option"

record list_ranges_input =
  lri_orgUnitId :: "string option"
  lri_entityType :: "string option"
  lri_series :: "string option"
  lri_status :: "range_status option"
  lri_limit :: "int option"
  lri_cursor :: "string option"

datatype reservation_status = Reserved | Consumed | Expired | Cancelled | Blocked

definition reservation_status_text :: "reservation_status \<Rightarrow> string" where
  "reservation_status_text s = (case s of Reserved \<Rightarrow> ''reserved'' | Consumed \<Rightarrow> ''consumed''
     | Expired \<Rightarrow> ''expired'' | Cancelled \<Rightarrow> ''cancelled'' | Blocked \<Rightarrow> ''blocked'')"

record reservation =
  res_reservationId :: string
  res_rangeId :: string
  res_tenantId :: string
  res_orgUnitId :: string
  res_entityType :: string
  res_series :: string
  res_agentId :: string
  res_deviceId :: string
  res_shiftId :: "string option"
  res_startNumber :: int
  res_endNumber :: int
  res_nextNumber :: int
  res_validUntil :: string
  res_status :: reservation_status

record reserve_input =
  rni_orgUnitId :: string
  rni_deviceId :: string
  rni_shiftId :: "string option"
  rni_entityType :: string
  rni_requestedSize :: int
  rni_rangeId :: "string option"
  rni_series :: "string option"
  rni_validUntil :: "string option"
  rni_idempotencyKey :: "string option"
  rni_agentId :: "string option"

subsection \<open>Consumption and reconciliation\<close>

datatype consumption_status = Available | Claimed_locally | Applied | Num_blocked | Num_expired

record consumption_entry =
  ce_number :: int
  ce_status :: consumption_status
  ce_serverEntityId :: "string option"
  ce_finalizedAt :: "string option"

record consumption_result =
  cr_reservationId :: string
  cr_status :: reservation_status
  cr_consumption :: "consumption_entry list"

record reconcile_input =
  rci_idempotencyKey :: "string option"
  rci_claimedNumbers :: "int list option"
  rci_userRef :: "string option"

record reconcile_result = consumption_result +
  rr_reconciliationId :: string
  rr_missingOnServer :: "int list"
  rr_unexpectedOnServer :: "int list"

record reconciliation_record =
  rec_reconciliationId :: string
  rec_tenantId :: string
  rec_reservationId :: string
  rec_actorId :: string
  rec_createdAt :: string
  rec_claimedNumbers :: "int list"
  rec_userRef :: "string option"
  rec_idempotencyKey :: "string option"
  rec_result :: reconcile_result

record list_reconciliations_input =
  lci_reservationId :: string
  lci_limit :: "int option"
  lci_cursor :: "string option"

subsection \<open>The numbering state of the store\<close>

datatype origin = E6 | Ctg9

record numbering_store =
  st_rangeCreationReceipts :: "(string, string \<times> numbering_range) jsmap"
  st_ranges :: "(string, numbering_range) jsmap"
  st_reservations :: "(string, reservation) jsmap"
  st_reservationOrigins :: "(string, origin) jsmap"
  st_reservationKeys :: "(string, string \<times> string) jsmap"
  st_consumption :: "(string, (int, consumption_entry) jsmap) jsmap"
  st_reconciliations :: "(string, string \<times> reconciliation_record) jsmap"
  st_uuids :: nat

text \<open>\<open>private key(tenantId, id)\<close>, the key of every tenant-scoped map.\<close>

definition tkey :: "string \<Rightarrow> string \<Rightarrow> string" where
  "tkey tenantId i = tenantId @ '':'' @ i"

text \<open>The next \<open>randomUUID()\<close>.\<close>

definition drawUUID :: "env \<Rightarrow> 'a numbering_store_scheme \<Rightarrow> string \<times> 'a numbering_store_scheme" where
  "drawUUID E s = (env_randomUUID E (st_uuids s), s\<lparr>st_uuids := Suc (st_uuids s)\<rparr>)"

subsection \<open>Keys\<close>

lemma tkey_same_tenant [simp]: "tkey t i = tkey t j \<longleftrightarrow> i = j"
  by (simp add: tkey_def)

text \<open>Keys separate tenants whose identifiers hold no colon.\<close>

lemma tkey_inject:
  assumes "CHR '':'' \<notin> set t" and "CHR '':'' \<notin> set u"
  shows "tkey t i = tkey u j \<longleftrightarrow> t = u \<and> i = j"
proof
  assume "tkey t i = tkey u j"
  then have "takeWhile (\<lambda>c. c \<noteq> CHR '':'') (tkey t i) = takeWhile (\<lambda>c. c \<noteq> CHR '':'') (tkey u j)"
    by simp
  moreover have "takeWhile (\<lambda>c. c \<noteq> CHR '':'') (tkey v k) = v" if "CHR '':'' \<notin> set v" for v k
    using that by (auto simp: tkey_def takeWhile_tail)
  ultimately have "t = u"
    using assms by metis
  then show "t = u \<and> i = j"
    using \<open>tkey t i = tkey u j\<close> by simp
qed simp

end
