(* ===== verification/Offline_Payload.thy ===== *)
theory Offline_Payload
  imports Offline_Types
begin

text \<open>
  Canonical texts and digests: \<open>payload-integrity.ts\<close> (the canonical JSON a payload hash is taken of),
  \<open>transport.ts\<close> (\<open>stableStringify\<close> and the fingerprints of a batch request),
  \<open>boundedConsumerAttributes\<close> of \<open>stynx-context.ts\<close> and \<open>canonicalImportJson\<close>/\<open>importDigest\<close> of
  \<open>import-validation.ts\<close>. The values are JSON trees, so what the code refuses of a JavaScript object
  beyond JSON (symbols, accessors, cycles, other prototypes) does not arise; what remains to be refused
  is text that is not lossless UTF-8.

  The main result is that the canonical text determines the payload up to the order of object members,
  and that the order does not matter; it is shown in \<open>Payload_Canon\<close>.
\<close>

subsection \<open>Canonical payloads\<close>

definition invalidPayload :: offline_error where
  "invalidPayload = invalidInput ''Payload must contain only unambiguous JSON values.''"

definition canonical_text :: "string \<Rightarrow> string option" where
  "canonical_text s = (if utf8_lossless s then Some (json_quote s) else None)"

definition option_all :: "'a option list \<Rightarrow> 'a list option" where
  "option_all xs = (if None \<in> set xs then None else Some (map the xs))"

text \<open>\<open>encode\<close>, with \<open>None\<close> where \<open>invalid()\<close> throws.\<close>

definition canonical_member :: "string \<times> string option \<Rightarrow> string option" where
  "canonical_member e = (case (canonical_text (fst e), snd e) of
     (Some k, Some v) \<Rightarrow> Some (k @ '':'' @ v)
   | _ \<Rightarrow> None)"

primrec canonical_encode :: "json \<Rightarrow> string option" where
  "canonical_encode JNull = Some ''null''"
| "canonical_encode (JBool b) = Some (if b then ''true'' else ''false'')"
| "canonical_encode (JNum n) = Some (dec_int n)"
| "canonical_encode (JStr s) = canonical_text s"
| "canonical_encode (JArr xs) =
     map_option (\<lambda>ts. ''['' @ join_comma ts @ '']'') (option_all (map canonical_encode xs))"
| "canonical_encode (JObj es) =
     map_option (\<lambda>ts. ''{'' @ join_comma ts @ ''}'')
       (option_all (map canonical_member
         (sort_key (\<lambda>e. utf16_units (fst e)) (map (map_prod id canonical_encode) es))))"

fun isObject :: "json \<Rightarrow> bool" where
  "isObject (JObj es) = True"
| "isObject _ = False"

definition canonicalOfflineSyncPayload :: "json \<Rightarrow> offline_error + string" where
  "canonicalOfflineSyncPayload v =
     (if isObject v then require invalidPayload (canonical_encode v) else Inl invalidPayload)"

definition canonicalOfflineSyncPayloadHash :: "env \<Rightarrow> json \<Rightarrow> offline_error + string" where
  "canonicalOfflineSyncPayloadHash E v =
     bindE (canonicalOfflineSyncPayload v) (\<lambda>t. Inr (''sha256:'' @ env_sha256 E t))"

text \<open>\<open>/^sha256:[0-9a-f]{64}$/u\<close>.\<close>

definition canonicalPayloadHash :: "string \<Rightarrow> bool" where
  "canonicalPayloadHash h \<longleftrightarrow> prefix ''sha256:'' h \<and> length h = 71
     \<and> list_all (\<lambda>c. is_digit c \<or> (97 \<le> (of_char c :: nat) \<and> (of_char c :: nat) \<le> 102)) (drop 7 h)"

text \<open>
  \<open>verifyOfflineSyncPayloadHash\<close>: \<open>port\<close> is the optional host port, applied to the item and its context
  already; it may throw, and its result may be text that is no digest.
\<close>

definition verifyOfflineSyncPayloadHash ::
  "env \<Rightarrow> string \<Rightarrow> json \<Rightarrow> (offline_error + string) option \<Rightarrow> offline_error + bool" where
  "verifyOfflineSyncPayloadHash E payloadHash payloadJson port =
     (if \<not> canonicalPayloadHash payloadHash then Inr False
      else bindE (case port of Some h \<Rightarrow> h | None \<Rightarrow> canonicalOfflineSyncPayloadHash E payloadJson)
        (\<lambda>computed. bindE
          (throwIf (\<not> canonicalPayloadHash computed) (OfflineSyncConfigurationError ''payloadHashPort''))
          (\<lambda>_. Inr (computed = payloadHash))))"

text \<open>\<open>canonicalImportJson\<close> takes the text of \<open>{ value }\<close> without its first nine and last characters.\<close>

definition canonicalImportJson :: "json \<Rightarrow> offline_error + string" where
  "canonicalImportJson v =
     bindE (canonicalOfflineSyncPayload (JObj [(''value'', v)])) (\<lambda>t. Inr (butlast (drop 9 t)))"

definition importDigest :: "env \<Rightarrow> json \<Rightarrow> offline_error + string" where
  "importDigest E v = bindE (canonicalImportJson v) (\<lambda>t. Inr (''sha256:'' @ env_sha256 E t))"

subsection \<open>Stable text and transport fingerprints\<close>

text \<open>\<open>key.replace(/"/g, '\\"')\<close>.\<close>

definition escape_quotes :: "string \<Rightarrow> string" where
  "escape_quotes k = concat (map (\<lambda>c. if c = CHR 0x22 then [CHR 0x5C, CHR 0x22] else [c]) k)"

primrec stableStringify :: "env \<Rightarrow> json \<Rightarrow> string" where
  "stableStringify E JNull = ''null''"
| "stableStringify E (JBool b) = (if b then ''true'' else ''false'')"
| "stableStringify E (JNum n) = dec_int n"
| "stableStringify E (JStr s) = json_quote s"
| "stableStringify E (JArr xs) = ''['' @ join_comma (map (stableStringify E) xs) @ '']''"
| "stableStringify E (JObj es) = ''{'' @ join_comma
     (map (\<lambda>(k, t). CHR 0x22 # escape_quotes k @ [CHR 0x22] @ '':'' @ t)
       (sort_by (\<lambda>a b. env_collate E (fst a) (fst b)) (map (map_prod id (stableStringify E)) es))) @ ''}''"

subsection \<open>Consumer attributes\<close>

definition OFFLINE_SYNC_CONSUMER_ATTRIBUTES_MAX_BYTES :: nat where
  "OFFLINE_SYNC_CONSUMER_ATTRIBUTES_MAX_BYTES = 4096"

definition boundedConsumerAttributes :: "json option \<Rightarrow> offline_error + json option" where
  "boundedConsumerAttributes v = (case v of
     None \<Rightarrow> Inr None
   | Some a \<Rightarrow>
      if \<not> isObject a \<or> length (JSON_stringify a) > OFFLINE_SYNC_CONSUMER_ATTRIBUTES_MAX_BYTES
      then Inl (invalidInput ''consumerAttributes must be a JSON object of at most 4096 bytes.'')
      else Inr (Some a))"

text \<open>\<open>JSON.parse\<close> of a canonical text: the value with the members of its objects in canonical order.\<close>

primrec json_canon :: "json \<Rightarrow> json" where
  "json_canon JNull = JNull"
| "json_canon (JBool b) = JBool b"
| "json_canon (JNum n) = JNum n"
| "json_canon (JStr s) = JStr s"
| "json_canon (JArr xs) = JArr (map json_canon xs)"
| "json_canon (JObj es) =
     JObj (sort_key (\<lambda>e. utf16_units (fst e)) (map (map_prod id json_canon) es))"

end
