(* ===== verification/Offline_Ranges.thy ===== *)
theory Offline_Ranges
  imports Offline_Payload
begin

text \<open>
  Administration of numbering ranges: \<open>range-administration.ts\<close> and the range operations of
  \<open>InMemoryOfflineSyncStore\<close> (\<open>seedNumberingRange\<close>, \<open>createNumberingRange\<close>, \<open>getNumberingRange\<close>,
  \<open>listNumberingRanges\<close>, \<open>cancelNumberingRange\<close>). The inputs are records, so the check of the shape of
  the input object has nothing to refuse; \<open>cloneRange\<close> copies an immutable value.

  The operations are polymorphic in the rest of the store's state. An operation that throws leaves the
  state as it was: every throw comes before the first write.
\<close>

subsection \<open>Validation\<close>

definition invalidRange :: offline_error where
  "invalidRange = invalidInput ''Numbering range input is invalid.''"

definition rangeText :: "string \<Rightarrow> nat \<Rightarrow> offline_error + unit" where
  "rangeText value maximum =
     throwIf (js_blank value \<or> js_includes_nul value \<or> length value > maximum \<or> \<not> utf8_lossless value)
       invalidRange"

definition optionalRangeText :: "string option \<Rightarrow> nat \<Rightarrow> offline_error + unit" where
  "optionalRangeText value maximum = (case value of None \<Rightarrow> Inr () | Some v \<Rightarrow> rangeText v maximum)"

text \<open>\<open>/^[0-9a-f]{8}(?:-[0-9a-f]{4}){3}-[0-9a-f]{12}$/iu\<close>.\<close>

definition is_hex :: "char \<Rightarrow> bool" where
  "is_hex c \<longleftrightarrow> is_digit c \<or> (97 \<le> (of_char c :: nat) \<and> (of_char c :: nat) \<le> 102)
     \<or> (65 \<le> (of_char c :: nat) \<and> (of_char c :: nat) \<le> 70)"

definition uuid_text :: "string \<Rightarrow> bool" where
  "uuid_text s \<longleftrightarrow> length s = 36 \<and>
     list_all (\<lambda>(i, c). if i \<in> {8, 13, 18, 23} then c = CHR ''-'' else is_hex c)
       (zip [0 ..< 36] s)"

definition rangeIdentity :: "string \<Rightarrow> offline_error + string" where
  "rangeIdentity value = bindE (throwIf (\<not> uuid_text value) invalidRange)
     (\<lambda>_. Inr (toLowerCase_ascii value))"

text \<open>The members of the request, in the order the object literal has them.\<close>

definition rangeRequest :: "create_range_input \<Rightarrow> (string \<times> json) list" where
  "rangeRequest input =
     [(''orgUnitId'', JStr (cri_orgUnitId input)), (''entityType'', JStr (cri_entityType input)),
      (''series'', JStr (cri_series input)), (''startNumber'', JNum (cri_startNumber input)),
      (''endNumber'', JNum (cri_endNumber input))]
     @ (case cri_consumerAttributes input of None \<Rightarrow> [] | Some a \<Rightarrow> [(''consumerAttributes'', a)])"

definition rangeAttributes :: "json option \<Rightarrow> offline_error + json option" where
  "rangeAttributes attrs = (case attrs of
     None \<Rightarrow> Inr None
   | Some a \<Rightarrow> (case canonicalOfflineSyncPayload a of
       Inl _ \<Rightarrow> Inl invalidRange
     | Inr _ \<Rightarrow> (case boundedConsumerAttributes (Some (json_canon a)) of
         Inl _ \<Rightarrow> Inl invalidRange
       | Inr r \<Rightarrow> Inr r)))"

definition rangeCreation ::
  "env \<Rightarrow> scope \<Rightarrow> create_range_input \<Rightarrow> offline_error + create_range_input \<times> string" where
  "rangeCreation E sc input =
     bindE (rangeText (cri_orgUnitId input) 255) (\<lambda>_.
     bindE (rangeText (cri_entityType input) 100) (\<lambda>_.
     bindE (rangeText (cri_series input) 80) (\<lambda>_.
     bindE (optionalRangeText (cri_idempotencyKey input) 255) (\<lambda>_.
     bindE (throwIf (\<not> isSafeInteger (cri_startNumber input) \<or> \<not> isSafeInteger (cri_endNumber input)
         \<or> \<not> isSafeInteger (cri_endNumber input + 1)
         \<or> cri_startNumber input > cri_endNumber input) invalidRange) (\<lambda>_.
     bindE (rangeAttributes (cri_consumerAttributes input)) (\<lambda>attributes.
     let request = input\<lparr>cri_consumerAttributes := attributes\<rparr> in
     bindE (canonicalOfflineSyncPayloadHash E
         (JObj ((''tenantId'', JStr (sc_tenantId sc)) # rangeRequest request)))
       (\<lambda>fingerprint. Inr (request, fingerprint))))))))"

definition rangeCancellation :: "string option \<Rightarrow> offline_error + string option" where
  "rangeCancellation reason = bindE (optionalRangeText reason 500) (\<lambda>_. Inr reason)"

definition rangeList :: "list_ranges_input \<Rightarrow> offline_error + list_ranges_input \<times> int" where
  "rangeList input =
     bindE (optionalRangeText (lri_orgUnitId input) 255) (\<lambda>_.
     bindE (optionalRangeText (lri_entityType input) 100) (\<lambda>_.
     bindE (optionalRangeText (lri_series input) 80) (\<lambda>_.
     let limit = (case lri_limit input of None \<Rightarrow> 50 | Some l \<Rightarrow> l) in
     bindE (throwIf (\<not> isSafeInteger limit \<or> limit < 1 \<or> limit > 200) invalidRange) (\<lambda>_.
     case lri_cursor input of
       None \<Rightarrow> Inr (input, limit)
     | Some c \<Rightarrow> bindE (rangeIdentity c) (\<lambda>c'. Inr (input\<lparr>lri_cursor := Some c'\<rparr>, limit))))))"

datatype range_conflict_kind = Kind_key | Kind_scope | Kind_state

fun rangeConflict :: "range_conflict_kind \<Rightarrow> offline_error" where
  "rangeConflict Kind_key = syncError OFFLINE_SYNC_RANGE_IDEMPOTENCY_CONFLICT 409
     ''Range creation key was already used with a different request.''"
| "rangeConflict Kind_scope = syncError OFFLINE_SYNC_RANGE_CONFLICT 409
     ''A numbering range already exists for this organizational unit, entity and series.''"
| "rangeConflict Kind_state = syncError OFFLINE_SYNC_RANGE_STATE 409
     ''Only an active numbering range can be cancelled.''"

definition rangeNotFound :: offline_error where
  "rangeNotFound = syncError OFFLINE_SYNC_RANGE_NOT_FOUND 404 ''Numbering range was not found.''"

text \<open>\<open>new Date(now)\<close> with its check; the text is that of \<open>toISOString\<close>.\<close>

definition rangeTimestamp :: "string \<Rightarrow> offline_error + string" where
  "rangeTimestamp now = (case date_parse now of
     None \<Rightarrow> Inl (OfflineSyncConfigurationError ''rangeTimestamp'')
   | Some t \<Rightarrow> Inr (toISOString t))"

subsection \<open>Store operations\<close>

definition seedNumberingRange ::
  "numbering_range \<Rightarrow> 'a numbering_store_scheme \<Rightarrow> 'a numbering_store_scheme" where
  "seedNumberingRange rg s =
     s\<lparr>st_ranges := jset (tkey (rng_tenantId rg) (rng_id rg)) rg (st_ranges s)\<rparr>"

definition sameRangeScope :: "scope \<Rightarrow> create_range_input \<Rightarrow> numbering_range \<Rightarrow> bool" where
  "sameRangeScope sc input rg \<longleftrightarrow>
     rng_tenantId rg = sc_tenantId sc \<and> rng_orgUnitId rg = cri_orgUnitId input
     \<and> rng_entityType rg = cri_entityType input \<and> rng_series rg = cri_series input"

definition newRange :: "scope \<Rightarrow> create_range_input \<Rightarrow> string \<Rightarrow> string \<Rightarrow> numbering_range" where
  "newRange sc input i at = \<lparr>
     rng_id = i, rng_tenantId = sc_tenantId sc, rng_orgUnitId = cri_orgUnitId input,
     rng_entityType = cri_entityType input, rng_series = cri_series input,
     rng_startNumber = cri_startNumber input, rng_endNumber = cri_endNumber input,
     rng_nextNumber = cri_startNumber input, rng_status = Range_active,
     rng_consumerAttributes = cri_consumerAttributes input,
     rng_createdBy = Some (sc_actorId sc), rng_createdAt = Some at, rng_updatedAt = None,
     rng_cancelledBy = None, rng_cancellationReason = None, rng_cancelledAt = None\<rparr>"

definition createNumberingRange ::
  "env \<Rightarrow> scope \<Rightarrow> create_range_input \<Rightarrow> string \<Rightarrow> 'a numbering_store_scheme
   \<Rightarrow> offline_error + numbering_range \<times> 'a numbering_store_scheme" where
  "createNumberingRange E sc original now s =
     bindE (rangeCreation E sc original) (\<lambda>(input, fingerprint).
     let key = map_option (tkey (sc_tenantId sc)) (cri_idempotencyKey input) in
     case Option.bind key (jget (st_rangeCreationReceipts s)) of
       Some (fp, receipt) \<Rightarrow>
         (if fp \<noteq> fingerprint then Inl (rangeConflict Kind_key) else Inr (receipt, s))
     | None \<Rightarrow>
         bindE (throwIf (list_ex (sameRangeScope sc input) (jvalues (st_ranges s)))
           (rangeConflict Kind_scope)) (\<lambda>_.
         bindE (rangeTimestamp now) (\<lambda>at.
         let (i, s1) = drawUUID E s;
             rg = newRange sc input i at;
             s2 = s1\<lparr>st_ranges := jset (tkey (sc_tenantId sc) i) rg (st_ranges s1)\<rparr>;
             s3 = (case key of
                     None \<Rightarrow> s2
                   | Some k \<Rightarrow> s2\<lparr>st_rangeCreationReceipts :=
                       jset k (fingerprint, rg) (st_rangeCreationReceipts s2)\<rparr>)
         in Inr (rg, s3))))"

definition getNumberingRange ::
  "scope \<Rightarrow> string \<Rightarrow> 'a numbering_store_scheme \<Rightarrow> offline_error + numbering_range option" where
  "getNumberingRange sc original s =
     bindE (rangeIdentity original) (\<lambda>i. Inr (jget (st_ranges s) (tkey (sc_tenantId sc) i)))"

definition optMatch :: "'b option \<Rightarrow> 'b \<Rightarrow> bool" where
  "optMatch wanted actual \<longleftrightarrow> (case wanted of None \<Rightarrow> True | Some w \<Rightarrow> w = actual)"

definition rangeSelected :: "scope \<Rightarrow> list_ranges_input \<Rightarrow> numbering_range \<Rightarrow> bool" where
  "rangeSelected sc input rg \<longleftrightarrow>
     rng_tenantId rg = sc_tenantId sc
     \<and> optMatch (lri_orgUnitId input) (rng_orgUnitId rg)
     \<and> optMatch (lri_entityType input) (rng_entityType rg)
     \<and> optMatch (lri_series input) (rng_series rg)
     \<and> optMatch (lri_status input) (rng_status rg)
     \<and> (case lri_cursor input of None \<Rightarrow> True | Some c \<Rightarrow> js_less c (rng_id rg))"

definition listNumberingRanges ::
  "env \<Rightarrow> scope \<Rightarrow> list_ranges_input \<Rightarrow> 'a numbering_store_scheme
   \<Rightarrow> offline_error + numbering_range list \<times> string option" where
  "listNumberingRanges E sc original s =
     bindE (rangeList original) (\<lambda>(input, limit).
     let rows = sort_by (\<lambda>l r. env_collate_en E (rng_id l) (rng_id r))
           (filter (rangeSelected sc input) (jvalues (st_ranges s)));
         items = take (nat limit) rows
     in Inr (items, if length rows > nat limit then Some (rng_id (last items)) else None))"

definition cancelNumberingRange ::
  "scope \<Rightarrow> string \<Rightarrow> string option \<Rightarrow> string \<Rightarrow> 'a numbering_store_scheme
   \<Rightarrow> offline_error + numbering_range \<times> 'a numbering_store_scheme" where
  "cancelNumberingRange sc original originalReason now s =
     bindE (rangeIdentity original) (\<lambda>i.
     bindE (rangeCancellation originalReason) (\<lambda>reason.
     bindE (require rangeNotFound (jget (st_ranges s) (tkey (sc_tenantId sc) i))) (\<lambda>rg.
     if rng_status rg = Range_cancelled then Inr (rg, s)
     else if rng_status rg \<noteq> Range_active then Inl (rangeConflict Kind_state)
     else bindE (rangeTimestamp now) (\<lambda>at.
       let cancelled = rg\<lparr>rng_status := Range_cancelled, rng_cancelledBy := Some (sc_actorId sc),
             rng_cancelledAt := Some at, rng_updatedAt := Some at,
             rng_cancellationReason := (case reason of None \<Rightarrow> rng_cancellationReason rg
                                        | Some r \<Rightarrow> Some r)\<rparr>
       in Inr (cancelled,
            s\<lparr>st_ranges := jset (tkey (sc_tenantId sc) i) cancelled (st_ranges s)\<rparr>)))))"

end
