(* ===== verification/Offline_Numbering.thy ===== *)
theory Offline_Numbering
  imports Offline_Ranges
begin

text \<open>
  Reservations of numbers: \<open>numbering.ts\<close>, \<open>reservation-admission.ts\<close>, the reservation fingerprint and
  \<open>rangeUnavailableReason\<close> of \<open>listing.ts\<close>, \<open>consumption-projection.ts\<close>, \<open>reconciliation.ts\<close>, and the
  reservation operations of \<open>InMemoryOfflineSyncStore\<close>.

  An operation whose throws all come before its first write returns \<open>error + result \<times> state\<close>; one that
  can throw after a write returns the outcome and the state it leaves. The consumption entries of a
  reservation are a map from the number to its entry, in the order of insertion.
\<close>

subsection \<open>Admission\<close>

definition OFFLINE_SYNC_NO_SHIFT :: string where
  "OFFLINE_SYNC_NO_SHIFT = ''stynx:no-shift''"

definition reservationShiftScope :: "string option \<Rightarrow> string option" where
  "reservationShiftScope shift = (if shift = Some OFFLINE_SYNC_NO_SHIFT then None else shift)"

definition activeReservationError :: offline_error where
  "activeReservationError = syncError OFFLINE_SYNC_ACTIVE_RESERVATION 409
     ''An active numbering reservation already exists for this device and shift.''"

definition legacyReservation :: "reservation \<Rightarrow> offline_error + reservation" where
  "legacyReservation r =
     (if res_shiftId r = None \<or> res_status r = Blocked
      then Inl (syncError OFFLINE_SYNC_RESERVATION_STATE 409
        ''This numbering reservation requires a durable operation.'')
      else Inr r)"

definition admissionBlocker ::
  "string \<Rightarrow> string \<Rightarrow> string option \<Rightarrow> string \<Rightarrow> origin \<Rightarrow> string option
   \<Rightarrow> 'a numbering_store_scheme \<Rightarrow> string \<times> reservation \<Rightarrow> bool" where
  "admissionBlocker tenantId deviceId shiftId now orig excludeId s entry \<longleftrightarrow>
     (case entry of (key, existing) \<Rightarrow>
       Some (res_reservationId existing) \<noteq> excludeId
       \<and> res_tenantId existing = tenantId
       \<and> res_deviceId existing = deviceId
       \<and> reservationShiftScope (res_shiftId existing) = reservationShiftScope shiftId
       \<and> (res_status existing = Reserved \<or> res_status existing = Blocked)
       \<and> nan_gt (date_parse (res_validUntil existing)) (date_parse now)
       \<and> (orig = Ctg9 \<or> jget (st_reservationOrigins s) key = Some Ctg9))"

definition assertReservationAdmission ::
  "string \<Rightarrow> string \<Rightarrow> string option \<Rightarrow> string \<Rightarrow> origin \<Rightarrow> string option
   \<Rightarrow> 'a numbering_store_scheme \<Rightarrow> offline_error + unit" where
  "assertReservationAdmission tenantId deviceId shiftId now orig excludeId s =
     throwIf (list_ex (admissionBlocker tenantId deviceId shiftId now orig excludeId s)
       (st_reservations s)) activeReservationError"

subsection \<open>Replay of a reservation request\<close>

definition normalInstant :: "string option \<Rightarrow> string option" where
  "normalInstant value = (case Option.bind value date_parse of
     None \<Rightarrow> value | Some t \<Rightarrow> Some (toISOString t))"

definition opt_json :: "string option \<Rightarrow> json" where
  "opt_json v = (case v of None \<Rightarrow> JNull | Some t \<Rightarrow> JStr t)"

definition reservationFingerprint :: "env \<Rightarrow> scope \<Rightarrow> reserve_input \<Rightarrow> string" where
  "reservationFingerprint E sc input = ''sha256:'' @ env_sha256 E (stableStringify E (JObj (
     [(''agentId'', JStr (scopeAgent sc))]
     @ (case rni_agentId input of None \<Rightarrow> [] | Some a \<Rightarrow> [(''requestedAgentId'', JStr a)])
     @ [(''orgUnitId'', JStr (rni_orgUnitId input)), (''deviceId'', JStr (rni_deviceId input)),
        (''shiftId'', opt_json (rni_shiftId input)), (''entityType'', JStr (rni_entityType input)),
        (''requestedSize'', JNum (rni_requestedSize input)), (''rangeId'', opt_json (rni_rangeId input)),
        (''series'', opt_json (rni_series input)),
        (''validUntil'', opt_json (normalInstant (rni_validUntil input)))])))"

text \<open>
  \<open>replayReservation\<close>: \<open>Inr None\<close> where the code gives \<open>null\<close>, or \<open>undefined\<close> for a key whose reservation
  is not stored; both are falsy where it is called.
\<close>

definition replayReservation ::
  "env \<Rightarrow> scope \<Rightarrow> reserve_input \<Rightarrow> 'a numbering_store_scheme \<Rightarrow> offline_error + reservation option" where
  "replayReservation E sc input s =
     (case Option.bind (rni_idempotencyKey input) (\<lambda>k. jget (st_reservationKeys s) (tkey (sc_tenantId sc) k)) of
        None \<Rightarrow> Inr None
      | Some (fingerprint, reservationId) \<Rightarrow>
          if fingerprint \<noteq> reservationFingerprint E sc input then Inl OfflineSyncReservationReplayError
          else Inr (jget (st_reservations s) (tkey (sc_tenantId sc) reservationId)))"

subsection \<open>Allocation\<close>

definition rangeUnavailableReason :: "numbering_range \<Rightarrow> reserve_input \<Rightarrow> range_unavailable_reason" where
  "rangeUnavailableReason rg input =
     (if rng_status rg = Range_exhausted \<and> rng_orgUnitId rg = rni_orgUnitId input
        \<and> rng_entityType rg = rni_entityType input
      then Exhausted else Inactive)"

definition truthy :: "string option \<Rightarrow> bool" where
  "truthy v \<longleftrightarrow> v \<noteq> None \<and> v \<noteq> Some []"

definition rangeCandidate :: "scope \<Rightarrow> reserve_input \<Rightarrow> numbering_range \<Rightarrow> bool" where
  "rangeCandidate sc input c \<longleftrightarrow>
     rng_tenantId c = sc_tenantId sc \<and>
     (if truthy (rni_rangeId input) then rni_rangeId input = Some (rng_id c)
      else rng_orgUnitId c = rni_orgUnitId input \<and> rng_entityType c = rni_entityType input
        \<and> (if truthy (rni_series input) then rni_series input = Some (rng_series c)
           else rng_status c \<noteq> Range_cancelled))"

definition newReservation ::
  "scope \<Rightarrow> reserve_input \<Rightarrow> numbering_range \<Rightarrow> string \<Rightarrow> string \<Rightarrow> reservation" where
  "newReservation sc input rg i defaultValidUntil = \<lparr>
     res_reservationId = i, res_rangeId = rng_id rg, res_tenantId = sc_tenantId sc,
     res_orgUnitId = rni_orgUnitId input, res_entityType = rni_entityType input,
     res_series = rng_series rg, res_agentId = scopeAgent sc, res_deviceId = rni_deviceId input,
     res_shiftId = rni_shiftId input, res_startNumber = rng_nextNumber rg,
     res_endNumber = rng_nextNumber rg + rni_requestedSize input - 1,
     res_nextNumber = rng_nextNumber rg,
     res_validUntil = (case rni_validUntil input of Some v \<Rightarrow> v | None \<Rightarrow> defaultValidUntil),
     res_status = Reserved\<rparr>"

definition availableEntry :: "int \<Rightarrow> consumption_entry" where
  "availableEntry n =
     \<lparr>ce_number = n, ce_status = Available, ce_serverEntityId = None, ce_finalizedAt = None\<rparr>"

definition newEntries :: "int \<Rightarrow> int \<Rightarrow> (int, consumption_entry) jsmap" where
  "newEntries a b = map (\<lambda>n. (n, availableEntry n)) [a..b]"

text \<open>The writes of \<open>allocateReservation\<close> once the range is chosen and has the capacity.\<close>

definition takeNumbers ::
  "env \<Rightarrow> scope \<Rightarrow> reserve_input \<Rightarrow> string \<Rightarrow> origin \<Rightarrow> numbering_range \<Rightarrow> 'a numbering_store_scheme
   \<Rightarrow> reservation \<times> 'a numbering_store_scheme" where
  "takeNumbers E sc input defaultValidUntil orig rg s =
     (let endNumber = rng_nextNumber rg + rni_requestedSize input - 1;
          s1 = s\<lparr>st_ranges := jset (tkey (sc_tenantId sc) (rng_id rg))
            (rg\<lparr>rng_nextNumber := endNumber + 1,
                rng_status := if endNumber = rng_endNumber rg then Range_exhausted else Range_active\<rparr>)
            (st_ranges s)\<rparr>;
          (i, s2) = drawUUID E s1;
          reservation = newReservation sc input rg i defaultValidUntil;
          k = tkey (sc_tenantId sc) i
      in (reservation,
          s2\<lparr>st_reservations := jset k reservation (st_reservations s2),
             st_reservationOrigins := jset k orig (st_reservationOrigins s2),
             st_reservationKeys := (case rni_idempotencyKey input of
                 None \<Rightarrow> st_reservationKeys s2
               | Some ik \<Rightarrow> jset (tkey (sc_tenantId sc) ik) (reservationFingerprint E sc input, i)
                   (st_reservationKeys s2)),
             st_consumption := jset k (newEntries (rng_nextNumber rg) endNumber) (st_consumption s2)\<rparr>))"

definition allocateReservation ::
  "env \<Rightarrow> scope \<Rightarrow> reserve_input \<Rightarrow> string \<Rightarrow> string \<Rightarrow> origin \<Rightarrow> 'a numbering_store_scheme
   \<Rightarrow> offline_error + reservation \<times> 'a numbering_store_scheme" where
  "allocateReservation E sc input now defaultValidUntil orig s =
     bindE (replayReservation E sc input s) (\<lambda>replay. case replay of
       Some r \<Rightarrow> Inr (r, s)
     | None \<Rightarrow>
       bindE (throwIf (orig = E6 \<and> rni_shiftId input = None) (invalidInput ''shiftId is required.'')) (\<lambda>_.
       bindE (assertReservationAdmission (sc_tenantId sc) (rni_deviceId input) (rni_shiftId input) now
         orig None s) (\<lambda>_.
       bindE (require (syncError OFFLINE_SYNC_RANGE_NOT_FOUND 404
           ''No tenant-scoped numbering range matches this entity and organizational unit.'')
         (List.find (rangeCandidate sc input) (jvalues (st_ranges s)))) (\<lambda>rg.
       bindE (throwIf (rng_status rg \<noteq> Range_active \<or> rng_orgUnitId rg \<noteq> rni_orgUnitId input
           \<or> rng_entityType rg \<noteq> rni_entityType input)
         (OfflineSyncRangeUnavailableError (rangeUnavailableReason rg input)
           ''The selected numbering range is not active for this entity and organizational unit.'')) (\<lambda>_.
       bindE (throwIf (rng_nextNumber rg + rni_requestedSize input - 1 > rng_endNumber rg)
         (OfflineSyncRangeUnavailableError Insufficient_capacity
           ''The selected numbering range has insufficient capacity.'')) (\<lambda>_.
       Inr (takeNumbers E sc input defaultValidUntil orig rg s)))))))"

definition reserveNumbering ::
  "env \<Rightarrow> scope \<Rightarrow> reserve_input \<Rightarrow> string \<Rightarrow> string \<Rightarrow> 'a numbering_store_scheme
   \<Rightarrow> (offline_error + reservation) \<times> 'a numbering_store_scheme" where
  "reserveNumbering E sc input now defaultValidUntil s =
     (case allocateReservation E sc input now defaultValidUntil E6 s of
        Inl e \<Rightarrow> (Inl e, s)
      | Inr (r, s') \<Rightarrow> (legacyReservation r, s'))"

definition reserveDurableNumbering ::
  "env \<Rightarrow> scope \<Rightarrow> reserve_input \<Rightarrow> string \<Rightarrow> string \<Rightarrow> 'a numbering_store_scheme
   \<Rightarrow> (offline_error + reservation) \<times> 'a numbering_store_scheme" where
  "reserveDurableNumbering E sc input now defaultValidUntil s =
     (case allocateReservation E sc input now defaultValidUntil Ctg9 s of
        Inl e \<Rightarrow> (Inl e, s)
      | Inr (r, s') \<Rightarrow> (Inr r, s'))"

definition replayNumberingReservation ::
  "env \<Rightarrow> scope \<Rightarrow> reserve_input \<Rightarrow> 'a numbering_store_scheme \<Rightarrow> offline_error + reservation option" where
  "replayNumberingReservation E sc input s =
     bindE (replayReservation E sc input s) (\<lambda>prior. case prior of
       None \<Rightarrow> Inr None
     | Some r \<Rightarrow> bindE (legacyReservation r) (\<lambda>r'. Inr (Some r')))"

definition replayDurableNumberingReservation ::
  "env \<Rightarrow> scope \<Rightarrow> reserve_input \<Rightarrow> 'a numbering_store_scheme \<Rightarrow> offline_error + reservation option" where
  "replayDurableNumberingReservation E sc input s = replayReservation E sc input s"

subsection \<open>Cancellation\<close>

text \<open>\<open>for (const [number, entry] of entries) if (entry.status === 'available') entries.set(...)\<close>.\<close>

definition finishAvailable ::
  "consumption_status \<Rightarrow> (int, consumption_entry) jsmap \<Rightarrow> (int, consumption_entry) jsmap" where
  "finishAvailable status entries =
     map (\<lambda>(n, e). (n, if ce_status e = Available then e\<lparr>ce_status := status\<rparr> else e)) entries"

definition highestApplied :: "reservation \<Rightarrow> (int, consumption_entry) jsmap \<Rightarrow> int" where
  "highestApplied r entries = foldl max (res_startNumber r - 1)
     (map ce_number (filter (\<lambda>e. ce_status e \<in> {Applied, Claimed_locally}) (jvalues entries)))"

definition returnTail ::
  "string \<Rightarrow> reservation \<Rightarrow> (int, consumption_entry) jsmap \<Rightarrow> (string, numbering_range) jsmap
   \<Rightarrow> (string, numbering_range) jsmap" where
  "returnTail rangeKey r entries ranges = (case jget ranges rangeKey of
     None \<Rightarrow> ranges
   | Some rg \<Rightarrow>
      if rng_nextNumber rg = res_endNumber r + 1 \<and> rng_status rg \<noteq> Range_cancelled
      then jset rangeKey (rg\<lparr>rng_nextNumber := highestApplied r entries + 1,
                           rng_status := Range_active\<rparr>) ranges
      else ranges)"

definition reservationNotFound :: "string \<Rightarrow> offline_error" where
  "reservationNotFound i = syncError OFFLINE_SYNC_RESERVATION_NOT_FOUND 404
     (''Numbering reservation '' @ i @ '' was not found.'')"

definition cancelReservation ::
  "scope \<Rightarrow> string \<Rightarrow> bool \<Rightarrow> 'a numbering_store_scheme
   \<Rightarrow> (offline_error + reservation) \<times> 'a numbering_store_scheme" where
  "cancelReservation sc reservationId durable s =
     (let k = tkey (sc_tenantId sc) reservationId in
      case jget (st_reservations s) k of
        None \<Rightarrow> (Inl (reservationNotFound reservationId), s)
      | Some r \<Rightarrow>
         (case (if durable then Inr r else legacyReservation r) of
            Inl e \<Rightarrow> (Inl e, s)
          | Inr _ \<Rightarrow>
             if res_status r = Cancelled \<and> (durable \<or> sc_ctg9 sc) then (Inr r, s)
             else if res_status r \<noteq> Reserved then
               (Inl (syncError OFFLINE_SYNC_RESERVATION_STATE 409
                 (''Numbering reservation '' @ reservationId @ '' is ''
                  @ reservation_status_text (res_status r) @ ''; expected reserved.'')), s)
             else
               let cancelled = r\<lparr>res_status := Cancelled\<rparr>;
                   s1 = s\<lparr>st_reservations := jset k cancelled (st_reservations s)\<rparr>
               in if durable \<or> sc_ctg9 sc then
                    (case jget (st_consumption s1) k of
                       None \<Rightarrow> (Inl TypeError, s1)
                     | Some entries \<Rightarrow>
                         (Inr cancelled,
                          s1\<lparr>st_ranges := returnTail (tkey (sc_tenantId sc) (res_rangeId r)) r entries
                               (st_ranges s1),
                             st_consumption := jset k (finishAvailable Num_expired entries)
                               (st_consumption s1)\<rparr>))
                  else (Inr cancelled, s1)))"

definition cancelNumberingReservation ::
  "scope \<Rightarrow> string \<Rightarrow> 'a numbering_store_scheme
   \<Rightarrow> (offline_error + reservation) \<times> 'a numbering_store_scheme" where
  "cancelNumberingReservation sc i s =
     (case cancelReservation sc i False s of (r, s') \<Rightarrow> (bindE r legacyReservation, s'))"

definition cancelDurableNumberingReservation ::
  "scope \<Rightarrow> string \<Rightarrow> 'a numbering_store_scheme
   \<Rightarrow> (offline_error + reservation) \<times> 'a numbering_store_scheme" where
  "cancelDurableNumberingReservation sc i s = cancelReservation sc i True s"

subsection \<open>Blocking, closing and settling\<close>

definition transitionReservation ::
  "scope \<Rightarrow> string \<Rightarrow> reservation_status \<Rightarrow> string \<Rightarrow> 'a numbering_store_scheme
   \<Rightarrow> (offline_error + reservation) \<times> 'a numbering_store_scheme" where
  "transitionReservation sc i status now s =
     (let k = tkey (sc_tenantId sc) i in
      case jget (st_reservations s) k of
        None \<Rightarrow> (Inl (syncError OFFLINE_SYNC_RESERVATION_NOT_FOUND 404 ''Reservation was not found.''), s)
      | Some r \<Rightarrow>
         if res_status r = status then (Inr r, s)
         else if res_status r \<notin> {Reserved, Expired} then
           (Inl (syncError OFFLINE_SYNC_RESERVATION_STATE 409
             ''Reservation cannot transition from its current state.''), s)
         else
           (case (if status = Blocked \<and> nan_gt (date_parse (res_validUntil r)) (date_parse now)
                  then assertReservationAdmission (sc_tenantId sc) (res_deviceId r) (res_shiftId r) now
                    (case jget (st_reservationOrigins s) k of Some Ctg9 \<Rightarrow> Ctg9 | _ \<Rightarrow> E6) (Some i) s
                  else Inr ()) of
              Inl e \<Rightarrow> (Inl e, s)
            | Inr _ \<Rightarrow>
               let changed = r\<lparr>res_status := status\<rparr>;
                   s1 = s\<lparr>st_reservations := jset k changed (st_reservations s)\<rparr>
               in (case jget (st_consumption s1) k of
                     None \<Rightarrow> (Inl TypeError, s1)
                   | Some entries \<Rightarrow>
                       (Inr changed, s1\<lparr>st_consumption := jset k
                         (finishAvailable (if status = Blocked then Num_blocked else Num_expired) entries)
                         (st_consumption s1)\<rparr>))))"

definition blockNumberingReservation ::
  "scope \<Rightarrow> string \<Rightarrow> string \<Rightarrow> 'a numbering_store_scheme
   \<Rightarrow> (offline_error + reservation) \<times> 'a numbering_store_scheme" where
  "blockNumberingReservation sc i now s = transitionReservation sc i Blocked now s"

definition closeNumberingReservation ::
  "scope \<Rightarrow> string \<Rightarrow> string \<Rightarrow> 'a numbering_store_scheme
   \<Rightarrow> (offline_error + reservation) \<times> 'a numbering_store_scheme" where
  "closeNumberingReservation sc i now s = transitionReservation sc i Consumed now s"

definition settleNumberingReservation ::
  "scope \<Rightarrow> string \<Rightarrow> string \<Rightarrow> 'a numbering_store_scheme
   \<Rightarrow> (offline_error + reservation) \<times> 'a numbering_store_scheme" where
  "settleNumberingReservation sc i now s = transitionReservation sc i Consumed now s"

subsection \<open>Consumption\<close>

definition invalidReadInstant :: offline_error where
  "invalidReadInstant = invalidInput ''Invalid consumption read instant.''"

text \<open>\<open>wall\<close> is the reading of the host clock that the default of \<open>now\<close> takes.\<close>

definition consumptionReadInstant :: "string \<Rightarrow> string option \<Rightarrow> offline_error + int" where
  "consumptionReadInstant wall now =
     require invalidReadInstant (instantMicroseconds (case now of None \<Rightarrow> wall | Some t \<Rightarrow> t))"

definition readInstant :: "string \<Rightarrow> offline_error + int" where
  "readInstant now = require invalidReadInstant (instantMicroseconds now)"

definition projectionFallback :: "reservation \<Rightarrow> int \<Rightarrow> offline_error + consumption_status" where
  "projectionFallback r observedAt =
     (if res_status r = Blocked then Inr Num_blocked
      else if res_status r \<in> {Expired, Cancelled, Consumed} then Inr Num_expired
      else bindE (readInstant (res_validUntil r)) (\<lambda>until.
        Inr (if until \<le> observedAt then Num_expired else Available)))"

definition projectNumberingConsumption ::
  "reservation \<Rightarrow> consumption_entry list \<Rightarrow> int \<Rightarrow> offline_error + consumption_entry list" where
  "projectNumberingConsumption r entries observedAt =
     bindE (projectionFallback r observedAt) (\<lambda>fallback.
       Inr (map (\<lambda>e. e\<lparr>ce_status := if ce_status e = Available then fallback else ce_status e\<rparr>) entries))"

definition getNumberingConsumption ::
  "string \<Rightarrow> scope \<Rightarrow> string \<Rightarrow> string option \<Rightarrow> 'a numbering_store_scheme
   \<Rightarrow> offline_error + consumption_result" where
  "getNumberingConsumption wall sc i now s =
     bindE (consumptionReadInstant wall now) (\<lambda>observedAt.
     let k = tkey (sc_tenantId sc) i in
     bindE (require (syncError OFFLINE_SYNC_RESERVATION_NOT_FOUND 404 ''Reservation was not found.'')
       (jget (st_reservations s) k)) (\<lambda>r.
     bindE (require TypeError (jget (st_consumption s) k)) (\<lambda>entries.
     bindE (projectNumberingConsumption r (jvalues entries) observedAt) (\<lambda>consumption.
     Inr \<lparr>cr_reservationId = i, cr_status = res_status r, cr_consumption = consumption\<rparr>))))"

subsection \<open>Reconciliation\<close>

definition reconciliationRequest ::
  "env \<Rightarrow> scope \<Rightarrow> reconcile_input \<Rightarrow> offline_error + int list \<times> string" where
  "reconciliationRequest E sc input =
     bindE (rangeText (sc_actorId sc) 255) (\<lambda>_.
     bindE (rangeText (sc_tenantId sc) 255) (\<lambda>_.
     bindE (optionalRangeText (rci_idempotencyKey input) 255) (\<lambda>_.
     bindE (case rci_userRef input of None \<Rightarrow> Inr () | Some u \<Rightarrow>
       throwIf (js_includes_nul u \<or> length u > 255 \<or> \<not> utf8_lossless u)
         (invalidInput ''userRef is invalid.'')) (\<lambda>_.
     bindE (case rci_claimedNumbers input of None \<Rightarrow> Inr () | Some ns \<Rightarrow>
       throwIf (\<not> list_all isSafeInteger ns) (invalidInput ''claimedNumbers is invalid.'')) (\<lambda>_.
     let claimed = sort (remdups (case rci_claimedNumbers input of None \<Rightarrow> [] | Some ns \<Rightarrow> ns)) in
     bindE (importDigest E (JObj [(''claimedNumbers'', JArr (map JNum claimed)),
         (''userRef'', opt_json (rci_userRef input))])) (\<lambda>fingerprint.
     Inr (claimed, fingerprint)))))))"

definition reconciliationConflict :: offline_error where
  "reconciliationConflict = syncError OFFLINE_SYNC_RECONCILIATION_IDEMPOTENCY_CONFLICT 409
     ''Reconciliation idempotency key was already used with a different request.''"

definition reconciliationResult ::
  "string \<Rightarrow> reservation_status \<Rightarrow> consumption_entry list \<Rightarrow> int list \<Rightarrow> string \<Rightarrow> reconcile_result" where
  "reconciliationResult i status consumption claimed reconciliationId = \<lparr>
     cr_reservationId = i, cr_status = status, cr_consumption = consumption,
     rr_reconciliationId = reconciliationId,
     rr_missingOnServer =
       map ce_number (filter (\<lambda>e. ce_number e \<in> set claimed \<and> ce_status e \<noteq> Applied) consumption),
     rr_unexpectedOnServer =
       map ce_number (filter (\<lambda>e. ce_number e \<notin> set claimed \<and> ce_status e = Applied) consumption)\<rparr>"

definition claimEntry :: "int \<Rightarrow> (int, consumption_entry) jsmap \<Rightarrow> (int, consumption_entry) jsmap" where
  "claimEntry n entries = (case jget entries n of
     None \<Rightarrow> entries
   | Some e \<Rightarrow> if ce_status e = Available then jset n (e\<lparr>ce_status := Claimed_locally\<rparr>) entries else entries)"

definition reconciliationReplay ::
  "scope \<Rightarrow> string \<Rightarrow> string \<Rightarrow> string \<times> reconciliation_record \<Rightarrow> bool" where
  "reconciliationReplay sc i ik row \<longleftrightarrow> (case row of (fingerprint, record) \<Rightarrow>
     rec_tenantId record = sc_tenantId sc \<and> rec_reservationId record = i
     \<and> rec_idempotencyKey record = Some ik)"

text \<open>
  The writes of \<open>reconcileNumberingReservation\<close> for a new request: claims, one identifier, and, unless the
  projection throws, the record.
\<close>

definition recordReconciliation ::
  "env \<Rightarrow> scope \<Rightarrow> string \<Rightarrow> reconcile_input \<Rightarrow> string \<Rightarrow> int \<Rightarrow> int list \<Rightarrow> string \<Rightarrow> reservation
   \<Rightarrow> (int, consumption_entry) jsmap \<Rightarrow> 'a numbering_store_scheme
   \<Rightarrow> (offline_error + reconcile_result) \<times> 'a numbering_store_scheme" where
  "recordReconciliation E sc i input now observedAt claimed fingerprint r entries s =
     (let entries' = (if res_status r = Reserved then fold claimEntry claimed entries else entries);
          s1 = s\<lparr>st_consumption := jset (tkey (sc_tenantId sc) i) entries' (st_consumption s)\<rparr>;
          (reconciliationId, s2) = drawUUID E s1
      in case projectNumberingConsumption r (jvalues entries') observedAt of
           Inl e \<Rightarrow> (Inl e, s2)
         | Inr consumption \<Rightarrow>
            let result = reconciliationResult i (res_status r) consumption claimed reconciliationId;
                record = \<lparr>rec_reconciliationId = reconciliationId, rec_tenantId = sc_tenantId sc,
                  rec_reservationId = i, rec_actorId = sc_actorId sc, rec_createdAt = now,
                  rec_claimedNumbers = claimed, rec_userRef = rci_userRef input,
                  rec_idempotencyKey = rci_idempotencyKey input, rec_result = result\<rparr>
            in (Inr result,
                s2\<lparr>st_reconciliations := jset (tkey (sc_tenantId sc) reconciliationId)
                     (fingerprint, record) (st_reconciliations s2)\<rparr>))"

definition reconcileNumberingReservation ::
  "env \<Rightarrow> scope \<Rightarrow> string \<Rightarrow> reconcile_input \<Rightarrow> string \<Rightarrow> 'a numbering_store_scheme
   \<Rightarrow> (offline_error + reconcile_result) \<times> 'a numbering_store_scheme" where
  "reconcileNumberingReservation E sc i input now s =
     (case readInstant now of
        Inl e \<Rightarrow> (Inl e, s)
      | Inr observedAt \<Rightarrow>
     (case reconciliationRequest E sc input of
        Inl e \<Rightarrow> (Inl e, s)
      | Inr (claimed, fingerprint) \<Rightarrow>
     (let k = tkey (sc_tenantId sc) i in
      case (jget (st_reservations s) k, jget (st_consumption s) k) of
        (Some r, Some entries) \<Rightarrow>
          (case Option.bind (rci_idempotencyKey input)
              (\<lambda>ik. List.find (reconciliationReplay sc i ik) (jvalues (st_reconciliations s))) of
             Some (fp, record) \<Rightarrow>
               if fp \<noteq> fingerprint then (Inl reconciliationConflict, s) else (Inr (rec_result record), s)
           | None \<Rightarrow>
               if \<not> list_all (\<lambda>n. jget entries n \<noteq> None) claimed
               then (Inl (invalidInput ''Claimed number is outside the reservation.''), s)
               else recordReconciliation E sc i input now observedAt claimed fingerprint r entries s)
      | _ \<Rightarrow> (Inl (syncError OFFLINE_SYNC_RESERVATION_NOT_FOUND 404 ''Reservation was not found.''), s))))"

subsection \<open>Using a number\<close>

text \<open>
  The numbering part of the durable batch (\<open>processItem\<close>): which reservations cover the number an item
  was given, whether it may be used, and the write that marks it applied. In \<open>recordApplied\<close> the entry of
  a covered number is present in every state the store reaches, so the branch without it is never taken.
\<close>

definition entryStatus ::
  "'a numbering_store_scheme \<Rightarrow> string \<Rightarrow> int \<Rightarrow> consumption_status option" where
  "entryStatus s k n =
     map_option ce_status (Option.bind (jget (st_consumption s) k) (\<lambda>es. jget es n))"

definition coversNumber ::
  "scope \<Rightarrow> string \<Rightarrow> string \<Rightarrow> string \<Rightarrow> int \<Rightarrow> string option \<Rightarrow> 'a numbering_store_scheme
   \<Rightarrow> string \<times> reservation \<Rightarrow> bool" where
  "coversNumber sc deviceId orgUnitId entityType n reservationId s row \<longleftrightarrow>
     (case row of (k, r) \<Rightarrow>
       startsWith k (sc_tenantId sc @ '':'')
       \<and> res_deviceId r = deviceId \<and> res_orgUnitId r = orgUnitId \<and> res_entityType r = entityType
       \<and> res_startNumber r \<le> n \<and> n \<le> res_endNumber r
       \<and> (\<not> truthy reservationId \<or> reservationId = Some (res_reservationId r))
       \<and> (res_status r \<noteq> Cancelled \<or> entryStatus s k n \<in> {Some Applied, Some Claimed_locally}))"

definition checkNumber ::
  "scope \<Rightarrow> string \<Rightarrow> string \<Rightarrow> string \<Rightarrow> int \<Rightarrow> string option \<Rightarrow> string \<Rightarrow> 'a numbering_store_scheme
   \<Rightarrow> offline_error + string" where
  "checkNumber sc deviceId orgUnitId entityType n reservationId createdLocallyAt s =
     (case filter (coversNumber sc deviceId orgUnitId entityType n reservationId s) (st_reservations s) of
        [] \<Rightarrow> Inl (OfflineSyncNumberingOutcome OFFLINE_SYNC_NUMBERING_NO_COVERAGE n reservationId)
      | [(k, r)] \<Rightarrow>
          if entryStatus s k n = Some Applied
          then Inl (OfflineSyncNumberingOutcome OFFLINE_SYNC_NUMBERING_ALREADY_APPLIED n
            (Some (res_reservationId r)))
          else if res_status r \<noteq> Reserved
            \<or> nan_lt (date_parse (res_validUntil r)) (date_parse createdLocallyAt)
          then Inl (OfflineSyncNumberingOutcome OFFLINE_SYNC_NUMBERING_EXPIRED n
            (Some (res_reservationId r)))
          else Inr k
      | _ \<Rightarrow> Inl (OfflineSyncNumberingOutcome OFFLINE_SYNC_NUMBERING_AMBIGUOUS n None))"

definition recordApplied ::
  "string \<Rightarrow> int \<Rightarrow> string \<Rightarrow> string \<Rightarrow> 'a numbering_store_scheme \<Rightarrow> 'a numbering_store_scheme" where
  "recordApplied k n serverEntityId now s = (case jget (st_consumption s) k of
     None \<Rightarrow> s
   | Some entries \<Rightarrow>
      (case jget entries n of
         None \<Rightarrow> s
       | Some e \<Rightarrow> s\<lparr>st_consumption := jset k (jset n (e\<lparr>ce_status := Applied,
            ce_serverEntityId := Some serverEntityId, ce_finalizedAt := Some now\<rparr>) entries)
            (st_consumption s)\<rparr>))"

end
