(* ===== verification/Offline_Numbering_Inv.thy ===== *)
theory Offline_Numbering_Inv
  imports Offline_Numbering
begin

text \<open>
  The invariant of numbering: in every range, a number is held by at most one reservation that has not
  given it back. It is stated over the maps the operations touch (\<open>ninv\<close>), proved for each kind of
  write the store makes (\<open>ninv_entries\<close>, \<open>ninv_range\<close>, \<open>ninv_reserve\<close>), then for each operation.
  Tenant identifiers without a colon and a \<open>randomUUID\<close> that never repeats are its hypotheses.
\<close>

named_theorems ninv_intros \<open>preservation of the numbering invariant\<close>

subsection \<open>The invariant\<close>

definition past_id :: "env \<Rightarrow> nat \<Rightarrow> string \<Rightarrow> bool" where
  "past_id E u i \<longleftrightarrow> (\<forall>n \<ge> u. env_randomUUID E n \<noteq> i)"

definition tenant_ok :: "string \<Rightarrow> bool" where
  "tenant_ok t \<longleftrightarrow> CHR '':'' \<notin> set t"

definition range_ok :: "numbering_range \<Rightarrow> bool" where
  "range_ok rg \<longleftrightarrow> rng_startNumber rg \<le> rng_nextNumber rg \<and> rng_nextNumber rg \<le> rng_endNumber rg + 1
     \<and> (rng_status rg = Range_exhausted \<longrightarrow> rng_nextNumber rg = rng_endNumber rg + 1)
     \<and> isSafeInteger (rng_startNumber rg) \<and> isSafeInteger (rng_endNumber rg + 1)"

definition entries_ok :: "reservation \<Rightarrow> (int, consumption_entry) jsmap \<Rightarrow> bool" where
  "entries_ok r es \<longleftrightarrow> map fst es = [res_startNumber r..res_endNumber r]
     \<and> (\<forall>n e. jget es n = Some e \<longrightarrow> ce_number e = n
         \<and> (res_status r = Reserved \<longrightarrow> ce_status e \<noteq> Num_blocked \<and> ce_status e \<noteq> Num_expired))"

text \<open>The number is still held: available, claimed, applied or blocked.\<close>

definition held :: "(int, consumption_entry) jsmap \<Rightarrow> int \<Rightarrow> bool" where
  "held es n \<longleftrightarrow> (\<exists>e. jget es n = Some e \<and> ce_status e \<noteq> Num_expired)"

definition reservation_ok ::
  "(string, numbering_range) jsmap \<Rightarrow> (string, (int, consumption_entry) jsmap) jsmap
   \<Rightarrow> string \<Rightarrow> reservation \<Rightarrow> bool" where
  "reservation_ok rgs cons k r \<longleftrightarrow>
     (\<exists>es rg. jget cons k = Some es \<and> entries_ok r es
       \<and> jget rgs (tkey (res_tenantId r) (res_rangeId r)) = Some rg
       \<and> rng_startNumber rg \<le> res_startNumber r \<and> res_endNumber r \<le> rng_endNumber rg
       \<and> res_startNumber r \<le> res_endNumber r
       \<and> (\<forall>n. held es n \<longrightarrow> n < rng_nextNumber rg))"

definition ninv ::
  "env \<Rightarrow> nat \<Rightarrow> (string, numbering_range) jsmap \<Rightarrow> (string, reservation) jsmap
   \<Rightarrow> (string, (int, consumption_entry) jsmap) jsmap \<Rightarrow> bool" where
  "ninv E u rgs ress cons \<longleftrightarrow>
     jwf rgs \<and> jwf ress
     \<and> (\<forall>k rg. jget rgs k = Some rg \<longrightarrow> k = tkey (rng_tenantId rg) (rng_id rg)
         \<and> tenant_ok (rng_tenantId rg) \<and> past_id E u (rng_id rg) \<and> range_ok rg)
     \<and> (\<forall>k r. jget ress k = Some r \<longrightarrow> k = tkey (res_tenantId r) (res_reservationId r)
         \<and> tenant_ok (res_tenantId r) \<and> past_id E u (res_reservationId r) \<and> reservation_ok rgs cons k r)
     \<and> (\<forall>k1 k2 r1 r2 es1 es2 n. jget ress k1 = Some r1 \<longrightarrow> jget ress k2 = Some r2 \<longrightarrow> k1 \<noteq> k2
         \<longrightarrow> res_tenantId r1 = res_tenantId r2 \<longrightarrow> res_rangeId r1 = res_rangeId r2
         \<longrightarrow> jget cons k1 = Some es1 \<longrightarrow> jget cons k2 = Some es2 \<longrightarrow> held es1 n \<longrightarrow> \<not> held es2 n)"

definition numbering_inv :: "env \<Rightarrow> 'a numbering_store_scheme \<Rightarrow> bool" where
  "numbering_inv E s \<longleftrightarrow> ninv E (st_uuids s) (st_ranges s) (st_reservations s) (st_consumption s)"

subsection \<open>Reading the invariant\<close>

lemma ninvD_wf: "ninv E u rgs ress cons \<Longrightarrow> jwf rgs \<and> jwf ress"
  by (simp add: ninv_def)

lemma ninvD_range:
  assumes "ninv E u rgs ress cons" and "jget rgs k = Some rg"
  shows "k = tkey (rng_tenantId rg) (rng_id rg)" "tenant_ok (rng_tenantId rg)"
    "past_id E u (rng_id rg)" "range_ok rg"
  using assms by (auto simp: ninv_def)

lemma ninvD_res:
  assumes "ninv E u rgs ress cons" and "jget ress k = Some r"
  shows "k = tkey (res_tenantId r) (res_reservationId r)" "tenant_ok (res_tenantId r)"
    "past_id E u (res_reservationId r)" "reservation_ok rgs cons k r"
  using assms by (auto simp: ninv_def)

lemma ninvD_disjoint:
  assumes "ninv E u rgs ress cons" and "jget ress k1 = Some r1" and "jget ress k2 = Some r2"
    and "k1 \<noteq> k2" and "res_tenantId r1 = res_tenantId r2" and "res_rangeId r1 = res_rangeId r2"
    and "jget cons k1 = Some es1" and "jget cons k2 = Some es2" and "held es1 n"
  shows "\<not> held es2 n"
  using assms unfolding ninv_def by blast

lemma reservation_okE:
  assumes "reservation_ok rgs cons k r"
  obtains es rg where "jget cons k = Some es" "entries_ok r es"
    "jget rgs (tkey (res_tenantId r) (res_rangeId r)) = Some rg"
    "rng_startNumber rg \<le> res_startNumber r" "res_endNumber r \<le> rng_endNumber rg"
    "res_startNumber r \<le> res_endNumber r" "\<And>n. held es n \<Longrightarrow> n < rng_nextNumber rg"
  using assms unfolding reservation_ok_def by blast

lemma entries_ok_dom:
  assumes "entries_ok r es"
  shows "jget es n \<noteq> None \<longleftrightarrow> res_startNumber r \<le> n \<and> n \<le> res_endNumber r"
proof -
  have "fst ` set es = {res_startNumber r..res_endNumber r}"
    using assms by (metis entries_ok_def list.set_map set_upto)
  then show ?thesis
    by (simp add: map_of_eq_None_iff)
qed

lemma held_dom: "entries_ok r es \<Longrightarrow> held es n \<Longrightarrow> res_startNumber r \<le> n \<and> n \<le> res_endNumber r"
  using entries_ok_dom [of r es n] by (auto simp: held_def)

lemma reserved_all_held:
  assumes "entries_ok r es" and "res_status r = Reserved"
    and "res_startNumber r \<le> n" and "n \<le> res_endNumber r"
  shows "held es n"
  using assms entries_ok_dom [of r es n] by (auto simp: held_def entries_ok_def)

lemma ninvD_held_next:
  assumes "ninv E u rgs ress cons" and "jget ress k = Some r" and "jget cons k = Some es" and "held es n"
    and "jget rgs (tkey (res_tenantId r) (res_rangeId r)) = Some rg"
  shows "n < rng_nextNumber rg"
  using ninvD_res(4) [OF assms(1,2)] assms(3-) by (auto elim!: reservation_okE)

subsection \<open>The kinds of writes\<close>

lemma past_id_mono: "past_id E u i \<Longrightarrow> u \<le> v \<Longrightarrow> past_id E v i"
  by (auto simp: past_id_def)

lemma past_id_drawn: "inj (env_randomUUID E) \<Longrightarrow> past_id E (Suc u) (env_randomUUID E u)"
  by (auto simp: past_id_def dest: injD)

lemma ninv_mono: "ninv E u rgs ress cons \<Longrightarrow> u \<le> v \<Longrightarrow> ninv E v rgs ress cons"
  unfolding ninv_def using past_id_mono by blast

text \<open>A reservation changes its status and its entries, and holds no number it did not hold before.\<close>

lemma ninv_entries:
  assumes inv: "ninv E u rgs ress cons" and r: "jget ress k = Some r" and es: "jget cons k = Some es"
    and r': "r' = r\<lparr>res_status := st\<rparr>" and ok: "entries_ok r' es'"
    and held: "\<And>n. held es' n \<Longrightarrow> held es n"
  shows "ninv E u rgs (jset k r' ress) (jset k es' cons)"
proof -
  have ro: "reservation_ok rgs (jset k es' cons) k' r''"
    if "jget (jset k r' ress) k' = Some r''" for k' r''
  proof (cases "k' = k")
    case True
    with that have "r'' = r'" by simp
    from ninvD_res(4) [OF inv r] obtain rg where
      "jget rgs (tkey (res_tenantId r) (res_rangeId r)) = Some rg"
      "rng_startNumber rg \<le> res_startNumber r" "res_endNumber r \<le> rng_endNumber rg"
      "res_startNumber r \<le> res_endNumber r" "\<And>n. held es n \<Longrightarrow> n < rng_nextNumber rg"
      using es by (auto elim!: reservation_okE)
    with ok held show ?thesis
      unfolding reservation_ok_def \<open>r'' = r'\<close> True r' by auto
  next
    case False
    with that ninvD_res(4) [OF inv, of k' r''] show ?thesis
      by (simp add: reservation_ok_def)
  qed
  have dj: "\<not> held es2 n"
    if "jget (jset k r' ress) k1 = Some r1" "jget (jset k r' ress) k2 = Some r2" "k1 \<noteq> k2"
      "res_tenantId r1 = res_tenantId r2" "res_rangeId r1 = res_rangeId r2"
      "jget (jset k es' cons) k1 = Some es1" "jget (jset k es' cons) k2 = Some es2" "held es1 n"
    for k1 k2 r1 r2 es1 es2 n
    using that ninvD_disjoint [OF inv, of k1 _ k2 _ _ _ n] r es held
    by (auto simp: r' split: if_splits) blast+
  show ?thesis
    unfolding ninv_def
  proof (intro conjI allI impI)
    fix k' r'' assume "jget (jset k r' ress) k' = Some r''"
    then show "k' = tkey (res_tenantId r'') (res_reservationId r'')" "tenant_ok (res_tenantId r'')"
      "past_id E u (res_reservationId r'')" "reservation_ok rgs (jset k es' cons) k' r''"
      using ninvD_res [OF inv, of k' r''] ninvD_res [OF inv r] ro by (auto simp: r' split: if_splits)
  qed (use ninvD_wf [OF inv] ninvD_range [OF inv] dj in auto)
qed

text \<open>A range moves its mark, above every number still held.\<close>

lemma ninv_range:
  assumes inv: "ninv E u rgs ress cons" and rg: "jget rgs k = Some rg"
    and same: "rng_id rg' = rng_id rg" "rng_tenantId rg' = rng_tenantId rg"
      "rng_startNumber rg' = rng_startNumber rg" "rng_endNumber rg' = rng_endNumber rg"
    and ok: "range_ok rg'"
    and above: "\<And>k' r es n. jget ress k' = Some r \<Longrightarrow> tkey (res_tenantId r) (res_rangeId r) = k
      \<Longrightarrow> jget cons k' = Some es \<Longrightarrow> held es n \<Longrightarrow> n < rng_nextNumber rg'"
  shows "ninv E u (jset k rg' rgs) ress cons"
proof -
  have ro: "reservation_ok (jset k rg' rgs) cons k' r" if r: "jget ress k' = Some r" for k' r
    using ninvD_res(4) [OF inv r]
    by (elim reservation_okE) (use above [OF r] rg same in \<open>auto simp: reservation_ok_def\<close>)
  show ?thesis
    unfolding ninv_def
  proof (intro conjI allI impI)
    fix k1 rg1 assume "jget (jset k rg' rgs) k1 = Some rg1"
    then show "k1 = tkey (rng_tenantId rg1) (rng_id rg1)" "tenant_ok (rng_tenantId rg1)"
      "past_id E u (rng_id rg1)" "range_ok rg1"
      using ninvD_range [OF inv, of k1 rg1] ninvD_range [OF inv rg] same ok
      by (auto split: if_splits)
  qed (use ninvD_wf [OF inv] ninvD_res [OF inv] ninvD_disjoint [OF inv] ro in \<open>blast intro: jwf_jset\<close>)+
qed

text \<open>A range is added under a new key.\<close>

lemma ninv_new_range:
  assumes inv: "ninv E u rgs ress cons" and new: "jget rgs (tkey (rng_tenantId rg) (rng_id rg)) = None"
    and "tenant_ok (rng_tenantId rg)" "past_id E u (rng_id rg)" "range_ok rg"
  shows "ninv E u (jset (tkey (rng_tenantId rg) (rng_id rg)) rg rgs) ress cons"
proof -
  let ?rgs = "jset (tkey (rng_tenantId rg) (rng_id rg)) rg rgs"
  have ro: "reservation_ok ?rgs cons k' r" if r: "jget ress k' = Some r" for k' r
    using ninvD_res(4) [OF inv r]
    by (elim reservation_okE) (use new in \<open>auto simp: reservation_ok_def\<close>)
  show ?thesis
    unfolding ninv_def
  proof (intro conjI allI impI)
    fix k1 rg1 assume "jget ?rgs k1 = Some rg1"
    then show "k1 = tkey (rng_tenantId rg1) (rng_id rg1)" "tenant_ok (rng_tenantId rg1)"
      "past_id E u (rng_id rg1)" "range_ok rg1"
      using ninvD_range [OF inv, of k1 rg1] assms(3-) by (auto split: if_splits)
  qed (use ninvD_wf [OF inv] ninvD_res [OF inv] ninvD_disjoint [OF inv] ro in \<open>blast intro: jwf_jset\<close>)+
qed

text \<open>A reservation is added under a new key, holding numbers no other reservation of the range holds.\<close>

lemma ninv_reserve:
  assumes inv: "ninv E u rgs ress cons"
    and k: "k = tkey (res_tenantId r) (res_reservationId r)" and new: "jget ress k = None"
    and "tenant_ok (res_tenantId r)" "past_id E u (res_reservationId r)"
    and rg: "jget rgs (tkey (res_tenantId r) (res_rangeId r)) = Some rg"
      "rng_startNumber rg \<le> res_startNumber r" "res_startNumber r \<le> res_endNumber r"
      "res_endNumber r < rng_nextNumber rg"
    and es: "entries_ok r es"
    and apart: "\<And>k' r' es' n. jget ress k' = Some r' \<Longrightarrow> res_tenantId r' = res_tenantId r
      \<Longrightarrow> res_rangeId r' = res_rangeId r \<Longrightarrow> jget cons k' = Some es' \<Longrightarrow> held es' n \<Longrightarrow> n < res_startNumber r"
  shows "ninv E u rgs (jset k r ress) (jset k es cons)"
proof -
  have range: "range_ok rg"
    using ninvD_range(4) [OF inv rg(1)] .
  have ro: "reservation_ok rgs (jset k es cons) k' r'" if r': "jget (jset k r ress) k' = Some r'" for k' r'
  proof (cases "k' = k")
    case True
    with r' have "r' = r" by simp
    have "res_endNumber r \<le> rng_endNumber rg"
      using rg range by (simp add: range_ok_def)
    moreover have "n < rng_nextNumber rg" if "held es n" for n
      using held_dom [OF es that] rg by simp
    ultimately show ?thesis
      unfolding reservation_ok_def True \<open>r' = r\<close> using rg es by auto
  next
    case False
    with r' ninvD_res(4) [OF inv, of k' r'] show ?thesis
      by (simp add: reservation_ok_def)
  qed
  have dj: "\<not> held es2 n"
    if "jget (jset k r ress) k1 = Some r1" "jget (jset k r ress) k2 = Some r2" "k1 \<noteq> k2"
      "res_tenantId r1 = res_tenantId r2" "res_rangeId r1 = res_rangeId r2"
      "jget (jset k es cons) k1 = Some es1" "jget (jset k es cons) k2 = Some es2" "held es1 n"
    for k1 k2 r1 r2 es1 es2 n
  proof
    assume "held es2 n"
    consider "k1 = k" | "k2 = k" | "k1 \<noteq> k" "k2 \<noteq> k" by blast
    then show False
    proof cases
      case 1
      then show False
        using that \<open>held es2 n\<close> apart [of k2 r2 es2 n] held_dom [OF es, of n] by auto
    next
      case 2
      then show False
        using that \<open>held es2 n\<close> apart [of k1 r1 es1 n] held_dom [OF es, of n] by auto
    next
      case 3
      then show False
        using that \<open>held es2 n\<close> ninvD_disjoint [OF inv, of k1 r1 k2 r2 es1 es2 n] by simp
    qed
  qed
  show ?thesis
    unfolding ninv_def
  proof (intro conjI allI impI)
    fix k' r' assume "jget (jset k r ress) k' = Some r'"
    then show "k' = tkey (res_tenantId r') (res_reservationId r')" "tenant_ok (res_tenantId r')"
      "past_id E u (res_reservationId r')" "reservation_ok rgs (jset k es cons) k' r'"
      using ninvD_res [OF inv, of k' r'] assms(4,5) k ro by (auto split: if_splits)
  qed (use ninvD_wf [OF inv] ninvD_range [OF inv] dj in auto)
qed

subsection \<open>Ranges\<close>

lemma rangeCreation_input:
  assumes "rangeCreation E sc original = Inr (input, fp)"
  shows "cri_startNumber input \<le> cri_endNumber input" "isSafeInteger (cri_startNumber input)"
    "isSafeInteger (cri_endNumber input + 1)" "cri_idempotencyKey input = cri_idempotencyKey original"
    "cri_orgUnitId input = cri_orgUnitId original" "cri_entityType input = cri_entityType original"
    "cri_series input = cri_series original"
  using assms by (auto simp: rangeCreation_def Let_def)

lemma createNumberingRange_cases:
  assumes "createNumberingRange E sc original now s = Inr (rg, s')"
  obtains (Replay) k fp where "cri_idempotencyKey original = Some k" "s' = s"
      "jget (st_rangeCreationReceipts s) (tkey (sc_tenantId sc) k) = Some (fp, rg)"
  | (Create) input fp at where "rangeCreation E sc original = Inr (input, fp)"
      "rangeTimestamp now = Inr at"
      "\<not> list_ex (sameRangeScope sc input) (jvalues (st_ranges s))"
      "rg = newRange sc input (env_randomUUID E (st_uuids s)) at"
      "st_ranges s' = jset (tkey (sc_tenantId sc) (rng_id rg)) rg (st_ranges s)"
      "st_uuids s' = Suc (st_uuids s)" "st_reservations s' = st_reservations s"
      "st_consumption s' = st_consumption s"
      "st_rangeCreationReceipts s' = (case cri_idempotencyKey original of
         None \<Rightarrow> st_rangeCreationReceipts s
       | Some k \<Rightarrow> jset (tkey (sc_tenantId sc) k) (fp, rg) (st_rangeCreationReceipts s))"
      "numbering_store.more s' = numbering_store.more s"
proof -
  from assms obtain input fp where i: "rangeCreation E sc original = Inr (input, fp)"
    by (auto simp: createNumberingRange_def)
  note k = rangeCreation_input(4) [OF i]
  show thesis
  proof (cases "Option.bind (map_option (tkey (sc_tenantId sc)) (cri_idempotencyKey original))
      (jget (st_rangeCreationReceipts s))")
    case None
    with assms i k obtain at where at: "rangeTimestamp now = Inr at"
      "\<not> list_ex (sameRangeScope sc input) (jvalues (st_ranges s))"
      by (auto simp: createNumberingRange_def)
    show thesis
      by (rule Create [OF i at])
        (use None assms i k at in \<open>auto simp: createNumberingRange_def drawUUID_def Let_def newRange_def
           split: option.splits\<close>)
  next
    case (Some p)
    then obtain ik where ik: "cri_idempotencyKey original = Some ik"
      "jget (st_rangeCreationReceipts s) (tkey (sc_tenantId sc) ik) = Some p"
      by (auto simp: bind_eq_Some_conv)
    with assms i k have "s' = s" "p = (fp, rg)"
      by (auto simp: createNumberingRange_def split: if_splits prod.splits)
    with ik show thesis
      by (intro Replay) simp_all
  qed
qed

lemma createNumberingRange_inv:
  assumes "createNumberingRange E sc original now s = Inr (rg, s')" and "numbering_inv E s"
    and "tenant_ok (sc_tenantId sc)" and "inj (env_randomUUID E)"
  shows "numbering_inv E s'"
  using assms(1)
proof (cases rule: createNumberingRange_cases)
  case Replay
  then show ?thesis using assms(2) by simp
next
  case (Create input fp at)
  have rg: "rng_tenantId rg = sc_tenantId sc" "rng_id rg = env_randomUUID E (st_uuids s)" "range_ok rg"
    using Create(4) rangeCreation_input(1-3) [OF Create(1)]
    by (simp_all add: newRange_def range_ok_def)
  have inv: "ninv E (st_uuids s) (st_ranges s) (st_reservations s) (st_consumption s)"
    using assms(2) by (simp add: numbering_inv_def)
  have "jget (st_ranges s) (tkey (rng_tenantId rg) (rng_id rg)) = None"
  proof (rule ccontr)
    assume "jget (st_ranges s) (tkey (rng_tenantId rg) (rng_id rg)) \<noteq> None"
    then obtain rg2 where rg2: "jget (st_ranges s) (tkey (rng_tenantId rg) (rng_id rg)) = Some rg2"
      by auto
    with ninvD_range [OF inv rg2] have "rng_id rg2 = rng_id rg"
      using assms(3) rg(1) by (simp add: tkey_inject tenant_ok_def)
    with ninvD_range(3) [OF inv rg2] rg(2) show False
      by (auto simp: past_id_def)
  qed
  then have "ninv E (Suc (st_uuids s)) (jset (tkey (rng_tenantId rg) (rng_id rg)) rg (st_ranges s))
      (st_reservations s) (st_consumption s)"
    using inv rg assms(3,4) by (intro ninv_new_range ninv_mono [OF inv]) (simp_all add: past_id_drawn)
  then show ?thesis
    using Create(5-8) rg(1) by (simp add: numbering_inv_def)
qed

lemma cancelNumberingRange_cases:
  assumes "cancelNumberingRange sc original reason now s = Inr (rg', s')"
  obtains (Noop) "s' = s" "rng_status rg' = Range_cancelled"
      "jget (st_ranges s) (tkey (sc_tenantId sc) (toLowerCase_ascii original)) = Some rg'"
  | (Cancel) rg at where "jget (st_ranges s) (tkey (sc_tenantId sc) (toLowerCase_ascii original)) = Some rg"
      "rng_status rg = Range_active" "rangeTimestamp now = Inr at"
      "rg' = rg\<lparr>rng_status := Range_cancelled, rng_cancelledBy := Some (sc_actorId sc),
         rng_cancelledAt := Some at, rng_updatedAt := Some at,
         rng_cancellationReason := (case reason of None \<Rightarrow> rng_cancellationReason rg | Some r \<Rightarrow> Some r)\<rparr>"
      "s' = s\<lparr>st_ranges := jset (tkey (sc_tenantId sc) (toLowerCase_ascii original)) rg' (st_ranges s)\<rparr>"
proof -
  let ?k = "tkey (sc_tenantId sc) (toLowerCase_ascii original)"
  from assms obtain rg where rg: "jget (st_ranges s) ?k = Some rg"
    by (auto simp: cancelNumberingRange_def rangeIdentity_def)
  consider "rng_status rg = Range_cancelled" | "rng_status rg = Range_active"
    | "rng_status rg = Range_exhausted"
    by (cases "rng_status rg")
  then show thesis
  proof cases
    case 1
    with assms rg show thesis
      by (intro Noop) (auto simp: cancelNumberingRange_def rangeIdentity_def)
  next
    case 2
    with assms rg obtain at where "rangeTimestamp now = Inr at"
      by (auto simp: cancelNumberingRange_def rangeIdentity_def)
    with 2 assms rg show thesis
      by (intro Cancel [OF rg]) (auto simp: cancelNumberingRange_def rangeIdentity_def
          rangeCancellation_def Let_def)
  next
    case 3
    with assms rg show thesis
      by (auto simp: cancelNumberingRange_def rangeIdentity_def)
  qed
qed

lemma cancelNumberingRange_inv:
  assumes "cancelNumberingRange sc original reason now s = Inr (rg', s')" and "numbering_inv E s"
  shows "numbering_inv E s'"
  using assms(1)
proof (cases rule: cancelNumberingRange_cases)
  case Noop
  then show ?thesis using assms(2) by simp
next
  case (Cancel rg at)
  have inv: "ninv E (st_uuids s) (st_ranges s) (st_reservations s) (st_consumption s)"
    using assms(2) by (simp add: numbering_inv_def)
  have "range_ok rg'"
    using ninvD_range(4) [OF inv Cancel(1)] Cancel(4) by (simp add: range_ok_def)
  then have "ninv E (st_uuids s) (jset (tkey (sc_tenantId sc) (toLowerCase_ascii original)) rg' (st_ranges s))
      (st_reservations s) (st_consumption s)"
    using Cancel(1,4) ninvD_held_next [OF inv]
    by (intro ninv_range [OF inv Cancel(1)]) simp_all
  then show ?thesis
    using Cancel(5) by (simp add: numbering_inv_def)
qed

subsection \<open>Allocation\<close>

lemma allocateReservation_cases:
  assumes "allocateReservation E sc input now dv orig s = Inr (r, s')"
  obtains (Replay) "replayReservation E sc input s = Inr (Some r)" "s' = s"
  | (Take) rg where "replayReservation E sc input s = Inr None"
      "orig = E6 \<Longrightarrow> rni_shiftId input \<noteq> None"
      "assertReservationAdmission (sc_tenantId sc) (rni_deviceId input) (rni_shiftId input) now
         orig None s = Inr ()"
      "List.find (rangeCandidate sc input) (jvalues (st_ranges s)) = Some rg"
      "rng_status rg = Range_active" "rng_orgUnitId rg = rni_orgUnitId input"
      "rng_entityType rg = rni_entityType input"
      "rng_nextNumber rg + rni_requestedSize input - 1 \<le> rng_endNumber rg"
      "(r, s') = takeNumbers E sc input dv orig rg s"
proof -
  from assms obtain rp where rp: "replayReservation E sc input s = Inr rp"
    by (auto simp: allocateReservation_def)
  show thesis
  proof (cases rp)
    case None
    with assms rp show thesis
      by (auto simp: allocateReservation_def intro: Take)
  next
    case (Some r')
    with assms rp show thesis
      by (intro Replay) (auto simp: allocateReservation_def)
  qed
qed

lemma takeNumbers_state:
  assumes "takeNumbers E sc input dv orig rg s = (r, s')"
  defines "i \<equiv> env_randomUUID E (st_uuids s)"
  shows "r = newReservation sc input rg i dv"
    "st_uuids s' = Suc (st_uuids s)"
    "st_ranges s' = jset (tkey (sc_tenantId sc) (rng_id rg)) (rg\<lparr>
       rng_nextNumber := rng_nextNumber rg + rni_requestedSize input,
       rng_status := if rng_nextNumber rg + rni_requestedSize input - 1 = rng_endNumber rg
         then Range_exhausted else Range_active\<rparr>) (st_ranges s)"
    "st_reservations s' = jset (tkey (sc_tenantId sc) i) r (st_reservations s)"
    "st_reservationOrigins s' = jset (tkey (sc_tenantId sc) i) orig (st_reservationOrigins s)"
    "st_consumption s' = jset (tkey (sc_tenantId sc) i)
       (newEntries (rng_nextNumber rg) (rng_nextNumber rg + rni_requestedSize input - 1)) (st_consumption s)"
    "st_reservationKeys s' = (case rni_idempotencyKey input of
         None \<Rightarrow> st_reservationKeys s
       | Some ik \<Rightarrow> jset (tkey (sc_tenantId sc) ik) (reservationFingerprint E sc input, i)
           (st_reservationKeys s))"
  using assms by (auto simp: takeNumbers_def drawUUID_def Let_def split: option.splits)

lemma jget_newEntries:
  "jget (newEntries a b) n = (if a \<le> n \<and> n \<le> b then Some (availableEntry n) else None)"
proof -
  have "map_of (map (\<lambda>n. (n, availableEntry n)) xs) n
      = (if n \<in> set xs then Some (availableEntry n) else None)" for xs :: "int list"
    by (induction xs) auto
  then show ?thesis
    by (simp add: newEntries_def)
qed

lemma entries_ok_newEntries:
  "entries_ok (newReservation sc input rg i dv)
     (newEntries (rng_nextNumber rg) (rng_nextNumber rg + rni_requestedSize input - 1))"
  by (auto simp: entries_ok_def jget_newEntries availableEntry_def newReservation_def newEntries_def
      comp_def split: if_splits)

lemma ninv_fresh_reservation:
  assumes "ninv E u rgs ress cons" and "tenant_ok t"
  shows "jget ress (tkey t (env_randomUUID E u)) = None"
proof (rule ccontr)
  assume "jget ress (tkey t (env_randomUUID E u)) \<noteq> None"
  then obtain r where r: "jget ress (tkey t (env_randomUUID E u)) = Some r"
    by auto
  with ninvD_res(1,2) [OF assms(1) r] assms(2) have "res_reservationId r = env_randomUUID E u"
    by (simp add: tkey_inject tenant_ok_def)
  with ninvD_res(3) [OF assms(1) r] show False
    by (auto simp: past_id_def)
qed

lemma find_range:
  assumes "ninv E u rgs ress cons" and "List.find (rangeCandidate sc input) (jvalues rgs) = Some rg"
  shows "jget rgs (tkey (sc_tenantId sc) (rng_id rg)) = Some rg" "rng_tenantId rg = sc_tenantId sc"
proof -
  from assms(2) have rg: "rg \<in> set (jvalues rgs)" "rangeCandidate sc input rg"
    by (auto simp: find_Some_iff in_set_conv_nth)
  then show t: "rng_tenantId rg = sc_tenantId sc"
    by (simp add: rangeCandidate_def)
  from rg(1) obtain k where "jget rgs k = Some rg"
    using ninvD_wf [OF assms(1)] by (auto simp: in_jvalues)
  with ninvD_range(1) [OF assms(1) this] t show "jget rgs (tkey (sc_tenantId sc) (rng_id rg)) = Some rg"
    by simp
qed

lemma takeNumbers_inv:
  assumes inv: "numbering_inv E s" and tenant: "tenant_ok (sc_tenantId sc)"
    and inj: "inj (env_randomUUID E)" and size: "1 \<le> rni_requestedSize input"
    and rg: "jget (st_ranges s) (tkey (sc_tenantId sc) (rng_id rg)) = Some rg"
      "rng_tenantId rg = sc_tenantId sc"
    and cap: "rng_nextNumber rg + rni_requestedSize input - 1 \<le> rng_endNumber rg"
    and take: "takeNumbers E sc input dv orig rg s = (r, s')"
  shows "numbering_inv E s'"
proof -
  note st = takeNumbers_state [OF take]
  define rg' where "rg' = rg\<lparr>rng_nextNumber := rng_nextNumber rg + rni_requestedSize input,
       rng_status := if rng_nextNumber rg + rni_requestedSize input - 1 = rng_endNumber rg
         then Range_exhausted else Range_active\<rparr>"
  have n0: "ninv E (Suc (st_uuids s)) (st_ranges s) (st_reservations s) (st_consumption s)"
    using inv by (auto simp: numbering_inv_def intro: ninv_mono)
  have ok: "range_ok rg"
    using ninvD_range(4) [OF n0 rg(1)] .
  have "range_ok rg'"
    using ok cap size by (auto simp: range_ok_def rg'_def)
  then have n1: "ninv E (Suc (st_uuids s)) (jset (tkey (sc_tenantId sc) (rng_id rg)) rg' (st_ranges s))
      (st_reservations s) (st_consumption s)"
    using ninvD_held_next [OF n0] rg size
    by (intro ninv_range [OF n0 rg(1)]) (fastforce simp: rg'_def)+
  have "ninv E (Suc (st_uuids s)) (jset (tkey (sc_tenantId sc) (rng_id rg)) rg' (st_ranges s))
      (jset (tkey (sc_tenantId sc) (env_randomUUID E (st_uuids s))) r (st_reservations s))
      (jset (tkey (sc_tenantId sc) (env_randomUUID E (st_uuids s)))
        (newEntries (rng_nextNumber rg) (rng_nextNumber rg + rni_requestedSize input - 1))
        (st_consumption s))"
  proof (rule ninv_reserve [OF n1, where rg = rg'])
    show "jget (st_reservations s) (tkey (sc_tenantId sc) (env_randomUUID E (st_uuids s))) = None"
      using inv tenant by (auto simp: numbering_inv_def intro: ninv_fresh_reservation)
    show "entries_ok r (newEntries (rng_nextNumber rg) (rng_nextNumber rg + rni_requestedSize input - 1))"
      unfolding st(1) by (rule entries_ok_newEntries)
    show "n < res_startNumber r"
      if "jget (st_reservations s) k' = Some r'" "res_tenantId r' = res_tenantId r"
        "res_rangeId r' = res_rangeId r" "jget (st_consumption s) k' = Some es'" "held es' n"
      for k' r' es' n
      using ninvD_held_next [OF n0 that(1,4,5), of rg] that(2,3) rg
      by (simp add: st(1) newReservation_def)
  qed (use tenant inj rg size ok in
    \<open>simp_all add: st(1) newReservation_def rg'_def past_id_drawn range_ok_def\<close>)
  then show ?thesis
    using st by (simp add: numbering_inv_def rg'_def)
qed

lemma allocateReservation_inv:
  assumes "allocateReservation E sc input now dv orig s = Inr (r, s')" and "numbering_inv E s"
    and "tenant_ok (sc_tenantId sc)" and "inj (env_randomUUID E)" and "1 \<le> rni_requestedSize input"
  shows "numbering_inv E s'"
  using assms(1)
proof (cases rule: allocateReservation_cases)
  case Replay
  then show ?thesis using assms(2) by simp
next
  case (Take rg)
  have "ninv E (st_uuids s) (st_ranges s) (st_reservations s) (st_consumption s)"
    using assms(2) by (simp add: numbering_inv_def)
  note rg = find_range [OF this Take(4)]
  show ?thesis
    by (rule takeNumbers_inv [OF assms(2-5) rg Take(8) Take(9) [symmetric]])
qed

subsection \<open>Cancellation\<close>

lemma fst_finishAvailable [simp]: "map fst (finishAvailable st es) = map fst es"
  by (simp add: finishAvailable_def comp_def split_def)

lemma jget_finishAvailable:
  "jget (finishAvailable st es) n =
     map_option (\<lambda>e. if ce_status e = Available then e\<lparr>ce_status := st\<rparr> else e) (jget es n)"
  by (simp add: finishAvailable_def jget_map_value)

lemma held_finishAvailable: "held (finishAvailable st es) n \<Longrightarrow> held es n"
  by (auto simp: held_def jget_finishAvailable split: if_splits)

lemma held_finishAvailable_expired:
  "held (finishAvailable Num_expired es) n \<longleftrightarrow>
     (\<exists>e. jget es n = Some e \<and> ce_status e \<noteq> Num_expired \<and> ce_status e \<noteq> Available)"
  by (cases "jget es n") (auto simp: held_def jget_finishAvailable)

lemma entries_ok_finishAvailable:
  assumes "entries_ok r es" and "st \<noteq> Reserved"
  shows "entries_ok (r\<lparr>res_status := st\<rparr>) (finishAvailable st' es)"
  using assms by (auto simp: entries_ok_def jget_finishAvailable)

lemma foldl_max:
  fixes a :: "'b :: linorder"
  shows "a \<le> foldl max a xs" "x \<in> set xs \<Longrightarrow> x \<le> foldl max a xs" "foldl max a xs \<in> insert a (set xs)"
proof -
  show "a \<le> foldl max a xs"
    by (induction xs arbitrary: a) (auto intro: order_trans [OF max.cobounded1])
  then show "x \<in> set xs \<Longrightarrow> x \<le> foldl max a xs"
  proof (induction xs arbitrary: a)
    case (Cons y ys)
    have "max a y \<le> foldl max (max a y) ys"
      by (induction ys arbitrary: a y) (auto simp: max.assoc intro: order_trans [OF max.cobounded1])
    with Cons.prems Cons.IH [of "max a y"] show ?case
      by auto
  qed simp
  show "foldl max a xs \<in> insert a (set xs)"
    by (induction xs arbitrary: a) (auto simp: max_def)
qed

lemma highestApplied_ge:
  assumes "entries_ok r es"
  shows "res_startNumber r - 1 \<le> highestApplied r es"
    "jget es n = Some e \<Longrightarrow> ce_status e \<in> {Applied, Claimed_locally} \<Longrightarrow> n \<le> highestApplied r es"
proof -
  show "res_startNumber r - 1 \<le> highestApplied r es"
    by (simp add: highestApplied_def foldl_max(1))
  assume e: "jget es n = Some e" "ce_status e \<in> {Applied, Claimed_locally}"
  then have "e \<in> set (jvalues es)"
    by (force simp: jvalues_def dest: jget_in_set)
  moreover have "ce_number e = n"
    using assms e(1) by (simp add: entries_ok_def)
  ultimately show "n \<le> highestApplied r es"
    unfolding highestApplied_def using e(2) by (intro foldl_max(2)) force
qed

lemma highestApplied_le:
  assumes "entries_ok r es" and "res_startNumber r \<le> res_endNumber r"
  shows "highestApplied r es \<le> res_endNumber r"
proof -
  have "ce_number e \<le> res_endNumber r" if "e \<in> set (jvalues es)" for e
  proof -
    have d: "distinct (map fst es)"
      using assms(1) by (simp add: entries_ok_def)
    from that obtain n where n: "jget es n = Some e"
      using in_jvalues [OF d] by auto
    with assms(1) entries_ok_dom [OF assms(1), of n] show ?thesis
      by (auto simp: entries_ok_def)
  qed
  then show ?thesis
    using foldl_max(3) [of "res_startNumber r - 1"
        "map ce_number (filter (\<lambda>e. ce_status e \<in> {Applied, Claimed_locally}) (jvalues es))"] assms(2)
    by (auto simp: highestApplied_def)
qed

lemma cancelReservation_cases:
  assumes "cancelReservation sc i durable s = (res, s')"
  obtains (Same) "s' = s"
  | (Plain) r where "jget (st_reservations s) (tkey (sc_tenantId sc) i) = Some r" "res_status r = Reserved"
      "\<not> durable" "\<not> sc_ctg9 sc" "res = Inr (r\<lparr>res_status := Cancelled\<rparr>)"
      "s' = s\<lparr>st_reservations := jset (tkey (sc_tenantId sc) i) (r\<lparr>res_status := Cancelled\<rparr>)
         (st_reservations s)\<rparr>"
  | (Return) r es where "jget (st_reservations s) (tkey (sc_tenantId sc) i) = Some r"
      "res_status r = Reserved" "durable \<or> sc_ctg9 sc" "res = Inr (r\<lparr>res_status := Cancelled\<rparr>)"
      "jget (st_consumption s) (tkey (sc_tenantId sc) i) = Some es"
      "s' = s\<lparr>st_reservations := jset (tkey (sc_tenantId sc) i) (r\<lparr>res_status := Cancelled\<rparr>)
           (st_reservations s),
         st_ranges := returnTail (tkey (sc_tenantId sc) (res_rangeId r)) r es (st_ranges s),
         st_consumption := jset (tkey (sc_tenantId sc) i) (finishAvailable Num_expired es)
           (st_consumption s)\<rparr>"
  | (Broken) "jget (st_consumption s) (tkey (sc_tenantId sc) i) = None"
      "jget (st_reservations s) (tkey (sc_tenantId sc) i) \<noteq> None"
proof (cases "jget (st_reservations s) (tkey (sc_tenantId sc) i)")
  case None
  with assms show thesis
    by (intro Same) (simp add: cancelReservation_def)
next
  case (Some r)
  show thesis
  proof (cases "res_status r = Reserved \<and> (durable \<or> legacyReservation r = Inr r)")
    case False
    with assms Some show thesis
      by (intro Same) (auto simp: cancelReservation_def legacyReservation_def Let_def split: if_splits)
  next
    case True
    then have rs: "res_status r = Reserved" "(if durable then Inr r else legacyReservation r) = Inr r"
      by auto
    show thesis
    proof (cases "durable \<or> sc_ctg9 sc")
      case False
      with assms Some rs show thesis
        by (intro Plain) (auto simp: cancelReservation_def Let_def split: sum.splits)
    next
      case True
      show thesis
      proof (cases "jget (st_consumption s) (tkey (sc_tenantId sc) i)")
        case None
        with Some show thesis by (intro Broken) simp_all
      next
        case (Some es)
        with assms \<open>jget (st_reservations s) _ = Some r\<close> rs True show thesis
          by (intro Return [of r es]) (auto simp: cancelReservation_def Let_def split: sum.splits)
      qed
    qed
  qed
qed

lemma returnTail_inv:
  assumes inv: "ninv E u rgs ress cons" and r: "jget ress k = Some r" and es: "jget cons k = Some es"
    and st: "res_status r = Reserved"
  shows "ninv E u (returnTail (tkey (res_tenantId r) (res_rangeId r)) r es rgs)
    (jset k (r\<lparr>res_status := Cancelled\<rparr>) ress) (jset k (finishAvailable Num_expired es) cons)"
proof -
  let ?ress = "jset k (r\<lparr>res_status := Cancelled\<rparr>) ress"
  let ?cons = "jset k (finishAvailable Num_expired es) cons"
  from ninvD_res(4) [OF inv r] obtain rg where ok: "entries_ok r es"
    and rg: "jget rgs (tkey (res_tenantId r) (res_rangeId r)) = Some rg"
      "rng_startNumber rg \<le> res_startNumber r" "res_endNumber r \<le> rng_endNumber rg"
      "res_startNumber r \<le> res_endNumber r"
    using es by (auto elim!: reservation_okE)
  have n1: "ninv E u rgs ?ress ?cons"
    by (rule ninv_entries [OF inv r es refl])
      (auto intro: entries_ok_finishAvailable ok held_finishAvailable)
  let ?rg = "rg\<lparr>rng_nextNumber := highestApplied r es + 1, rng_status := Range_active\<rparr>"
  have "ninv E u (jset (tkey (res_tenantId r) (res_rangeId r)) ?rg rgs) ?ress ?cons"
    if tail: "rng_nextNumber rg = res_endNumber r + 1"
  proof (rule ninv_range [OF n1 rg(1)])
    show "range_ok ?rg"
      using ninvD_range(4) [OF inv rg(1)] rg highestApplied_ge(1) [OF ok] highestApplied_le [OF ok rg(4)]
      by (simp add: range_ok_def)
    fix k' r' es' n
    assume k': "jget ?ress k' = Some r'" "tkey (res_tenantId r') (res_rangeId r')
        = tkey (res_tenantId r) (res_rangeId r)" "jget ?cons k' = Some es'" "held es' n"
    show "n < rng_nextNumber ?rg"
    proof (cases "k' = k")
      case True
      with k' obtain e where e: "jget es n = Some e" "ce_status e \<noteq> Num_expired" "ce_status e \<noteq> Available"
        by (auto simp: held_finishAvailable_expired)
      moreover have "ce_status e \<noteq> Num_blocked"
        using ok st e(1) by (simp add: entries_ok_def)
      ultimately have "ce_status e \<in> {Applied, Claimed_locally}"
        by (cases "ce_status e") auto
      with e(1) show ?thesis
        using highestApplied_ge(2) [OF ok] by simp
    next
      case False
      with k' have k0: "jget ress k' = Some r'" "jget cons k' = Some es'" by simp_all
      have t: "res_tenantId r' = res_tenantId r" "res_rangeId r' = res_rangeId r"
        using k'(2) ninvD_res(2) [OF inv k0(1)] ninvD_res(2) [OF inv r]
        by (simp_all add: tkey_inject tenant_ok_def)
      have "n < rng_nextNumber rg"
        using ninvD_held_next [OF inv k0(1,2) k'(4)] t rg(1) by simp
      moreover have "\<not> held es n"
        using ninvD_disjoint [OF inv k0(1) r False t k0(2) es k'(4)] .
      ultimately have "n < res_startNumber r"
        using reserved_all_held [OF ok st, of n] tail by fastforce
      then show ?thesis
        using highestApplied_ge(1) [OF ok] by simp
    qed
  qed simp_all
  with n1 rg(1) show ?thesis
    by (simp add: returnTail_def)
qed

lemma cancelReservation_inv:
  assumes "cancelReservation sc i durable s = (res, s')" and "numbering_inv E s"
    and "tenant_ok (sc_tenantId sc)"
  shows "numbering_inv E s'"
proof -
  have inv: "ninv E (st_uuids s) (st_ranges s) (st_reservations s) (st_consumption s)"
    using assms(2) by (simp add: numbering_inv_def)
  have consumption: "\<exists>es. jget (st_consumption s) k = Some es \<and> entries_ok r es"
    if "jget (st_reservations s) k = Some r" for k r
    using ninvD_res(4) [OF inv that] by (auto elim: reservation_okE)
  from assms(1) show ?thesis
  proof (cases rule: cancelReservation_cases)
    case Same
    then show ?thesis using assms(2) by simp
  next
    case (Plain r)
    from consumption [OF Plain(1)] obtain es where es:
      "jget (st_consumption s) (tkey (sc_tenantId sc) i) = Some es" "entries_ok r es" by blast
    have "ninv E (st_uuids s) (st_ranges s)
        (jset (tkey (sc_tenantId sc) i) (r\<lparr>res_status := Cancelled\<rparr>) (st_reservations s))
        (jset (tkey (sc_tenantId sc) i) es (st_consumption s))"
      by (rule ninv_entries [OF inv Plain(1) es(1) refl]) (use es(2) in \<open>auto simp: entries_ok_def\<close>)
    then show ?thesis
      using es(1) by (simp add: Plain(6) numbering_inv_def AList.update_triv)
  next
    case (Return r es)
    have "res_tenantId r = sc_tenantId sc"
      using ninvD_res(1,2) [OF inv Return(1)] assms(3) by (simp add: tkey_inject tenant_ok_def)
    with returnTail_inv [OF inv Return(1,5,2)] show ?thesis
      by (simp add: Return(6) numbering_inv_def)
  next
    case Broken
    then show ?thesis using consumption by fastforce
  qed
qed

subsection \<open>Transitions\<close>

lemma transitionReservation_cases:
  assumes "transitionReservation sc i status now s = (res, s')"
  obtains (Same) "s' = s"
  | (Change) r es where "jget (st_reservations s) (tkey (sc_tenantId sc) i) = Some r"
      "res_status r \<in> {Reserved, Expired}" "res_status r \<noteq> status"
      "jget (st_consumption s) (tkey (sc_tenantId sc) i) = Some es"
      "res = Inr (r\<lparr>res_status := status\<rparr>)"
      "s' = s\<lparr>st_reservations := jset (tkey (sc_tenantId sc) i) (r\<lparr>res_status := status\<rparr>)
           (st_reservations s),
         st_consumption := jset (tkey (sc_tenantId sc) i)
           (finishAvailable (if status = Blocked then Num_blocked else Num_expired) es)
           (st_consumption s)\<rparr>"
  | (Broken) "jget (st_consumption s) (tkey (sc_tenantId sc) i) = None"
      "jget (st_reservations s) (tkey (sc_tenantId sc) i) \<noteq> None"
proof (cases "jget (st_reservations s) (tkey (sc_tenantId sc) i)")
  case None
  with assms show thesis
    by (intro Same) (simp add: transitionReservation_def Let_def)
next
  case (Some r)
  let ?adm = "if status = Blocked \<and> nan_gt (date_parse (res_validUntil r)) (date_parse now)
    then assertReservationAdmission (sc_tenantId sc) (res_deviceId r) (res_shiftId r) now
      (case jget (st_reservationOrigins s) (tkey (sc_tenantId sc) i) of Some Ctg9 \<Rightarrow> Ctg9 | _ \<Rightarrow> E6) (Some i) s
    else Inr ()"
  show thesis
  proof (cases "res_status r \<in> {Reserved, Expired} \<and> res_status r \<noteq> status \<and> (\<exists>x. ?adm = Inr x)")
    case False
    with assms Some show thesis
      by (intro Same) (auto simp: transitionReservation_def Let_def split: sum.splits if_splits)
  next
    case True
    show thesis
    proof (cases "jget (st_consumption s) (tkey (sc_tenantId sc) i)")
      case None
      with Some show thesis by (intro Broken) simp_all
    next
      case (Some es)
      from True obtain x where "?adm = Inr x" by blast
      with assms \<open>jget (st_reservations s) _ = Some r\<close> Some True show thesis
        by (intro Change [of r es]) (auto simp: transitionReservation_def Let_def)
    qed
  qed
qed

lemma transitionReservation_inv:
  assumes "transitionReservation sc i status now s = (res, s')" and "numbering_inv E s"
    and "status \<in> {Blocked, Consumed}"
  shows "numbering_inv E s'"
proof -
  have inv: "ninv E (st_uuids s) (st_ranges s) (st_reservations s) (st_consumption s)"
    using assms(2) by (simp add: numbering_inv_def)
  from assms(1) show ?thesis
  proof (cases rule: transitionReservation_cases)
    case Same
    then show ?thesis using assms(2) by simp
  next
    case (Change r es)
    have "entries_ok r es"
      using ninvD_res(4) [OF inv Change(1)] Change(4) by (auto elim: reservation_okE)
    then show ?thesis
      unfolding Change(6) numbering_inv_def using assms(3)
      by (auto intro!: ninv_entries [OF inv Change(1,4) refl] entries_ok_finishAvailable
          dest: held_finishAvailable)
  next
    case Broken
    then show ?thesis
      using ninvD_res(4) [OF inv] by (fastforce elim: reservation_okE)
  qed
qed

subsection \<open>Reconciliation\<close>

lemma fst_jset_known: "jget m k \<noteq> None \<Longrightarrow> map fst (jset k v m) = map fst m"
  by (induction m) auto

lemma fst_claimEntry [simp]: "map fst (claimEntry n es) = map fst es"
  by (simp add: claimEntry_def fst_jset_known split: option.split)

lemma jget_claimEntry:
  "jget (claimEntry n es) m = (if m = n
     then map_option (\<lambda>e. if ce_status e = Available then e\<lparr>ce_status := Claimed_locally\<rparr> else e) (jget es n)
     else jget es m)"
  by (simp add: claimEntry_def split: option.split)

lemma fst_fold_claimEntry [simp]: "map fst (fold claimEntry ns es) = map fst es"
  by (induction ns arbitrary: es) simp_all

lemma jget_fold_claimEntry:
  "jget (fold claimEntry ns es) m =
     map_option (\<lambda>e. if m \<in> set ns \<and> ce_status e = Available then e\<lparr>ce_status := Claimed_locally\<rparr> else e)
       (jget es m)"
  by (induction ns arbitrary: es) (auto simp: jget_claimEntry option.map_comp comp_def map_option_idI
      intro!: map_option_cong)

lemma held_fold_claimEntry: "held (fold claimEntry ns es) n \<longleftrightarrow> held es n"
  by (cases "jget es n") (auto simp: held_def jget_fold_claimEntry)

lemma entries_ok_fold_claimEntry: "entries_ok r es \<Longrightarrow> entries_ok r (fold claimEntry ns es)"
  by (auto simp: entries_ok_def jget_fold_claimEntry)

lemma recordReconciliation_state:
  assumes "recordReconciliation E sc i input now at claimed fp r es s = (res, s')"
  shows "st_ranges s' = st_ranges s" "st_reservations s' = st_reservations s"
    "st_consumption s' = jset (tkey (sc_tenantId sc) i)
       (if res_status r = Reserved then fold claimEntry claimed es else es) (st_consumption s)"
    "st_uuids s' = Suc (st_uuids s)"
  using assms by (auto simp: recordReconciliation_def drawUUID_def Let_def split: sum.splits)

lemma reconcileNumberingReservation_cases:
  assumes "reconcileNumberingReservation E sc i input now s = (res, s')"
  obtains (Same) "s' = s"
  | (Record) r es at claimed fp where "jget (st_reservations s) (tkey (sc_tenantId sc) i) = Some r"
      "jget (st_consumption s) (tkey (sc_tenantId sc) i) = Some es"
      "readInstant now = Inr at" "reconciliationRequest E sc input = Inr (claimed, fp)"
      "list_all (\<lambda>n. jget es n \<noteq> None) claimed"
      "recordReconciliation E sc i input now at claimed fp r es s = (res, s')"
  using assms
  by (simp add: reconcileNumberingReservation_def Let_def split: sum.splits prod.splits option.splits
      if_splits)

lemma reconcileNumberingReservation_inv:
  assumes "reconcileNumberingReservation E sc i input now s = (res, s')" and "numbering_inv E s"
  shows "numbering_inv E s'"
  using assms(1)
proof (cases rule: reconcileNumberingReservation_cases)
  case Same
  then show ?thesis using assms(2) by simp
next
  case (Record r es at claimed fp)
  let ?es = "if res_status r = Reserved then fold claimEntry claimed es else es"
  have inv: "ninv E (Suc (st_uuids s)) (st_ranges s) (st_reservations s) (st_consumption s)"
    using assms(2) by (auto simp: numbering_inv_def intro: ninv_mono)
  have ok: "entries_ok r es"
    using ninvD_res(4) [OF inv Record(1)] Record(2) by (auto elim: reservation_okE)
  have "ninv E (Suc (st_uuids s)) (st_ranges s) (jset (tkey (sc_tenantId sc) i) r (st_reservations s))
      (jset (tkey (sc_tenantId sc) i) ?es (st_consumption s))"
    by (rule ninv_entries [OF inv Record(1,2), where st = "res_status r"])
      (auto simp: ok entries_ok_fold_claimEntry held_fold_claimEntry split: if_splits)
  then show ?thesis
    using recordReconciliation_state [OF Record(6)] Record(1)
    by (simp add: numbering_inv_def AList.update_triv)
qed

subsection \<open>Using a number\<close>

text \<open>An entry that is still open for use becomes applied.\<close>

lemma entries_ok_apply:
  assumes "entries_ok r es" and "jget es n = Some e"
  shows "entries_ok r (jset n (e\<lparr>ce_status := Applied, ce_serverEntityId := x, ce_finalizedAt := y\<rparr>) es)"
  using assms by (simp add: entries_ok_def fst_jset_known)

lemma checkNumber_Inr:
  assumes "checkNumber sc dev org ent n rid created s = Inr k"
  obtains r where "(k, r) \<in> set (st_reservations s)" "coversNumber sc dev org ent n rid s (k, r)"
    "res_status r = Reserved" "entryStatus s k n \<noteq> Some Applied"
    "\<not> nan_lt (date_parse (res_validUntil r)) (date_parse created)"
    "\<And>k' r'. (k', r') \<in> set (st_reservations s) \<Longrightarrow> coversNumber sc dev org ent n rid s (k', r') \<Longrightarrow> k' = k"
proof -
  from assms obtain r where r: "filter (coversNumber sc dev org ent n rid s) (st_reservations s) = [(k, r)]"
    "res_status r = Reserved" "entryStatus s k n \<noteq> Some Applied"
    "\<not> nan_lt (date_parse (res_validUntil r)) (date_parse created)"
    by (auto simp: checkNumber_def split: list.splits if_splits)
  have m: "p \<in> set (st_reservations s) \<and> coversNumber sc dev org ent n rid s p \<longleftrightarrow> p \<in> set [(k, r)]" for p
    unfolding r(1) [symmetric] by auto
  show thesis
    by (rule that [OF _ _ r(2-4)]) (use m in auto)+
qed

lemma recordApplied_inv:
  assumes "numbering_inv E s" and "checkNumber sc dev org ent n rid created s = Inr k"
  shows "numbering_inv E (recordApplied k n serverEntityId now s)"
proof -
  have inv: "ninv E (st_uuids s) (st_ranges s) (st_reservations s) (st_consumption s)"
    using assms(1) by (simp add: numbering_inv_def)
  from assms(2) obtain r where r: "(k, r) \<in> set (st_reservations s)"
      "coversNumber sc dev org ent n rid s (k, r)" "res_status r = Reserved"
    by (rule checkNumber_Inr)
  from r(1) have kr: "jget (st_reservations s) k = Some r"
    using ninvD_wf [OF inv] by simp
  then obtain es where es: "jget (st_consumption s) k = Some es" "entries_ok r es"
    using ninvD_res(4) [OF inv kr] by (auto elim: reservation_okE)
  moreover have "res_startNumber r \<le> n" "n \<le> res_endNumber r"
    using r(2) by (simp_all add: coversNumber_def)
  ultimately obtain e where e: "jget es n = Some e" "held es n"
    using reserved_all_held [OF es(2) r(3), of n] by (auto simp: held_def)
  let ?es = "jset n (e\<lparr>ce_status := Applied, ce_serverEntityId := Some serverEntityId,
    ce_finalizedAt := Some now\<rparr>) es"
  have "ninv E (st_uuids s) (st_ranges s) (jset k r (st_reservations s)) (jset k ?es (st_consumption s))"
    by (rule ninv_entries [OF inv kr es(1), where st = "res_status r"])
      (use es(2) e in \<open>auto simp: entries_ok_apply held_def split: if_splits\<close>)
  then show ?thesis
    using es(1) e(1) kr by (simp add: recordApplied_def numbering_inv_def AList.update_triv)
qed

end
