(* ===== verification/Offline_Numbering_Runs.thy ===== *)
theory Offline_Numbering_Runs
  imports Offline_Numbering_Inv Transition_System
begin

text \<open>
  Runs of the numbering operations: the step relation \<open>numbering_step\<close> has one rule per operation of the
  store (every caller of the store is one of them), with the guards of the callers: a tenant identifier
  without a colon, and at least one number per reservation (\<open>offline-sync.service.ts\<close> refuses less).
  \<open>numbering_full_inv\<close> is invariant and every step respects \<open>numbering_le\<close>: reservations are never
  dropped or renumbered, final states are final, used numbers stay used, cancelled ranges stay cancelled,
  and idempotency keys stay bound.
\<close>

inductive numbering_step ::
  "env \<Rightarrow> 'a numbering_store_scheme \<Rightarrow> 'a numbering_store_scheme \<Rightarrow> bool" for E where
  create: "createNumberingRange E sc input now s = Inr (rg, t) \<Longrightarrow> tenant_ok (sc_tenantId sc)
     \<Longrightarrow> numbering_step E s t"
| cancel_range: "cancelNumberingRange sc i reason now s = Inr (rg, t) \<Longrightarrow> tenant_ok (sc_tenantId sc)
     \<Longrightarrow> numbering_step E s t"
| reserve: "allocateReservation E sc input now dv orig s = Inr (r, t) \<Longrightarrow> tenant_ok (sc_tenantId sc)
     \<Longrightarrow> 1 \<le> rni_requestedSize input \<Longrightarrow> numbering_step E s t"
| cancel: "cancelReservation sc i durable s = (res, t) \<Longrightarrow> tenant_ok (sc_tenantId sc)
     \<Longrightarrow> numbering_step E s t"
| transition: "transitionReservation sc i status now s = (res, t) \<Longrightarrow> status \<in> {Blocked, Consumed}
     \<Longrightarrow> tenant_ok (sc_tenantId sc) \<Longrightarrow> numbering_step E s t"
| reconcile: "reconcileNumberingReservation E sc i rin now s = (rres, t) \<Longrightarrow> tenant_ok (sc_tenantId sc)
     \<Longrightarrow> numbering_step E s t"
| use_number: "checkNumber sc dev org ent n rid created s = Inr k \<Longrightarrow> t = recordApplied k n entity now s
     \<Longrightarrow> numbering_step E s t"
| draw: "t = s\<lparr>st_uuids := u\<rparr> \<Longrightarrow> st_uuids s \<le> u \<Longrightarrow> numbering_step E s t"

definition keys_bound :: "'a numbering_store_scheme \<Rightarrow> bool" where
  "keys_bound s \<longleftrightarrow> (\<forall>k fp rid. jget (st_reservationKeys s) k = Some (fp, rid) \<longrightarrow>
     (\<exists>t ik. tenant_ok t \<and> k = tkey t ik \<and> jget (st_reservations s) (tkey t rid) \<noteq> None))"

definition consumption_bound :: "'a numbering_store_scheme \<Rightarrow> bool" where
  "consumption_bound s \<longleftrightarrow>
     (\<forall>k. jget (st_consumption s) k \<noteq> None \<longrightarrow> jget (st_reservations s) k \<noteq> None)"

definition range_scope :: "numbering_range \<Rightarrow> string \<times> string \<times> string \<times> string" where
  "range_scope rg = (rng_tenantId rg, rng_orgUnitId rg, rng_entityType rg, rng_series rg)"

definition scopes_unique :: "'a numbering_store_scheme \<Rightarrow> bool" where
  "scopes_unique s \<longleftrightarrow> (\<forall>k1 k2 r1 r2. jget (st_ranges s) k1 = Some r1 \<longrightarrow> jget (st_ranges s) k2 = Some r2
     \<longrightarrow> range_scope r1 = range_scope r2 \<longrightarrow> k1 = k2)"

definition numbering_full_inv :: "env \<Rightarrow> 'a numbering_store_scheme \<Rightarrow> bool" where
  "numbering_full_inv E s \<longleftrightarrow>
     inj (env_randomUUID E) \<and> numbering_inv E s \<and> keys_bound s \<and> consumption_bound s \<and> scopes_unique s"

text \<open>The store as it starts: ranges at most, seeded with consistent numbers and scopes.\<close>

definition numbering_init :: "env \<Rightarrow> 'a numbering_store_scheme \<Rightarrow> bool" where
  "numbering_init E s \<longleftrightarrow> inj (env_randomUUID E) \<and> st_reservations s = [] \<and> st_consumption s = [] \<and> st_reservationKeys s = []
     \<and> jwf (st_ranges s) \<and> scopes_unique s
     \<and> list_all (\<lambda>(k, rg). k = tkey (rng_tenantId rg) (rng_id rg) \<and> tenant_ok (rng_tenantId rg)
         \<and> range_ok rg) (st_ranges s)
     \<and> (\<forall>rg \<in> set (jvalues (st_ranges s)). past_id E (st_uuids s) (rng_id rg))"

lemma numbering_init_inv: "numbering_init E s \<Longrightarrow> numbering_full_inv E s"
  by (force simp: numbering_init_def numbering_full_inv_def numbering_inv_def ninv_def keys_bound_def
      consumption_bound_def list_all_iff jvalues_def dest: jget_in_set)

subsection \<open>The order of states\<close>

definition final_entry :: "consumption_entry \<Rightarrow> bool" where
  "final_entry e \<longleftrightarrow> ce_status e \<in> {Applied, Num_blocked, Num_expired}"

definition res_le :: "reservation \<Rightarrow> reservation \<Rightarrow> bool" where
  "res_le r r' \<longleftrightarrow> r' = r\<lparr>res_status := res_status r'\<rparr>
     \<and> (res_status r \<in> {Cancelled, Blocked, Consumed} \<longrightarrow> res_status r' = res_status r)"

definition reservations_le :: "(string, reservation) jsmap \<Rightarrow> (string, reservation) jsmap \<Rightarrow> bool" where
  "reservations_le m m' \<longleftrightarrow> (\<forall>k r. jget m k = Some r \<longrightarrow> (\<exists>r'. jget m' k = Some r' \<and> res_le r r'))"

definition consumption_le ::
  "(string, (int, consumption_entry) jsmap) jsmap \<Rightarrow> (string, (int, consumption_entry) jsmap) jsmap \<Rightarrow> bool" where
  "consumption_le m m' \<longleftrightarrow> (\<forall>k es n e. jget m k = Some es \<longrightarrow> jget es n = Some e \<longrightarrow> final_entry e \<longrightarrow>
     (\<exists>es'. jget m' k = Some es' \<and> jget es' n = Some e))"

definition ranges_le :: "(string, numbering_range) jsmap \<Rightarrow> (string, numbering_range) jsmap \<Rightarrow> bool" where
  "ranges_le m m' \<longleftrightarrow> (\<forall>k rg. jget m k = Some rg \<longrightarrow>
     (\<exists>rg'. jget m' k = Some rg' \<and> range_scope rg' = range_scope rg \<and> rng_id rg' = rng_id rg
       \<and> rng_startNumber rg' = rng_startNumber rg \<and> rng_endNumber rg' = rng_endNumber rg
       \<and> (rng_status rg = Range_cancelled \<longrightarrow> rg' = rg)))"

definition numbering_le :: "'a numbering_store_scheme \<Rightarrow> 'a numbering_store_scheme \<Rightarrow> bool" where
  "numbering_le s t \<longleftrightarrow>
     reservations_le (st_reservations s) (st_reservations t)
     \<and> consumption_le (st_consumption s) (st_consumption t)
     \<and> ranges_le (st_ranges s) (st_ranges t)
     \<and> (\<forall>k v. jget (st_reservationKeys s) k = Some v \<longrightarrow> jget (st_reservationKeys t) k = Some v)"

lemma res_le_refl [simp]: "res_le r r"
  by (simp add: res_le_def)

lemma res_le_status [simp]: "res_status r \<in> {Reserved, Expired} \<Longrightarrow> res_le r (r\<lparr>res_status := st\<rparr>)"
  by (auto simp: res_le_def)

lemma res_le_trans: "res_le a b \<Longrightarrow> res_le b c \<Longrightarrow> res_le a c"
  unfolding res_le_def by (cases a, cases b, cases c) auto

lemma reservations_le_refl [simp]: "reservations_le m m"
  by (simp add: reservations_le_def)

lemma consumption_le_refl [simp]: "consumption_le m m"
  by (simp add: consumption_le_def)

lemma ranges_le_refl [simp]: "ranges_le m m"
  by (simp add: ranges_le_def)

lemma numbering_le_refl [simp]: "numbering_le s s"
  by (simp add: numbering_le_def)

lemma reservations_le_trans: "reservations_le a b \<Longrightarrow> reservations_le b c \<Longrightarrow> reservations_le a c"
  unfolding reservations_le_def by (blast intro: res_le_trans)

lemma consumption_le_trans: "consumption_le a b \<Longrightarrow> consumption_le b c \<Longrightarrow> consumption_le a c"
  unfolding consumption_le_def by blast

lemma ranges_le_trans: "ranges_le a b \<Longrightarrow> ranges_le b c \<Longrightarrow> ranges_le a c"
  unfolding ranges_le_def by fastforce

lemma numbering_le_trans: "numbering_le a b \<Longrightarrow> numbering_le b c \<Longrightarrow> numbering_le a c"
  unfolding numbering_le_def
  using reservations_le_trans consumption_le_trans ranges_le_trans by blast

subsection \<open>Every step follows the order\<close>

lemma reservations_le_new: "jget m k = None \<Longrightarrow> reservations_le m (jset k r m)"
  by (auto simp: reservations_le_def)

lemma reservations_le_status:
  "jget m k = Some r \<Longrightarrow> res_status r \<in> {Reserved, Expired} \<Longrightarrow> reservations_le m (jset k (r\<lparr>res_status := st\<rparr>) m)"
  by (auto simp: reservations_le_def)

lemma consumption_le_new: "jget m k = None \<Longrightarrow> consumption_le m (jset k es m)"
  by (auto simp: consumption_le_def)

lemma consumption_le_entries:
  "jget m k = Some es \<Longrightarrow> (\<And>n e. jget es n = Some e \<Longrightarrow> final_entry e \<Longrightarrow> jget es' n = Some e)
    \<Longrightarrow> consumption_le m (jset k es' m)"
  by (auto simp: consumption_le_def)

lemma ranges_le_new: "jget m k = None \<Longrightarrow> ranges_le m (jset k rg m)"
  by (auto simp: ranges_le_def)

lemma ranges_le_change:
  "jget m k = Some rg \<Longrightarrow> rng_status rg \<noteq> Range_cancelled \<Longrightarrow> range_scope rg' = range_scope rg
   \<Longrightarrow> rng_id rg' = rng_id rg \<Longrightarrow> rng_startNumber rg' = rng_startNumber rg
   \<Longrightarrow> rng_endNumber rg' = rng_endNumber rg \<Longrightarrow> ranges_le m (jset k rg' m)"
  by (auto simp: ranges_le_def)

lemma ninv_fresh_range:
  assumes "ninv E u rgs ress cons" and "tenant_ok t"
  shows "jget rgs (tkey t (env_randomUUID E u)) = None"
proof (rule ccontr)
  assume "jget rgs (tkey t (env_randomUUID E u)) \<noteq> None"
  then obtain rg where rg: "jget rgs (tkey t (env_randomUUID E u)) = Some rg"
    by auto
  with ninvD_range(1,2) [OF assms(1) rg] assms(2) have "rng_id rg = env_randomUUID E u"
    by (simp add: tkey_inject tenant_ok_def)
  with ninvD_range(3) [OF assms(1) rg] show False
    by (auto simp: past_id_def)
qed

lemma create_le:
  assumes "createNumberingRange E sc original now s = Inr (rg, t)" and "numbering_inv E s"
    and "tenant_ok (sc_tenantId sc)"
  shows "numbering_le s t"
proof -
  have keys: "st_reservationKeys t = st_reservationKeys s"
    using assms(1) by (auto simp: createNumberingRange_def drawUUID_def Let_def
        split: option.splits if_splits)
  from assms(1) show ?thesis
  proof (cases rule: createNumberingRange_cases)
    case (Create input fp at)
    have "jget (st_ranges s) (tkey (sc_tenantId sc) (rng_id rg)) = None"
      using ninv_fresh_range [OF assms(2) [unfolded numbering_inv_def] assms(3)] Create(4)
      by (simp add: newRange_def)
    with Create keys show ?thesis
      by (simp add: numbering_le_def ranges_le_new)
  qed simp
qed

lemma cancel_range_le:
  assumes "cancelNumberingRange sc i reason now s = Inr (rg, t)"
  shows "numbering_le s t"
  using assms
proof (cases rule: cancelNumberingRange_cases)
  case (Cancel rg0 at)
  then show ?thesis
    by (simp add: numbering_le_def) (rule ranges_le_change [OF Cancel(1)], simp_all add: range_scope_def)
qed simp

lemma reserve_le:
  assumes "allocateReservation E sc input now dv orig s = Inr (r, t)" and "numbering_full_inv E s"
    and "tenant_ok (sc_tenantId sc)"
  shows "numbering_le s t"
  using assms(1)
proof (cases rule: allocateReservation_cases)
  case (Take rg)
  have inv: "ninv E (st_uuids s) (st_ranges s) (st_reservations s) (st_consumption s)"
    and kb: "keys_bound s" and cb: "consumption_bound s"
    using assms(2) by (auto simp: numbering_full_inv_def numbering_inv_def)
  note st = takeNumbers_state [OF Take(9) [symmetric]]
  note rg = find_range [OF inv Take(4)]
  let ?k = "tkey (sc_tenantId sc) (env_randomUUID E (st_uuids s))"
  have new: "jget (st_reservations s) ?k = None"
    by (rule ninv_fresh_reservation [OF inv assms(3)])
  then have "jget (st_consumption s) ?k = None"
    using cb unfolding consumption_bound_def by metis
  moreover have "jget (st_reservationKeys s) (tkey (sc_tenantId sc) ik) = None"
    if "rni_idempotencyKey input = Some ik" for ik
  proof (rule ccontr)
    assume "jget (st_reservationKeys s) (tkey (sc_tenantId sc) ik) \<noteq> None"
    then obtain fp rid where v: "jget (st_reservationKeys s) (tkey (sc_tenantId sc) ik) = Some (fp, rid)"
      by auto
    with kb obtain u where "jget (st_reservations s) (tkey u rid) \<noteq> None" "tenant_ok u"
      "\<exists>ik'. tkey (sc_tenantId sc) ik = tkey u ik'"
      unfolding keys_bound_def by blast
    with assms(3) have "jget (st_reservations s) (tkey (sc_tenantId sc) rid) \<noteq> None"
      by (auto simp: tkey_inject tenant_ok_def)
    with Take(1) v that show False
      by (auto simp: replayReservation_def split: if_splits)
  qed
  ultimately show ?thesis
    using new Take(5) rg(1)
    by (auto simp: numbering_le_def st reservations_le_new consumption_le_new range_scope_def
        intro!: ranges_le_change [OF rg(1)] split: option.splits)
qed simp

lemma cancel_le:
  assumes "cancelReservation sc i durable s = (res, t)" and "numbering_inv E s"
  shows "numbering_le s t"
  using assms(1)
proof (cases rule: cancelReservation_cases)
  case (Plain r)
  then show ?thesis
    by (simp add: numbering_le_def reservations_le_status)
next
  case (Return r es)
  have "ranges_le (st_ranges s) (returnTail (tkey (sc_tenantId sc) (res_rangeId r)) r es (st_ranges s))"
    by (auto simp: returnTail_def range_scope_def intro!: ranges_le_change split: option.splits)
  moreover have "consumption_le (st_consumption s) (jset (tkey (sc_tenantId sc) i)
      (finishAvailable Num_expired es) (st_consumption s))"
    by (rule consumption_le_entries [OF Return(5)]) (auto simp: jget_finishAvailable final_entry_def)
  ultimately show ?thesis
    using Return(1,2) by (simp add: Return(6) numbering_le_def reservations_le_status)
next
  case Broken
  then show ?thesis
    using assms(2) ninvD_res(4) by (fastforce simp: numbering_inv_def elim: reservation_okE)
qed simp

lemma transition_le:
  assumes "transitionReservation sc i status now s = (res, t)" and "numbering_inv E s"
  shows "numbering_le s t"
  using assms(1)
proof (cases rule: transitionReservation_cases)
  case (Change r es)
  have "consumption_le (st_consumption s) (jset (tkey (sc_tenantId sc) i)
      (finishAvailable (if status = Blocked then Num_blocked else Num_expired) es) (st_consumption s))"
    by (rule consumption_le_entries [OF Change(4)]) (auto simp: jget_finishAvailable final_entry_def)
  with Change(1,2) show ?thesis
    by (simp add: Change(6) numbering_le_def reservations_le_status)
next
  case Broken
  then show ?thesis
    using assms(2) ninvD_res(4) by (fastforce simp: numbering_inv_def elim: reservation_okE)
qed simp

lemma reconcile_le:
  assumes "reconcileNumberingReservation E sc i input now s = (res, t)"
  shows "numbering_le s t"
  using assms
proof (cases rule: reconcileNumberingReservation_cases)
  case (Record r es at claimed fp)
  have "st_reservationKeys t = st_reservationKeys s"
    using Record(6) by (auto simp: recordReconciliation_def drawUUID_def Let_def split: sum.splits)
  moreover have "consumption_le (st_consumption s) (jset (tkey (sc_tenantId sc) i)
      (if res_status r = Reserved then fold claimEntry claimed es else es) (st_consumption s))"
    by (rule consumption_le_entries [OF Record(2)])
      (auto simp: jget_fold_claimEntry final_entry_def)
  ultimately show ?thesis
    by (simp add: numbering_le_def recordReconciliation_state [OF Record(6)])
qed simp

lemma use_number_le:
  assumes "checkNumber sc dev org ent n rid created s = Inr k" and "numbering_inv E s"
  shows "numbering_le s (recordApplied k n entity now s)"
proof -
  have inv: "ninv E (st_uuids s) (st_ranges s) (st_reservations s) (st_consumption s)"
    using assms(2) by (simp add: numbering_inv_def)
  from assms(1) obtain r where r: "(k, r) \<in> set (st_reservations s)" "res_status r = Reserved"
      "entryStatus s k n \<noteq> Some Applied"
    by (rule checkNumber_Inr)
  then have kr: "jget (st_reservations s) k = Some r"
    using ninvD_wf [OF inv] by simp
  have "consumption_le (st_consumption s) (jset k (jset n (e\<lparr>ce_status := Applied,
        ce_serverEntityId := Some entity, ce_finalizedAt := Some now\<rparr>) es) (st_consumption s))"
    if es: "jget (st_consumption s) k = Some es" and e: "jget es n = Some e" for es e
  proof (rule consumption_le_entries [OF es])
    have "entries_ok r es"
      using ninvD_res(4) [OF inv kr] es by (auto elim: reservation_okE)
    then have "\<not> final_entry e"
      using r(2,3) es e by (auto simp: entries_ok_def final_entry_def entryStatus_def)
    then show "jget (jset n (e\<lparr>ce_status := Applied, ce_serverEntityId := Some entity,
        ce_finalizedAt := Some now\<rparr>) es) m = Some e'"
      if "jget es m = Some e'" "final_entry e'" for m e'
      using that e by auto
  qed
  then show ?thesis
    by (auto simp: numbering_le_def recordApplied_def split: option.splits)
qed

lemma numbering_step_le: "numbering_full_inv E s \<Longrightarrow> numbering_step E s t \<Longrightarrow> numbering_le s t"
  by (erule numbering_step.cases)
    (auto simp: numbering_full_inv_def intro: create_le cancel_range_le reserve_le cancel_le transition_le
      reconcile_le use_number_le, auto simp: numbering_le_def)

subsection \<open>The full invariant\<close>

text \<open>No new range, reservation key or set of entries.\<close>

definition numbering_frame :: "'a numbering_store_scheme \<Rightarrow> 'a numbering_store_scheme \<Rightarrow> bool" where
  "numbering_frame s t \<longleftrightarrow> st_reservationKeys t = st_reservationKeys s
     \<and> (\<forall>k. jget (st_ranges t) k \<noteq> None \<longrightarrow> jget (st_ranges s) k \<noteq> None)
     \<and> (\<forall>k. jget (st_consumption t) k \<noteq> None \<longrightarrow> jget (st_consumption s) k \<noteq> None)"

lemma frame_refl [simp]: "numbering_frame s s"
  by (simp add: numbering_frame_def)

lemma cancel_range_frame:
  "cancelNumberingRange sc i reason now s = Inr (rg, t) \<Longrightarrow> numbering_frame s t"
  by (erule cancelNumberingRange_cases) (auto simp: numbering_frame_def)

lemma cancel_frame:
  assumes "cancelReservation sc i durable s = (res, t)" and "numbering_inv E s"
  shows "numbering_frame s t"
  using assms(1)
proof (cases rule: cancelReservation_cases)
  case Broken
  then show ?thesis
    using assms(2) ninvD_res(4) by (fastforce simp: numbering_inv_def elim: reservation_okE)
qed (auto simp: numbering_frame_def returnTail_def split: option.splits if_splits)

lemma transition_frame:
  assumes "transitionReservation sc i status now s = (res, t)" and "numbering_inv E s"
  shows "numbering_frame s t"
  using assms(1)
proof (cases rule: transitionReservation_cases)
  case Broken
  then show ?thesis
    using assms(2) ninvD_res(4) by (fastforce simp: numbering_inv_def elim: reservation_okE)
qed (auto simp: numbering_frame_def)

lemma reconcile_frame:
  assumes "reconcileNumberingReservation E sc i input now s = (res, t)"
  shows "numbering_frame s t"
  using assms
proof (cases rule: reconcileNumberingReservation_cases)
  case (Record r es at claimed fp)
  have "st_reservationKeys t = st_reservationKeys s"
    using Record(6) by (auto simp: recordReconciliation_def drawUUID_def Let_def split: sum.splits)
  with Record(2) show ?thesis
    by (auto simp: numbering_frame_def recordReconciliation_state [OF Record(6)])
qed simp

lemma use_number_frame: "numbering_frame s (recordApplied k n entity now s)"
  by (auto simp: numbering_frame_def recordApplied_def split: option.splits)

lemma keys_bound_le:
  assumes "keys_bound s" and "reservations_le (st_reservations s) (st_reservations t)"
    and "st_reservationKeys t = st_reservationKeys s"
  shows "keys_bound t"
  using assms unfolding keys_bound_def reservations_le_def by (metis not_Some_eq)

lemma keys_bound_set:
  assumes "keys_bound (s\<lparr>st_reservationKeys := m\<rparr>)" and "tenant_ok u"
    and "jget (st_reservations s) (tkey u rid) \<noteq> None"
    and "st_reservationKeys s = jset (tkey u ik) (fp, rid) m"
  shows "keys_bound s"
  unfolding keys_bound_def
proof (intro allI impI)
  fix k fp' rid'
  assume k: "jget (st_reservationKeys s) k = Some (fp', rid')"
  show "\<exists>t ik. tenant_ok t \<and> k = tkey t ik \<and> jget (st_reservations s) (tkey t rid') \<noteq> None"
  proof (cases "k = tkey u ik")
    case True
    with k assms(2-4) show ?thesis by auto
  next
    case False
    with k assms(1,4) show ?thesis by (simp add: keys_bound_def)
  qed
qed

lemma consumption_bound_le:
  assumes "consumption_bound s" and "reservations_le (st_reservations s) (st_reservations t)"
    and "\<And>k. jget (st_consumption t) k \<noteq> None \<Longrightarrow> jget (st_consumption s) k \<noteq> None"
  shows "consumption_bound t"
  using assms unfolding consumption_bound_def reservations_le_def by (metis not_Some_eq)

lemma scopes_unique_le:
  assumes "scopes_unique s" and "ranges_le (st_ranges s) (st_ranges t)"
    and "\<And>k. jget (st_ranges t) k \<noteq> None \<Longrightarrow> jget (st_ranges s) k \<noteq> None"
  shows "scopes_unique t"
proof -
  have "\<exists>rg0. jget (st_ranges s) k = Some rg0 \<and> range_scope rg0 = range_scope rg"
    if "jget (st_ranges t) k = Some rg" for k rg
    using assms(2,3) that unfolding ranges_le_def by (metis not_Some_eq option.inject)
  with assms(1) show ?thesis
    unfolding scopes_unique_def by metis
qed

lemma frame_inv:
  assumes "numbering_full_inv E s" and "numbering_le s t" and "numbering_frame s t" and "numbering_inv E t"
  shows "numbering_full_inv E t"
  using assms keys_bound_le [of s t] consumption_bound_le [of s t] scopes_unique_le [of s t]
  unfolding numbering_full_inv_def numbering_le_def numbering_frame_def by simp

lemma create_full_inv:
  assumes "createNumberingRange E sc original now s = Inr (rg, t)" and "numbering_full_inv E s"
    and "tenant_ok (sc_tenantId sc)"
  shows "numbering_full_inv E t"
proof -
  have inv: "numbering_inv E s" and le: "numbering_le s t" and inv': "numbering_inv E t"
    using assms create_le createNumberingRange_inv unfolding numbering_full_inv_def by blast+
  from assms(1) show ?thesis
  proof (cases rule: createNumberingRange_cases)
    case Replay
    then show ?thesis using assms(2) by simp
  next
    case (Create input fp at)
    have keys: "st_reservationKeys t = st_reservationKeys s"
      using assms(1) by (auto simp: createNumberingRange_def drawUUID_def Let_def
          split: option.splits if_splits)
    have wf: "jwf (st_ranges s)"
      using inv by (simp add: numbering_inv_def ninv_def)
    have ne: "range_scope rg' \<noteq> range_scope rg" if "jget (st_ranges s) k = Some rg'" for k rg'
    proof -
      have "rg' \<in> set (jvalues (st_ranges s))"
        using that wf by (auto simp: in_jvalues)
      with Create(3) have "\<not> sameRangeScope sc input rg'"
        by (simp add: list_ex_iff)
      then show ?thesis
        using Create(4) by (auto simp: sameRangeScope_def range_scope_def newRange_def)
    qed
    have "scopes_unique t"
      using assms(2) Create(5) ne ne [THEN not_sym] by (auto simp: numbering_full_inv_def scopes_unique_def)
    moreover have "keys_bound t" "consumption_bound t"
      using assms(2) le keys Create(8) keys_bound_le [of s t] consumption_bound_le [of s t]
      by (auto simp: numbering_full_inv_def numbering_le_def)
    ultimately show ?thesis
      using inv' assms(2) by (simp add: numbering_full_inv_def)
  qed
qed

lemma reserve_full_inv:
  assumes "allocateReservation E sc input now dv orig s = Inr (r, t)" and "numbering_full_inv E s"
    and "tenant_ok (sc_tenantId sc)" and "1 \<le> rni_requestedSize input"
  shows "numbering_full_inv E t"
proof -
  have inv: "numbering_inv E s" and le: "numbering_le s t" and inv': "numbering_inv E t"
    using assms reserve_le allocateReservation_inv unfolding numbering_full_inv_def by blast+
  from assms(1) show ?thesis
  proof (cases rule: allocateReservation_cases)
    case Replay
    then show ?thesis using assms(2) by simp
  next
    case (Take rg)
    note st = takeNumbers_state [OF Take(9) [symmetric]]
    have rg: "jget (st_ranges s) (tkey (sc_tenantId sc) (rng_id rg)) = Some rg"
      using find_range(1) [OF _ Take(4)] inv by (simp add: numbering_inv_def)
    have kb: "keys_bound (t\<lparr>st_reservationKeys := st_reservationKeys s\<rparr>)"
      using assms(2) le keys_bound_le [of s "t\<lparr>st_reservationKeys := st_reservationKeys s\<rparr>"]
      by (simp add: numbering_full_inv_def numbering_le_def)
    have "keys_bound t"
    proof (cases "rni_idempotencyKey input")
      case None
      with st(7) have "t\<lparr>st_reservationKeys := st_reservationKeys s\<rparr> = t"
        by simp
      with kb show ?thesis by simp
    next
      case (Some ik)
      have "jget (st_reservations t) (tkey (sc_tenantId sc) (env_randomUUID E (st_uuids s))) \<noteq> None"
        by (simp add: st(4))
      from keys_bound_set [OF kb assms(3) this] Some st(7) show ?thesis
        by simp
    qed
    moreover have "consumption_bound t"
      using assms(2) le st(4,6) unfolding numbering_full_inv_def consumption_bound_def
      by (auto split: if_splits)
    moreover have "scopes_unique t"
      using assms(2) le rg st(3) scopes_unique_le [of s t]
      by (auto simp: numbering_full_inv_def numbering_le_def split: if_splits)
    ultimately show ?thesis
      using inv' assms(2) by (simp add: numbering_full_inv_def)
  qed
qed

lemma numbering_step_inv:
  assumes "numbering_full_inv E s" and "numbering_step E s t"
  shows "numbering_full_inv E t"
proof -
  have inv: "numbering_inv E s"
    using assms(1) by (simp add: numbering_full_inv_def)
  note le = numbering_step_le [OF assms(1,2)]
  from assms(2) show ?thesis
  proof cases
    case create
    then show ?thesis using assms create_full_inv by blast
  next
    case reserve
    then show ?thesis using assms reserve_full_inv by blast
  next
    case draw
    then show ?thesis
      using assms(1) by (auto simp: numbering_full_inv_def numbering_inv_def keys_bound_def
          consumption_bound_def scopes_unique_def intro: ninv_mono)
  qed (use assms(1) le inv in \<open>blast intro: frame_inv cancel_range_frame cancel_frame transition_frame
    reconcile_frame use_number_frame cancelNumberingRange_inv cancelReservation_inv
    transitionReservation_inv reconcileNumberingReservation_inv recordApplied_inv\<close>)+
qed

interpretation numbering_runs: monotone_system "numbering_init E" "numbering_step E"
    "numbering_full_inv E" numbering_le for E
  by unfold_locales
    (auto intro: numbering_init_inv numbering_step_inv numbering_step_le numbering_le_trans)

end
