(* ===== verification/Offline_Numbering_Props.thy ===== *)
theory Offline_Numbering_Props
  imports Offline_Numbering_Runs
begin

text \<open>
  The properties of numbering, over all runs of the store's operations from a seeded store, and a small
  run (\<open>demo_start\<close>, \<open>demo_reserved\<close>, \<open>demo_reserved2\<close>, \<open>demo_used\<close>) at which they are applied.
\<close>

subsection \<open>A small run\<close>

definition demo_env :: env where
  "demo_env = \<lparr>env_sha256 = (\<lambda>t. t), env_collate = (\<lambda>a b. a \<le> b), env_collate_en = (\<lambda>a b. a \<le> b),
     env_randomUUID = dec_nat\<rparr>"

definition demo_range :: numbering_range where
  "demo_range = \<lparr>rng_id = ''9f1c2d3e-0000-4000-8000-000000000001'', rng_tenantId = ''t1'',
     rng_orgUnitId = ''ou'', rng_entityType = ''doc'', rng_series = ''A'', rng_startNumber = 1,
     rng_endNumber = 6, rng_nextNumber = 1, rng_status = Range_active, rng_consumerAttributes = None,
     rng_createdBy = None, rng_createdAt = None, rng_updatedAt = None, rng_cancelledBy = None,
     rng_cancellationReason = None, rng_cancelledAt = None\<rparr>"

definition demo_empty :: numbering_store where
  "demo_empty = \<lparr>st_rangeCreationReceipts = [], st_ranges = [], st_reservations = [],
     st_reservationOrigins = [], st_reservationKeys = [], st_consumption = [],
     st_reconciliations = [], st_uuids = 0\<rparr>"

definition demo_start :: numbering_store where
  "demo_start = seedNumberingRange demo_range demo_empty"

definition demo_scope :: scope where
  "demo_scope = \<lparr>sc_tenantId = ''t1'', sc_actorId = ''u1'', sc_agentId = None, sc_ctg9 = True\<rparr>"

definition demo_reserve :: "string \<Rightarrow> reserve_input" where
  "demo_reserve device = \<lparr>rni_orgUnitId = ''ou'', rni_deviceId = device, rni_shiftId = None,
     rni_entityType = ''doc'', rni_requestedSize = 3, rni_rangeId = None, rni_series = Some ''A'',
     rni_validUntil = None, rni_idempotencyKey = Some (''key-'' @ device), rni_agentId = None\<rparr>"

definition demo_now :: string where
  "demo_now = ''2026-01-01T00:00:00.000Z''"

definition demo_until :: string where
  "demo_until = ''2026-01-02T00:00:00.000Z''"

definition demo_reserved :: numbering_store where
  "demo_reserved = snd (reserveDurableNumbering demo_env demo_scope (demo_reserve ''A'') demo_now
     demo_until demo_start)"

definition demo_reserved2 :: numbering_store where
  "demo_reserved2 = snd (reserveDurableNumbering demo_env demo_scope (demo_reserve ''B'') demo_now
     demo_until demo_reserved)"

definition demo_used :: numbering_store where
  "demo_used = recordApplied ''t1:1'' 6 ''server-6'' demo_now demo_reserved2"

definition demo_cancelled :: numbering_store where
  "demo_cancelled = snd (cancelReservation demo_scope ''1'' True demo_used)"

lemma demo_inj: "inj (env_randomUUID demo_env)"
  by (metis (mono_tags, lifting) demo_env_def digits_val_dec_nat env.select_convs(4) injI)

lemma reserve_step:
  assumes "\<not> isl (fst (reserveDurableNumbering E sc input now dv s))" and "tenant_ok (sc_tenantId sc)"
    and "1 \<le> rni_requestedSize input"
  shows "numbering_step E s (snd (reserveDurableNumbering E sc input now dv s))"
  using assms
  by (cases "allocateReservation E sc input now dv Ctg9 s")
    (auto simp: reserveDurableNumbering_def intro: numbering_step.reserve)

lemma demo_init: "numbering_init demo_env demo_start"
proof -
  have "past_id demo_env 0 ''9f1c2d3e-0000-4000-8000-000000000001''"
  proof (unfold past_id_def, intro allI impI notI)
    fix n assume "env_randomUUID demo_env n = ''9f1c2d3e-0000-4000-8000-000000000001''"
    then have "is_digit (CHR ''f'')"
      using dec_nat_digits [of n] by (simp add: demo_env_def)
    then show False by (simp add: is_digit_def)
  qed
  then show ?thesis
    using demo_inj by (simp add: numbering_init_def demo_start_def seedNumberingRange_def demo_range_def
        demo_empty_def scopes_unique_def tenant_ok_def range_ok_def isSafeInteger_def jvalues_def)
qed

lemma demo_step1: "numbering_step demo_env demo_start demo_reserved"
  unfolding demo_reserved_def by (rule reserve_step) code_simp+

lemma demo_step2: "numbering_step demo_env demo_reserved demo_reserved2"
  unfolding demo_reserved2_def by (rule reserve_step) code_simp+

lemma demo_step3: "numbering_step demo_env demo_reserved2 demo_used"
  unfolding demo_used_def
  by (rule numbering_step.use_number [of demo_scope "''B''" "''ou''" "''doc''" 6 None demo_now]) (code_simp, simp)

lemma demo_step4: "numbering_step demo_env demo_used demo_cancelled"
  unfolding demo_cancelled_def
  by (rule numbering_step.cancel [of demo_scope "''1''" True]) (rule prod.collapse [symmetric], code_simp)

lemma demo_runs:
  "(numbering_step demo_env)\<^sup>*\<^sup>* demo_start demo_reserved"
  "(numbering_step demo_env)\<^sup>*\<^sup>* demo_start demo_reserved2"
  "(numbering_step demo_env)\<^sup>*\<^sup>* demo_start demo_used"
proof -
  show 1: "(numbering_step demo_env)\<^sup>*\<^sup>* demo_start demo_reserved"
    using demo_step1 by (rule r_into_rtranclp)
  show 2: "(numbering_step demo_env)\<^sup>*\<^sup>* demo_start demo_reserved2"
    using 1 demo_step2 by (rule rtranclp.rtrancl_into_rtrancl)
  show "(numbering_step demo_env)\<^sup>*\<^sup>* demo_start demo_used"
    using 2 demo_step3 by (rule rtranclp.rtrancl_into_rtrancl)
qed

lemma demo_inv:
  "numbering_full_inv demo_env demo_start" "numbering_full_inv demo_env demo_reserved"
  "numbering_full_inv demo_env demo_reserved2" "numbering_full_inv demo_env demo_used"
  by (rule numbering_runs.reachable_inv [OF demo_init], (rule demo_runs | rule rtranclp.rtrancl_refl))+

subsection \<open>Properties\<close>

text \<open>The reservations of a range that hold a number.\<close>

definition holders :: "'a numbering_store_scheme \<Rightarrow> string \<Rightarrow> string \<Rightarrow> int \<Rightarrow> string set" where
  "holders s tenant rangeId n = {k. \<exists>r es. jget (st_reservations s) k = Some r
     \<and> res_tenantId r = tenant \<and> res_rangeId r = rangeId
     \<and> jget (st_consumption s) k = Some es \<and> held es n}"

lemma in_holdersI:
  "jget (st_reservations s) k = Some r \<Longrightarrow> res_tenantId r = tenant \<Longrightarrow> res_rangeId r = rangeId
   \<Longrightarrow> jget (st_consumption s) k = Some es \<Longrightarrow> held es n \<Longrightarrow> k \<in> holders s tenant rangeId n"
  by (auto simp: holders_def)

text \<open>C2. In every state the store reaches from seeded ranges, through any sequence of creations and
cancellations of ranges, reservations, replays, cancellations with return of the tail, blockings,
closings, settlements, reconciliations and uses of numbers, a number of a range is held by at most one
reservation of that range (held: available, claimed, applied or blocked).\<close>

theorem number_held_once:
  assumes "numbering_init E s0" and "(numbering_step E)\<^sup>*\<^sup>* s0 s"
    and "k1 \<in> holders s tenant rangeId n" and "k2 \<in> holders s tenant rangeId n"
  shows "k1 = k2"
proof (rule ccontr)
  assume ne: "k1 \<noteq> k2"
  have "numbering_full_inv E s"
    using assms(1,2) by (rule numbering_runs.reachable_inv)
  then have "ninv E (st_uuids s) (st_ranges s) (st_reservations s) (st_consumption s)"
    by (simp add: numbering_full_inv_def numbering_inv_def)
  from ninvD_disjoint [OF this _ _ ne] assms(3,4) show False
    by (auto simp: holders_def)
qed

theorem number_held_once_witness:
  "holders demo_reserved2 ''t1'' ''9f1c2d3e-0000-4000-8000-000000000001'' 5 = {''t1:1''}"
proof -
  have e: "(case jget (st_reservations demo_reserved2) ''t1:1'' of None \<Rightarrow> False
      | Some r \<Rightarrow> res_tenantId r = ''t1'' \<and> res_rangeId r = ''9f1c2d3e-0000-4000-8000-000000000001'')"
    "entryStatus demo_reserved2 ''t1:1'' 5 = Some Available"
    by code_simp+
  then have m: "''t1:1'' \<in> holders demo_reserved2 ''t1'' ''9f1c2d3e-0000-4000-8000-000000000001'' 5"
    by (auto simp: entryStatus_def bind_eq_Some_conv held_def intro!: in_holdersI split: option.splits)
  have "k = ''t1:1''" if "k \<in> holders demo_reserved2 ''t1'' ''9f1c2d3e-0000-4000-8000-000000000001'' 5" for k
    by (rule number_held_once [OF demo_init demo_runs(2) that m])
  with m show ?thesis by blast
qed

text \<open>C33. A successful reservation that is no replay takes exactly the requested numbers from the mark of
an active range of the tenant: they start at the mark and end within the range, the mark moves behind them,
the range is exhausted exactly when its last number is taken, and the reservation is stored under an
identifier that was not in use, with one available entry per number.\<close>

theorem reserve_takes_next_numbers:
  assumes "numbering_full_inv E s" and "tenant_ok (sc_tenantId sc)"
    and "replayReservation E sc input s = Inr None"
    and "allocateReservation E sc input now dv orig s = Inr (r, t)"
  shows "\<exists>rg k. jget (st_ranges s) (tkey (sc_tenantId sc) (rng_id rg)) = Some rg
    \<and> rng_status rg = Range_active
    \<and> res_rangeId r = rng_id rg \<and> res_status r = Reserved
    \<and> res_startNumber r = rng_nextNumber rg
    \<and> res_endNumber r = rng_nextNumber rg + rni_requestedSize input - 1
    \<and> res_endNumber r \<le> rng_endNumber rg
    \<and> jget (st_ranges t) (tkey (sc_tenantId sc) (rng_id rg)) = Some (rg\<lparr>
        rng_nextNumber := res_endNumber r + 1,
        rng_status := if res_endNumber r = rng_endNumber rg then Range_exhausted else Range_active\<rparr>)
    \<and> k = tkey (sc_tenantId sc) (res_reservationId r)
    \<and> jget (st_reservations s) k = None \<and> jget (st_reservations t) k = Some r
    \<and> jget (st_consumption t) k
        = Some (map (\<lambda>n. (n, availableEntry n)) [res_startNumber r..res_endNumber r])"
  using assms(4)
proof (cases rule: allocateReservation_cases)
  case Replay
  then show ?thesis using assms(3) by simp
next
  case (Take rg)
  have inv: "ninv E (st_uuids s) (st_ranges s) (st_reservations s) (st_consumption s)"
    using assms(1) by (simp add: numbering_full_inv_def numbering_inv_def)
  note rg = find_range [OF inv Take(4)]
  note st = takeNumbers_state [OF Take(9) [symmetric]]
  show ?thesis
    by (rule exI [of _ rg], rule exI [of _ "tkey (sc_tenantId sc) (res_reservationId r)"])
      (use rg(1) Take(5,8) ninv_fresh_reservation [OF inv assms(2)] in
        \<open>simp add: st newReservation_def newEntries_def\<close>)
qed

theorem reserve_takes_next_numbers_witness:
  "\<exists>r t. allocateReservation demo_env demo_scope (demo_reserve ''B'') demo_now demo_until Ctg9
      demo_reserved = Inr (r, t)
    \<and> res_endNumber r = res_startNumber r + 3 - 1
    \<and> jget (st_reservations demo_reserved) (tkey ''t1'' (res_reservationId r)) = None"
proof -
  have "\<not> isl (allocateReservation demo_env demo_scope (demo_reserve ''B'') demo_now demo_until Ctg9
      demo_reserved)"
    by code_simp
  then obtain r t where a: "allocateReservation demo_env demo_scope (demo_reserve ''B'') demo_now
      demo_until Ctg9 demo_reserved = Inr (r, t)"
    by (metis isl_def sum.exhaust_sel surj_pair)
  have "tenant_ok (sc_tenantId demo_scope)"
    "replayReservation demo_env demo_scope (demo_reserve ''B'') demo_reserved = Inr None"
    by code_simp+
  from reserve_takes_next_numbers [OF demo_inv(2) this a] have "res_endNumber r = res_startNumber r + 3 - 1"
    "jget (st_reservations demo_reserved) (tkey ''t1'' (res_reservationId r)) = None"
    by (auto simp: demo_reserve_def demo_scope_def)
  with a show ?thesis by blast
qed

text \<open>C34. A reservation request with an idempotency key is answered once: after it succeeded, in every
later state of the store the same request returns the same reservation, with the numbers it was given and
its status at that time, whatever the clock and the default expiry, and changes nothing.\<close>

theorem reservation_replayed:
  assumes "numbering_full_inv E s" and "tenant_ok (sc_tenantId sc)" and "1 \<le> rni_requestedSize input"
    and "rni_idempotencyKey input = Some ik"
    and "allocateReservation E sc input now dv orig s = Inr (r, t)"
    and "(numbering_step E)\<^sup>*\<^sup>* t u"
  shows "\<exists>st. allocateReservation E sc input now' dv' orig' u = Inr (r\<lparr>res_status := st\<rparr>, u)"
proof -
  have inv: "numbering_full_inv E t"
    using reserve_full_inv assms(1,2,3,5) by blast
  then have le: "numbering_le t u"
    using assms(6) by (blast intro: numbering_runs.run_below)
  have "\<exists>rid. jget (st_reservationKeys t) (tkey (sc_tenantId sc) ik)
        = Some (reservationFingerprint E sc input, rid)
      \<and> jget (st_reservations t) (tkey (sc_tenantId sc) rid) = Some r"
    using assms(5)
  proof (cases rule: allocateReservation_cases)
    case Replay
    with assms(4) show ?thesis
      by (auto simp: replayReservation_def split: option.splits if_splits)
  next
    case (Take rg)
    show ?thesis
      using assms(4) by (simp add: takeNumbers_state [OF Take(9) [symmetric]])
  qed
  then obtain rid where k: "jget (st_reservationKeys u) (tkey (sc_tenantId sc) ik)
        = Some (reservationFingerprint E sc input, rid)"
    "jget (st_reservations t) (tkey (sc_tenantId sc) rid) = Some r"
    using le by (auto simp: numbering_le_def)
  then obtain r' where "jget (st_reservations u) (tkey (sc_tenantId sc) rid) = Some r'" "res_le r r'"
    using le unfolding numbering_le_def reservations_le_def by blast
  with k(1) assms(4) have "allocateReservation E sc input now' dv' orig' u = Inr (r', u)"
    by (simp add: allocateReservation_def replayReservation_def)
  with \<open>res_le r r'\<close> show ?thesis
    unfolding res_le_def by metis
qed

theorem reservation_replayed_witness:
  "\<exists>r st. allocateReservation demo_env demo_scope (demo_reserve ''B'') ''later'' demo_until E6 demo_used
     = Inr (r\<lparr>res_status := st\<rparr>, demo_used)"
proof -
  have "\<not> isl (allocateReservation demo_env demo_scope (demo_reserve ''B'') demo_now demo_until Ctg9
      demo_reserved)"
    by code_simp
  then obtain r t where a: "allocateReservation demo_env demo_scope (demo_reserve ''B'') demo_now
      demo_until Ctg9 demo_reserved = Inr (r, t)"
    by (metis isl_def sum.exhaust_sel surj_pair)
  then have "t = demo_reserved2"
    by (simp add: demo_reserved2_def reserveDurableNumbering_def)
  then have "(numbering_step demo_env)\<^sup>*\<^sup>* t demo_used"
    using demo_step3 by blast
  moreover have "tenant_ok (sc_tenantId demo_scope)" "1 \<le> rni_requestedSize (demo_reserve ''B'')"
    "rni_idempotencyKey (demo_reserve ''B'') = Some ''key-B''"
    by code_simp+
  ultimately show ?thesis
    using reservation_replayed [OF demo_inv(2) _ _ _ a] by blast
qed

text \<open>C36. What is settled stays settled: along every run, an entry that is applied, blocked or expired
keeps its number, status, server entity and instant; a reservation keeps everything but its status, and a
cancelled, blocked or consumed one keeps that too; and a cancelled range is never changed again.\<close>

theorem settled_stays_settled:
  assumes "numbering_full_inv E s" and "(numbering_step E)\<^sup>*\<^sup>* s t"
  shows "(\<forall>k es n e. jget (st_consumption s) k = Some es \<and> jget es n = Some e
        \<and> ce_status e \<in> {Applied, Num_blocked, Num_expired}
        \<longrightarrow> (\<exists>es'. jget (st_consumption t) k = Some es' \<and> jget es' n = Some e))
    \<and> (\<forall>k r. jget (st_reservations s) k = Some r
        \<longrightarrow> (\<exists>st. jget (st_reservations t) k = Some (r\<lparr>res_status := st\<rparr>)
              \<and> (res_status r \<in> {Cancelled, Blocked, Consumed} \<longrightarrow> st = res_status r)))
    \<and> (\<forall>k rg. jget (st_ranges s) k = Some rg \<and> rng_status rg = Range_cancelled
        \<longrightarrow> jget (st_ranges t) k = Some rg)"
proof (intro conjI allI impI)
  have le: "numbering_le s t"
    using assms(2,1) by (rule numbering_runs.run_below)
  show "\<exists>es'. jget (st_consumption t) k = Some es' \<and> jget es' n = Some e"
    if "jget (st_consumption s) k = Some es \<and> jget es n = Some e
      \<and> ce_status e \<in> {Applied, Num_blocked, Num_expired}" for k es n e
    using le that unfolding numbering_le_def consumption_le_def final_entry_def by blast
  show "\<exists>st. jget (st_reservations t) k = Some (r\<lparr>res_status := st\<rparr>)
      \<and> (res_status r \<in> {Cancelled, Blocked, Consumed} \<longrightarrow> st = res_status r)"
    if "jget (st_reservations s) k = Some r" for k r
  proof -
    from le that obtain r' where "jget (st_reservations t) k = Some r'" "res_le r r'"
      unfolding numbering_le_def reservations_le_def by blast
    then show ?thesis unfolding res_le_def by metis
  qed
  show "jget (st_ranges t) k = Some rg"
    if "jget (st_ranges s) k = Some rg \<and> rng_status rg = Range_cancelled" for k rg
    using le that unfolding numbering_le_def ranges_le_def by blast
qed

theorem settled_stays_settled_witness:
  "entryStatus demo_used ''t1:1'' 6 = Some Applied \<and> entryStatus demo_cancelled ''t1:1'' 6 = Some Applied"
proof -
  have u: "entryStatus demo_used ''t1:1'' 6 = Some Applied"
    by code_simp
  have "(numbering_step demo_env)\<^sup>*\<^sup>* demo_used demo_cancelled"
    using demo_step4 by (rule r_into_rtranclp)
  from settled_stays_settled [OF demo_inv(4) this] u
  have "entryStatus demo_cancelled ''t1:1'' 6 = Some Applied"
    by (auto simp: entryStatus_def bind_eq_Some_conv) blast
  with u show ?thesis by blast
qed

text \<open>C35. A number is used at most once: once it was recorded as applied, the check of any item that
resolves to the same reservation answers \<open>OFFLINE_SYNC_NUMBERING_ALREADY_APPLIED\<close>, in every later state.\<close>

theorem number_used_once:
  assumes "numbering_full_inv E s"
    and "checkNumber sc dev org ent n rid created s = Inr k"
    and "(numbering_step E)\<^sup>*\<^sup>* (recordApplied k n entity now s) t"
  shows "checkNumber sc' dev' org' ent' n rid' created' t \<noteq> Inr k"
proof
  assume c: "checkNumber sc' dev' org' ent' n rid' created' t = Inr k"
  let ?s = "recordApplied k n entity now s"
  have inv: "numbering_full_inv E ?s"
    using assms(1,2) by (blast intro: numbering_step_inv numbering_step.use_number)
  have n0: "ninv E (st_uuids s) (st_ranges s) (st_reservations s) (st_consumption s)"
    using assms(1) by (simp add: numbering_full_inv_def numbering_inv_def)
  from assms(2) obtain r where r: "(k, r) \<in> set (st_reservations s)"
      "coversNumber sc dev org ent n rid s (k, r)" "res_status r = Reserved"
    by (rule checkNumber_Inr)
  then have kr: "jget (st_reservations s) k = Some r"
    using ninvD_wf [OF n0] by simp
  obtain es where es: "jget (st_consumption s) k = Some es" "entries_ok r es"
    using ninvD_res(4) [OF n0 kr] by (auto elim: reservation_okE)
  have "jget es n \<noteq> None"
    using entries_ok_dom [OF es(2), of n] r(2) by (simp add: coversNumber_def)
  then obtain e where e: "jget es n = Some e" by blast
  let ?e = "e\<lparr>ce_status := Applied, ce_serverEntityId := Some entity, ce_finalizedAt := Some now\<rparr>"
  have "jget (st_consumption ?s) k = Some (jset n ?e es)" "jget (jset n ?e es) n = Some ?e"
    using es(1) e by (simp_all add: recordApplied_def)
  moreover have "numbering_le ?s t"
    using assms(3) inv by (rule numbering_runs.run_below)
  moreover have "final_entry ?e"
    by (simp add: final_entry_def)
  ultimately obtain es' where "jget (st_consumption t) k = Some es'" "jget es' n = Some ?e"
    unfolding numbering_le_def consumption_le_def by blast
  then have "entryStatus t k n = Some Applied"
    by (simp add: entryStatus_def)
  with c show False
    by (auto elim: checkNumber_Inr)
qed

theorem number_used_once_witness:
  "checkNumber demo_scope ''B'' ''ou'' ''doc'' 6 None demo_now demo_reserved2 = Inr ''t1:1''
   \<and> checkNumber demo_scope ''B'' ''ou'' ''doc'' 6 None demo_now demo_used \<noteq> Inr ''t1:1''"
proof -
  have c: "checkNumber demo_scope ''B'' ''ou'' ''doc'' 6 None demo_now demo_reserved2 = Inr ''t1:1''"
    by code_simp
  have "(numbering_step demo_env)\<^sup>*\<^sup>* (recordApplied ''t1:1'' 6 ''server-6'' demo_now demo_reserved2) demo_used"
    by (simp add: demo_used_def)
  from number_used_once [OF demo_inv(3) c this] c show ?thesis
    by blast
qed

text \<open>C37. In every state of a run, the numbers of a reservation lie within its range, are entered one by
one in its consumption, are safe integers, and those it still holds, neither returned nor expired, lie below the range's mark; ranges of
one tenant differ in organisational unit, entity type or series.\<close>

theorem reservation_within_range:
  assumes "numbering_init E s0" and "(numbering_step E)\<^sup>*\<^sup>* s0 s"
    and "jget (st_reservations s) k = Some r"
  shows "\<exists>es rg. jget (st_consumption s) k = Some es \<and> map fst es = [res_startNumber r..res_endNumber r]
    \<and> jget (st_ranges s) (tkey (res_tenantId r) (res_rangeId r)) = Some rg
    \<and> rng_startNumber rg \<le> res_startNumber r \<and> res_startNumber r \<le> res_endNumber r
    \<and> res_endNumber r \<le> rng_endNumber rg
    \<and> isSafeInteger (res_startNumber r) \<and> isSafeInteger (res_endNumber r)
    \<and> (\<forall>n. held es n \<longrightarrow> n < rng_nextNumber rg)
    \<and> (\<forall>k' rg'. jget (st_ranges s) k' = Some rg' \<and> range_scope rg' = range_scope rg \<longrightarrow> rg' = rg)"
proof -
  have full: "numbering_full_inv E s"
    using assms(1,2) by (rule numbering_runs.reachable_inv)
  then have inv: "ninv E (st_uuids s) (st_ranges s) (st_reservations s) (st_consumption s)"
    by (simp add: numbering_full_inv_def numbering_inv_def)
  from ninvD_res(4) [OF inv assms(3)] obtain es rg where
    es: "jget (st_consumption s) k = Some es" "entries_ok r es"
    and rg: "jget (st_ranges s) (tkey (res_tenantId r) (res_rangeId r)) = Some rg"
      "rng_startNumber rg \<le> res_startNumber r" "res_endNumber r \<le> rng_endNumber rg"
      "res_startNumber r \<le> res_endNumber r" "\<And>n. held es n \<Longrightarrow> n < rng_nextNumber rg"
    by (rule reservation_okE) blast
  have "range_ok rg"
    by (rule ninvD_range(4) [OF inv rg(1)])
  then have "isSafeInteger (res_startNumber r)" "isSafeInteger (res_endNumber r)"
    using rg by (auto simp: range_ok_def isSafeInteger_def abs_le_iff)
  moreover have "\<forall>k' rg'. jget (st_ranges s) k' = Some rg' \<and> range_scope rg' = range_scope rg \<longrightarrow> rg' = rg"
    using full rg(1) unfolding numbering_full_inv_def scopes_unique_def by (metis option.inject)
  ultimately show ?thesis
    using es rg by (auto simp: entries_ok_def)
qed

theorem reservation_within_range_witness:
  "\<exists>r es rg. jget (st_reservations demo_used) ''t1:1'' = Some r
    \<and> jget (st_consumption demo_used) ''t1:1'' = Some es
    \<and> jget (st_ranges demo_used) (tkey (res_tenantId r) (res_rangeId r)) = Some rg
    \<and> res_endNumber r \<le> rng_endNumber rg"
proof -
  have "jget (st_reservations demo_used) ''t1:1'' \<noteq> None"
    by code_simp
  then obtain r where r: "jget (st_reservations demo_used) ''t1:1'' = Some r"
    by blast
  from reservation_within_range [OF demo_init demo_runs(3) r] r show ?thesis
    by blast
qed

end
