(* ===== verification/Offline_Numbering_Ops.thy ===== *)
theory Offline_Numbering_Ops
  imports Offline_Numbering_Props
begin

text \<open>
  Properties of single numbering operations: admission, the return of a tail, reconciliation and the
  projection of consumption, and the internal reads that never fail.
\<close>

text \<open>C38. A durable reservation is admitted only when the device has no other active one for the shift:
after it, the only reservation of the tenant for that device and shift that is reserved or blocked and
unexpired at the instant of the request is the new one. A missing shift and the no-shift sentinel count as
the same shift.\<close>

theorem active_reservation_unique:
  assumes "numbering_full_inv E s" and "tenant_ok (sc_tenantId sc)"
    and "replayReservation E sc input s = Inr None"
    and "allocateReservation E sc input now dv Ctg9 s = Inr (r, t)"
    and "jget (st_reservations t) k = Some r'"
    and "res_tenantId r' = sc_tenantId sc" and "res_deviceId r' = rni_deviceId input"
    and "reservationShiftScope (res_shiftId r') = reservationShiftScope (rni_shiftId input)"
    and "res_status r' \<in> {Reserved, Blocked}"
    and "nan_gt (date_parse (res_validUntil r')) (date_parse now)"
  shows "r' = r"
  using assms(4)
proof (cases rule: allocateReservation_cases)
  case Replay
  then show ?thesis using assms(3) by simp
next
  case (Take rg)
  show ?thesis
  proof (rule ccontr)
    assume "r' \<noteq> r"
    with assms(5) have "jget (st_reservations s) k = Some r'"
      by (auto simp: takeNumbers_state [OF Take(9) [symmetric]] split: if_splits)
    then have "(k, r') \<in> set (st_reservations s)"
      by (rule jget_in_set)
    moreover have "admissionBlocker (sc_tenantId sc) (rni_deviceId input) (rni_shiftId input) now Ctg9 None s
        (k, r')"
      using assms(6-10) by (auto simp: admissionBlocker_def)
    ultimately show False
      using Take(3) by (auto simp: assertReservationAdmission_def list_ex_iff)
  qed
qed

theorem active_reservation_unique_witness:
  "\<exists>r. jget (st_reservations demo_reserved2) ''t1:1'' = Some r
    \<and> allocateReservation demo_env demo_scope (demo_reserve ''B'') demo_now demo_until Ctg9 demo_reserved
        = Inr (r, demo_reserved2)"
proof -
  have "\<not> isl (allocateReservation demo_env demo_scope (demo_reserve ''B'') demo_now demo_until Ctg9
      demo_reserved)"
    by code_simp
  then obtain r t where a: "allocateReservation demo_env demo_scope (demo_reserve ''B'') demo_now
      demo_until Ctg9 demo_reserved = Inr (r, t)"
    by (metis isl_def sum.exhaust_sel surj_pair)
  then have t: "t = demo_reserved2"
    by (simp add: demo_reserved2_def reserveDurableNumbering_def)
  have "case jget (st_reservations demo_reserved2) ''t1:1'' of None \<Rightarrow> False | Some r \<Rightarrow>
      res_tenantId r = sc_tenantId demo_scope \<and> res_deviceId r = rni_deviceId (demo_reserve ''B'')
      \<and> reservationShiftScope (res_shiftId r) = reservationShiftScope (rni_shiftId (demo_reserve ''B''))
      \<and> res_status r \<in> {Reserved, Blocked} \<and> nan_gt (date_parse (res_validUntil r)) (date_parse demo_now)"
    by code_simp
  then obtain r' where r': "jget (st_reservations t) ''t1:1'' = Some r'"
      "res_tenantId r' = sc_tenantId demo_scope" "res_deviceId r' = rni_deviceId (demo_reserve ''B'')"
      "reservationShiftScope (res_shiftId r') = reservationShiftScope (rni_shiftId (demo_reserve ''B''))"
      "res_status r' \<in> {Reserved, Blocked}" "nan_gt (date_parse (res_validUntil r')) (date_parse demo_now)"
    by (auto simp: t split: option.splits)
  have "tenant_ok (sc_tenantId demo_scope)"
    "replayReservation demo_env demo_scope (demo_reserve ''B'') demo_reserved = Inr None"
    by code_simp+
  from active_reservation_unique [OF demo_inv(2) this a r'] r'(1) a t show ?thesis
    by blast
qed

text \<open>Giving back an unused reservation undoes it: when a reservation was taken from a range and is
cancelled by the durable operation before anything else happened, the range has the mark and the active
status it had before, so the next reservation gets the same numbers again.\<close>

theorem cancel_returns_numbers:
  assumes "numbering_full_inv E s" and "tenant_ok (sc_tenantId sc)" and "1 \<le> rni_requestedSize input"
    and "replayReservation E sc input s = Inr None"
    and "allocateReservation E sc input now dv orig s = Inr (r, t)"
  shows "\<exists>u. cancelReservation sc (res_reservationId r) True t = (Inr (r\<lparr>res_status := Cancelled\<rparr>), u)
    \<and> jget (st_ranges u) (tkey (sc_tenantId sc) (res_rangeId r))
      = jget (st_ranges s) (tkey (sc_tenantId sc) (res_rangeId r))"
  using assms(5)
proof (cases rule: allocateReservation_cases)
  case Replay
  then show ?thesis using assms(4) by simp
next
  case (Take rg)
  have inv: "ninv E (st_uuids s) (st_ranges s) (st_reservations s) (st_consumption s)"
    using assms(1) by (simp add: numbering_full_inv_def numbering_inv_def)
  note rg = find_range [OF inv Take(4)]
  note st = takeNumbers_state [OF Take(9) [symmetric]]
  have none: "filter (\<lambda>e. ce_status e \<in> {Applied, Claimed_locally}) (jvalues (newEntries a b)) = []" for a b
    by (auto simp: filter_empty_conv jvalues_def newEntries_def availableEntry_def)
  then have "highestApplied r (newEntries a b) = res_startNumber r - 1" for a b
    by (simp add: highestApplied_def del: insert_iff)
  moreover have "res_status r = Reserved" "res_rangeId r = rng_id rg"
    "res_startNumber r = rng_nextNumber rg"
    "res_endNumber r = rng_nextNumber rg + rni_requestedSize input - 1"
    "tkey (sc_tenantId sc) (res_reservationId r) = tkey (sc_tenantId sc) (env_randomUUID E (st_uuids s))"
    by (simp_all add: st(1) newReservation_def)
  ultimately show ?thesis
    using rg(1) Take(5) by (simp add: cancelReservation_def Let_def st(3,4,6) returnTail_def)
qed

theorem cancel_returns_numbers_witness:
  "\<exists>r u. cancelReservation demo_scope (res_reservationId r) True demo_reserved
      = (Inr (r\<lparr>res_status := Cancelled\<rparr>), u)"
proof -
  have "\<not> isl (allocateReservation demo_env demo_scope (demo_reserve ''A'') demo_now demo_until Ctg9
      demo_start)"
    by code_simp
  then obtain r t where a: "allocateReservation demo_env demo_scope (demo_reserve ''A'') demo_now
      demo_until Ctg9 demo_start = Inr (r, t)"
    by (metis isl_def sum.exhaust_sel surj_pair)
  then have t: "t = demo_reserved"
    by (simp add: demo_reserved_def reserveDurableNumbering_def)
  have "tenant_ok (sc_tenantId demo_scope)" "1 \<le> rni_requestedSize (demo_reserve ''A'')"
    "replayReservation demo_env demo_scope (demo_reserve ''A'') demo_start = Inr None"
    by code_simp+
  from cancel_returns_numbers [OF demo_inv(1) this a] show ?thesis
    by (auto simp: t)
qed

text \<open>Cancelling the newest reservation of an exhausted range makes the range active again even when
its last number is applied or claimed and nothing is given back: the mark stays behind the last number, so
the range is active with no number left.\<close>

theorem exhausted_range_reactivated_empty:
  assumes "numbering_full_inv E s" and "tenant_ok (sc_tenantId sc)"
    and "jget (st_reservations s) (tkey (sc_tenantId sc) i) = Some r" and "res_status r = Reserved"
    and "jget (st_ranges s) (tkey (sc_tenantId sc) (res_rangeId r)) = Some rg"
    and "rng_status rg = Range_exhausted" and "res_endNumber r = rng_endNumber rg"
    and "entryStatus s (tkey (sc_tenantId sc) i) (res_endNumber r) \<in> {Some Applied, Some Claimed_locally}"
  shows "\<exists>u. cancelReservation sc i True s = (Inr (r\<lparr>res_status := Cancelled\<rparr>), u)
    \<and> jget (st_ranges u) (tkey (sc_tenantId sc) (res_rangeId r)) = Some (rg\<lparr>rng_status := Range_active\<rparr>)
    \<and> rng_nextNumber rg = rng_endNumber rg + 1"
proof -
  have inv: "ninv E (st_uuids s) (st_ranges s) (st_reservations s) (st_consumption s)"
    using assms(1) by (simp add: numbering_full_inv_def numbering_inv_def)
  from ninvD_res(4) [OF inv assms(3)] obtain es where
    es: "jget (st_consumption s) (tkey (sc_tenantId sc) i) = Some es" "entries_ok r es"
    and le: "res_startNumber r \<le> res_endNumber r"
    by (rule reservation_okE) blast
  have next_eq: "rng_nextNumber rg = rng_endNumber rg + 1"
    using ninvD_range(4) [OF inv assms(5)] assms(6) by (simp add: range_ok_def)
  from assms(8) es(1) obtain e where "jget es (res_endNumber r) = Some e"
    "ce_status e \<in> {Applied, Claimed_locally}"
    by (auto simp: entryStatus_def bind_eq_Some_conv)
  from highestApplied_ge(2) [OF es(2) this] highestApplied_le [OF es(2) le]
  have "highestApplied r es = res_endNumber r"
    by simp
  then show ?thesis
    using assms(3-7) es(1) next_eq by (simp add: cancelReservation_def Let_def returnTail_def)
qed

theorem exhausted_range_reactivated_empty_witness:
  "\<exists>r u. cancelReservation demo_scope ''1'' True demo_used = (Inr (r\<lparr>res_status := Cancelled\<rparr>), u)"
proof -
  have "case jget (st_reservations demo_used) (tkey (sc_tenantId demo_scope) ''1'') of None \<Rightarrow> False
      | Some r \<Rightarrow> res_status r = Reserved \<and>
        (case jget (st_ranges demo_used) (tkey (sc_tenantId demo_scope) (res_rangeId r)) of None \<Rightarrow> False
         | Some rg \<Rightarrow> rng_status rg = Range_exhausted \<and> res_endNumber r = rng_endNumber rg
            \<and> entryStatus demo_used (tkey (sc_tenantId demo_scope) ''1'') (res_endNumber r)
              \<in> {Some Applied, Some Claimed_locally})"
    by code_simp
  then obtain r rg where "jget (st_reservations demo_used) (tkey (sc_tenantId demo_scope) ''1'') = Some r"
      "res_status r = Reserved"
      "jget (st_ranges demo_used) (tkey (sc_tenantId demo_scope) (res_rangeId r)) = Some rg"
      "rng_status rg = Range_exhausted" "res_endNumber r = rng_endNumber rg"
      "entryStatus demo_used (tkey (sc_tenantId demo_scope) ''1'') (res_endNumber r)
        \<in> {Some Applied, Some Claimed_locally}"
    by (auto split: option.splits)
  moreover have "tenant_ok (sc_tenantId demo_scope)"
    by code_simp
  ultimately show ?thesis
    using exhausted_range_reactivated_empty [OF demo_inv(4)] by blast
qed

lemma jvalues_numbers:
  assumes "jwf es" and "\<forall>n e. jget es n = Some e \<longrightarrow> ce_number e = n"
  shows "ce_number ` {e \<in> set (jvalues es). P (ce_number e) \<and> Q (ce_status e)}
    = {n. P n \<and> (\<exists>e. jget es n = Some e \<and> Q (ce_status e))}"
proof (intro set_eqI iffI)
  fix n assume "n \<in> ce_number ` {e \<in> set (jvalues es). P (ce_number e) \<and> Q (ce_status e)}"
  then obtain e k where "n = ce_number e" "P n" "Q (ce_status e)" "jget es k = Some e"
    using in_jvalues [OF assms(1)] by auto
  moreover from this have "k = n"
    using assms(2) by blast
  ultimately show "n \<in> {n. P n \<and> (\<exists>e. jget es n = Some e \<and> Q (ce_status e))}"
    by blast
next
  fix n assume "n \<in> {n. P n \<and> (\<exists>e. jget es n = Some e \<and> Q (ce_status e))}"
  then obtain e where e: "P n" "jget es n = Some e" "Q (ce_status e)" by blast
  moreover have "e \<in> set (jvalues es)" "ce_number e = n"
    using e(2) in_jvalues [OF assms(1)] assms(2) by blast+
  ultimately show "n \<in> ce_number ` {e \<in> set (jvalues es). P (ce_number e) \<and> Q (ce_status e)}"
    by blast
qed

lemma reconciliationResult_sets:
  assumes "jwf es" and number: "\<forall>n e. jget es n = Some e \<longrightarrow> ce_number e = n"
    and "projectNumberingConsumption r (jvalues es) at = Inr out"
  shows "set (rr_missingOnServer (reconciliationResult i st out claimed u))
      = {n \<in> set claimed. \<exists>e. jget es n = Some e \<and> ce_status e \<noteq> Applied}"
    "set (rr_unexpectedOnServer (reconciliationResult i st out claimed u))
      = {n. n \<notin> set claimed \<and> (\<exists>e. jget es n = Some e \<and> ce_status e = Applied)}"
proof -
  from assms(3) obtain fb where fb: "projectionFallback r at = Inr fb"
    "out = map (\<lambda>e. e\<lparr>ce_status := if ce_status e = Available then fb else ce_status e\<rparr>) (jvalues es)"
    by (auto simp: projectNumberingConsumption_def)
  have "fb \<noteq> Applied"
    using fb(1) by (auto simp: projectionFallback_def split: if_splits)
  then have status: "((if ce_status e = Available then fb else ce_status e) = Applied) = (ce_status e = Applied)"
    for e by auto
  have "set (rr_missingOnServer (reconciliationResult i st out claimed u))
      = ce_number ` {e \<in> set (jvalues es). ce_number e \<in> set claimed \<and> ce_status e \<noteq> Applied}"
    by (simp add: reconciliationResult_def fb(2) filter_map comp_def status conj_commute image_Collect)
  then show "set (rr_missingOnServer (reconciliationResult i st out claimed u))
      = {n \<in> set claimed. \<exists>e. jget es n = Some e \<and> ce_status e \<noteq> Applied}"
    using jvalues_numbers [OF assms(1) number, where P = "\<lambda>n. n \<in> set claimed" and Q = "\<lambda>x. x \<noteq> Applied"]
    by simp
  have "set (rr_unexpectedOnServer (reconciliationResult i st out claimed u))
      = ce_number ` {e \<in> set (jvalues es). ce_number e \<notin> set claimed \<and> ce_status e = Applied}"
    by (simp add: reconciliationResult_def fb(2) filter_map comp_def status conj_commute image_Collect)
  then show "set (rr_unexpectedOnServer (reconciliationResult i st out claimed u))
      = {n. n \<notin> set claimed \<and> (\<exists>e. jget es n = Some e \<and> ce_status e = Applied)}"
    using jvalues_numbers [OF assms(1) number, where P = "\<lambda>n. n \<notin> set claimed" and Q = "\<lambda>x. x = Applied"]
    by simp
qed

lemma reconciliationRequest_claims:
  "reconciliationRequest E sc input = Inr (claimed, fp) \<Longrightarrow>
     n \<in> set claimed \<longleftrightarrow> (\<exists>ns. rci_claimedNumbers input = Some ns \<and> n \<in> set ns)"
  by (auto simp: reconciliationRequest_def Let_def split: option.splits)

text \<open>A new reconciliation reports exactly the disagreement between device and server: a number is
missing on the server when the device claimed it and it is not applied, and unexpected when it is applied and
the device did not claim it. Before reporting, on a reserved reservation, it marks the available numbers the
device claimed as claimed and touches no other entry.\<close>

theorem reconciliation_reports_difference:
  assumes "numbering_full_inv E s"
    and "reconcileNumberingReservation E sc i input now s = (Inr result, t)"
    and "st_uuids t \<noteq> st_uuids s"
  shows "\<exists>r es es'. jget (st_reservations s) (tkey (sc_tenantId sc) i) = Some r
    \<and> jget (st_consumption s) (tkey (sc_tenantId sc) i) = Some es
    \<and> jget (st_consumption t) (tkey (sc_tenantId sc) i) = Some es'
    \<and> (\<forall>n. jget es' n = map_option (\<lambda>e. if res_status r = Reserved \<and> ce_status e = Available
          \<and> (\<exists>ns. rci_claimedNumbers input = Some ns \<and> n \<in> set ns)
          then e\<lparr>ce_status := Claimed_locally\<rparr> else e) (jget es n))
    \<and> set (rr_missingOnServer result) = {n. (\<exists>ns. rci_claimedNumbers input = Some ns \<and> n \<in> set ns)
          \<and> entryStatus s (tkey (sc_tenantId sc) i) n \<noteq> Some Applied}
    \<and> set (rr_unexpectedOnServer result) = {n. entryStatus s (tkey (sc_tenantId sc) i) n = Some Applied
          \<and> \<not> (\<exists>ns. rci_claimedNumbers input = Some ns \<and> n \<in> set ns)}"
  using assms(2)
proof (cases rule: reconcileNumberingReservation_cases)
  case Same
  then show ?thesis using assms(3) by simp
next
  case (Record r es at claimed fp)
  let ?k = "tkey (sc_tenantId sc) i"
  let ?es = "if res_status r = Reserved then fold claimEntry claimed es else es"
  note C = reconciliationRequest_claims [OF Record(4), symmetric]
  have "ninv E (st_uuids s) (st_ranges s) (st_reservations s) (st_consumption s)"
    using assms(1) by (simp add: numbering_full_inv_def numbering_inv_def)
  from ninvD_res(4) [OF this Record(1)] Record(2) have "entries_ok r es"
    by (auto elim: reservation_okE)
  then have ok: "entries_ok r ?es"
    by (simp add: entries_ok_fold_claimEntry)
  have es': "jget ?es n = map_option (\<lambda>e. if res_status r = Reserved \<and> ce_status e = Available
      \<and> n \<in> set claimed then e\<lparr>ce_status := Claimed_locally\<rparr> else e) (jget es n)" for n
    by (cases "jget es n") (auto simp: jget_fold_claimEntry)
  from Record(6) obtain out where out: "projectNumberingConsumption r (jvalues ?es) at = Inr out"
    "result = reconciliationResult i (res_status r) out claimed (env_randomUUID E (st_uuids s))"
    by (auto simp: recordReconciliation_def drawUUID_def Let_def split: sum.splits)
  have st: "entryStatus s ?k n = map_option ce_status (jget es n)" for n
    using Record(2) by (simp add: entryStatus_def)
  have dom: "jget es n \<noteq> None" if "n \<in> set claimed" for n
    using Record(5) that by (auto simp: list_all_iff)
  have wf: "jwf ?es" and num: "\<forall>n e. jget ?es n = Some e \<longrightarrow> ce_number e = n"
    using ok by (auto simp: entries_ok_def)
  have miss: "set (rr_missingOnServer result)
      = {n. n \<in> set claimed \<and> entryStatus s ?k n \<noteq> Some Applied}"
    using dom unfolding out(2) reconciliationResult_sets(1) [OF wf num out(1)] st es'
    by (fastforce split: if_splits)
  have unex: "set (rr_unexpectedOnServer result)
      = {n. entryStatus s ?k n = Some Applied \<and> n \<notin> set claimed}"
    unfolding out(2) reconciliationResult_sets(2) [OF wf num out(1)] st es'
    by (auto split: if_splits)
  show ?thesis
    unfolding C
    by (rule exI [of _ r], rule exI [of _ es], rule exI [of _ ?es])
      (use Record(1,2) es' miss unex in \<open>simp add: recordReconciliation_state [OF Record(6)]\<close>)
qed

theorem reconciliation_reports_difference_witness:
  "\<exists>result. fst (reconcileNumberingReservation demo_env demo_scope ''1''
      \<lparr>rci_idempotencyKey = None, rci_claimedNumbers = Some [4, 5], rci_userRef = None\<rparr> demo_now demo_used)
      = Inr result
    \<and> set (rr_missingOnServer result) \<subseteq> {4, 5} \<and> 6 \<in> set (rr_unexpectedOnServer result)"
proof -
  let ?in = "\<lparr>rci_idempotencyKey = None, rci_claimedNumbers = Some [4, 5], rci_userRef = None\<rparr>"
  have a: "\<not> isl (fst (reconcileNumberingReservation demo_env demo_scope ''1'' ?in demo_now demo_used))"
    "st_uuids (snd (reconcileNumberingReservation demo_env demo_scope ''1'' ?in demo_now demo_used))
      \<noteq> st_uuids demo_used"
    "entryStatus demo_used (tkey (sc_tenantId demo_scope) ''1'') 6 = Some Applied"
    by code_simp+
  from a(1) obtain result t where r: "reconcileNumberingReservation demo_env demo_scope ''1'' ?in demo_now
      demo_used = (Inr result, t)"
    by (metis isl_def prod.collapse sum.exhaust_sel)
  with a(2) have "st_uuids t \<noteq> st_uuids demo_used" by simp
  from reconciliation_reports_difference [OF demo_inv(4) r this] a(3) r show ?thesis
    by auto
qed

text \<open>The projection of consumption keeps the numbers, their order and every entry that is not
available; and once the reservation is no longer reserved, or its validity has passed at the instant of the
observation, no entry is shown as available.\<close>

theorem projection_expires_unused:
  assumes "projectNumberingConsumption r entries observedAt = Inr out"
  shows "map ce_number out = map ce_number entries
    \<and> (\<forall>j < length entries. ce_status (entries ! j) \<noteq> Available \<longrightarrow> out ! j = entries ! j)
    \<and> (res_status r \<noteq> Reserved \<or> (\<exists>u. instantMicroseconds (res_validUntil r) = Some u \<and> u \<le> observedAt)
        \<longrightarrow> (\<forall>e \<in> set out. ce_status e \<noteq> Available))"
proof -
  from assms obtain fb where fb: "projectionFallback r observedAt = Inr fb"
    "out = map (\<lambda>e. e\<lparr>ce_status := if ce_status e = Available then fb else ce_status e\<rparr>) entries"
    by (auto simp: projectNumberingConsumption_def)
  have "fb \<noteq> Available"
    if "res_status r \<noteq> Reserved \<or> (\<exists>u. instantMicroseconds (res_validUntil r) = Some u \<and> u \<le> observedAt)"
    using fb(1) that by (cases "res_status r") (auto simp: projectionFallback_def readInstant_def)
  then show ?thesis
    by (auto simp: fb(2) comp_def)
qed

theorem projection_expires_unused_witness:
  "\<exists>r out. jget (st_reservations demo_reserved) ''t1:0'' = Some r
    \<and> projectNumberingConsumption r [availableEntry 1] 1767312000000000 = Inr out
    \<and> map ce_number out = [1]"
proof -
  have "case jget (st_reservations demo_reserved) ''t1:0'' of None \<Rightarrow> False | Some r \<Rightarrow>
      \<not> isl (projectNumberingConsumption r [availableEntry 1] 1767312000000000)"
    by code_simp
  then obtain r where r: "jget (st_reservations demo_reserved) ''t1:0'' = Some r"
    "\<not> isl (projectNumberingConsumption r [availableEntry 1] 1767312000000000)"
    by (auto split: option.splits)
  then obtain out where out: "projectNumberingConsumption r [availableEntry 1] 1767312000000000 = Inr out"
    by (metis isl_def sum.exhaust_sel)
  from projection_expires_unused [OF out] r(1) out show ?thesis
    by (auto simp: availableEntry_def)
qed

text \<open>The non-null assertions of the store hold: in a state of a run, cancelling, blocking, closing
or settling a reservation never fails for want of its consumption map.\<close>

theorem numbering_reads_never_fail:
  assumes "numbering_full_inv E s" and "cancelReservation sc i durable s = (res, t)"
    and "transitionReservation sc i status now s = (res', t')"
  shows "res \<noteq> Inl TypeError \<and> res' \<noteq> Inl TypeError"
proof -
  have inv: "ninv E (st_uuids s) (st_ranges s) (st_reservations s) (st_consumption s)"
    using assms(1) by (simp add: numbering_full_inv_def numbering_inv_def)
  show ?thesis
  proof (cases "jget (st_reservations s) (tkey (sc_tenantId sc) i)")
    case None
    with assms(2,3) show ?thesis
      by (auto simp: cancelReservation_def transitionReservation_def reservationNotFound_def)
  next
    case (Some r)
    then obtain es where "jget (st_consumption s) (tkey (sc_tenantId sc) i) = Some es"
      using ninvD_res(4) [OF inv] by (fastforce elim: reservation_okE)
    with Some assms(2,3) show ?thesis
      by (auto simp: cancelReservation_def transitionReservation_def Let_def legacyReservation_def
          assertReservationAdmission_def activeReservationError_def split: if_splits sum.splits)
  qed
qed

theorem numbering_reads_never_fail_witness:
  "fst (cancelReservation demo_scope ''1'' True demo_used) \<noteq> Inl TypeError
   \<and> fst (transitionReservation demo_scope ''1'' Consumed demo_now demo_used) \<noteq> Inl TypeError"
  using numbering_reads_never_fail [OF demo_inv(4) prod.collapse [symmetric] prod.collapse [symmetric]]
  by blast

end
