(* ===== verification/Offline_Sync_Types.thy ===== *)
theory Offline_Sync_Types
  imports Offline_Numbering
begin

text \<open>
  The data of synchronisation batches in \<open>packages/offline-sync/src/types.ts\<close>, the whole state of
  \<open>InMemoryOfflineSyncStore\<close>, the host ports as functions, and the platform context of
  \<open>stynx-context.ts\<close>.

  An operation is a function from the state to its outcome and the next state; \<open>bindS\<close> sequences two of
  them, stopping at a throw. A port gets the token of the transaction it runs in as its first argument, so
  that its answer may differ from call to call. \<open>st_effects\<close> records the calls of the item applier (with
  the key of the item's receipt) and of the event port that succeeded, which are what a batch does
  outside the store.

  The members of \<open>Record<string, unknown>\<close> contexts are insertion-ordered maps to JSON.
\<close>

subsection \<open>Items, receipts and conflicts\<close>

datatype queue_status = Q_received | Q_applied | Q_conflict | Q_rejected | Q_pending

type_synonym json_context = "(string, json) jsmap"

record concurrent_pair =
  cp_firstItemId :: string
  cp_secondItemId :: string

record stynx_context =
  sx_receiptId :: "string option"
  sx_appliedAt :: "string option"
  sx_serverEntityId :: "string option"
  sx_errorCode :: "string option"
  sx_errorMessage :: "string option"
  sx_attempts :: "int option"
  sx_reasonCode :: "string option"
  sx_receivedPayloadHash :: "string option"
  sx_storedPayloadHash :: "string option"
  sx_relatedQueueItemId :: "string option"
  sx_retryable :: "bool option"
  sx_terminalReceived :: "bool option"
  sx_consumerAttributes :: "json option"
  sx_concurrencySuspected :: "bool option"
  sx_concurrentPairs :: "concurrent_pair list option"
  sx_signals :: "string list option"

record batch_item =
  bi_queueItemId :: string
  bi_entityType :: string
  bi_localEntityId :: string
  bi_idempotencyKey :: "string option"
  bi_payloadHash :: string
  bi_payloadJson :: json
  bi_createdLocallyAt :: string
  bi_reservedNumber :: "int option"
  bi_reservationId :: "string option"

record batch_input =
  ba_orgUnitId :: string
  ba_deviceId :: string
  ba_deviceBatchId :: string
  ba_agentId :: "string option"
  ba_batchSequence :: "int option"
  ba_items :: "batch_item list"

record queue_item = batch_item +
  qi_tenantId :: string
  qi_agentId :: string
  qi_orgUnitId :: string
  qi_deviceId :: string
  qi_status :: queue_status
  qi_receivedAt :: string
  qi_errorCode :: "string option"
  qi_context :: "json_context option"
  qi_stynx :: "stynx_context option"

datatype conflict_status = Conflict_open | Conflict_resolved

record sync_conflict =
  cf_conflictId :: string
  cf_tenantId :: string
  cf_queueItemId :: string
  cf_localEntityId :: string
  cf_payloadHash :: string
  cf_conflictType :: string
  cf_description :: string
  cf_status :: conflict_status
  cf_resolution :: "string option"
  cf_resolvedBy :: "string option"
  cf_resolvedAt :: "string option"
  cf_stynx :: "stynx_context option"

record conflict_action =
  ca_actionId :: string
  ca_tenantId :: string
  ca_conflictId :: string
  ca_action :: string
  ca_reason :: "string option"
  ca_userRef :: "string option"
  ca_actorId :: string
  ca_resultingStatus :: conflict_status
  ca_createdAt :: string

record resolve_input =
  ri_resolution :: string
  ri_description :: "string option"
  ri_userRef :: "string option"

record integrity_rejection =
  ir_tenantId :: string
  ir_deviceId :: string
  ir_deviceBatchId :: string
  ir_queueItemId :: string
  ir_idempotencyKey :: string
  ir_receivedPayloadHash :: string
  ir_storedPayloadHash :: "string option"
  ir_originalQueueItemId :: "string option"
  ir_rejectedAt :: string

record item_receipt =
  rc_queueItemId :: string
  rc_status :: queue_status
  rc_errorCode :: "string option"
  rc_context :: "json_context option"
  rc_stynx :: "stynx_context option"

record item_record =
  it_hash :: string
  it_batchKey :: string
  it_receipt :: item_receipt
  it_item :: queue_item
  it_deviceBatchId :: string
  it_receivedAt :: string

record e6_item =
  e6_queueItem :: queue_item
  e6_batchKey :: string
  e6_deviceBatchId :: string

datatype batch_status = Batch_open | Batch_closed | Batch_legacy_closed_unverified

text \<open>\<open>br_hasBody\<close>: whether the response bytes are stored; they are the JSON text of \<open>bt_result\<close>.\<close>

record batch_receipt =
  br_deviceId :: string
  br_deviceBatchId :: string
  br_batchSequence :: "int option"
  br_status :: batch_status
  br_items :: "item_receipt list"
  br_responseStatus :: "nat option"
  br_hasBody :: bool
  br_responseHeaders :: "(string, string) jsmap"

record batch_result =
  bs_batchId :: string
  bs_acceptedItems :: nat
  bs_duplicateItems :: nat
  bs_conflicts :: "string list"
  bs_items :: "queue_item list"
  bs_receipt :: "batch_receipt option"

record batch_record =
  bt_contextHash :: string
  bt_initialQueueStatus :: queue_status
  bt_receipt :: batch_receipt
  bt_result :: "batch_result option"
  bt_transportKey :: string
  bt_fingerprint :: string
  bt_createdAt :: string

subsection \<open>Ports and options\<close>

record item_context =
  ic_tenantId :: string
  ic_actorId :: string
  ic_agentId :: string
  ic_orgUnitId :: string
  ic_deviceId :: string
  ic_batchId :: string
  ic_now :: string
  ic_receiptId :: "string option"
  ic_concurrencySuspected :: "bool option"
  ic_concurrentPairs :: "concurrent_pair list option"

record apply_result =
  ap_serverEntityId :: string
  ap_consumerAttributes :: "json option"

record sync_event =
  ev_entity :: string
  ev_entityId :: string
  ev_idempotencyKey :: string
  ev_payload :: json

text \<open>What a classifier may answer: it may throw, decline, answer something that is no outcome object, or
give a status text with an optional conflict of a type and a description.\<close>

datatype raw_outcome =
    Raw_throw
  | Raw_undefined
  | Raw_malformed
  | Raw_outcome string "(string \<times> string) option"

record domain_outcome =
  do_status :: queue_status
  do_conflict :: "(string \<times> string) option"

record sync_policy =
  po_concurrencyWindowMinutes :: "int option"
  po_concurrencyApplication :: "string option"

record sync_ports =
  pt_itemApplier :: "(string \<Rightarrow> batch_item \<Rightarrow> item_context \<Rightarrow> offline_error + apply_result) option"
  pt_classifier :: "(string \<Rightarrow> nat option \<Rightarrow> json_context option \<Rightarrow> batch_item \<Rightarrow> item_context \<Rightarrow> raw_outcome) option"
  pt_payloadHash :: "(batch_item \<Rightarrow> item_context \<Rightarrow> offline_error + string) option"
  pt_preApplyDetector :: "(string \<Rightarrow> batch_item \<Rightarrow> item_context \<Rightarrow> offline_error + bool \<times> concurrent_pair list) option"
  pt_concurrencyDetector :: "(string \<Rightarrow> batch_item \<Rightarrow> item_context \<Rightarrow> offline_error + bool \<times> concurrent_pair list) option"
  pt_handoff :: "(string \<Rightarrow> concurrent_pair \<Rightarrow> item_context \<Rightarrow> offline_error + bool) option"
  pt_event :: "(string \<Rightarrow> sync_event \<Rightarrow> offline_error + unit) option"
  pt_allowedActions :: "(string \<Rightarrow> string \<Rightarrow> item_context \<Rightarrow> offline_error + string list option) option"
  pt_legacyIdentity :: "(string \<Rightarrow> batch_input \<Rightarrow> batch_item \<Rightarrow> offline_error + string) option"
  pt_initialQueueStatus :: "queue_status option"
  pt_hasPolicyResolver :: bool

record batch_options =
  op_transportIdempotencyKey :: string
  op_method :: string
  op_path :: string
  op_transportUserId :: "string option option"
  op_requestBody :: "json option"
  op_responseHeaders :: "(string, string) jsmap"
  op_agentId :: "string option"
  op_policy :: sync_policy
  op_ports :: sync_ports

subsection \<open>The state of the store\<close>

datatype port_effect = Effect_apply string batch_item | Effect_event sync_event

record offline_store = numbering_store +
  st_queueItems :: "(string, queue_item) jsmap"
  st_payloadIndex :: "(string, string) jsmap"
  st_e6Items :: "(string, e6_item) jsmap"
  st_conflicts :: "(string, sync_conflict) jsmap"
  st_itemReceipts :: "(string, item_record) jsmap"
  st_batches :: "(string, batch_record) jsmap"
  st_queueBatches :: "(string, string) jsmap"
  st_conflictCreatedAt :: "(string, string) jsmap"
  st_conflictAllowedActions :: "(string, string list) jsmap"
  st_conflictStynx :: "(string, stynx_context) jsmap"
  st_conflictDomainContexts :: "(string, json_context) jsmap"
  st_conflictActions :: "(conflict_action \<times> nat) list"
  st_conflictActionSequence :: nat
  st_integrityConflicts :: "(string, string) jsmap"
  st_integrityRejections :: "(string, integrity_rejection) jsmap"
  st_transport :: "(string, string \<times> string) jsmap"
  st_effects :: "port_effect list"

subsection \<open>Sequencing\<close>

type_synonym 'a sync = "offline_store \<Rightarrow> (offline_error + 'a) \<times> offline_store"

definition returnS :: "'a \<Rightarrow> 'a sync" where
  "returnS x s = (Inr x, s)"

definition throwS :: "offline_error \<Rightarrow> 'a sync" where
  "throwS e s = (Inl e, s)"

definition bindS :: "'a sync \<Rightarrow> ('a \<Rightarrow> 'b sync) \<Rightarrow> 'b sync" where
  "bindS m f s = (case m s of (Inl e, s') \<Rightarrow> (Inl e, s') | (Inr x, s') \<Rightarrow> f x s')"

definition liftE :: "offline_error + 'a \<Rightarrow> 'a sync" where
  "liftE r s = (r, s)"

definition getS :: "(offline_store \<Rightarrow> 'a) \<Rightarrow> 'a sync" where
  "getS f s = (Inr (f s), s)"

definition updS :: "(offline_store \<Rightarrow> offline_store) \<Rightarrow> unit sync" where
  "updS f s = (Inr (), f s)"

definition uuidS :: "env \<Rightarrow> string sync" where
  "uuidS E s = (case drawUUID E s of (i, s') \<Rightarrow> (Inr i, s'))"

fun forS :: "('a \<Rightarrow> unit sync) \<Rightarrow> 'a list \<Rightarrow> unit sync" where
  "forS f [] = returnS ()"
| "forS f (x # xs) = bindS (f x) (\<lambda>_. forS f xs)"

text \<open>
  \<open>ownedFrame\<close> and the outermost frame of \<open>mutateTenant\<close>, for operations that run one after the other:
  when the operation throws, the projections it wrote are restored and the rest of the state (numbering,
  batches, transport bindings, counters) stays as the operation left it.
\<close>

definition rollbackTo :: "offline_store \<Rightarrow> offline_store \<Rightarrow> offline_store" where
  "rollbackTo s s' = s'\<lparr>
     st_queueItems := st_queueItems s, st_payloadIndex := st_payloadIndex s, st_e6Items := st_e6Items s,
     st_conflicts := st_conflicts s, st_itemReceipts := st_itemReceipts s,
     st_queueBatches := st_queueBatches s, st_conflictCreatedAt := st_conflictCreatedAt s,
     st_conflictAllowedActions := st_conflictAllowedActions s, st_conflictStynx := st_conflictStynx s,
     st_conflictDomainContexts := st_conflictDomainContexts s, st_conflictActions := st_conflictActions s,
     st_integrityConflicts := st_integrityConflicts s,
     st_integrityRejections := st_integrityRejections s\<rparr>"

definition ownedFrame :: "'a sync \<Rightarrow> 'a sync" where
  "ownedFrame operation s = (case operation s of
     (Inl e, s') \<Rightarrow> (Inl e, rollbackTo s s')
   | (Inr x, s') \<Rightarrow> (Inr x, s'))"

definition mutateTenant :: "'a sync \<Rightarrow> 'a sync" where
  "mutateTenant operation = ownedFrame operation"

end
