(* ===== verification/Offline_Conflicts.thy ===== *)
theory Offline_Conflicts
  imports Offline_Sync_Types
begin

text \<open>
  Platform context (\<open>stynx-context.ts\<close>), E6 batches and conflicts of \<open>InMemoryOfflineSyncStore\<close>:
  \<open>submitSyncBatch\<close>, \<open>openConflict\<close>, \<open>resolveConflict\<close>, \<open>resolveWithPort\<close>,
  \<open>saveConflict\<close> and the receipt reads. The locks of \<open>queueResolution\<close> only matter for resolutions that
  overlap; here operations follow one another.
\<close>

subsection \<open>Platform context\<close>

definition no_stynx :: stynx_context where
  "no_stynx = \<lparr>sx_receiptId = None, sx_appliedAt = None, sx_serverEntityId = None, sx_errorCode = None,
     sx_errorMessage = None, sx_attempts = None, sx_reasonCode = None, sx_receivedPayloadHash = None,
     sx_storedPayloadHash = None, sx_relatedQueueItemId = None, sx_retryable = None,
     sx_terminalReceived = None, sx_consumerAttributes = None, sx_concurrencySuspected = None,
     sx_concurrentPairs = None, sx_signals = None\<rparr>"

definition opt_over :: "'b option \<Rightarrow> 'b option \<Rightarrow> 'b option" where
  "opt_over a b = (case b of None \<Rightarrow> a | Some x \<Rightarrow> Some x)"

text \<open>\<open>{ ...a, ...b }\<close> on platform contexts; an absent member is \<open>None\<close>.\<close>

definition stynx_merge :: "stynx_context \<Rightarrow> stynx_context \<Rightarrow> stynx_context" where
  "stynx_merge a b = \<lparr>
     sx_receiptId = opt_over (sx_receiptId a) (sx_receiptId b),
     sx_appliedAt = opt_over (sx_appliedAt a) (sx_appliedAt b),
     sx_serverEntityId = opt_over (sx_serverEntityId a) (sx_serverEntityId b),
     sx_errorCode = opt_over (sx_errorCode a) (sx_errorCode b),
     sx_errorMessage = opt_over (sx_errorMessage a) (sx_errorMessage b),
     sx_attempts = opt_over (sx_attempts a) (sx_attempts b),
     sx_reasonCode = opt_over (sx_reasonCode a) (sx_reasonCode b),
     sx_receivedPayloadHash = opt_over (sx_receivedPayloadHash a) (sx_receivedPayloadHash b),
     sx_storedPayloadHash = opt_over (sx_storedPayloadHash a) (sx_storedPayloadHash b),
     sx_relatedQueueItemId = opt_over (sx_relatedQueueItemId a) (sx_relatedQueueItemId b),
     sx_retryable = opt_over (sx_retryable a) (sx_retryable b),
     sx_terminalReceived = opt_over (sx_terminalReceived a) (sx_terminalReceived b),
     sx_consumerAttributes = opt_over (sx_consumerAttributes a) (sx_consumerAttributes b),
     sx_concurrencySuspected = opt_over (sx_concurrencySuspected a) (sx_concurrencySuspected b),
     sx_concurrentPairs = opt_over (sx_concurrentPairs a) (sx_concurrentPairs b),
     sx_signals = opt_over (sx_signals a) (sx_signals b)\<rparr>"

definition stynx_or_empty :: "stynx_context option \<Rightarrow> stynx_context" where
  "stynx_or_empty x = (case x of None \<Rightarrow> no_stynx | Some c \<Rightarrow> c)"

definition executionStynxContext :: "batch_options \<Rightarrow> stynx_context \<Rightarrow> stynx_context" where
  "executionStynxContext opts given =
     (if pt_hasPolicyResolver (op_ports opts) \<and> pt_concurrencyDetector (op_ports opts) \<noteq> None
        \<and> po_concurrencyWindowMinutes (op_policy opts) = None
      then given\<lparr>sx_signals := Some [''SYNC_CONCURRENCY_WINDOW_SOURCE_PENDING'']\<rparr> else given)"

text \<open>\<open>withoutResolution\<close>: an open conflict without resolution, resolver and instant.\<close>

definition withoutResolution :: "sync_conflict \<Rightarrow> sync_conflict" where
  "withoutResolution c = c\<lparr>cf_status := Conflict_open, cf_resolution := None, cf_resolvedBy := None,
     cf_resolvedAt := None, cf_stynx := None\<rparr>"

subsection \<open>Queue items\<close>

definition storedItem ::
  "batch_item \<Rightarrow> string \<Rightarrow> string \<Rightarrow> string \<Rightarrow> string \<Rightarrow> queue_status \<Rightarrow> string \<Rightarrow> queue_item" where
  "storedItem item tenantId agentId orgUnitId deviceId status receivedAt = \<lparr>
     bi_queueItemId = bi_queueItemId item, bi_entityType = bi_entityType item,
     bi_localEntityId = bi_localEntityId item, bi_idempotencyKey = bi_idempotencyKey item,
     bi_payloadHash = bi_payloadHash item, bi_payloadJson = bi_payloadJson item,
     bi_createdLocallyAt = bi_createdLocallyAt item, bi_reservedNumber = bi_reservedNumber item,
     bi_reservationId = bi_reservationId item,
     qi_tenantId = tenantId, qi_agentId = agentId, qi_orgUnitId = orgUnitId, qi_deviceId = deviceId,
     qi_status = status, qi_receivedAt = receivedAt, qi_errorCode = None, qi_context = None,
     qi_stynx = None\<rparr>"

text \<open>The key text of an item: a missing key prints as \<open>undefined\<close> inside a template literal.\<close>

definition keyText :: "string option \<Rightarrow> string" where
  "keyText k = (case k of None \<Rightarrow> ''undefined'' | Some t \<Rightarrow> t)"

subsection \<open>E6 batches\<close>

definition submitItem ::
  "scope \<Rightarrow> batch_input \<Rightarrow> string \<Rightarrow> batch_item \<Rightarrow> queue_item list \<times> nat
   \<Rightarrow> (queue_item list \<times> nat) sync" where
  "submitItem sc input now item acc s =
     (let payloadKey = tkey (sc_tenantId sc) (bi_payloadHash item);
          existing = Option.bind (jget (st_payloadIndex s) payloadKey) (\<lambda>i. if i = [] then None
            else jget (st_queueItems s) (tkey (sc_tenantId sc) i));
          itemKey = tkey (sc_tenantId sc) (bi_queueItemId item)
      in case existing of
           Some q \<Rightarrow> (Inr (fst acc @ [q], Suc (snd acc)), s)
         | None \<Rightarrow>
            if (case jget (st_queueItems s) itemKey of None \<Rightarrow> False
                | Some reused \<Rightarrow> bi_payloadHash reused \<noteq> bi_payloadHash item)
            then (Inl (syncError OFFLINE_SYNC_QUEUE_ID_REUSED 409
                 (''Queue item '' @ bi_queueItemId item @ '' was already used with another payload hash.'')), s)
            else
              let queueItem = storedItem item (sc_tenantId sc) (sc_actorId sc) (ba_orgUnitId input)
                    (ba_deviceId input) Q_received now
              in (Inr (fst acc @ [queueItem], snd acc),
                  s\<lparr>st_queueItems := jset itemKey queueItem (st_queueItems s),
                    st_queueBatches := jset itemKey (ba_deviceBatchId input) (st_queueBatches s),
                    st_e6Items := jset (tkey (sc_tenantId sc) (keyText (bi_idempotencyKey item)))
                      \<lparr>e6_queueItem = queueItem,
                        e6_batchKey = tkey (sc_tenantId sc)
                          (ba_deviceId input @ '':'' @ ba_deviceBatchId input),
                        e6_deviceBatchId = ba_deviceBatchId input\<rparr> (st_e6Items s),
                    st_payloadIndex := jset payloadKey (bi_queueItemId item) (st_payloadIndex s)\<rparr>))"

fun submitItems ::
  "scope \<Rightarrow> batch_input \<Rightarrow> string \<Rightarrow> batch_item list \<Rightarrow> queue_item list \<times> nat
   \<Rightarrow> (queue_item list \<times> nat) sync" where
  "submitItems sc input now [] acc = returnS acc"
| "submitItems sc input now (item # rest) acc =
     bindS (submitItem sc input now item acc) (submitItems sc input now rest)"

definition conflictIds :: "queue_item list \<Rightarrow> string list" where
  "conflictIds items = map bi_queueItemId (filter (\<lambda>q. qi_status q = Q_conflict) items)"

definition submitSyncBatch :: "scope \<Rightarrow> batch_input \<Rightarrow> string \<Rightarrow> batch_result sync" where
  "submitSyncBatch sc input now = mutateTenant (
     bindS (submitItems sc input now (ba_items input) ([], 0)) (\<lambda>(stored, duplicates).
     returnS \<lparr>bs_batchId = ba_deviceBatchId input, bs_acceptedItems = length (ba_items input),
       bs_duplicateItems = duplicates, bs_conflicts = conflictIds stored, bs_items = stored,
       bs_receipt = None\<rparr>))"

subsection \<open>Conflicts\<close>

definition saveConflict ::
  "sync_conflict \<Rightarrow> string \<Rightarrow> string list option \<Rightarrow> stynx_context option \<Rightarrow> json_context option
   \<Rightarrow> offline_store \<Rightarrow> offline_store" where
  "saveConflict conflict now allowedActions stynx domainContext s =
     (let k = tkey (cf_tenantId conflict) (cf_conflictId conflict) in
      s\<lparr>st_conflicts := jset k conflict (st_conflicts s),
        st_conflictCreatedAt := jset k now (st_conflictCreatedAt s),
        st_conflictAllowedActions := (case allowedActions of None \<Rightarrow> st_conflictAllowedActions s
          | Some a \<Rightarrow> jset k a (st_conflictAllowedActions s)),
        st_conflictStynx := (case stynx of None \<Rightarrow> st_conflictStynx s
          | Some x \<Rightarrow> jset k x (st_conflictStynx s)),
        st_conflictDomainContexts := (case domainContext of None \<Rightarrow> st_conflictDomainContexts s
          | Some c \<Rightarrow> jset k c (st_conflictDomainContexts s))\<rparr>)"

definition openConflictOf ::
  "string \<Rightarrow> string \<Rightarrow> string \<Rightarrow> string \<Rightarrow> string \<Rightarrow> string \<Rightarrow> string \<Rightarrow> sync_conflict" where
  "openConflictOf conflictId tenantId queueItemId localEntityId payloadHash conflictType description = \<lparr>
     cf_conflictId = conflictId, cf_tenantId = tenantId, cf_queueItemId = queueItemId,
     cf_localEntityId = localEntityId, cf_payloadHash = payloadHash, cf_conflictType = conflictType,
     cf_description = description, cf_status = Conflict_open, cf_resolution = None,
     cf_resolvedBy = None, cf_resolvedAt = None, cf_stynx = None\<rparr>"

definition openConflict ::
  "env \<Rightarrow> scope \<Rightarrow> string \<Rightarrow> string \<Rightarrow> string \<Rightarrow> string \<Rightarrow> sync_conflict sync" where
  "openConflict E sc queueItemId conflictType description now = mutateTenant (
     let queueKey = tkey (sc_tenantId sc) queueItemId in
     bindS (getS (\<lambda>s. jget (st_queueItems s) queueKey)) (\<lambda>found.
     case found of
       None \<Rightarrow> throwS (syncError OFFLINE_SYNC_QUEUE_ITEM_NOT_FOUND 404
         (''Sync queue item '' @ queueItemId @ '' was not found.''))
     | Some item \<Rightarrow>
       bindS (updS (\<lambda>s. s\<lparr>st_queueItems := jset queueKey (item\<lparr>qi_status := Q_conflict\<rparr>) (st_queueItems s)\<rparr>)) (\<lambda>_.
       bindS (uuidS E) (\<lambda>conflictId.
       let conflict = openConflictOf conflictId (sc_tenantId sc) queueItemId (bi_localEntityId item)
             (bi_payloadHash item) conflictType description
       in bindS (updS (saveConflict conflict now None None None)) (\<lambda>_. returnS conflict)))))"

definition conflict_status_text :: "conflict_status \<Rightarrow> string" where
  "conflict_status_text st = (case st of Conflict_open \<Rightarrow> ''open'' | Conflict_resolved \<Rightarrow> ''resolved'')"

definition resolveConflict ::
  "scope \<Rightarrow> string \<Rightarrow> resolve_input \<Rightarrow> string \<Rightarrow> sync_conflict sync" where
  "resolveConflict sc conflictId input now = mutateTenant (ownedFrame (\<lambda>s.
     let conflictKey = tkey (sc_tenantId sc) conflictId in
     case jget (st_conflicts s) conflictKey of
       None \<Rightarrow> (Inl (syncError OFFLINE_SYNC_CONFLICT_NOT_FOUND 404
         (''Sync conflict '' @ conflictId @ '' was not found.'')), s)
     | Some conflict \<Rightarrow>
       if cf_status conflict \<noteq> Conflict_open
       then (Inl (syncError OFFLINE_SYNC_CONFLICT_STATE 409
         (''Sync conflict '' @ conflictId @ '' is '' @ conflict_status_text (cf_status conflict)
          @ ''; expected open.'')), s)
       else
         let resolved = conflict\<lparr>cf_description := (case ri_description input of
                 None \<Rightarrow> cf_description conflict | Some d \<Rightarrow> d),
               cf_status := Conflict_resolved, cf_resolution := Some (ri_resolution input),
               cf_resolvedBy := Some (sc_actorId sc), cf_resolvedAt := Some now\<rparr>;
             s1 = s\<lparr>st_conflicts := jset conflictKey resolved (st_conflicts s)\<rparr>;
             queueKey = tkey (sc_tenantId sc) (cf_queueItemId conflict)
         in (Inr resolved, (case jget (st_queueItems s1) queueKey of
               None \<Rightarrow> s1
             | Some q \<Rightarrow> s1\<lparr>st_queueItems := jset queueKey (q\<lparr>qi_status :=
                 if ri_resolution input = ''server-wins'' then Q_rejected else Q_applied\<rparr>)
                 (st_queueItems s1)\<rparr>))))"

subsection \<open>Resolution through a host port\<close>

text \<open>What the resolver returns that matters: its status text, its platform context and its attributes; every
other member is overwritten by the stored conflict.\<close>

record resolver_answer =
  rs_status :: string
  rs_stynx :: "stynx_context option"
  rs_consumerAttributes :: "json option"

record resolver_port =
  rp_allowedActions :: "(string \<Rightarrow> string \<Rightarrow> item_context \<Rightarrow> offline_error + string list option) option"
  rp_resolve :: "string \<Rightarrow> string \<Rightarrow> string \<Rightarrow> item_context \<Rightarrow> offline_error + resolver_answer"

fun json_strings :: "json \<Rightarrow> string list option" where
  "json_strings (JArr xs) = Some (concat (map (\<lambda>x. case x of JStr t \<Rightarrow> [t] | _ \<Rightarrow> []) xs))"
| "json_strings _ = None"

text \<open>\<open>receipt?.context?.allowedActions\<close>.\<close>

definition contextActions :: "item_receipt option \<Rightarrow> string list option" where
  "contextActions rc = Option.bind rc (\<lambda>r. Option.bind (rc_context r)
     (\<lambda>c. Option.bind (jget c ''allowedActions'') json_strings))"

definition receiptEntry :: "scope \<Rightarrow> string \<Rightarrow> offline_store \<Rightarrow> (string \<times> item_record) option" where
  "receiptEntry sc queueItemId s =
     List.find (\<lambda>(k, v). startsWith k (sc_tenantId sc @ '':'') \<and> bi_queueItemId (it_item v) = queueItemId)
       (st_itemReceipts s)"

definition otherOpenConflict :: "scope \<Rightarrow> string \<Rightarrow> string \<Rightarrow> offline_store \<Rightarrow> bool" where
  "otherOpenConflict sc k queueItemId s \<longleftrightarrow>
     list_ex (\<lambda>(k', other). startsWith k' (sc_tenantId sc @ '':'') \<and> k' \<noteq> k
       \<and> cf_queueItemId other = queueItemId \<and> cf_status other = Conflict_open) (st_conflicts s)"

definition numberApplied :: "scope \<Rightarrow> queue_item \<Rightarrow> offline_store \<Rightarrow> bool" where
  "numberApplied sc item s \<longleftrightarrow> (case bi_reservedNumber item of None \<Rightarrow> False | Some n \<Rightarrow>
     list_ex (\<lambda>(k, r). startsWith k (sc_tenantId sc @ '':'') \<and> res_deviceId r = qi_deviceId item
       \<and> res_orgUnitId r = qi_orgUnitId item \<and> res_entityType r = bi_entityType item
       \<and> entryStatus s k n = Some Applied) (st_reservations s))"

text \<open>The return of an item to \<open>pending\<close> by \<open>retry_after_correction\<close>.\<close>

definition returnToPending ::
  "scope \<Rightarrow> string \<Rightarrow> sync_conflict \<Rightarrow> queue_item \<Rightarrow> (string \<times> item_record) option \<Rightarrow> unit sync" where
  "returnToPending sc k conflict item entry s =
     (case entry of
        Some (rk, rec) \<Rightarrow>
          if qi_status item \<noteq> Q_conflict \<or> rc_status (it_receipt rec) \<noteq> Q_conflict
            \<or> (case rc_stynx (it_receipt rec) of None \<Rightarrow> False | Some x \<Rightarrow> sx_appliedAt x \<noteq> None)
            \<or> numberApplied sc item s \<or> otherOpenConflict sc k (cf_queueItemId conflict) s
          then (Inl (syncError OFFLINE_SYNC_CONFLICT_RESOLUTION 409 ''The item cannot return to pending.''), s)
          else (Inr (), s\<lparr>
            st_queueItems := jset (tkey (sc_tenantId sc) (cf_queueItemId conflict))
              (item\<lparr>qi_status := Q_pending\<rparr>) (st_queueItems s),
            st_itemReceipts := jset rk (rec\<lparr>it_receipt :=
              (it_receipt rec)\<lparr>rc_errorCode := None, rc_status := Q_pending\<rparr>\<rparr>) (st_itemReceipts s)\<rparr>)
      | None \<Rightarrow> (Inl (syncError OFFLINE_SYNC_CONFLICT_RESOLUTION 409 ''The item cannot return to pending.''), s))"

definition resolutionEvent ::
  "scope \<Rightarrow> string \<Rightarrow> sync_conflict \<Rightarrow> resolve_input \<Rightarrow> string \<Rightarrow> string \<Rightarrow> string \<Rightarrow> sync_event" where
  "resolutionEvent sc i conflict input now actionId status = \<lparr>
     ev_entity = ''offline.sync-conflict'', ev_entityId = i,
     ev_idempotencyKey = ''stynx:offline-sync:resolution:'' @ actionId,
     ev_payload = JObj [(''actionId'', JStr actionId), (''conflictId'', JStr i),
       (''queueItemId'', JStr (cf_queueItemId conflict)), (''action'', JStr (ri_resolution input)),
       (''resultingStatus'', JStr status), (''actorId'', JStr (sc_actorId sc)), (''at'', JStr now)]\<rparr>"

definition eventS :: "(string \<Rightarrow> sync_event \<Rightarrow> offline_error + unit) option \<Rightarrow> string \<Rightarrow> sync_event \<Rightarrow> unit sync" where
  "eventS port trx event = (case port of
     None \<Rightarrow> returnS ()
   | Some p \<Rightarrow> bindS (liftE (p trx event)) (\<lambda>_.
       updS (\<lambda>s. s\<lparr>st_effects := st_effects s @ [Effect_event event]\<rparr>)))"

definition appendConflictAction :: "conflict_action \<Rightarrow> offline_store \<Rightarrow> offline_store" where
  "appendConflictAction action s = s\<lparr>
     st_conflictActionSequence := Suc (st_conflictActionSequence s),
     st_conflictActions := st_conflictActions s @ [(action, Suc (st_conflictActionSequence s))]\<rparr>"

definition resolutionContext :: "scope \<Rightarrow> queue_item \<Rightarrow> (string \<times> item_record) option \<Rightarrow> string \<Rightarrow> item_context" where
  "resolutionContext sc item entry now = \<lparr>
     ic_tenantId = sc_tenantId sc, ic_actorId = sc_actorId sc, ic_agentId = qi_agentId item,
     ic_orgUnitId = qi_orgUnitId item, ic_deviceId = qi_deviceId item,
     ic_batchId = (case entry of None \<Rightarrow> [] | Some (k, v) \<Rightarrow> it_deviceBatchId v), ic_now = now,
     ic_receiptId = None, ic_concurrencySuspected = None, ic_concurrentPairs = None\<rparr>"

text \<open>The actions the port, the stored conflict or the receipt allow, in this order, or the default.\<close>

definition allowedResolutions ::
  "(offline_error + string list option) option \<Rightarrow> string \<Rightarrow> item_receipt option \<Rightarrow> string list sync" where
  "allowedResolutions asked k receipt =
     bindS (case asked of None \<Rightarrow> returnS None | Some r \<Rightarrow> liftE r) (\<lambda>answer.
     bindS (getS (\<lambda>s. jget (st_conflictAllowedActions s) k)) (\<lambda>stored.
     returnS (case answer of Some a \<Rightarrow> a | None \<Rightarrow>
       (case stored of Some a \<Rightarrow> a | None \<Rightarrow>
         (case contextActions receipt of Some a \<Rightarrow> a | None \<Rightarrow>
           [''device-wins'', ''server-wins'', ''manual-review''])))))"

text \<open>The writes once the resolver answered: the action, the attributes, and the closed conflict.\<close>

definition closeResolution ::
  "scope \<Rightarrow> string \<Rightarrow> sync_conflict \<Rightarrow> resolve_input \<Rightarrow> string \<Rightarrow> string \<Rightarrow> string \<Rightarrow> resolver_answer
   \<Rightarrow> (string \<Rightarrow> sync_event \<Rightarrow> offline_error + unit) option \<Rightarrow> stynx_context option \<Rightarrow> sync_conflict sync" where
  "closeResolution sc i conflict input now trx actionId answer eventPort stynx =
     (if rs_status answer = ''resolved'' then
        let stored = conflict\<lparr>cf_status := Conflict_resolved, cf_resolution := Some (ri_resolution input),
              cf_resolvedBy := Some (sc_actorId sc), cf_resolvedAt := Some now\<rparr>
        in bindS (updS (\<lambda>s. s\<lparr>st_conflicts := jset (tkey (sc_tenantId sc) i) stored (st_conflicts s)\<rparr>)) (\<lambda>_.
           bindS (eventS eventPort trx (resolutionEvent sc i conflict input now actionId ''resolved'')) (\<lambda>_.
           returnS (stored\<lparr>cf_stynx := opt_over (opt_over (rs_stynx answer) (cf_stynx conflict)) stynx\<rparr>)))
      else
        bindS (eventS eventPort trx (resolutionEvent sc i conflict input now actionId ''open'')) (\<lambda>_.
        returnS ((withoutResolution conflict)\<lparr>cf_stynx := stynx\<rparr>)))"

definition saveAttributes :: "string \<Rightarrow> json option \<Rightarrow> offline_store \<Rightarrow> offline_store" where
  "saveAttributes k attributes s = (case attributes of
     None \<Rightarrow> s
   | Some a \<Rightarrow> s\<lparr>st_conflictStynx := jset k
       ((stynx_or_empty (jget (st_conflictStynx s) k))\<lparr>sx_consumerAttributes := Some a\<rparr>) (st_conflictStynx s)\<rparr>)"

definition recordResolution ::
  "scope \<Rightarrow> string \<Rightarrow> sync_conflict \<Rightarrow> resolve_input \<Rightarrow> string \<Rightarrow> string \<Rightarrow> string \<Rightarrow> resolver_answer
   \<Rightarrow> (string \<Rightarrow> sync_event \<Rightarrow> offline_error + unit) option \<Rightarrow> sync_conflict sync" where
  "recordResolution sc i conflict input now trx actionId answer eventPort =
     (let k = tkey (sc_tenantId sc) i in
      bindS (updS (appendConflictAction \<lparr>
          ca_actionId = actionId, ca_tenantId = sc_tenantId sc, ca_conflictId = i,
          ca_action = ri_resolution input, ca_reason = ri_description input,
          ca_userRef = ri_userRef input, ca_actorId = sc_actorId sc,
          ca_resultingStatus = (if rs_status answer = ''resolved'' then Conflict_resolved else Conflict_open),
          ca_createdAt = now\<rparr>)) (\<lambda>_.
      bindS (updS (saveAttributes k (rs_consumerAttributes answer))) (\<lambda>_.
      bindS (getS (\<lambda>s. jget (st_conflictStynx s) k)) (\<lambda>stynx.
      closeResolution sc i conflict input now trx actionId answer eventPort stynx))))"

definition resolveWithPortLocked ::
  "env \<Rightarrow> scope \<Rightarrow> string \<Rightarrow> resolve_input \<Rightarrow> string \<Rightarrow> resolver_port
   \<Rightarrow> (string \<Rightarrow> sync_event \<Rightarrow> offline_error + unit) option \<Rightarrow> sync_conflict sync" where
  "resolveWithPortLocked E sc i input now port eventPort =
     (let k = tkey (sc_tenantId sc) i in
      bindS (getS (\<lambda>s. jget (st_conflicts s) k)) (\<lambda>found. case found of
        None \<Rightarrow> throwS (syncError OFFLINE_SYNC_CONFLICT_NOT_FOUND 404 ''Conflict was not found.'')
      | Some conflict \<Rightarrow>
        if cf_status conflict \<noteq> Conflict_open
        then throwS (syncError OFFLINE_SYNC_CONFLICT_STATE 409 ''Conflict is already resolved.'')
        else
          bindS (getS (\<lambda>s. jget (st_queueItems s) (tkey (sc_tenantId sc) (cf_queueItemId conflict)))) (\<lambda>queued.
          bindS (uuidS E) (\<lambda>trx.
          bindS (getS (receiptEntry sc (cf_queueItemId conflict))) (\<lambda>entry.
          case queued of None \<Rightarrow> throwS TypeError | Some item \<Rightarrow>
          let context = resolutionContext sc item entry now in
          bindS (allowedResolutions (map_option (\<lambda>f. f trx i context) (rp_allowedActions port)) k
            (map_option (\<lambda>(k, v). it_receipt v) entry)) (\<lambda>allowed.
          if ri_resolution input \<notin> set allowed
          then throwS (syncError OFFLINE_SYNC_CONFLICT_RESOLUTION 409 ''Resolution action is not allowed.'')
          else
            bindS (uuidS E) (\<lambda>actionId.
            bindS (liftE (rp_resolve port trx i (ri_resolution input) context)) (\<lambda>answer.
            if rs_status answer \<noteq> ''resolved'' \<and> rs_status answer \<noteq> ''open''
            then throwS (syncError OFFLINE_SYNC_CONFLICT_RESOLUTION 409
              ''Conflict resolver did not resolve the conflict.'')
            else
              bindS (liftE (boundedConsumerAttributes (rs_consumerAttributes answer))) (\<lambda>_.
              bindS (if rs_status answer = ''resolved'' \<and> ri_resolution input = ''retry_after_correction''
                then returnToPending sc k conflict item entry else returnS ()) (\<lambda>_.
              recordResolution sc i conflict input now trx actionId answer eventPort))))))))))"

definition resolveWithPort ::
  "env \<Rightarrow> scope \<Rightarrow> string \<Rightarrow> resolve_input \<Rightarrow> string \<Rightarrow> resolver_port
   \<Rightarrow> (string \<Rightarrow> sync_event \<Rightarrow> offline_error + unit) option \<Rightarrow> sync_conflict sync" where
  "resolveWithPort E sc i input now port eventPort =
     mutateTenant (ownedFrame (resolveWithPortLocked E sc i input now port eventPort))"

end
