(* ===== verification/Offline_Outcome.thy ===== *)
theory Offline_Outcome
  imports Offline_Conflicts
begin

text \<open>
  What surrounds the application of an item: the fingerprints and headers of \<open>transport.ts\<close>, the admission
  of concurrency pairs of \<open>pre-apply.ts\<close>, the classification of host errors of \<open>domain-outcome.ts\<close> and
  \<open>domain-error-context.ts\<close>, and \<open>integrityConflict\<close> with the integrity reads of the store.
\<close>

subsection \<open>Errors as the catch clauses read them\<close>

definition offline_code_text :: "offline_code \<Rightarrow> string" where
  "offline_code_text c = (case c of
     OFFLINE_SYNC_UNAUTHENTICATED \<Rightarrow> ''OFFLINE_SYNC_UNAUTHENTICATED''
   | OFFLINE_SYNC_FORBIDDEN \<Rightarrow> ''OFFLINE_SYNC_FORBIDDEN''
   | OFFLINE_SYNC_CONTEXT_OVERRIDE \<Rightarrow> ''OFFLINE_SYNC_CONTEXT_OVERRIDE''
   | OFFLINE_SYNC_INVALID_INPUT \<Rightarrow> ''OFFLINE_SYNC_INVALID_INPUT''
   | OFFLINE_SYNC_RANGE_IDEMPOTENCY_CONFLICT \<Rightarrow> ''OFFLINE_SYNC_RANGE_IDEMPOTENCY_CONFLICT''
   | OFFLINE_SYNC_RANGE_CONFLICT \<Rightarrow> ''OFFLINE_SYNC_RANGE_CONFLICT''
   | OFFLINE_SYNC_RANGE_STATE \<Rightarrow> ''OFFLINE_SYNC_RANGE_STATE''
   | OFFLINE_SYNC_RANGE_NOT_FOUND \<Rightarrow> ''OFFLINE_SYNC_RANGE_NOT_FOUND''
   | OFFLINE_SYNC_RANGE_UNAVAILABLE \<Rightarrow> ''OFFLINE_SYNC_RANGE_UNAVAILABLE''
   | OFFLINE_SYNC_RESERVATION_NOT_FOUND \<Rightarrow> ''OFFLINE_SYNC_RESERVATION_NOT_FOUND''
   | OFFLINE_SYNC_RECONCILIATION_IDEMPOTENCY_CONFLICT \<Rightarrow> ''OFFLINE_SYNC_RECONCILIATION_IDEMPOTENCY_CONFLICT''
   | OFFLINE_SYNC_RESERVATION_STATE \<Rightarrow> ''OFFLINE_SYNC_RESERVATION_STATE''
   | OFFLINE_SYNC_ACTIVE_RESERVATION \<Rightarrow> ''OFFLINE_SYNC_ACTIVE_RESERVATION''
   | OFFLINE_SYNC_NUMBERING_NO_COVERAGE \<Rightarrow> ''OFFLINE_SYNC_NUMBERING_NO_COVERAGE''
   | OFFLINE_SYNC_NUMBERING_AMBIGUOUS \<Rightarrow> ''OFFLINE_SYNC_NUMBERING_AMBIGUOUS''
   | OFFLINE_SYNC_NUMBERING_EXPIRED \<Rightarrow> ''OFFLINE_SYNC_NUMBERING_EXPIRED''
   | OFFLINE_SYNC_NUMBERING_ALREADY_APPLIED \<Rightarrow> ''OFFLINE_SYNC_NUMBERING_ALREADY_APPLIED''
   | OFFLINE_SYNC_QUEUE_ITEM_NOT_FOUND \<Rightarrow> ''OFFLINE_SYNC_QUEUE_ITEM_NOT_FOUND''
   | OFFLINE_SYNC_QUEUE_ID_REUSED \<Rightarrow> ''OFFLINE_SYNC_QUEUE_ID_REUSED''
   | OFFLINE_SYNC_CONFLICT_NOT_FOUND \<Rightarrow> ''OFFLINE_SYNC_CONFLICT_NOT_FOUND''
   | OFFLINE_SYNC_CONFLICT_STATE \<Rightarrow> ''OFFLINE_SYNC_CONFLICT_STATE''
   | OFFLINE_SYNC_CONFLICT_RESOLUTION \<Rightarrow> ''OFFLINE_SYNC_CONFLICT_RESOLUTION''
   | OFFLINE_SYNC_BATCH_CONFLICT \<Rightarrow> ''OFFLINE_SYNC_BATCH_CONFLICT''
   | OFFLINE_SYNC_BATCH_SEQUENCE \<Rightarrow> ''OFFLINE_SYNC_BATCH_SEQUENCE''
   | OFFLINE_SYNC_ITEM_INTEGRITY \<Rightarrow> ''OFFLINE_SYNC_ITEM_INTEGRITY''
   | OFFLINE_SYNC_INTEGRITY_REJECTION_NOT_FOUND \<Rightarrow> ''OFFLINE_SYNC_INTEGRITY_REJECTION_NOT_FOUND''
   | OFFLINE_SYNC_BATCH_in_progress \<Rightarrow> ''OFFLINE_SYNC:BATCH:in-progress'')"

text \<open>The \<open>code\<close> property and the \<open>message\<close>; the text of an engine's own error is left empty.\<close>

definition error_code :: "offline_error \<Rightarrow> string option" where
  "error_code e = (case e of
     OfflineSyncError c st m rt ctx \<Rightarrow> Some (offline_code_text c)
   | OfflineSyncNumberingOutcome c n r \<Rightarrow> Some (offline_code_text c)
   | OfflineSyncRangeUnavailableError r m \<Rightarrow> Some ''OFFLINE_SYNC_RANGE_UNAVAILABLE''
   | OfflineSyncReservationReplayError \<Rightarrow> Some ''OFFLINE_SYNC_RESERVATION_IDEMPOTENCY_CONFLICT''
   | OfflineSyncConfigurationError opt \<Rightarrow> Some ''OFFLINE_SYNC_CONFIGURATION_ERROR''
   | UnprocessableEntityException m \<Rightarrow> None
   | TypeError \<Rightarrow> None
   | RangeError \<Rightarrow> None
   | DomainError c st m ctx \<Rightarrow> c)"

definition error_message :: "offline_error \<Rightarrow> string" where
  "error_message e = (case e of
     OfflineSyncError c st m rt ctx \<Rightarrow> m
   | OfflineSyncNumberingOutcome c n r \<Rightarrow> offline_code_text c
   | OfflineSyncRangeUnavailableError r m \<Rightarrow> m
   | OfflineSyncReservationReplayError \<Rightarrow>
       ''Reservation idempotency key was already used with a different request.''
   | OfflineSyncConfigurationError opt \<Rightarrow> ''Invalid offline-sync configuration: '' @ opt
   | UnprocessableEntityException m \<Rightarrow> m
   | TypeError \<Rightarrow> []
   | RangeError \<Rightarrow> []
   | DomainError c st m ctx \<Rightarrow> m)"

fun isOfflineSyncError :: "offline_error \<Rightarrow> bool" where
  "isOfflineSyncError (OfflineSyncError c st m rt ctx) = True"
| "isOfflineSyncError (OfflineSyncNumberingOutcome c n r) = True"
| "isOfflineSyncError (OfflineSyncRangeUnavailableError r m) = True"
| "isOfflineSyncError _ = False"

fun isConfigurationError :: "offline_error \<Rightarrow> bool" where
  "isConfigurationError (OfflineSyncConfigurationError opt) = True"
| "isConfigurationError _ = False"

definition numbering_json :: "int \<Rightarrow> string option \<Rightarrow> json_context" where
  "numbering_json n r = [(''number'', JNum n), (''reservationId'', opt_json r)]"

text \<open>The \<open>context\<close> property of the error or of its response.\<close>

definition error_context :: "offline_error \<Rightarrow> json option" where
  "error_context e = (case e of
     OfflineSyncError c st m rt ctx \<Rightarrow> ctx
   | OfflineSyncNumberingOutcome c n r \<Rightarrow> Some (JObj (numbering_json n r))
   | DomainError c st m ctx \<Rightarrow> ctx
   | _ \<Rightarrow> None)"

fun domainErrorContext :: "offline_error \<Rightarrow> bool \<times> json_context option" where
  "domainErrorContext e = (case error_context e of
     None \<Rightarrow> (True, None)
   | Some (JObj es) \<Rightarrow>
      if jget es ''stynx'' \<noteq> None \<or> isl (canonicalOfflineSyncPayload (JObj es))
        \<or> length (JSON_stringify (JObj es)) > 4096
      then (False, None) else (True, Some es)
   | Some _ \<Rightarrow> (False, None))"

definition domainFailureCode :: "offline_error \<Rightarrow> string option" where
  "domainFailureCode e = (case error_code e of
     None \<Rightarrow> None
   | Some c \<Rightarrow> if js_blank c \<or> length c > 255 \<or> isl (canonicalOfflineSyncPayload (JObj [(''code'', JStr c)]))
       then None else Some c)"

record classification =
  cl_valid :: bool
  cl_outcome :: "domain_outcome option"
  cl_code :: "string option"

fun outcome_status :: "string \<Rightarrow> queue_status option" where
  "outcome_status t = (if t = ''received'' then Some Q_received else if t = ''rejected'' then Some Q_rejected
     else if t = ''conflict'' then Some Q_conflict else None)"

definition valid_outcome_conflict :: "queue_status \<Rightarrow> string \<times> string \<Rightarrow> bool" where
  "valid_outcome_conflict st c \<longleftrightarrow> st \<noteq> Q_received \<and> fst c \<in> {''domain'', ''concurrency''}
     \<and> \<not> js_blank (snd c) \<and> length (snd c) \<le> 4000
     \<and> \<not> isl (canonicalOfflineSyncPayload (JObj [(''description'', JStr (snd c))]))"

definition classifyDomainOutcome ::
  "(string \<Rightarrow> nat option \<Rightarrow> json_context option \<Rightarrow> batch_item \<Rightarrow> item_context \<Rightarrow> raw_outcome) option
   \<Rightarrow> offline_error \<Rightarrow> bool \<times> json_context option \<Rightarrow> batch_item \<Rightarrow> item_context \<Rightarrow> classification" where
  "classifyDomainOutcome classifier e domainContext item context =
     (let plain = \<lparr>cl_valid = True, cl_outcome = None, cl_code = None\<rparr>;
          bad = \<lparr>cl_valid = False, cl_outcome = None, cl_code = None\<rparr>
      in case (classifier, domainFailureCode e) of
        (Some f, Some code) \<Rightarrow>
          if \<not> fst domainContext \<or> isOfflineSyncError e \<or> isConfigurationError e
            \<or> startsWith code ''OFFLINE_SYNC'' then plain
          else (case f code (error_status e) (snd domainContext) item context of
            Raw_throw \<Rightarrow> bad
          | Raw_undefined \<Rightarrow> plain\<lparr>cl_code := Some code\<rparr>
          | Raw_malformed \<Rightarrow> bad
          | Raw_outcome st conflict \<Rightarrow>
             (case outcome_status st of
                None \<Rightarrow> bad
              | Some status \<Rightarrow>
                 if (case conflict of None \<Rightarrow> False | Some c \<Rightarrow> \<not> valid_outcome_conflict status c) then bad
                 else \<lparr>cl_valid = True, cl_outcome = Some \<lparr>do_status = status, do_conflict = conflict\<rparr>,
                        cl_code = Some code\<rparr>))
      | _ \<Rightarrow> plain)"

subsection \<open>Transport\<close>

definition sha256_hex :: "env \<Rightarrow> string \<Rightarrow> string" where
  "sha256_hex E t = env_sha256 E t"

definition opt_member :: "string \<Rightarrow> json option \<Rightarrow> (string \<times> json) list" where
  "opt_member k v = (case v of None \<Rightarrow> [] | Some j \<Rightarrow> [(k, j)])"

definition batch_item_json :: "batch_item \<Rightarrow> json" where
  "batch_item_json item = JObj (
     [(''queueItemId'', JStr (bi_queueItemId item)), (''entityType'', JStr (bi_entityType item)),
      (''localEntityId'', JStr (bi_localEntityId item))]
     @ opt_member ''idempotencyKey'' (map_option JStr (bi_idempotencyKey item))
     @ [(''payloadHash'', JStr (bi_payloadHash item)), (''payloadJson'', bi_payloadJson item),
        (''createdLocallyAt'', JStr (bi_createdLocallyAt item))]
     @ opt_member ''reservedNumber'' (map_option JNum (bi_reservedNumber item))
     @ opt_member ''reservationId'' (map_option JStr (bi_reservationId item)))"

definition batch_input_json :: "batch_input \<Rightarrow> json" where
  "batch_input_json input = JObj (
     [(''orgUnitId'', JStr (ba_orgUnitId input)), (''deviceId'', JStr (ba_deviceId input)),
      (''deviceBatchId'', JStr (ba_deviceBatchId input))]
     @ opt_member ''agentId'' (map_option JStr (ba_agentId input))
     @ opt_member ''batchSequence'' (map_option JNum (ba_batchSequence input))
     @ [(''items'', JArr (map batch_item_json (ba_items input)))])"

definition transportFingerprint :: "env \<Rightarrow> batch_options \<Rightarrow> batch_input \<Rightarrow> string" where
  "transportFingerprint E opts input = sha256_hex E (op_method opts @ '':'' @ op_path opts @ '':''
     @ stableStringify E (case op_requestBody opts of
         None \<Rightarrow> batch_input_json input | Some JNull \<Rightarrow> batch_input_json input | Some b \<Rightarrow> b))"

definition transportCompositeKey :: "env \<Rightarrow> scope \<Rightarrow> batch_options \<Rightarrow> string" where
  "transportCompositeKey E sc opts = sha256_hex E (JSON_stringify (JObj [
     (''tenantId'', JStr (sc_tenantId sc)),
     (''userId'', (case op_transportUserId opts of None \<Rightarrow> JStr (sc_actorId sc) | Some u \<Rightarrow> opt_json u)),
     (''routeKey'', JStr (op_method opts @ '':'' @ op_path opts)),
     (''headerValue'', JStr (op_transportIdempotencyKey opts))]))"

definition context_item_json :: "env \<Rightarrow> batch_item \<Rightarrow> json" where
  "context_item_json E item = JObj [
     (''id'', JStr (bi_queueItemId item)), (''key'', opt_json (bi_idempotencyKey item)),
     (''hash'', JStr (bi_payloadHash item)),
     (''payloadJsonHash'', JStr (sha256_hex E (stableStringify E (bi_payloadJson item)))),
     (''entityType'', JStr (bi_entityType item)), (''localEntityId'', JStr (bi_localEntityId item)),
     (''reservationId'', opt_json (bi_reservationId item)),
     (''reservedNumber'', (case bi_reservedNumber item of None \<Rightarrow> JNull | Some n \<Rightarrow> JNum n)),
     (''createdLocallyAt'', JStr (bi_createdLocallyAt item))]"

definition batchContextFingerprint :: "env \<Rightarrow> batch_input \<Rightarrow> string \<Rightarrow> string" where
  "batchContextFingerprint E input agentId = sha256_hex E (stableStringify E (JObj (
     [(''orgUnitId'', JStr (ba_orgUnitId input)), (''agentId'', JStr agentId)]
     @ opt_member ''requestedAgentId'' (map_option JStr (ba_agentId input))
     @ [(''sequence'', (case ba_batchSequence input of None \<Rightarrow> JNull | Some n \<Rightarrow> JNum n)),
        (''items'', JArr (map (context_item_json E) (ba_items input)))])))"

text \<open>The header names a stored response does not keep, by the prefixes of the regular expression.\<close>

definition rate_header :: "string \<Rightarrow> string \<Rightarrow> bool" where
  "rate_header p n \<longleftrightarrow> n = p \<or> startsWith n (p @ ''-'')"

definition replayableHeader :: "string \<Rightarrow> bool" where
  "replayableHeader name \<longleftrightarrow> (let n = toLowerCase_ascii name in
     \<not> (list_ex (startsWith n) [''content-length'', ''transfer-encoding'', ''connection'', ''date'',
          ''x-request-id'', ''x-correlation-id'', ''x-powered-by'', ''x-idempotency-replayed'']
        \<or> rate_header ''ratelimit'' n \<or> rate_header ''x-ratelimit'' n \<or> rate_header ''x-rate-limit'' n))"

definition captureReplayableHeaders :: "batch_options \<Rightarrow> (string, string) jsmap" where
  "captureReplayableHeaders opts = filter (\<lambda>(n, v). replayableHeader n) (op_responseHeaders opts)"

subsection \<open>Concurrency pairs before application\<close>

definition pair_ids :: "concurrent_pair \<Rightarrow> string list" where
  "pair_ids p = [cp_firstItemId p, cp_secondItemId p]"

definition valid_pair :: "string \<Rightarrow> (string \<Rightarrow> bool) \<Rightarrow> concurrent_pair \<Rightarrow> bool" where
  "valid_pair queueItemId exists p \<longleftrightarrow> cp_firstItemId p \<noteq> [] \<and> cp_secondItemId p \<noteq> []
     \<and> cp_firstItemId p \<noteq> cp_secondItemId p \<and> queueItemId \<in> set (pair_ids p)
     \<and> exists (cp_firstItemId p) \<and> exists (cp_secondItemId p)"

definition permitted ::
  "(string \<Rightarrow> concurrent_pair \<Rightarrow> item_context \<Rightarrow> offline_error + bool) option \<Rightarrow> string \<Rightarrow> concurrent_pair
   \<Rightarrow> item_context \<Rightarrow> offline_error + bool" where
  "permitted handoff trx p context = (case handoff of None \<Rightarrow> Inr False | Some f \<Rightarrow> f trx p context)"

fun admitPairs ::
  "(string \<Rightarrow> concurrent_pair \<Rightarrow> item_context \<Rightarrow> offline_error + bool) option \<Rightarrow> string \<Rightarrow> string
   \<Rightarrow> item_context \<Rightarrow> (string \<Rightarrow> bool) \<Rightarrow> string set list \<Rightarrow> concurrent_pair list \<Rightarrow> concurrent_pair list
   \<Rightarrow> offline_error + concurrent_pair list" where
  "admitPairs handoff trx queueItemId context exists seen [] acc = Inr acc"
| "admitPairs handoff trx queueItemId context exists seen (p # ps) acc =
     (if \<not> valid_pair queueItemId exists p then Inl (OfflineSyncConfigurationError ''preApplyDetector'')
      else if set (pair_ids p) \<in> set seen
      then admitPairs handoff trx queueItemId context exists seen ps acc
      else bindE (permitted handoff trx p context) (\<lambda>ok.
        admitPairs handoff trx queueItemId context exists (set (pair_ids p) # seen) ps
          (if ok then acc else acc @ [p])))"

record prepared_item =
  pr_context :: item_context
  pr_pairs :: "concurrent_pair list"
  pr_defer :: bool

definition prepareOfflineSyncItem ::
  "string \<Rightarrow> batch_item \<Rightarrow> item_context \<Rightarrow> batch_options \<Rightarrow> (string \<Rightarrow> bool) \<Rightarrow> offline_error + prepared_item" where
  "prepareOfflineSyncItem trx item original opts exists =
     (let policy = (case po_concurrencyApplication (op_policy opts) of None \<Rightarrow> ''defer'' | Some p \<Rightarrow> p) in
      bindE (throwIf (policy \<noteq> ''apply'' \<and> policy \<noteq> ''defer'')
        (OfflineSyncConfigurationError ''concurrencyApplication'')) (\<lambda>_.
      case pt_preApplyDetector (op_ports opts) of
        None \<Rightarrow> Inr \<lparr>pr_context = original, pr_pairs = [], pr_defer = False\<rparr>
      | Some detect \<Rightarrow>
          bindE (detect trx item original) (\<lambda>(suspected, found).
          bindE (throwIf (suspected \<noteq> (found \<noteq> [])) (OfflineSyncConfigurationError ''preApplyDetector'')) (\<lambda>_.
          bindE (admitPairs (pt_handoff (op_ports opts)) trx (bi_queueItemId item) original exists [] found [])
            (\<lambda>pairs. Inr \<lparr>
              pr_context = original\<lparr>ic_concurrencySuspected := Some (pairs \<noteq> []),
                ic_concurrentPairs := Some pairs\<rparr>,
              pr_pairs = pairs, pr_defer = (pairs \<noteq> [] \<and> policy = ''defer'')\<rparr>)))))"

subsection \<open>Integrity rejections\<close>

definition rejectionKey :: "scope \<Rightarrow> string \<Rightarrow> string \<Rightarrow> string \<Rightarrow> string" where
  "rejectionKey sc deviceId deviceBatchId queueItemId =
     tkey (sc_tenantId sc) (JSON_stringify (JArr [JStr deviceId, JStr deviceBatchId, JStr queueItemId]))"

definition itemIntegrity :: string where
  "itemIntegrity = ''OFFLINE_SYNC_ITEM_INTEGRITY''"

definition saveRejection ::
  "scope \<Rightarrow> batch_input \<Rightarrow> batch_item \<Rightarrow> string \<Rightarrow> queue_item option \<Rightarrow> string \<Rightarrow> offline_store \<Rightarrow> offline_store" where
  "saveRejection sc input item key original now s =
     (let k = rejectionKey sc (ba_deviceId input) (ba_deviceBatchId input) (bi_queueItemId item) in
      case jget (st_integrityRejections s) k of
        Some _ \<Rightarrow> s
      | None \<Rightarrow> s\<lparr>st_integrityRejections := jset k \<lparr>
          ir_tenantId = sc_tenantId sc, ir_deviceId = ba_deviceId input,
          ir_deviceBatchId = ba_deviceBatchId input, ir_queueItemId = bi_queueItemId item,
          ir_idempotencyKey = key, ir_receivedPayloadHash = bi_payloadHash item,
          ir_storedPayloadHash = map_option bi_payloadHash original,
          ir_originalQueueItemId = map_option bi_queueItemId original, ir_rejectedAt = now\<rparr>
          (st_integrityRejections s)\<rparr>)"

definition rejectionContext :: "integrity_rejection \<Rightarrow> stynx_context" where
  "rejectionContext r = no_stynx\<lparr>sx_receiptId := Some (ir_idempotencyKey r),
     sx_errorCode := Some itemIntegrity, sx_reasonCode := Some itemIntegrity,
     sx_receivedPayloadHash := Some (ir_receivedPayloadHash r),
     sx_storedPayloadHash := ir_storedPayloadHash r,
     sx_relatedQueueItemId := ir_originalQueueItemId r, sx_retryable := Some False\<rparr>"

definition itemContextOf ::
  "scope \<Rightarrow> batch_input \<Rightarrow> string \<Rightarrow> string \<Rightarrow> string \<Rightarrow> item_context" where
  "itemContextOf sc input agentId now key = \<lparr>
     ic_tenantId = sc_tenantId sc, ic_actorId = sc_actorId sc, ic_agentId = agentId,
     ic_orgUnitId = ba_orgUnitId input, ic_deviceId = ba_deviceId input,
     ic_batchId = ba_deviceBatchId input, ic_now = now, ic_receiptId = Some key,
     ic_concurrencySuspected = None, ic_concurrentPairs = None\<rparr>"

definition askAllowed ::
  "batch_options \<Rightarrow> string \<Rightarrow> string \<Rightarrow> item_context \<Rightarrow> string list \<Rightarrow> offline_error + string list" where
  "askAllowed opts trx conflictId context fallback = (case pt_allowedActions (op_ports opts) of
     None \<Rightarrow> Inr fallback
   | Some f \<Rightarrow> bindE (f trx conflictId context) (\<lambda>a. Inr (case a of None \<Rightarrow> fallback | Some l \<Rightarrow> l)))"

definition integrityConflict ::
  "env \<Rightarrow> scope \<Rightarrow> batch_input \<Rightarrow> batch_item \<Rightarrow> string \<Rightarrow> queue_item option \<Rightarrow> batch_options \<Rightarrow> string
   \<Rightarrow> string \<Rightarrow> stynx_context sync" where
  "integrityConflict E sc input item key original opts agentId now =
     (let rk = rejectionKey sc (ba_deviceId input) (ba_deviceBatchId input) (bi_queueItemId item);
          dedupe = tkey (sc_tenantId sc) (key @ [CHR 0x00] @ bi_payloadHash item);
          answer = bindS (getS (\<lambda>s. jget (st_integrityRejections s) rk)) (\<lambda>r.
            case r of None \<Rightarrow> throwS TypeError | Some x \<Rightarrow> returnS (rejectionContext x))
      in bindS (getS (\<lambda>s. jget (st_integrityConflicts s) dedupe)) (\<lambda>known.
         case (original, known) of
           (Some o1, None) \<Rightarrow>
             bindS (uuidS E) (\<lambda>conflictId.
             bindS (uuidS E) (\<lambda>trx.
             bindS (liftE (askAllowed opts trx conflictId (itemContextOf sc input agentId now key)
               [''reject''])) (\<lambda>allowedActions.
             bindS (updS (saveRejection sc input item key original now)) (\<lambda>_.
             bindS (updS (\<lambda>s. s\<lparr>st_integrityConflicts := jset dedupe conflictId (st_integrityConflicts s)\<rparr>)) (\<lambda>_.
             bindS (updS (saveConflict (openConflictOf conflictId (sc_tenantId sc) (bi_queueItemId o1)
                 (bi_localEntityId o1) (bi_payloadHash o1) ''integrity''
                 ''Payload hash differs from the stored item.'') now (Some allowedActions)
                 (Some (no_stynx\<lparr>sx_receiptId := Some key, sx_reasonCode := Some itemIntegrity,
                   sx_receivedPayloadHash := Some (bi_payloadHash item),
                   sx_storedPayloadHash := Some (bi_payloadHash o1),
                   sx_relatedQueueItemId := Some (bi_queueItemId item),
                   sx_retryable := Some (''retry_after_correction'' \<in> set allowedActions)\<rparr>)) None)) (\<lambda>_.
             answer))))))
         | _ \<Rightarrow> bindS (updS (saveRejection sc input item key original now)) (\<lambda>_. answer)))"

subsection \<open>Reads\<close>

definition getQueueItem :: "string \<Rightarrow> string \<Rightarrow> offline_store \<Rightarrow> queue_item option" where
  "getQueueItem tenantId queueItemId s = jget (st_queueItems s) (tkey tenantId queueItemId)"

definition getSyncBatchReceipt :: "scope \<Rightarrow> string \<Rightarrow> string \<Rightarrow> offline_store \<Rightarrow> batch_receipt option" where
  "getSyncBatchReceipt sc deviceId deviceBatchId s =
     map_option bt_receipt (jget (st_batches s) (tkey (sc_tenantId sc) (deviceId @ '':'' @ deviceBatchId)))"

definition getSyncIntegrityRejection ::
  "scope \<Rightarrow> string \<Rightarrow> string \<Rightarrow> string \<Rightarrow> offline_store \<Rightarrow> integrity_rejection option" where
  "getSyncIntegrityRejection sc deviceId deviceBatchId queueItemId s =
     jget (st_integrityRejections s) (rejectionKey sc deviceId deviceBatchId queueItemId)"

definition getSyncItemReceipt :: "scope \<Rightarrow> string \<Rightarrow> offline_store \<Rightarrow> item_receipt option" where
  "getSyncItemReceipt sc idempotencyKey s =
     map_option it_receipt (jget (st_itemReceipts s) (tkey (sc_tenantId sc) idempotencyKey))"

end
