(* ===== verification/Offline_Durable.thy ===== *)
theory Offline_Durable
  imports Offline_Outcome
begin

text \<open>
  \<open>submitDurableSyncBatch\<close> of \<open>InMemoryOfflineSyncStore\<close>, one definition per stage: identities of the items,
  replay and sequence of batches, and for each item the integrity checks, the duplicates, the application
  through the host's ports, the classification of a failure and the final writes.

  Batches of one tenant run one at a time (the exclusive gate of \<open>mutateTenant\<close>), so a batch that is still
  running is not met here and the wait for it is not modelled; neither is a batch submitted from inside a
  port. Each item runs in its own frame and is committed when it is done.
\<close>

subsection \<open>Item identities\<close>

definition legacyIdentity :: "scope \<Rightarrow> batch_input \<Rightarrow> batch_options \<Rightarrow> batch_item \<Rightarrow> offline_error + string" where
  "legacyIdentity sc input opts item = (case pt_legacyIdentity (op_ports opts) of
     Some f \<Rightarrow> f (sc_tenantId sc) input item
   | None \<Rightarrow> Inr (ba_deviceId input @ [CHR 0x00] @ ba_deviceBatchId input @ [CHR 0x00] @ bi_queueItemId item))"

definition itemKeyOf ::
  "env \<Rightarrow> scope \<Rightarrow> batch_input \<Rightarrow> batch_options \<Rightarrow> batch_item \<Rightarrow> offline_error + string" where
  "itemKeyOf E sc input opts item =
     bindE (throwIf (case bi_reservedNumber item of None \<Rightarrow> False | Some n \<Rightarrow> \<not> isSafeInteger n)
       (invalidInput ''reservedNumber must be a safe integer.'')) (\<lambda>_.
     bindE (throwIf (case bi_idempotencyKey item of None \<Rightarrow> False | Some k \<Rightarrow> startsWith k ''stynx:legacy:'')
       (invalidInput ''Reserved item namespace.'')) (\<lambda>_.
     case bi_idempotencyKey item of
       Some (c # k) \<Rightarrow> Inr (c # k)
     | _ \<Rightarrow> bindE (legacyIdentity sc input opts item) (\<lambda>identityText.
         bindE (throwIf (identityText = []) (invalidInput ''Legacy identity is empty.'')) (\<lambda>_.
         Inr (''stynx:legacy:v1:'' @ env_sha256 E (sc_tenantId sc @ [CHR 0x00] @ identityText))))))"

fun itemKeysOf ::
  "env \<Rightarrow> scope \<Rightarrow> batch_input \<Rightarrow> batch_options \<Rightarrow> batch_item list \<Rightarrow> string list \<Rightarrow> (string, string) jsmap
   \<Rightarrow> offline_error + (string, string) jsmap" where
  "itemKeysOf E sc input opts [] declared keys = Inr keys"
| "itemKeysOf E sc input opts (item # rest) declared keys =
     bindE (itemKeyOf E sc input opts item) (\<lambda>key.
     bindE (throwIf (key \<in> set declared)
       (invalidInput ''Item identity appears more than once in the batch.'')) (\<lambda>_.
     itemKeysOf E sc input opts rest (key # declared) (jset (bi_queueItemId item) key keys)))"

text \<open>\<open>!!item.idempotencyKey\<close>.\<close>

definition keyed :: "batch_item \<Rightarrow> bool" where
  "keyed item \<longleftrightarrow> truthy (bi_idempotencyKey item)"

definition requirePorts :: "batch_input \<Rightarrow> batch_options \<Rightarrow> offline_error + unit" where
  "requirePorts input opts =
     bindE (throwIf (pt_itemApplier (op_ports opts) = None
         \<and> list_ex (\<lambda>item. keyed item \<and> bi_reservedNumber item \<noteq> None) (ba_items input))
       (OfflineSyncConfigurationError ''itemApplier'')) (\<lambda>_.
     throwIf (pt_itemApplier (op_ports opts) \<noteq> None \<and> pt_event (op_ports opts) = None)
       (OfflineSyncConfigurationError ''eventPort''))"

subsection \<open>Replay and sequence\<close>

definition batchConflict :: "string \<Rightarrow> offline_error" where
  "batchConflict m = syncError OFFLINE_SYNC_BATCH_CONFLICT 409 m"

definition checkTransport ::
  "(string \<times> string) option \<Rightarrow> string \<Rightarrow> string \<Rightarrow> offline_error + unit" where
  "checkTransport bound identity fingerprint = (case bound of
     None \<Rightarrow> Inr ()
   | Some (batchIdentity, fp) \<Rightarrow>
       bindE (throwIf (fp \<noteq> fingerprint)
         (UnprocessableEntityException ''IDEMPOTENT_KEY_REUSE_DIFFERENT_BODY'')) (\<lambda>_.
       throwIf (batchIdentity \<noteq> identity) (batchConflict ''Transport key belongs to another batch.'')))"

definition siblingReceipts :: "scope \<Rightarrow> string \<Rightarrow> offline_store \<Rightarrow> batch_receipt list" where
  "siblingReceipts sc deviceId s = filter (\<lambda>r. br_deviceId r = deviceId)
     (map (\<lambda>(k, b). bt_receipt b) (filter (\<lambda>(k, b). startsWith k (sc_tenantId sc @ '':'')) (st_batches s)))"

definition seqOf :: "batch_receipt \<Rightarrow> int" where
  "seqOf r = (case br_batchSequence r of None \<Rightarrow> 0 | Some n \<Rightarrow> n)"

definition expectedSequence :: "batch_receipt list \<Rightarrow> int" where
  "expectedSequence siblings = foldl max 0 (map seqOf siblings) + 1"

definition checkSequence :: "scope \<Rightarrow> batch_input \<Rightarrow> offline_store \<Rightarrow> offline_error + unit" where
  "checkSequence sc input s = (case ba_batchSequence input of
     None \<Rightarrow> Inr ()
   | Some n \<Rightarrow>
      (let siblings = siblingReceipts sc (ba_deviceId input) s;
           expected = expectedSequence siblings;
           context = Some (JObj [(''expectedSequence'', JNum expected), (''receivedSequence'', JNum n),
             (''deviceBatchId'', JStr (ba_deviceBatchId input))])
       in bindE (throwIf (list_ex (\<lambda>r. br_batchSequence r = Some n) siblings)
            (OfflineSyncError OFFLINE_SYNC_BATCH_CONFLICT 409 ''Batch sequence is already used.'' False context)) (\<lambda>_.
          throwIf (n \<noteq> expected)
            (OfflineSyncError OFFLINE_SYNC_BATCH_SEQUENCE 422
              (''Expected batch sequence '' @ dec_int expected @ ''; received '' @ dec_int n @ ''.'')
              False context))))"

subsection \<open>Accumulated results of a batch\<close>

record batch_acc =
  acc_stored :: "queue_item list"
  acc_receipts :: "item_receipt list"
  acc_duplicates :: nat
  acc_retryable :: bool

definition pushItem :: "queue_item \<Rightarrow> item_receipt \<Rightarrow> batch_acc \<Rightarrow> batch_acc" where
  "pushItem q r a = a\<lparr>acc_stored := acc_stored a @ [q], acc_receipts := acc_receipts a @ [r]\<rparr>"

definition receiptOf ::
  "string \<Rightarrow> queue_status \<Rightarrow> string option \<Rightarrow> json_context option \<Rightarrow> stynx_context option \<Rightarrow> item_receipt" where
  "receiptOf i st code ctx x =
     \<lparr>rc_queueItemId = i, rc_status = st, rc_errorCode = code, rc_context = ctx, rc_stynx = x\<rparr>"

record batch_env =
  be_scope :: scope
  be_input :: batch_input
  be_options :: batch_options
  be_agentId :: string
  be_now :: string
  be_identity :: string
  be_initial :: queue_status

text \<open>A rejected item: as submitted, with the error code; nothing is stored for it.\<close>

definition rejectedItem :: "batch_env \<Rightarrow> batch_item \<Rightarrow> string \<Rightarrow> stynx_context option \<Rightarrow> queue_item" where
  "rejectedItem B item code x =
     (storedItem item (sc_tenantId (be_scope B)) (be_agentId B) (ba_orgUnitId (be_input B))
       (ba_deviceId (be_input B)) Q_rejected (be_now B))\<lparr>qi_errorCode := Some code, qi_stynx := x\<rparr>"

definition initialStatusOf :: "batch_env \<Rightarrow> batch_item \<Rightarrow> queue_status" where
  "initialStatusOf B item = (if keyed item \<and> be_initial B = Q_pending then Q_pending else Q_received)"

subsection \<open>Items the batch does not apply\<close>

definition withKey :: "string \<Rightarrow> queue_item \<Rightarrow> queue_item" where
  "withKey key q = q\<lparr>bi_idempotencyKey := Some key\<rparr>"

text \<open>The payload does not have the hash it was sent with.\<close>

definition rejectHash :: "env \<Rightarrow> batch_env \<Rightarrow> batch_item \<Rightarrow> string \<Rightarrow> batch_acc \<Rightarrow> batch_acc sync" where
  "rejectHash E B item key a =
     bindS (getS (\<lambda>s. jget (st_itemReceipts s) (tkey (sc_tenantId (be_scope B)) key))) (\<lambda>rec.
     bindS (integrityConflict E (be_scope B) (be_input B) item key
       (map_option (\<lambda>r. withKey key (it_item r)) rec) (be_options B) (be_agentId B) (be_now B)) (\<lambda>x.
     returnS (pushItem (rejectedItem B item itemIntegrity (Some x))
       (receiptOf (bi_queueItemId item) Q_rejected (Some itemIntegrity) None (Some x)) a)))"

definition rejectReusedId :: "batch_env \<Rightarrow> batch_item \<Rightarrow> batch_acc \<Rightarrow> batch_acc" where
  "rejectReusedId B item a =
     pushItem (rejectedItem B item ''OFFLINE_SYNC_QUEUE_ID_REUSED'' None)
       (receiptOf (bi_queueItemId item) Q_rejected (Some ''OFFLINE_SYNC_QUEUE_ID_REUSED'') None None) a"

text \<open>An item the E6 path received before, under the same key.\<close>

definition legacyIntegrity ::
  "env \<Rightarrow> batch_env \<Rightarrow> batch_item \<Rightarrow> string \<Rightarrow> queue_item \<Rightarrow> stynx_context option sync" where
  "legacyIntegrity E B item key legacy =
     (if bi_payloadHash legacy = bi_payloadHash item then returnS None
      else bindS (integrityConflict E (be_scope B) (be_input B) item key (Some legacy)
        (be_options B) (be_agentId B) (be_now B)) (\<lambda>x. returnS (Some x)))"

definition legacyRecord :: "e6_item \<Rightarrow> queue_item \<Rightarrow> item_record" where
  "legacyRecord e6 legacy = \<lparr>it_hash = bi_payloadHash legacy, it_batchKey = e6_batchKey e6,
     it_receipt = receiptOf (bi_queueItemId legacy) (qi_status legacy) None None None, it_item = legacy,
     it_deviceBatchId = e6_deviceBatchId e6, it_receivedAt = qi_receivedAt legacy\<rparr>"

definition legacyAnswer ::
  "batch_env \<Rightarrow> batch_item \<Rightarrow> e6_item \<Rightarrow> queue_item \<Rightarrow> stynx_context option \<Rightarrow> batch_acc \<Rightarrow> batch_acc" where
  "legacyAnswer B item e6 legacy x a =
     (let sameHash = (bi_payloadHash legacy = bi_payloadHash item);
          legacyReceived = (sameHash \<and> qi_status legacy = Q_received);
          status = (if \<not> sameHash \<or> legacyReceived then Q_rejected else qi_status legacy);
          code = (if \<not> sameHash then Some itemIntegrity
                  else if legacyReceived then Some ''OFFLINE_SYNC_LEGACY_ITEM_NOT_APPLIED'' else None);
          context = (if bi_queueItemId legacy \<noteq> bi_queueItemId item
                     then Some [(''originalQueueItemId'', JStr (bi_queueItemId legacy))] else None)
      in pushItem
           ((storedItem item (sc_tenantId (be_scope B)) (be_agentId B) (ba_orgUnitId (be_input B))
             (ba_deviceId (be_input B)) status (be_now B))\<lparr>qi_errorCode := code, qi_context := context,
             qi_stynx := x\<rparr>)
           (receiptOf (bi_queueItemId item) status code context x)
           (if sameHash \<and> e6_batchKey e6 \<noteq> be_identity B
            then a\<lparr>acc_duplicates := Suc (acc_duplicates a)\<rparr> else a))"

definition adoptLegacy ::
  "env \<Rightarrow> batch_env \<Rightarrow> batch_item \<Rightarrow> string \<Rightarrow> e6_item \<Rightarrow> batch_acc \<Rightarrow> batch_acc sync" where
  "adoptLegacy E B item key e6 a =
     (let tenantId = sc_tenantId (be_scope B) in
      bindS (getS (\<lambda>s. jget (st_queueItems s) (tkey tenantId (bi_queueItemId (e6_queueItem e6))))) (\<lambda>found.
      case found of
        None \<Rightarrow> throwS TypeError
      | Some legacy \<Rightarrow>
        bindS (legacyIntegrity E B item key legacy) (\<lambda>x.
        bindS (updS (\<lambda>s. s\<lparr>st_itemReceipts :=
          jset (tkey tenantId key) (legacyRecord e6 legacy) (st_itemReceipts s)\<rparr>)) (\<lambda>_.
        returnS (legacyAnswer B item e6 legacy x a)))))"

definition terminalReceived :: "item_record \<Rightarrow> bool" where
  "terminalReceived p \<longleftrightarrow> (case rc_stynx (it_receipt p) of None \<Rightarrow> False
     | Some x \<Rightarrow> sx_terminalReceived x = Some True)"

definition reapplying :: "batch_env \<Rightarrow> batch_item \<Rightarrow> item_record option \<Rightarrow> bool" where
  "reapplying B item previous \<longleftrightarrow> (case previous of None \<Rightarrow> False | Some p \<Rightarrow>
     it_hash p = bi_payloadHash item \<and> rc_status (it_receipt p) = Q_pending
     \<and> qi_deviceId (it_item p) = ba_deviceId (be_input B) \<and> it_batchKey p \<noteq> be_identity B
     \<and> keyed item \<and> pt_itemApplier (op_ports (be_options B)) \<noteq> None)"

text \<open>A duplicate that is answered with the facts of the original.\<close>

definition answeredBefore :: "batch_env \<Rightarrow> batch_item \<Rightarrow> item_record \<Rightarrow> bool" where
  "answeredBefore B item p \<longleftrightarrow> it_hash p = bi_payloadHash item
     \<and> (it_batchKey p \<noteq> be_identity B \<or> rc_status (it_receipt p) \<noteq> initialStatusOf B item
        \<or> terminalReceived p \<or> \<not> keyed item)"

definition repeatReceipt :: "batch_env \<Rightarrow> batch_item \<Rightarrow> item_record \<Rightarrow> batch_acc \<Rightarrow> batch_acc" where
  "repeatReceipt B item p a =
     (let rc = it_receipt p;
          context = (case rc_context rc of None \<Rightarrow> [] | Some c \<Rightarrow> c);
          context' = (if bi_queueItemId (it_item p) \<noteq> bi_queueItemId item
            then jset ''originalQueueItemId'' (JStr (bi_queueItemId (it_item p))) context else context);
          a1 = (if it_batchKey p \<noteq> be_identity B then a\<lparr>acc_duplicates := Suc (acc_duplicates a)\<rparr> else a);
          a2 = (if rc_status rc = initialStatusOf B item \<and> keyed item
                  \<and> pt_itemApplier (op_ports (be_options B)) \<noteq> None \<and> \<not> terminalReceived p
                then a1\<lparr>acc_retryable := True\<rparr> else a1)
      in pushItem ((it_item p)\<lparr>bi_queueItemId := bi_queueItemId item\<rparr>)
           (receiptOf (bi_queueItemId item) (rc_status rc) (rc_errorCode rc)
             (if context' = [] then None else Some context') (rc_stynx rc)) a2)"

text \<open>The key was used with another payload.\<close>

definition rejectChanged ::
  "env \<Rightarrow> batch_env \<Rightarrow> batch_item \<Rightarrow> string \<Rightarrow> item_record \<Rightarrow> batch_acc \<Rightarrow> batch_acc sync" where
  "rejectChanged E B item key p a =
     bindS (integrityConflict E (be_scope B) (be_input B) item key (Some (withKey key (it_item p)))
       (be_options B) (be_agentId B) (be_now B)) (\<lambda>x.
     returnS (pushItem ((it_item p)\<lparr>bi_queueItemId := bi_queueItemId item, qi_status := Q_rejected,
         qi_errorCode := Some itemIntegrity, qi_stynx := Some x\<rparr>)
       (receiptOf (bi_queueItemId item) Q_rejected (Some itemIntegrity) None (Some x)) a))"

subsection \<open>Concurrency evidence\<close>

definition evidenceOf :: "string \<Rightarrow> string \<Rightarrow> string list \<Rightarrow> json_context" where
  "evidenceOf conflictId related allowed = [(''conflictId'', JStr conflictId),
     (''relatedQueueItemId'', JStr related), (''allowedActions'', JArr (map JStr allowed))]"

definition concurrencyConflict :: "string \<Rightarrow> string \<Rightarrow> string \<Rightarrow> string \<Rightarrow> string \<Rightarrow> sync_conflict" where
  "concurrencyConflict conflictId tenantId affected localEntityId payloadHash =
     openConflictOf conflictId tenantId affected localEntityId payloadHash ''concurrency''
       ''Concurrent agent activity''"

text \<open>The stored receipts, queue items and conflicts of an affected item.\<close>

definition markAffected ::
  "batch_env \<Rightarrow> string \<Rightarrow> string \<Rightarrow> string list \<Rightarrow> json_context \<Rightarrow> stynx_context \<Rightarrow> string \<times> item_record
   \<Rightarrow> offline_store \<Rightarrow> offline_store" where
  "markAffected B affected conflictId allowed evidence x row s =
     (let tenantId = sc_tenantId (be_scope B); storedKey = fst row; old = snd row;
          s1 = s\<lparr>st_itemReceipts := jset storedKey (old\<lparr>it_receipt := (it_receipt old)\<lparr>
                 rc_status := Q_conflict, rc_context := Some evidence,
                 rc_stynx := Some (stynx_merge (stynx_or_empty (rc_stynx (it_receipt old))) x)\<rparr>\<rparr>)
               (st_itemReceipts s)\<rparr>;
          s2 = (case jget (st_queueItems s1) (tkey tenantId affected) of
                  None \<Rightarrow> s1
                | Some q \<Rightarrow> s1\<lparr>st_queueItems := jset (tkey tenantId affected) (q\<lparr>qi_status := Q_conflict\<rparr>)
                    (st_queueItems s1)\<rparr>)
      in saveConflict (concurrencyConflict conflictId tenantId affected (bi_localEntityId (it_item old))
           (bi_payloadHash (it_item old))) (be_now B) (Some allowed) (Some x) None s2)"

definition recordAffected ::
  "env \<Rightarrow> batch_env \<Rightarrow> batch_item \<Rightarrow> string \<Rightarrow> string \<Rightarrow> item_context \<Rightarrow> concurrent_pair \<Rightarrow> string
   \<Rightarrow> (json_context option \<times> stynx_context option)
   \<Rightarrow> (json_context option \<times> stynx_context option) sync" where
  "recordAffected E B item queueItemId trx context pair affected out =
     bindS (uuidS E) (\<lambda>conflictId.
     let related = (if affected = cp_firstItemId pair then cp_secondItemId pair else cp_firstItemId pair) in
     bindS (liftE (askAllowed (be_options B) trx conflictId context [''manual-review''])) (\<lambda>allowed.
     let evidence = evidenceOf conflictId related allowed;
         x = executionStynxContext (be_options B) (no_stynx\<lparr>
           sx_reasonCode := Some ''OFFLINE_SYNC_CONCURRENCY_SUSPECTED'', sx_concurrencySuspected := Some True,
           sx_concurrentPairs := Some [pair], sx_relatedQueueItemId := Some related,
           sx_retryable := Some (''retry_after_correction'' \<in> set allowed)\<rparr>)
     in bindS (updS (\<lambda>s. fold (markAffected B affected conflictId allowed evidence x)
          (filter (\<lambda>(k, old). bi_queueItemId (it_item old) = affected
             \<and> startsWith k (sc_tenantId (be_scope B) @ '':'')) (st_itemReceipts s)) s)) (\<lambda>_.
        if affected = queueItemId then
          bindS (updS (saveConflict (concurrencyConflict conflictId (sc_tenantId (be_scope B)) affected
              (bi_localEntityId item) (bi_payloadHash item)) (be_now B) (Some allowed) (Some x) None)) (\<lambda>_.
          returnS (Some evidence, Some x))
        else returnS out)))"

fun recordPairs ::
  "env \<Rightarrow> batch_env \<Rightarrow> batch_item \<Rightarrow> string \<Rightarrow> string \<Rightarrow> item_context \<Rightarrow> concurrent_pair list
   \<Rightarrow> bool \<times> json_context option \<times> stynx_context option
   \<Rightarrow> (bool \<times> json_context option \<times> stynx_context option) sync" where
  "recordPairs E B item queueItemId trx context [] acc = returnS acc"
| "recordPairs E B item queueItemId trx context (pair # rest) acc =
     bindS (recordAffected E B item queueItemId trx context pair (cp_firstItemId pair) (snd acc)) (\<lambda>o1.
     bindS (recordAffected E B item queueItemId trx context pair (cp_secondItemId pair) o1) (\<lambda>o2.
     recordPairs E B item queueItemId trx context rest
       (fst acc \<or> queueItemId \<in> set (pair_ids pair), o2)))"

subsection \<open>Application\<close>

record applied_item =
  ai_status :: queue_status
  ai_errorCode :: "string option"
  ai_serverEntityId :: "string option"
  ai_context :: "json_context option"
  ai_covering :: "string option"
  ai_stynx :: "stynx_context option"
  ai_retryable :: bool

definition samePair :: "concurrent_pair \<Rightarrow> concurrent_pair \<Rightarrow> bool" where
  "samePair old pair \<longleftrightarrow>
     cp_firstItemId pair \<in> set (pair_ids old) \<and> cp_secondItemId pair \<in> set (pair_ids old)"

fun addDetected ::
  "batch_options \<Rightarrow> string \<Rightarrow> item_context \<Rightarrow> concurrent_pair list \<Rightarrow> concurrent_pair list
   \<Rightarrow> offline_error + concurrent_pair list" where
  "addDetected opts trx context [] pairs = Inr pairs"
| "addDetected opts trx context (p # ps) pairs =
     bindE (permitted (pt_handoff (op_ports opts)) trx p context) (\<lambda>ok.
     addDetected opts trx context ps
       (if ok \<or> list_ex (\<lambda>old. samePair old p) pairs then pairs else pairs @ [p]))"

text \<open>\<open>policy.concurrencyWindowMinutes && ports.concurrencyDetector\<close>.\<close>

definition detecting :: "batch_options \<Rightarrow> bool" where
  "detecting opts \<longleftrightarrow> pt_concurrencyDetector (op_ports opts) \<noteq> None
     \<and> (case po_concurrencyWindowMinutes (op_policy opts) of None \<Rightarrow> False | Some w \<Rightarrow> w \<noteq> 0)"

definition detectPairs ::
  "batch_options \<Rightarrow> string \<Rightarrow> batch_item \<Rightarrow> item_context \<Rightarrow> concurrent_pair list
   \<Rightarrow> offline_error + concurrent_pair list" where
  "detectPairs opts trx portItem context pairs =
     (case (detecting opts, pt_concurrencyDetector (op_ports opts)) of
        (True, Some detect) \<Rightarrow> bindE (detect trx portItem context) (\<lambda>(suspected, found).
          if suspected then addDetected opts trx context found pairs else Inr pairs)
      | _ \<Rightarrow> Inr pairs)"

definition applyThroughPort ::
  "env \<Rightarrow> batch_env \<Rightarrow> batch_item \<Rightarrow> batch_item \<Rightarrow> string \<Rightarrow> string \<Rightarrow> bool \<Rightarrow> int \<Rightarrow> prepared_item
   \<Rightarrow> string option
   \<Rightarrow> (string \<Rightarrow> batch_item \<Rightarrow> item_context \<Rightarrow> offline_error + apply_result) \<Rightarrow> applied_item sync" where
  "applyThroughPort E B item portItem key trx again attempts prepared covering applier =
     (let context = pr_context prepared; opts = be_options B in
      bindS (liftE (applier trx portItem context)) (\<lambda>applied.
      bindS (updS (\<lambda>s. s\<lparr>st_effects := st_effects s
        @ [Effect_apply (tkey (sc_tenantId (be_scope B)) key) portItem]\<rparr>)) (\<lambda>_.
      bindS (liftE (boundedConsumerAttributes (ap_consumerAttributes applied))) (\<lambda>attributes.
      bindS (liftE (detectPairs opts trx portItem context (pr_pairs prepared))) (\<lambda>pairs.
      bindS (recordPairs E B item (bi_queueItemId portItem) trx context pairs (False, None, None))
        (\<lambda>(conflict, evidence, x).
      let observed = (ic_concurrencySuspected context \<noteq> None \<or> detecting opts);
          x' = stynx_merge (stynx_or_empty x) (executionStynxContext opts (no_stynx\<lparr>
            sx_concurrencySuspected := (if observed then Some (pairs \<noteq> []) else None),
            sx_concurrentPairs := (if observed then Some pairs else None),
            sx_receiptId := Some key, sx_appliedAt := Some (be_now B),
            sx_serverEntityId := Some (ap_serverEntityId applied), sx_attempts := Some attempts,
            sx_consumerAttributes := attributes\<rparr>));
          event = \<lparr>ev_entity = bi_entityType item, ev_entityId = ap_serverEntityId applied,
            ev_idempotencyKey = (if again then key @ '':retry:'' @ dec_int attempts else key),
            ev_payload = bi_payloadJson item\<rparr>
      in bindS (eventS (pt_event (op_ports opts)) trx event) (\<lambda>_.
         returnS \<lparr>ai_status = (if conflict then Q_conflict else Q_applied), ai_errorCode = None,
           ai_serverEntityId = Some (ap_serverEntityId applied), ai_context = evidence,
           ai_covering = covering, ai_stynx = Some x', ai_retryable = False\<rparr>)))))))"

definition deferItem ::
  "env \<Rightarrow> batch_env \<Rightarrow> batch_item \<Rightarrow> batch_item \<Rightarrow> string \<Rightarrow> string \<Rightarrow> int \<Rightarrow> prepared_item
   \<Rightarrow> applied_item sync" where
  "deferItem E B item portItem key trx attempts prepared =
     (let context = pr_context prepared in
      bindS (recordPairs E B item (bi_queueItemId portItem) trx context (pr_pairs prepared)
        (False, None, None)) (\<lambda>(conflict, evidence, x).
      returnS \<lparr>ai_status = Q_conflict, ai_errorCode = None, ai_serverEntityId = None,
        ai_context = evidence, ai_covering = None,
        ai_stynx = Some (stynx_merge (executionStynxContext (be_options B) (no_stynx\<lparr>
            sx_receiptId := Some key, sx_attempts := Some attempts,
            sx_concurrencySuspected := ic_concurrencySuspected context,
            sx_concurrentPairs := ic_concurrentPairs context\<rparr>)) (stynx_or_empty x)),
        ai_retryable = False\<rparr>))"

text \<open>The body of \<open>apply\<close> after the preparation: deferral, or the number and the host's applier.\<close>

definition applyPrepared ::
  "env \<Rightarrow> batch_env \<Rightarrow> batch_item \<Rightarrow> batch_item \<Rightarrow> string \<Rightarrow> string \<Rightarrow> bool \<Rightarrow> int \<Rightarrow> prepared_item
   \<Rightarrow> applied_item sync" where
  "applyPrepared E B item portItem key trx again attempts prepared =
     (if pr_defer prepared then deferItem E B item portItem key trx attempts prepared
      else
        bindS (case bi_reservedNumber item of
            None \<Rightarrow> returnS None
          | Some n \<Rightarrow> bindS (\<lambda>s. (checkNumber (be_scope B) (ba_deviceId (be_input B))
                (ba_orgUnitId (be_input B)) (bi_entityType item) n (bi_reservationId item)
                (bi_createdLocallyAt item) s, s)) (\<lambda>k. returnS (Some k))) (\<lambda>covering.
        case pt_itemApplier (op_ports (be_options B)) of
          None \<Rightarrow> returnS \<lparr>ai_status = initialStatusOf B item, ai_errorCode = None,
            ai_serverEntityId = None, ai_context = None, ai_covering = covering, ai_stynx = None,
            ai_retryable = False\<rparr>
        | Some applier \<Rightarrow>
            applyThroughPort E B item portItem key trx again attempts prepared covering applier))"

subsection \<open>Failure of an application\<close>

fun numberingFailure :: "offline_error \<Rightarrow> (offline_code \<times> int \<times> string option) option" where
  "numberingFailure (OfflineSyncNumberingOutcome c n r) = Some (c, n, r)"
| "numberingFailure _ = None"

fun isBatchConflict :: "offline_error \<Rightarrow> bool" where
  "isBatchConflict (OfflineSyncError c st m rt ctx) = (c = OFFLINE_SYNC_BATCH_CONFLICT)"
| "isBatchConflict _ = False"

definition classifiedFailure :: "offline_error \<Rightarrow> bool \<Rightarrow> bool \<Rightarrow> bool" where
  "classifiedFailure e contextValid outcomeValid \<longleftrightarrow> contextValid \<and> outcomeValid
     \<and> (case error_status e of None \<Rightarrow> False | Some st \<Rightarrow> 400 \<le> st \<and> st < 500) \<and> \<not> isBatchConflict e"

definition failureStatus ::
  "offline_error \<Rightarrow> domain_outcome option \<Rightarrow> bool \<Rightarrow> bool \<Rightarrow> queue_status \<Rightarrow> queue_status" where
  "failureStatus e outcome classified again initial =
     (case numberingFailure e of
        Some (c, n, r) \<Rightarrow> (if c = OFFLINE_SYNC_NUMBERING_EXPIRED then Q_conflict else Q_rejected)
      | None \<Rightarrow> (case outcome of Some d \<Rightarrow> do_status d
          | None \<Rightarrow> if classified then Q_rejected else if again then Q_pending else initial))"

definition failureCode :: "batch_options \<Rightarrow> offline_error \<Rightarrow> bool \<Rightarrow> classification \<Rightarrow> string" where
  "failureCode opts e contextValid cl =
     (if \<not> contextValid then ''OFFLINE_SYNC_DOMAIN_CONTEXT_INVALID''
      else if \<not> cl_valid cl then ''OFFLINE_SYNC_DOMAIN_OUTCOME_INVALID''
      else (case (if pt_classifier (op_ports opts) \<noteq> None
                  then (case cl_code cl of Some c \<Rightarrow> Some c | None \<Rightarrow> domainFailureCode e)
                  else error_code e) of
              Some c \<Rightarrow> c | None \<Rightarrow> ''OFFLINE_SYNC_ITEM_FAILED''))"

definition handleFailure ::
  "env \<Rightarrow> batch_env \<Rightarrow> batch_item \<Rightarrow> batch_item \<Rightarrow> string \<Rightarrow> string \<Rightarrow> bool \<Rightarrow> int \<Rightarrow> item_context
   \<Rightarrow> offline_error \<Rightarrow> applied_item sync" where
  "handleFailure E B item portItem key trx again attempts context e =
     (let opts = be_options B;
          dc = domainErrorContext e;
          cl = classifyDomainOutcome (pt_classifier (op_ports opts)) e dc portItem context;
          outcome = cl_outcome cl;
          classified = classifiedFailure e (fst dc) (cl_valid cl);
          numbering = numberingFailure e;
          ctx = (if (classified \<or> outcome \<noteq> None) \<and> numbering = None then snd dc else None);
          code = failureCode opts e (fst dc) cl;
          x = executionStynxContext opts (no_stynx\<lparr>sx_receiptId := Some key, sx_errorCode := Some code,
            sx_errorMessage := Some (error_message e), sx_attempts := Some attempts,
            sx_reasonCode := (case numbering of Some (c, n, r) \<Rightarrow> Some (offline_code_text c)
              | None \<Rightarrow> if outcome \<noteq> None then Some code else None),
            sx_retryable := Some (if outcome \<noteq> None then False else \<not> classified),
            sx_terminalReceived := (case outcome of Some d \<Rightarrow>
              if do_status d = Q_received then Some True else None | None \<Rightarrow> None)\<rparr>);
          answer = \<lparr>ai_status = failureStatus e outcome classified again (initialStatusOf B item),
            ai_errorCode = Some code, ai_serverEntityId = None, ai_context = ctx, ai_covering = None,
            ai_stynx = Some x, ai_retryable = (\<not> classified \<and> outcome = None)\<rparr>;
          conflict = (case numbering of
              Some (c, n, r) \<Rightarrow> Some (''domain'', offline_code_text c)
            | None \<Rightarrow> Option.bind outcome do_conflict)
      in case conflict of
           None \<Rightarrow> returnS answer
         | Some (kind, description) \<Rightarrow>
             bindS (uuidS E) (\<lambda>conflictId.
             bindS (liftE (askAllowed opts trx conflictId context
               (if kind = ''concurrency'' then [''manual_review'']
                else [''reject'', ''retry_after_correction'']))) (\<lambda>allowed.
             bindS (updS (saveConflict (openConflictOf conflictId (sc_tenantId (be_scope B))
                 (bi_queueItemId portItem) (bi_localEntityId item) (bi_payloadHash item) kind description)
                 (be_now B) (Some allowed)
                 (Some (executionStynxContext opts (no_stynx\<lparr>sx_receiptId := Some key,
                   sx_reasonCode := Some code, sx_errorCode := Some code, sx_attempts := Some attempts,
                   sx_retryable := Some (''retry_after_correction'' \<in> set allowed)\<rparr>)))
                 (if numbering = None then snd dc else None))) (\<lambda>_.
             returnS (case numbering of
                 Some (c, n, r) \<Rightarrow> answer\<lparr>ai_context := Some (numbering_json n r
                   @ [(''conflictId'', JStr conflictId), (''allowedActions'', JArr (map JStr allowed))])\<rparr>
               | None \<Rightarrow> answer)))))"

end
