(* ===== verification/Offline_Batch.thy ===== *)
theory Offline_Batch
  imports Offline_Durable
begin

text \<open>
  The rest of \<open>submitDurableSyncBatch\<close>: one item from its checks to its writes (\<open>processItem\<close>), the items of
  a batch in order, and the batch around them with its replay, sequence and transport checks.
\<close>

subsection \<open>One item\<close>

definition contextMerge :: "json_context \<Rightarrow> json_context \<Rightarrow> json_context" where
  "contextMerge a b = fold (\<lambda>(k, v). jset k v) b a"

definition nonempty :: "json_context \<Rightarrow> json_context option" where
  "nonempty c = (if c = [] then None else Some c)"

definition context_list :: "json_context option \<Rightarrow> json_context" where
  "context_list c = (case c of None \<Rightarrow> [] | Some l \<Rightarrow> l)"

definition attemptsOf :: "item_record option \<Rightarrow> int" where
  "attemptsOf previous = (case Option.bind previous
       (\<lambda>p. Option.bind (rc_stynx (it_receipt p)) sx_attempts) of None \<Rightarrow> 0 | Some n \<Rightarrow> n) + 1"

text \<open>The identifier the item is stored under, and the item as the ports see it.\<close>

definition portItemOf :: "batch_env \<Rightarrow> batch_item \<Rightarrow> item_record option \<Rightarrow> batch_item" where
  "portItemOf B item previous = (case previous of
     Some p \<Rightarrow> if reapplying B item previous then item\<lparr>bi_queueItemId := bi_queueItemId (it_item p)\<rparr> else item
   | None \<Rightarrow> item)"

text \<open>
  The application with its \<open>try\<close> and \<open>catch\<close>. A failure restores the projections; the ports are then
  asked with the prepared context when the preparation succeeded, and with the first one otherwise.
\<close>

definition attemptItem ::
  "env \<Rightarrow> batch_env \<Rightarrow> batch_item \<Rightarrow> string \<Rightarrow> item_record option \<Rightarrow> string \<Rightarrow> applied_item sync" where
  "attemptItem E B item key previous trx s =
     (let portItem = portItemOf B item previous;
          again = reapplying B item previous;
          attempts = attemptsOf previous;
          original = itemContextOf (be_scope B) (be_input B) (be_agentId B) (be_now B) key;
          prepared = prepareOfflineSyncItem trx portItem original (be_options B)
            (\<lambda>i. i = bi_queueItemId portItem
               \<or> jget (st_queueItems s) (tkey (sc_tenantId (be_scope B)) i) \<noteq> None)
      in case ownedFrame (bindS (liftE prepared)
                (applyPrepared E B item portItem key trx again attempts)) s of
           (Inr a, t) \<Rightarrow> (Inr a, t)
         | (Inl e, t) \<Rightarrow>
             if isConfigurationError e then (Inl e, t)
             else handleFailure E B item portItem key trx again attempts
               (case prepared of Inl _ \<Rightarrow> original | Inr p \<Rightarrow> pr_context p) e t)"

definition applyItem ::
  "env \<Rightarrow> batch_env \<Rightarrow> batch_item \<Rightarrow> string \<Rightarrow> item_record option \<Rightarrow> applied_item sync" where
  "applyItem E B item key previous =
     (if \<not> keyed item then
        returnS \<lparr>ai_status = initialStatusOf B item,
          ai_errorCode = Some ''OFFLINE_SYNC_LEGACY_ITEM_NOT_APPLIED'', ai_serverEntityId = None,
          ai_context = None, ai_covering = None, ai_stynx = None, ai_retryable = False\<rparr>
      else bindS (uuidS E) (attemptItem E B item key previous))"

definition applied_status :: "queue_status \<Rightarrow> bool" where
  "applied_status st \<longleftrightarrow> st = Q_applied \<or> st = Q_conflict"

text \<open>The write of the used number, guarded as in the code.\<close>

definition useNumber :: "batch_env \<Rightarrow> batch_item \<Rightarrow> applied_item \<Rightarrow> offline_store \<Rightarrow> offline_store" where
  "useNumber B item a s =
     (case (ai_covering a, ai_serverEntityId a, bi_reservedNumber item) of
        (Some k, Some entity, Some n) \<Rightarrow>
          if k \<noteq> [] \<and> applied_status (ai_status a) then recordApplied k n entity (be_now B) s else s
      | _ \<Rightarrow> s)"

definition finishItem ::
  "batch_env \<Rightarrow> batch_item \<Rightarrow> string \<Rightarrow> item_record option \<Rightarrow> applied_item \<Rightarrow> batch_acc \<Rightarrow> batch_acc sync" where
  "finishItem B item key previous a acc s =
     (let tenantId = sc_tenantId (be_scope B);
          again = reapplying B item previous;
          queueItemId = bi_queueItemId (portItemOf B item previous);
          before = Option.bind previous (\<lambda>p. rc_context (it_receipt p));
          receiptContext = (if before = None \<and> ai_context a = None then None
            else Some (contextMerge (context_list before) (context_list (ai_context a))));
          resultContext = (if again \<and> queueItemId \<noteq> bi_queueItemId item
            then jset ''originalQueueItemId'' (JStr queueItemId) (context_list receiptContext)
            else context_list receiptContext);
          saved = (storedItem item tenantId (be_agentId B) (ba_orgUnitId (be_input B))
            (ba_deviceId (be_input B)) (ai_status a) (be_now B))
            \<lparr>qi_context := nonempty resultContext, qi_stynx := ai_stynx a\<rparr>;
          itemReceipt = receiptOf (bi_queueItemId item) (ai_status a) (ai_errorCode a)
            (nonempty resultContext) (ai_stynx a);
          storedReceipt = receiptOf queueItemId (ai_status a) (ai_errorCode a) receiptContext (ai_stynx a);
          kept = saved\<lparr>bi_queueItemId := queueItemId\<rparr>;
          record' = \<lparr>it_hash = bi_payloadHash item,
            it_batchKey = (case previous of Some p \<Rightarrow> if again then it_batchKey p else be_identity B
              | None \<Rightarrow> be_identity B),
            it_receipt = storedReceipt, it_item = kept,
            it_deviceBatchId = (case previous of
                Some p \<Rightarrow> if again then it_deviceBatchId p else ba_deviceBatchId (be_input B)
              | None \<Rightarrow> ba_deviceBatchId (be_input B)),
            it_receivedAt = (case previous of Some p \<Rightarrow> it_receivedAt p | None \<Rightarrow> be_now B)\<rparr>;
          s1 = s\<lparr>st_queueItems := jset (tkey tenantId queueItemId) (withKey key kept) (st_queueItems s),
            st_queueBatches := (if again then st_queueBatches s
              else jset (tkey tenantId queueItemId) (ba_deviceBatchId (be_input B)) (st_queueBatches s)),
            st_itemReceipts := jset (tkey tenantId key) record' (st_itemReceipts s)\<rparr>
      in (Inr (pushItem saved itemReceipt
            (if ai_retryable a then acc\<lparr>acc_retryable := True\<rparr> else acc)),
          useNumber B item a s1))"

definition applyAndFinish ::
  "env \<Rightarrow> batch_env \<Rightarrow> batch_item \<Rightarrow> string \<Rightarrow> item_record option \<Rightarrow> batch_acc \<Rightarrow> batch_acc sync" where
  "applyAndFinish E B item key previous acc =
     bindS (applyItem E B item key previous) (\<lambda>a. finishItem B item key previous a acc)"

text \<open>An item that is intact and new to the E6 path: a duplicate, a changed payload, or one to apply.\<close>

definition processKnown ::
  "env \<Rightarrow> batch_env \<Rightarrow> batch_item \<Rightarrow> string \<Rightarrow> item_record option \<Rightarrow> batch_acc \<Rightarrow> batch_acc sync" where
  "processKnown E B item key previous acc = (case previous of
     None \<Rightarrow> applyAndFinish E B item key previous acc
   | Some p \<Rightarrow>
       if reapplying B item previous then applyAndFinish E B item key previous acc
       else if answeredBefore B item p then returnS (repeatReceipt B item p acc)
       else if it_hash p \<noteq> bi_payloadHash item then rejectChanged E B item key p acc
       else applyAndFinish E B item key previous acc)"

definition reusedId :: "queue_item option \<Rightarrow> string \<Rightarrow> bool" where
  "reusedId previousQueue key \<longleftrightarrow>
     (case previousQueue of None \<Rightarrow> False | Some q \<Rightarrow> bi_idempotencyKey q \<noteq> Some key)"

definition intactItem :: "env \<Rightarrow> batch_env \<Rightarrow> batch_item \<Rightarrow> string \<Rightarrow> offline_error + bool" where
  "intactItem E B item key = verifyOfflineSyncPayloadHash E (bi_payloadHash item) (bi_payloadJson item)
     (map_option (\<lambda>f. f item (itemContextOf (be_scope B) (be_input B) (be_agentId B) (be_now B) key))
       (pt_payloadHash (op_ports (be_options B))))"

definition processItem ::
  "env \<Rightarrow> batch_env \<Rightarrow> batch_item \<Rightarrow> string \<Rightarrow> batch_acc \<Rightarrow> batch_acc sync" where
  "processItem E B item key acc =
     (let tenantId = sc_tenantId (be_scope B) in
      bindS (liftE (intactItem E B item key)) (\<lambda>intact.
      if \<not> intact then rejectHash E B item key acc
      else
        bindS (getS (\<lambda>s. jget (st_queueItems s) (tkey tenantId (bi_queueItemId item)))) (\<lambda>previousQueue.
        if reusedId previousQueue key then returnS (rejectReusedId B item acc)
        else
          bindS (getS (\<lambda>s. jget (st_e6Items s) (tkey tenantId key))) (\<lambda>e6.
          case e6 of
            Some legacy \<Rightarrow> adoptLegacy E B item key legacy acc
          | None \<Rightarrow>
              bindS (getS (\<lambda>s. jget (st_itemReceipts s) (tkey tenantId key))) (\<lambda>previous.
              processKnown E B item key previous acc)))))"

text \<open>The items of a batch, each in its own frame; a completed item stays when a later one throws.\<close>

fun processItems ::
  "env \<Rightarrow> batch_env \<Rightarrow> (string, string) jsmap \<Rightarrow> batch_item list \<Rightarrow> batch_acc \<Rightarrow> batch_acc sync" where
  "processItems E B keys [] acc = returnS acc"
| "processItems E B keys (item # rest) acc =
     bindS (ownedFrame (processItem E B item (keyText (jget keys (bi_queueItemId item))) acc))
       (processItems E B keys rest)"

subsection \<open>One batch\<close>

definition batchIdentity :: "scope \<Rightarrow> batch_input \<Rightarrow> string" where
  "batchIdentity sc input = tkey (sc_tenantId sc) (ba_deviceId input @ '':'' @ ba_deviceBatchId input)"

definition agentOf :: "scope \<Rightarrow> batch_options \<Rightarrow> string" where
  "agentOf sc opts = (case op_agentId opts of Some a \<Rightarrow> a | None \<Rightarrow> sc_actorId sc)"

definition newReceipt :: "batch_input \<Rightarrow> batch_receipt" where
  "newReceipt input = \<lparr>br_deviceId = ba_deviceId input, br_deviceBatchId = ba_deviceBatchId input,
     br_batchSequence = ba_batchSequence input, br_status = Batch_open, br_items = [],
     br_responseStatus = None, br_hasBody = False, br_responseHeaders = []\<rparr>"

definition no_results :: batch_acc where
  "no_results = \<lparr>acc_stored = [], acc_receipts = [], acc_duplicates = 0, acc_retryable = False\<rparr>"

text \<open>The receipt, the result and the batch record at the end of a run.\<close>

definition closeBatch ::
  "batch_input \<Rightarrow> batch_options \<Rightarrow> batch_record \<Rightarrow> batch_acc \<Rightarrow> batch_result \<times> batch_record" where
  "closeBatch input opts rec acc =
     (let retry = acc_retryable acc;
          final = (bt_receipt rec)\<lparr>br_status := (if retry then Batch_open else Batch_closed),
            br_items := acc_receipts acc, br_responseStatus := (if retry then None else Some 201),
            br_hasBody := False, br_responseHeaders := captureReplayableHeaders opts\<rparr>;
          result = \<lparr>bs_batchId = ba_deviceBatchId input, bs_acceptedItems = length (ba_items input),
            bs_duplicateItems = acc_duplicates acc, bs_conflicts = conflictIds (acc_stored acc),
            bs_items = acc_stored acc, bs_receipt = Some final\<rparr>
      in (result, rec\<lparr>bt_receipt := final\<lparr>br_hasBody := \<not> retry\<rparr>,
            bt_result := (if retry then bt_result rec else Some result)\<rparr>))"

definition runBatch ::
  "env \<Rightarrow> scope \<Rightarrow> batch_input \<Rightarrow> batch_options \<Rightarrow> string \<Rightarrow> (string, string) jsmap \<Rightarrow> batch_record
   \<Rightarrow> batch_result sync" where
  "runBatch E sc input opts now keys rec =
     (let identity = batchIdentity sc input;
          B = \<lparr>be_scope = sc, be_input = input, be_options = opts, be_agentId = agentOf sc opts,
            be_now = now, be_identity = identity, be_initial = bt_initialQueueStatus rec\<rparr>
      in bindS (processItems E B keys (ba_items input) no_results) (\<lambda>acc s.
           let closed = closeBatch input opts rec acc
           in (Inr (fst closed), s\<lparr>st_batches := jset identity (snd closed) (st_batches s)\<rparr>)))"

definition bindTransport :: "string \<Rightarrow> string \<Rightarrow> string \<Rightarrow> offline_store \<Rightarrow> offline_store" where
  "bindTransport transportKey identity fingerprint s =
     s\<lparr>st_transport := jset transportKey (identity, fingerprint) (st_transport s)\<rparr>"

definition newBatch ::
  "env \<Rightarrow> scope \<Rightarrow> batch_input \<Rightarrow> batch_options \<Rightarrow> string \<Rightarrow> batch_record" where
  "newBatch E sc input opts now = \<lparr>
     bt_contextHash = batchContextFingerprint E input (agentOf sc opts),
     bt_initialQueueStatus = (case pt_initialQueueStatus (op_ports opts) of None \<Rightarrow> Q_received | Some st \<Rightarrow> st),
     bt_receipt = newReceipt input, bt_result = None,
     bt_transportKey = transportCompositeKey E sc opts,
     bt_fingerprint = transportFingerprint E opts input, bt_createdAt = now\<rparr>"

definition submitDurableSyncBatch ::
  "env \<Rightarrow> scope \<Rightarrow> batch_input \<Rightarrow> batch_options \<Rightarrow> string \<Rightarrow> batch_result sync" where
  "submitDurableSyncBatch E sc input opts now =
     bindS (liftE (itemKeysOf E sc input opts (ba_items input) [] [])) (\<lambda>keys.
     bindS (liftE (requirePorts input opts)) (\<lambda>_.
     let identity = batchIdentity sc input;
         fingerprint = transportFingerprint E opts input;
         transportKey = transportCompositeKey E sc opts
     in bindS (getS (\<lambda>s. jget (st_batches s) identity)) (\<lambda>found.
        case found of
          Some prior \<Rightarrow>
            if bt_contextHash prior \<noteq> batchContextFingerprint E input (agentOf sc opts)
            then throwS (batchConflict ''Batch context differs from the original.'')
            else
              bindS (\<lambda>s. (checkTransport (jget (st_transport s) transportKey) identity fingerprint, s)) (\<lambda>_.
              bindS (updS (bindTransport transportKey identity fingerprint)) (\<lambda>_.
              case bt_result prior of
                Some result \<Rightarrow> returnS result
              | None \<Rightarrow> runBatch E sc input opts now keys prior))
        | None \<Rightarrow>
            bindS (\<lambda>s. (checkSequence sc input s, s)) (\<lambda>_.
            bindS (\<lambda>s. (checkTransport (jget (st_transport s) transportKey) identity fingerprint, s)) (\<lambda>_.
            let rec = newBatch E sc input opts now
            in bindS (updS (\<lambda>s. s\<lparr>st_batches := jset identity rec (st_batches s)\<rparr>)) (\<lambda>_.
               bindS (updS (bindTransport transportKey identity fingerprint)) (\<lambda>_.
               runBatch E sc input opts now keys rec)))))))"

end
