(* ===== verification/Sync_Orders.thy ===== *)
theory Sync_Orders
  imports Offline_Batch
begin

text \<open>
  What an operation of the store may change, as a relation between the state before and the state after.
  The locale \<open>sync_order\<close> is the interface: a relation that is reflexive and transitive, allows drawing
  identifiers, and survives the rollback of a frame. Its rules follow the structure of an operation, and
  each stage of a durable batch is shown once to respect the relation that fits it.
\<close>

subsection \<open>Operations in sequence\<close>

named_theorems sync_simps

lemma sync_basic [sync_simps]:
  "returnS x s = (Inr x, s)" "throwS e s = (Inl e, s)" "liftE r s = (r, s)"
  "getS g s = (Inr (g s), s)" "updS u s = (Inr (), u s)"
  by (simp_all add: returnS_def throwS_def liftE_def getS_def updS_def)

lemma bindS_returnS [sync_simps]: "bindS (returnS x) f s = f x s"
  by (simp add: bindS_def sync_basic)

lemma bindS_throwS [sync_simps]: "bindS (throwS e) f s = (Inl e, s)"
  by (simp add: bindS_def sync_basic)

lemma bindS_getS [sync_simps]: "bindS (getS g) f s = f (g s) s"
  by (simp add: bindS_def sync_basic)

lemma bindS_updS [sync_simps]: "bindS (updS u) f s = f () (u s)"
  by (simp add: bindS_def sync_basic)

definition goes :: "(offline_store \<Rightarrow> offline_store \<Rightarrow> bool) \<Rightarrow> 'a sync \<Rightarrow> offline_store \<Rightarrow> bool" where
  "goes R m s \<longleftrightarrow> R s (snd (m s))"

lemma goesD: "goes R m s \<Longrightarrow> m s = (r, t) \<Longrightarrow> R s t"
  by (simp add: goes_def)

lemma goes_mono: "goes R m s \<Longrightarrow> (\<And>t. R s t \<Longrightarrow> Q s t) \<Longrightarrow> goes Q m s"
  by (simp add: goes_def)

locale sync_order =
  fixes R :: "offline_store \<Rightarrow> offline_store \<Rightarrow> bool"
  assumes refl: "R s s"
    and trans: "R s t \<Longrightarrow> R t u \<Longrightarrow> R s u"
    and uuid: "R s (s\<lparr>st_uuids := Suc (st_uuids s)\<rparr>)"
    and rollback: "R s t \<Longrightarrow> R s (rollbackTo s t)"
begin

lemma goes_returnS: "goes R (returnS x) s"
  by (simp add: goes_def sync_basic refl)

lemma goes_throwS: "goes R (throwS e) s"
  by (simp add: goes_def sync_basic refl)

lemma goes_liftE: "goes R (liftE r) s"
  by (simp add: goes_def sync_basic refl)

lemma goes_getS: "goes R (getS g) s"
  by (simp add: goes_def sync_basic refl)

lemma goes_pure: "goes R (\<lambda>s. (g s, s)) s"
  by (simp add: goes_def refl)

lemma goes_updS: "R s (u s) \<Longrightarrow> goes R (updS u) s"
  by (simp add: goes_def sync_basic)

lemma goes_uuidS: "goes R (uuidS E) s"
  by (simp add: goes_def uuidS_def drawUUID_def uuid)

lemma goes_bindS:
  assumes "goes R m s" and "\<And>x t. m s = (Inr x, t) \<Longrightarrow> goes R (f x) t"
  shows "goes R (bindS m f) s"
proof (cases "m s")
  case (Pair r t)
  then have "R s t"
    using assms(1) by (simp add: goes_def)
  show ?thesis
  proof (cases r)
    case (Inr x)
    then show ?thesis
      using Pair \<open>R s t\<close> assms(2) [of x t] by (auto simp: goes_def bindS_def intro: trans)
  qed (use Pair \<open>R s t\<close> in \<open>auto simp: goes_def bindS_def\<close>)
qed

lemma goes_ownedFrame: "goes R m s \<Longrightarrow> goes R (ownedFrame m) s"
  by (auto simp: goes_def ownedFrame_def split: prod.splits sum.splits intro: rollback)

lemma goes_eventS:
  "(\<And>s e. R s (s\<lparr>st_effects := st_effects s @ [Effect_event e]\<rparr>)) \<Longrightarrow> goes R (eventS p trx ev) s"
  by (auto simp: eventS_def split: option.splits intro!: goes_returnS goes_bindS goes_liftE goes_updS)

lemma goes_catch:
  "goes R m s \<Longrightarrow> (\<And>e t. R t (snd (h e t)))
   \<Longrightarrow> R s (snd (case m s of (Inr a, t) \<Rightarrow> (Inr a, t) | (Inl e, t) \<Rightarrow> h e t))"
  by (auto simp: goes_def split: prod.splits sum.splits intro: trans)

lemmas goes_rules = goes_returnS goes_throwS goes_liftE goes_getS goes_pure goes_updS goes_uuidS
  goes_bindS goes_ownedFrame

end

subsection \<open>The relations\<close>

text \<open>Numbering, batches and transport bindings are as before; identifiers may have been drawn.\<close>

definition same_core :: "offline_store \<Rightarrow> offline_store \<Rightarrow> bool" where
  "same_core s t \<longleftrightarrow>
     numbering_store.truncate t = (numbering_store.truncate s)\<lparr>st_uuids := st_uuids t\<rparr>
     \<and> st_uuids s \<le> st_uuids t \<and> st_batches t = st_batches s \<and> st_transport t = st_transport s"

text \<open>Only conflicts and integrity rejections may differ.\<close>

definition only_conflicts :: "offline_store \<Rightarrow> offline_store \<Rightarrow> bool" where
  "only_conflicts s t \<longleftrightarrow> same_core s t \<and> st_queueItems t = st_queueItems s
     \<and> st_payloadIndex t = st_payloadIndex s \<and> st_e6Items t = st_e6Items s
     \<and> st_itemReceipts t = st_itemReceipts s \<and> st_queueBatches t = st_queueBatches s
     \<and> st_effects t = st_effects s"

definition appliedAtOf :: "item_record \<Rightarrow> string option" where
  "appliedAtOf p = Option.bind (rc_stynx (it_receipt p)) sx_appliedAt"

text \<open>A receipt is as before, or marked by a concurrency conflict.\<close>

definition receipt_marked :: "item_record \<Rightarrow> item_record \<Rightarrow> bool" where
  "receipt_marked p p' \<longleftrightarrow> p' = p
     \<or> p' = p\<lparr>it_receipt := it_receipt p'\<rparr> \<and> rc_status (it_receipt p') = Q_conflict
       \<and> appliedAtOf p' = appliedAtOf p"

definition receipts_marked :: "(string, item_record) jsmap \<Rightarrow> (string, item_record) jsmap \<Rightarrow> bool" where
  "receipts_marked m m' \<longleftrightarrow> jwf m' \<and> (\<forall>k. rel_option receipt_marked (jget m k) (jget m' k))"

fun effect_of :: "string \<Rightarrow> port_effect \<Rightarrow> bool" where
  "effect_of key (Effect_apply k i) = (k = key)"
| "effect_of key (Effect_event e) = True"

text \<open>An application under \<open>key\<close>: receipts may be marked, and the applier is called for no other key.\<close>

definition applied_by :: "string \<Rightarrow> offline_store \<Rightarrow> offline_store \<Rightarrow> bool" where
  "applied_by key s t \<longleftrightarrow> same_core s t \<and> st_payloadIndex t = st_payloadIndex s
     \<and> st_e6Items t = st_e6Items s
     \<and> (jwf (st_itemReceipts s) \<longrightarrow> receipts_marked (st_itemReceipts s) (st_itemReceipts t))
     \<and> (\<exists>es. st_effects t = st_effects s @ es \<and> list_all (effect_of key) es)"

lemma truncate_uuids [simp]: "numbering_store.truncate (s\<lparr>st_uuids := n\<rparr>) = (numbering_store.truncate s)\<lparr>st_uuids := n\<rparr>"
  by (simp add: numbering_store.truncate_def)

lemma truncate_same [simp]: "(numbering_store.truncate s)\<lparr>st_uuids := st_uuids s\<rparr> = numbering_store.truncate s"
  by (simp add: numbering_store.truncate_def)

lemma same_core_trans: "same_core s t \<Longrightarrow> same_core t u \<Longrightarrow> same_core s u"
  by (auto simp: same_core_def)

lemma truncate_rollback [simp]: "numbering_store.truncate (rollbackTo s t) = numbering_store.truncate t"
  by (simp add: numbering_store.truncate_def rollbackTo_def)

lemma rollback_select [simp]:
  "st_uuids (rollbackTo s t) = st_uuids t" "st_batches (rollbackTo s t) = st_batches t"
  "st_transport (rollbackTo s t) = st_transport t" "st_effects (rollbackTo s t) = st_effects t"
  "st_queueItems (rollbackTo s t) = st_queueItems s" "st_payloadIndex (rollbackTo s t) = st_payloadIndex s"
  "st_e6Items (rollbackTo s t) = st_e6Items s" "st_itemReceipts (rollbackTo s t) = st_itemReceipts s"
  "st_queueBatches (rollbackTo s t) = st_queueBatches s" "st_conflicts (rollbackTo s t) = st_conflicts s"
  "st_reservations (rollbackTo s t) = st_reservations t" "st_consumption (rollbackTo s t) = st_consumption t"
  by (simp_all add: rollbackTo_def)

lemma receipt_marked_refl [simp]: "receipt_marked p p"
  by (simp add: receipt_marked_def)

lemma receipt_marked_trans: "receipt_marked p q \<Longrightarrow> receipt_marked q r \<Longrightarrow> receipt_marked p r"
  by (cases p; cases q; cases r) (auto simp: receipt_marked_def)

lemma receipts_marked_refl [simp]: "receipts_marked m m \<longleftrightarrow> jwf m"
  by (simp add: receipts_marked_def option.rel_refl)

lemma receipts_marked_trans: "receipts_marked a b \<Longrightarrow> receipts_marked b c \<Longrightarrow> receipts_marked a c"
  using option.rel_transp [of receipt_marked] receipt_marked_trans
  unfolding receipts_marked_def transp_def by blast

lemma receipts_marked_set:
  "jwf m \<Longrightarrow> jget m k = Some p \<Longrightarrow> receipt_marked p p' \<Longrightarrow> receipts_marked m (jset k p' m)"
  by (auto simp: receipts_marked_def option.rel_refl)

lemma receipts_marked_jwf: "receipts_marked m m' \<Longrightarrow> jwf m'"
  by (simp add: receipts_marked_def)

lemma same_core_uuid [simp]: "same_core s (s\<lparr>st_uuids := Suc (st_uuids s)\<rparr>)"
  by (simp add: same_core_def)

lemma only_conflicts_applied: "only_conflicts s t \<Longrightarrow> applied_by key s t"
  by (auto simp: only_conflicts_def applied_by_def)

interpretation oc: sync_order only_conflicts
  by unfold_locales (auto simp: only_conflicts_def same_core_def)

lemma applied_by_trans: "applied_by key s t \<Longrightarrow> applied_by key t u \<Longrightarrow> applied_by key s u"
  by (auto simp: applied_by_def dest: same_core_trans receipts_marked_jwf intro: receipts_marked_trans)

interpretation ab: sync_order "applied_by key" for key
proof (unfold_locales, goal_cases)
  case (2 s t u)
  then show ?case by (rule applied_by_trans)
qed (auto simp: applied_by_def same_core_def)

end
