(* ===== verification/Batch_Stages.thy ===== *)
theory Batch_Stages
  imports Sync_Orders
begin

text \<open>
  The stages of \<open>submitDurableSyncBatch\<close> and the relation each respects: integrity rejections and the
  handling of a failed application change conflicts only, the application marks receipts and calls the
  applier under its own key only.
\<close>

subsection \<open>Conflicts and rejections\<close>

lemma saveConflict_frame: "only_conflicts s (saveConflict c now a x d s)"
  by (auto simp: saveConflict_def only_conflicts_def same_core_def numbering_store.truncate_def Let_def
      split: option.splits)

lemma saveRejection_frame: "only_conflicts s (saveRejection sc input item key original now s)"
  by (auto simp: saveRejection_def only_conflicts_def same_core_def numbering_store.truncate_def Let_def
      split: option.splits)

lemma integrityConflicts_frame: "only_conflicts s (s\<lparr>st_integrityConflicts := m\<rparr>)"
  by (simp add: only_conflicts_def same_core_def numbering_store.truncate_def)

lemmas conflict_frames = saveRejection_frame saveConflict_frame integrityConflicts_frame

lemma integrityConflict_goes: "goes only_conflicts (integrityConflict E sc input item key original opts agentId now) s"
  unfolding integrityConflict_def Let_def
  by (intro oc.goes_rules conflict_frames conjI allI impI | split option.split prod.split)+

lemma handleFailure_goes: "goes only_conflicts (handleFailure E B item portItem key trx again attempts context e) s"
  unfolding handleFailure_def Let_def
  by (intro oc.goes_rules conflict_frames conjI allI impI | split option.split prod.split)+

lemma rejectHash_goes: "goes only_conflicts (rejectHash E B item key a) s"
  unfolding rejectHash_def by (intro oc.goes_rules integrityConflict_goes)

lemma rejectChanged_goes: "goes only_conflicts (rejectChanged E B item key p a) s"
  unfolding rejectChanged_def by (intro oc.goes_rules integrityConflict_goes)

subsection \<open>Concurrency marks\<close>

lemma appliedAt_merge [simp]: "sx_appliedAt x = None \<Longrightarrow> sx_appliedAt (stynx_merge y x) = sx_appliedAt y"
  by (simp add: stynx_merge_def opt_over_def)

lemma appliedAt_execution [simp]: "sx_appliedAt (executionStynxContext opts x) = sx_appliedAt x"
  by (simp add: executionStynxContext_def)

lemma appliedAt_none [simp]: "sx_appliedAt no_stynx = None"
  by (simp add: no_stynx_def)

lemma appliedAt_or_empty [simp]: "sx_appliedAt (stynx_or_empty x) = Option.bind x sx_appliedAt"
  by (cases x) (simp_all add: stynx_or_empty_def)

lemma saveConflict_select [simp]:
  "st_itemReceipts (saveConflict c now a x d s) = st_itemReceipts s"
  "st_effects (saveConflict c now a x d s) = st_effects s"
  "st_e6Items (saveConflict c now a x d s) = st_e6Items s"
  "st_payloadIndex (saveConflict c now a x d s) = st_payloadIndex s"
  using saveConflict_frame [of s c now a x d] by (simp_all add: only_conflicts_def)

lemma same_core_saveConflict [simp]: "same_core s (saveConflict c now a x d t) \<longleftrightarrow> same_core s t"
  by (auto simp: saveConflict_def same_core_def numbering_store.truncate_def Let_def split: option.splits)

lemma markAffected_frame:
  assumes "sx_appliedAt x = None"
  obtains p' where "receipt_marked (snd row) p'"
    and "st_itemReceipts (markAffected B affected c allowed evidence x row s) =
      jset (fst row) p' (st_itemReceipts s)"
    and "same_core s (markAffected B affected c allowed evidence x row s)"
    and "st_effects (markAffected B affected c allowed evidence x row s) = st_effects s"
    and "st_e6Items (markAffected B affected c allowed evidence x row s) = st_e6Items s"
    and "st_payloadIndex (markAffected B affected c allowed evidence x row s) = st_payloadIndex s"
proof -
  let ?p = "(snd row)\<lparr>it_receipt := (it_receipt (snd row))\<lparr>rc_status := Q_conflict, rc_context := Some evidence,
    rc_stynx := Some (stynx_merge (stynx_or_empty (rc_stynx (it_receipt (snd row)))) x)\<rparr>\<rparr>"
  have "receipt_marked (snd row) ?p"
    using assms by (simp add: receipt_marked_def appliedAtOf_def)
  then show thesis
    by (rule that) (auto simp: markAffected_def Let_def same_core_def numbering_store.truncate_def
        saveConflict_def split: option.splits)
qed

lemma markAffected_fold:
  assumes "sx_appliedAt x = None" and "distinct (map fst rows)" and "jwf (st_itemReceipts s)"
    and "\<forall>(k, p) \<in> set rows. jget (st_itemReceipts s) k = Some p"
  shows "applied_by key s (fold (markAffected B affected c allowed evidence x) rows s)"
  using assms(2-4)
proof (induction rows arbitrary: s)
  case (Cons row rows)
  let ?t = "markAffected B affected c allowed evidence x row s"
  obtain p' where p': "receipt_marked (snd row) p'"
    and t: "st_itemReceipts ?t = jset (fst row) p' (st_itemReceipts s)" "same_core s ?t"
      "st_effects ?t = st_effects s" "st_e6Items ?t = st_e6Items s" "st_payloadIndex ?t = st_payloadIndex s"
    by (rule markAffected_frame [OF assms(1)])
  have "receipts_marked (st_itemReceipts s) (st_itemReceipts ?t)"
    using Cons.prems p' t(1) by (auto intro!: receipts_marked_set [where p = "snd row"])
  then have first: "applied_by key s ?t"
    using t by (simp add: applied_by_def)
  moreover have "applied_by key ?t (fold (markAffected B affected c allowed evidence x) rows ?t)"
    using Cons.prems t(1) by (intro Cons.IH) (auto simp: rev_image_eqI)
  ultimately show ?case
    by (auto intro: applied_by_trans)
qed (simp add: ab.refl)

lemma markAffected_core:
  assumes "sx_appliedAt x = None" and "\<not> jwf (st_itemReceipts s)"
  shows "applied_by key s (fold (markAffected B affected c allowed evidence x) rows s)"
proof -
  have "same_core s t \<and> st_effects t = st_effects s \<and> st_e6Items t = st_e6Items s
      \<and> st_payloadIndex t = st_payloadIndex s"
    if "t = fold (markAffected B affected c allowed evidence x) rows s" for t
    using that
  proof (induction rows arbitrary: t rule: rev_induct)
    case (snoc row rows)
    let ?u = "fold (markAffected B affected c allowed evidence x) rows s"
    show ?case
      using markAffected_frame [OF assms(1), of row B affected c allowed evidence ?u] snoc
      by (metis (no_types, lifting) fold_append fold_simps comp_apply same_core_trans)
  qed (simp add: same_core_def)
  then show ?thesis
    using assms(2) by (simp add: applied_by_def)
qed

lemma markAffected_filter:
  assumes "sx_appliedAt x = None"
  shows "applied_by key s (fold (markAffected B affected c allowed evidence x) (filter P (st_itemReceipts s)) s)"
proof (cases "jwf (st_itemReceipts s)")
  case True
  then show ?thesis
    using assms by (intro markAffected_fold) (auto simp: distinct_map_filter)
qed (rule markAffected_core [OF assms])

lemma effects_event_frame: "applied_by key s (s\<lparr>st_effects := st_effects s @ [Effect_event e]\<rparr>)"
  by (simp add: applied_by_def same_core_def numbering_store.truncate_def)

lemma effects_apply_frame: "applied_by key s (s\<lparr>st_effects := st_effects s @ [Effect_apply key i]\<rparr>)"
  by (simp add: applied_by_def same_core_def numbering_store.truncate_def)

lemma saveConflict_applied: "applied_by key s (saveConflict c now a x d s)"
  by (rule only_conflicts_applied [OF saveConflict_frame])

lemmas apply_frames = saveConflict_applied effects_event_frame effects_apply_frame

lemma recordAffected_goes:
  "goes (applied_by key) (recordAffected E B item queueItemId trx context pair affected out) s"
  unfolding recordAffected_def Let_def
  by (intro ab.goes_rules apply_frames markAffected_filter conjI impI | simp | split if_split)+

lemma recordPairs_goes: "goes (applied_by key) (recordPairs E B item queueItemId trx context pairs acc) s"
proof (induction pairs arbitrary: acc s)
  case (Cons pair rest)
  show ?case
    unfolding recordPairs.simps by (intro ab.goes_rules recordAffected_goes Cons.IH)
qed (simp add: ab.goes_rules)

lemma applyThroughPort_goes:
  "goes (applied_by (tkey (sc_tenantId (be_scope B)) key)) (applyThroughPort E B item portItem key trx again attempts prepared covering applier) s"
  unfolding applyThroughPort_def Let_def
  by (intro ab.goes_rules ab.goes_eventS recordPairs_goes apply_frames
      | split prod.split | intro allI impI)+

lemma deferItem_goes: "goes (applied_by key) (deferItem E B item portItem key' trx attempts prepared) s"
  unfolding deferItem_def Let_def
  by (intro ab.goes_rules recordPairs_goes | split prod.split | intro allI impI)+

lemma applyPrepared_goes:
  "goes (applied_by (tkey (sc_tenantId (be_scope B)) key)) (applyPrepared E B item portItem key trx again attempts prepared) s"
  unfolding applyPrepared_def
  by (intro ab.goes_rules deferItem_goes applyThroughPort_goes conjI allI impI
      | split if_split option.split)+

lemma attemptItem_goes: "goes (applied_by (tkey (sc_tenantId (be_scope B)) key)) (attemptItem E B item key previous trx) s"
proof -
  let ?k = "tkey (sc_tenantId (be_scope B)) key"
  have frame: "goes (applied_by ?k) (ownedFrame (bindS (liftE prepared)
      (applyPrepared E B item portItem key trx again attempts))) s" for prepared portItem again attempts
    by (intro ab.goes_rules applyPrepared_goes)
  have fail: "applied_by ?k t (snd (handleFailure E B item portItem key trx again attempts ctx e t))"
    for portItem again attempts ctx e t
    using handleFailure_goes by (metis goes_def only_conflicts_applied)
  show ?thesis
    unfolding attemptItem_def goes_def Let_def
    by (rule ab.goes_catch [OF frame]) (simp add: ab.refl fail)
qed

lemma applyItem_goes: "goes (applied_by (tkey (sc_tenantId (be_scope B)) key)) (applyItem E B item key previous) s"
  unfolding applyItem_def by (auto intro!: ab.goes_rules attemptItem_goes)

end
