(* ===== verification/Batch_Once.thy ===== *)
theory Batch_Once
  imports Batch_Stages
begin

text \<open>
  An item whose application is on record is not applied again. \<open>settledKey\<close> says that a receipt key is
  answered for good: its receipt carries the instant of an application, or the E6 path received an item under
  it. Every operation keeps settled keys settled and makes no call of the item applier under them.
\<close>

definition settledKey :: "string \<Rightarrow> offline_store \<Rightarrow> bool" where
  "settledKey k s \<longleftrightarrow> jwf (st_itemReceipts s) \<and> (jget (st_e6Items s) k \<noteq> None
     \<or> (case jget (st_itemReceipts s) k of None \<Rightarrow> False
        | Some p \<Rightarrow> applied_status (rc_status (it_receipt p)) \<and> appliedAtOf p \<noteq> None))"

definition applications :: "string \<Rightarrow> offline_store \<Rightarrow> port_effect list" where
  "applications k s = filter (\<lambda>e. case e of Effect_apply k' i \<Rightarrow> k' = k | Effect_event ev \<Rightarrow> False) (st_effects s)"

definition undisturbed :: "string \<Rightarrow> offline_store \<Rightarrow> offline_store \<Rightarrow> bool" where
  "undisturbed k s t \<longleftrightarrow>
     (settledKey k s \<longrightarrow> settledKey k t \<and> applications k t = applications k s)"

interpretation ud: sync_order "undisturbed k" for k
  by unfold_locales (auto simp: undisturbed_def settledKey_def applications_def)

lemma settled_jwf: "settledKey k s \<Longrightarrow> jwf (st_itemReceipts s)"
  by (simp add: settledKey_def)

lemma receipt_marked_settled:
  "receipt_marked p p' \<Longrightarrow> applied_status (rc_status (it_receipt p)) \<and> appliedAtOf p \<noteq> None
   \<Longrightarrow> applied_status (rc_status (it_receipt p')) \<and> appliedAtOf p' \<noteq> None"
  by (auto simp: receipt_marked_def applied_status_def)

lemma settled_marked:
  assumes "receipts_marked (st_itemReceipts s) (st_itemReceipts t)" and "st_e6Items t = st_e6Items s"
    and "settledKey k s"
  shows "settledKey k t"
proof -
  have "rel_option receipt_marked (jget (st_itemReceipts s) k) (jget (st_itemReceipts t) k)"
    using assms(1) by (simp add: receipts_marked_def)
  then show ?thesis
    using assms(2,3) receipts_marked_jwf [OF assms(1)]
    by (cases "jget (st_itemReceipts s) k"; cases "jget (st_itemReceipts t) k")
      (auto simp: settledKey_def dest: receipt_marked_settled)
qed

lemma applications_other:
  "list_all (effect_of k') es \<Longrightarrow> k' \<noteq> k
   \<Longrightarrow> filter (\<lambda>e. case e of Effect_apply k' i \<Rightarrow> k' = k | Effect_event ev \<Rightarrow> False) es = []"
  by (auto simp: filter_empty_conv list_all_iff split: port_effect.splits)

lemma applied_other_undisturbed: "applied_by k' s t \<Longrightarrow> k' \<noteq> k \<Longrightarrow> undisturbed k s t"
  by (auto simp: undisturbed_def applied_by_def applications_def applications_other
      dest: settled_jwf intro: settled_marked)

lemma only_conflicts_undisturbed: "only_conflicts s t \<Longrightarrow> undisturbed k s t"
  by (simp add: undisturbed_def only_conflicts_def applications_def settledKey_def)

lemma not_settled_undisturbed: "\<not> settledKey k s \<Longrightarrow> undisturbed k s t"
  by (simp add: undisturbed_def)

lemma useNumber_select [simp]:
  "st_itemReceipts (useNumber B item a s) = st_itemReceipts s" "st_effects (useNumber B item a s) = st_effects s"
  "st_e6Items (useNumber B item a s) = st_e6Items s" "st_batches (useNumber B item a s) = st_batches s"
  "st_transport (useNumber B item a s) = st_transport s"
  by (auto simp: useNumber_def recordApplied_def split: option.splits)

lemma finishItem_other:
  "tkey (sc_tenantId (be_scope B)) key \<noteq> k \<Longrightarrow> goes (undisturbed k) (finishItem B item key previous a acc) s"
  by (auto simp: goes_def finishItem_def Let_def undisturbed_def settledKey_def applications_def)

lemma adopted_receipt_undisturbed:
  assumes "jget (st_e6Items s) k' \<noteq> None"
  shows "undisturbed k s (s\<lparr>st_itemReceipts := jset k' p (st_itemReceipts s)\<rparr>)"
  using assms by (auto simp: undisturbed_def settledKey_def applications_def)

lemma legacyIntegrity_goes: "goes only_conflicts (legacyIntegrity E B item key legacy) s"
  unfolding legacyIntegrity_def by (auto intro!: oc.goes_rules integrityConflict_goes)

lemma adoptLegacy_undisturbed:
  assumes "jget (st_e6Items s) (tkey (sc_tenantId (be_scope B)) key) \<noteq> None"
  shows "goes (undisturbed k) (adoptLegacy E B item key e6 acc) s"
proof -
  have kept: "jget (st_e6Items t) (tkey (sc_tenantId (be_scope B)) key) \<noteq> None"
    if "legacyIntegrity E B item key legacy s = (r, t)" for legacy r t
    using goesD [OF legacyIntegrity_goes that] assms by (simp add: only_conflicts_def)
  have "goes (undisturbed k) (legacyIntegrity E B item key legacy) s" for legacy
    using legacyIntegrity_goes only_conflicts_undisturbed by (rule goes_mono)
  then show ?thesis
    unfolding adoptLegacy_def Let_def
    by (auto simp: sync_simps split: option.split
        intro!: ud.goes_rules adopted_receipt_undisturbed kept)
qed

text \<open>The application of an item whose key is settled is out of reach.\<close>

lemma initialStatus_not_applied: "\<not> applied_status (initialStatusOf B item)"
  by (simp add: initialStatusOf_def applied_status_def)

lemma settled_not_applied_again:
  assumes "jget (st_e6Items s) k = None" and "jget (st_itemReceipts s) k = Some p" and "settledKey k s"
  shows "\<not> reapplying B item (Some p)" and "it_hash p = bi_payloadHash item \<Longrightarrow> answeredBefore B item p"
proof -
  have status: "applied_status (rc_status (it_receipt p))"
    using assms by (simp add: settledKey_def)
  then show "\<not> reapplying B item (Some p)"
    by (auto simp: reapplying_def applied_status_def)
  show "answeredBefore B item p" if "it_hash p = bi_payloadHash item"
    using status that initialStatus_not_applied [of B item] by (auto simp: answeredBefore_def)
qed

lemma applyAndFinish_undisturbed:
  assumes "tkey (sc_tenantId (be_scope B)) key = k \<Longrightarrow> \<not> settledKey k s"
  shows "goes (undisturbed k) (applyAndFinish E B item key previous acc) s"
proof (cases "tkey (sc_tenantId (be_scope B)) key = k")
  case True
  with assms show ?thesis
    by (simp add: goes_def not_settled_undisturbed)
next
  case False
  then show ?thesis
    unfolding applyAndFinish_def
    by (intro ud.goes_bindS finishItem_other)
      (blast intro: goes_mono [OF applyItem_goes] applied_other_undisturbed)+
qed

lemma processKnown_undisturbed:
  assumes "jget (st_e6Items s) (tkey (sc_tenantId (be_scope B)) key) = None"
    and "previous = jget (st_itemReceipts s) (tkey (sc_tenantId (be_scope B)) key)"
  shows "goes (undisturbed k) (processKnown E B item key previous acc) s"
proof (cases previous)
  case None
  then show ?thesis
    using assms by (auto simp: processKnown_def settledKey_def intro!: applyAndFinish_undisturbed)
next
  case (Some p)
  have changed: "goes (undisturbed k) (rejectChanged E B item key p acc) s"
    using rejectChanged_goes only_conflicts_undisturbed by (rule goes_mono)
  have again: "\<not> settledKey k s" if "tkey (sc_tenantId (be_scope B)) key = k"
    and "reapplying B item (Some p) \<or> it_hash p = bi_payloadHash item \<and> \<not> answeredBefore B item p"
    using settled_not_applied_again [where s = s and k = k and p = p and B = B and item = item] assms Some that by auto
  show ?thesis
    using Some again
    by (auto simp: processKnown_def intro!: changed ud.goes_returnS applyAndFinish_undisturbed)
qed

lemma processItem_undisturbed: "goes (undisturbed k) (processItem E B item key acc) s"
proof -
  have rejected: "goes (undisturbed k) (rejectHash E B item key acc) s" for s
    using rejectHash_goes only_conflicts_undisturbed by (rule goes_mono)
  show ?thesis
    unfolding processItem_def Let_def
    by (auto simp: sync_simps split: option.split
        intro!: ud.goes_rules rejected adoptLegacy_undisturbed processKnown_undisturbed)
qed

lemma processItems_undisturbed: "goes (undisturbed k) (processItems E B keys items acc) s"
proof (induction items arbitrary: acc s)
  case (Cons item rest)
  show ?case
    unfolding processItems.simps by (intro ud.goes_rules processItem_undisturbed Cons.IH)
qed (simp add: ud.goes_returnS)

lemma undisturbed_core [simp]:
  "undisturbed k s (s\<lparr>st_batches := b\<rparr>)" "undisturbed k s (bindTransport tk i f s)"
  by (simp_all add: undisturbed_def settledKey_def applications_def bindTransport_def)

lemma runBatch_undisturbed: "goes (undisturbed k) (runBatch E sc input opts now keys rec) s"
  unfolding runBatch_def Let_def
  by (intro ud.goes_bindS processItems_undisturbed) (simp add: goes_def)

lemma submitDurable_undisturbed: "goes (undisturbed k) (submitDurableSyncBatch E sc input opts now) s"
  unfolding submitDurableSyncBatch_def Let_def
  by (intro ud.goes_rules runBatch_undisturbed undisturbed_core conjI impI allI
      | split option.split if_split | simp)+

end
