(* ===== verification/Batch_Numbers.thy ===== *)
theory Batch_Numbers
  imports Batch_Once Offline_Numbering_Runs
begin

text \<open>
  A durable batch uses numbers only the way the numbering component allows: on the numbering part of the
  state it is a run of \<open>numbering_step\<close>, so every property of those runs holds across batches.
\<close>

abbreviation numbers :: "offline_store \<Rightarrow> numbering_store" where
  "numbers s \<equiv> numbering_store.truncate s"

abbreviation numbering_run :: "env \<Rightarrow> offline_store \<Rightarrow> offline_store \<Rightarrow> bool" where
  "numbering_run E s t \<equiv> (numbering_step E)\<^sup>*\<^sup>* (numbers s) (numbers t)"

lemma numbers_select [simp]:
  "st_reservations (numbers s) = st_reservations s" "st_consumption (numbers s) = st_consumption s"
  "st_uuids (numbers s) = st_uuids s"
  by (simp_all add: numbering_store.truncate_def)

lemma checkNumber_fields:
  assumes "st_reservations s' = st_reservations s" and "st_consumption s' = st_consumption s"
  shows "checkNumber sc dev org ent n rid created s' = checkNumber sc dev org ent n rid created s"
proof -
  have entry: "entryStatus s' = entryStatus s"
    using assms by (simp add: entryStatus_def fun_eq_iff)
  have covers: "coversNumber sc dev org ent n rid s' = coversNumber sc dev org ent n rid s"
    by (auto simp: coversNumber_def fun_eq_iff entry)
  show ?thesis
    unfolding checkNumber_def entry covers assms(1) ..
qed

lemma same_core_run: "same_core s t \<Longrightarrow> numbering_run E s t"
  by (auto simp: same_core_def intro!: r_into_rtranclp numbering_step.draw [where u = "st_uuids t"])

lemma recordApplied_numbers: "numbers (recordApplied k n e now s) = recordApplied k n e now (numbers s)"
  by (simp add: recordApplied_def numbering_store.truncate_def split: option.split)

text \<open>The reservation the application reports covers the item's number.\<close>

definition covering_checked :: "batch_env \<Rightarrow> batch_item \<Rightarrow> offline_store \<Rightarrow> applied_item \<Rightarrow> bool" where
  "covering_checked B item s a \<longleftrightarrow> (\<forall>k. ai_covering a = Some k \<longrightarrow>
     (\<exists>n. bi_reservedNumber item = Some n \<and> checkNumber (be_scope B) (ba_deviceId (be_input B))
        (ba_orgUnitId (be_input B)) (bi_entityType item) n (bi_reservationId item)
        (bi_createdLocallyAt item) s = Inr k))"

lemma bindS_InrE:
  assumes "bindS m f s = (Inr y, t)"
  obtains x u where "m s = (Inr x, u)" and "f x u = (Inr y, t)"
  using assms by (auto simp: bindS_def split: prod.splits sum.splits)

lemma handleFailure_covering:
  "handleFailure E B item portItem key trx again attempts ctx e s = (Inr a, t) \<Longrightarrow> ai_covering a = None"
  unfolding handleFailure_def Let_def
  by (auto simp: sync_simps elim!: bindS_InrE split: option.splits)

lemma applyThroughPort_covering:
  "applyThroughPort E B item portItem key trx again attempts prepared covering applier s = (Inr a, t)
   \<Longrightarrow> ai_covering a = covering"
  unfolding applyThroughPort_def Let_def
  by (auto simp: sync_simps elim!: bindS_InrE split: prod.splits)

lemma deferItem_covering:
  "deferItem E B item portItem key trx attempts prepared s = (Inr a, t) \<Longrightarrow> ai_covering a = None"
  unfolding deferItem_def Let_def by (auto simp: sync_simps elim!: bindS_InrE split: prod.splits)

lemma numberOf_checked:
  assumes "(case bi_reservedNumber item of
      None \<Rightarrow> returnS None
    | Some n \<Rightarrow> bindS (\<lambda>s. (checkNumber (be_scope B) (ba_deviceId (be_input B)) (ba_orgUnitId (be_input B))
        (bi_entityType item) n (bi_reservationId item) (bi_createdLocallyAt item) s, s))
        (\<lambda>k. returnS (Some k))) s = (Inr covering, u)"
    and "ai_covering a = covering"
  shows "covering_checked B item s a"
  using assms by (cases "bi_reservedNumber item")
    (auto simp: sync_simps covering_checked_def elim!: bindS_InrE)

lemma applyPrepared_covering:
  assumes "applyPrepared E B item portItem key trx again attempts prepared s = (Inr a, t)"
  shows "covering_checked B item s a"
proof (cases "pr_defer prepared")
  case True
  then show ?thesis
    using assms by (auto simp: applyPrepared_def covering_checked_def dest: deferItem_covering)
next
  case False
  show ?thesis
    using assms False unfolding applyPrepared_def if_not_P [OF False]
  proof (elim bindS_InrE, goal_cases)
    case (1 covering u)
    have "ai_covering a = covering"
      using 1(3) by (cases "pt_itemApplier (op_ports (be_options B))")
        (auto simp: sync_simps dest: applyThroughPort_covering)
    then show ?case
      using 1(2) by (rule numberOf_checked [rotated])
  qed
qed

lemma framed_covering:
  "ownedFrame (bindS (liftE prepared) (applyPrepared E B item portItem key trx again attempts)) s = (Inr a, t)
   \<Longrightarrow> covering_checked B item s a"
  by (auto simp: ownedFrame_def sync_simps elim!: bindS_InrE split: prod.splits sum.splits
      intro: applyPrepared_covering)

lemma attemptItem_covering:
  assumes "attemptItem E B item key previous trx s = (Inr a, t)"
  shows "covering_checked B item s a"
proof -
  have failed: "covering_checked B item s a"
    if "(if isConfigurationError e then (Inl e, u)
         else handleFailure E B item portItem key trx again attempts ctx e u) = (Inr a, t)"
    for e u portItem again attempts ctx
    using that by (auto simp: covering_checked_def dest: handleFailure_covering split: if_splits)
  show ?thesis
    using assms unfolding attemptItem_def Let_def
    by (auto split: prod.splits sum.splits dest: framed_covering intro: failed simp del: if_split)
qed

lemma same_core_fields:
  "same_core s t \<Longrightarrow> st_reservations t = st_reservations s \<and> st_consumption t = st_consumption s"
  by (simp add: same_core_def numbering_store.truncate_def)

lemma covering_core: "covering_checked B item s a \<Longrightarrow> same_core s t \<Longrightarrow> covering_checked B item t a"
  using same_core_fields [of s t] by (simp add: covering_checked_def checkNumber_fields [of t s])

lemma applied_by_core: "applied_by k s t \<Longrightarrow> same_core s t"
  by (simp add: applied_by_def)

lemma applyItem_covering:
  assumes "applyItem E B item key previous s = (Inr a, t)"
  shows "covering_checked B item t a"
proof (cases "keyed item")
  case True
  then obtain trx u where u: "uuidS E s = (Inr trx, u)" "attemptItem E B item key previous trx u = (Inr a, t)"
    using assms by (auto simp: applyItem_def elim!: bindS_InrE)
  then have "covering_checked B item u a"
    by (rule_tac attemptItem_covering)
  moreover have "same_core u t"
    using goesD [OF attemptItem_goes u(2)] by (rule applied_by_core)
  ultimately show ?thesis
    by (rule covering_core)
qed (use assms in \<open>auto simp: applyItem_def sync_simps covering_checked_def\<close>)

lemma useNumber_run:
  assumes "covering_checked B item s a"
  shows "numbering_run E s (useNumber B item a s)"
proof -
  have "numbering_step E (numbers s) (recordApplied k n e now (numbers s))"
    if "checkNumber (be_scope B) (ba_deviceId (be_input B)) (ba_orgUnitId (be_input B)) (bi_entityType item) n
      (bi_reservationId item) (bi_createdLocallyAt item) s = Inr k" for k n e now
    using that by (intro numbering_step.use_number [OF _ HOL.refl]) (simp add: checkNumber_fields [of "numbers s" s])
  then show ?thesis
    using assms by (auto simp: useNumber_def covering_checked_def recordApplied_numbers
        split: option.splits prod.splits)
qed

lemma finishItem_run:
  assumes "covering_checked B item s a"
  shows "goes (numbering_run E) (finishItem B item key previous a acc) s"
proof -
  obtain u r where u: "finishItem B item key previous a acc s = (r, useNumber B item a u)" "numbers u = numbers s"
    by (simp add: finishItem_def Let_def numbering_store.truncate_def)
  have "covering_checked B item u a"
    using assms arg_cong [OF u(2), of st_reservations] arg_cong [OF u(2), of st_consumption]
    by (simp add: covering_checked_def checkNumber_fields [of u s])
  then show ?thesis
    using u useNumber_run by (metis goes_def snd_conv)
qed

interpretation nr: sync_order "numbering_run E" for E
proof (unfold_locales, goal_cases)
  case (3 s)
  show ?case by (rule same_core_run) simp
qed (auto simp: rtranclp_trans)

lemma only_conflicts_run: "only_conflicts s t \<Longrightarrow> numbering_run E s t"
  by (auto simp: only_conflicts_def intro: same_core_run)

lemma applied_run: "applied_by k s t \<Longrightarrow> numbering_run E s t"
  by (auto simp: applied_by_def intro: same_core_run)

lemma applyAndFinish_run: "goes (numbering_run E) (applyAndFinish E' B item key previous acc) s"
  unfolding applyAndFinish_def
  by (intro nr.goes_bindS goes_mono [OF applyItem_goes applied_run] finishItem_run applyItem_covering)

lemma adoptLegacy_run: "goes (numbering_run E) (adoptLegacy E' B item key e6 acc) s"
proof -
  have "numbering_run E s (s\<lparr>st_itemReceipts := m\<rparr>)" for s m
    by (rule same_core_run) (simp add: same_core_def numbering_store.truncate_def)
  then show ?thesis
    unfolding adoptLegacy_def Let_def
    by (auto simp: sync_simps split: option.split
        intro!: nr.goes_rules goes_mono [OF legacyIntegrity_goes only_conflicts_run])
qed

lemma processItem_run: "goes (numbering_run E) (processItem E' B item key acc) s"
  unfolding processItem_def processKnown_def Let_def
  by (auto simp: sync_simps split: option.split
      intro!: nr.goes_rules adoptLegacy_run applyAndFinish_run
        goes_mono [OF rejectHash_goes only_conflicts_run] goes_mono [OF rejectChanged_goes only_conflicts_run])

lemma processItems_run: "goes (numbering_run E) (processItems E' B keys items acc) s"
proof (induction items arbitrary: acc s)
  case (Cons item rest)
  show ?case
    unfolding processItems.simps by (intro nr.goes_rules processItem_run Cons.IH)
qed (simp add: nr.goes_returnS)

lemma core_run [simp]:
  "numbers (s\<lparr>st_batches := b\<rparr>) = numbers s" "numbers (bindTransport tk i f s) = numbers s"
  by (simp_all add: numbering_store.truncate_def bindTransport_def)

lemma runBatch_run: "goes (numbering_run E) (runBatch E' sc input opts now keys rec) s"
  unfolding runBatch_def Let_def
  by (intro nr.goes_bindS processItems_run) (simp add: goes_def)

lemma submitDurable_run: "goes (numbering_run E) (submitDurableSyncBatch E' sc input opts now) s"
  unfolding submitDurableSyncBatch_def Let_def
  by (intro nr.goes_rules runBatch_run conjI impI allI | split option.split if_split | simp)+

end
