(* ===== verification/Sync_Runs.thy ===== *)
theory Sync_Runs
  imports Batch_Numbers
begin

text \<open>
  Runs of the whole store: \<open>sync_step\<close> has one rule per operation that changes it, batches, conflicts and
  numbering alike, whatever the ports answer and whether or not the operation throws.
\<close>

inductive sync_step :: "env \<Rightarrow> offline_store \<Rightarrow> offline_store \<Rightarrow> bool" for E where
  durable_batch: "submitDurableSyncBatch E sc input opts now s = (r, t) \<Longrightarrow> tenant_ok (sc_tenantId sc)
     \<Longrightarrow> sync_step E s t"
| e6_batch: "submitSyncBatch sc input now s = (r, t) \<Longrightarrow> tenant_ok (sc_tenantId sc) \<Longrightarrow> sync_step E s t"
| open_conflict: "openConflict E sc i kind description now s = (c, t) \<Longrightarrow> tenant_ok (sc_tenantId sc)
     \<Longrightarrow> sync_step E s t"
| resolve: "resolveConflict sc i res now s = (c, t) \<Longrightarrow> tenant_ok (sc_tenantId sc) \<Longrightarrow> sync_step E s t"
| resolve_with_port: "resolveWithPort E sc i res now port events s = (c, t) \<Longrightarrow> tenant_ok (sc_tenantId sc)
     \<Longrightarrow> sync_step E s t"
| number: "numbering_step E s t \<Longrightarrow> sync_step E s t"

subsection \<open>Numbering operations leave the rest of the store alone\<close>

lemma takeNumbers_more:
  "takeNumbers E sc input dv orig rg s = (r, t) \<Longrightarrow> numbering_store.more t = numbering_store.more s"
  by (auto simp: takeNumbers_def drawUUID_def Let_def)

lemma numbering_more:
  "numbering_step E s t \<Longrightarrow> numbering_store.more t = numbering_store.more s"
proof (induction rule: numbering_step.induct)
  case (create sc input now s rg t)
  from create(1) show ?case
    by (cases rule: createNumberingRange_cases) (auto simp: drawUUID_def)
next
  case (cancel_range sc i reason now s rg t)
  from cancel_range(1) show ?case
    by (cases rule: cancelNumberingRange_cases) auto
next
  case (reserve sc input now dv orig s r t)
  from reserve(1) show ?case
    by (cases rule: allocateReservation_cases) (auto dest: takeNumbers_more [OF sym])
next
  case (cancel sc i durable s res t)
  from cancel(1) show ?case
    by (auto simp: cancelReservation_def returnTail_def Let_def split: option.splits if_splits sum.splits)
next
  case (transition sc i status now s res t)
  from transition(1) show ?case
    by (auto simp: transitionReservation_def Let_def split: option.splits if_splits sum.splits)
next
  case (reconcile sc i rin now s rres t)
  from reconcile(1) show ?case
    by (cases rule: reconcileNumberingReservation_cases)
      (auto simp: recordReconciliation_def drawUUID_def Let_def split: sum.splits)
next
  case (use_number sc dev org ent n rid created s k t entity now)
  then show ?case
    by (auto simp: recordApplied_def split: option.splits)
qed simp

lemma numbering_uuids: "numbering_step E s t \<Longrightarrow> st_uuids s \<le> st_uuids t"
proof (induction rule: numbering_step.induct)
  case (create sc input now s rg t)
  from create(1) show ?case
    by (cases rule: createNumberingRange_cases) auto
next
  case (cancel_range sc i reason now s rg t)
  from cancel_range(1) show ?case
    by (cases rule: cancelNumberingRange_cases) auto
next
  case (reserve sc input now dv orig s r t)
  from reserve(1) show ?case
    by (cases rule: allocateReservation_cases) (auto dest: takeNumbers_state(2) [OF sym])
next
  case (cancel sc i durable s res t)
  from cancel(1) show ?case
    by (auto simp: cancelReservation_def returnTail_def Let_def split: option.splits if_splits sum.splits)
next
  case (transition sc i status now s res t)
  from transition(1) show ?case
    by (auto simp: transitionReservation_def Let_def split: option.splits if_splits sum.splits)
next
  case (reconcile sc i rin now s rres t)
  from reconcile(1) show ?case
    by (cases rule: reconcileNumberingReservation_cases)
      (auto simp: recordReconciliation_def drawUUID_def Let_def split: sum.splits)
next
  case (use_number sc dev org ent n rid created s k t entity now)
  then show ?case
    by (auto simp: recordApplied_def split: option.splits)
qed simp

lemma more_fields:
  fixes s t :: offline_store
  assumes "numbering_store.more t = numbering_store.more s"
  shows "st_queueItems t = st_queueItems s" "st_e6Items t = st_e6Items s" "st_conflicts t = st_conflicts s"
    "st_itemReceipts t = st_itemReceipts s" "st_batches t = st_batches s" "st_effects t = st_effects s"
  using assms by (cases s; cases t; simp)+

subsection \<open>Settled items\<close>

lemma undisturbed_fields:
  assumes "jwf (st_itemReceipts s) \<Longrightarrow> jwf (st_itemReceipts t)" and "st_effects t = st_effects s"
    and "jget (st_e6Items s) k \<noteq> None \<Longrightarrow> jget (st_e6Items t) k \<noteq> None"
    and "jget (st_itemReceipts t) k = jget (st_itemReceipts s) k"
  shows "undisturbed k s t"
  using assms by (auto simp: undisturbed_def settledKey_def applications_def)

lemma submitItem_undisturbed: "goes (undisturbed k) (submitItem sc input now item acc) s"
  unfolding goes_def submitItem_def Let_def
  by (auto split: option.split intro!: undisturbed_fields)

lemma submitItems_undisturbed: "goes (undisturbed k) (submitItems sc input now items acc) s"
proof (induction items arbitrary: acc s)
  case (Cons item rest)
  show ?case
    unfolding submitItems.simps by (intro ud.goes_rules submitItem_undisturbed Cons.IH)
qed (simp add: ud.goes_returnS)

lemma submitSyncBatch_undisturbed: "goes (undisturbed k) (submitSyncBatch sc input now) s"
  unfolding submitSyncBatch_def mutateTenant_def
  by (intro ud.goes_rules submitItems_undisturbed | split prod.split | intro allI impI)+

lemma saveConflict_undisturbed [simp]: "undisturbed k s (saveConflict c now a x d s)"
  by (rule only_conflicts_undisturbed [OF saveConflict_frame])

lemma projection_undisturbed [simp]:
  "undisturbed k s (s\<lparr>st_queueItems := q\<rparr>)" "undisturbed k s (saveAttributes ck x s)"
  "undisturbed k s (s\<lparr>st_conflicts := c\<rparr>)" "undisturbed k s (appendConflictAction action s)"
  "undisturbed k s (s\<lparr>st_effects := st_effects s @ [Effect_event e]\<rparr>)"
  by (simp_all add: undisturbed_def settledKey_def applications_def appendConflictAction_def saveAttributes_def
      split: option.split)

lemma openConflict_undisturbed: "goes (undisturbed k) (openConflict E sc i kind description now) s"
  unfolding openConflict_def mutateTenant_def Let_def
  by (intro ud.goes_rules | split option.split | intro conjI allI impI | simp)+

lemma resolveConflict_undisturbed: "goes (undisturbed k) (resolveConflict sc i res now) s"
  unfolding resolveConflict_def mutateTenant_def Let_def
  by (intro ud.goes_ownedFrame)
    (auto simp: goes_def ud.refl split: option.split intro!: undisturbed_fields)

text \<open>An item returns to \<open>pending\<close> only when no application is on record.\<close>

lemma returnToPending_undisturbed:
  assumes "\<And>e. entry = Some e \<Longrightarrow> e \<in> set (st_itemReceipts s)"
  shows "goes (undisturbed k) (returnToPending sc ck conflict item entry) s"
proof (cases "jwf (st_itemReceipts s)")
  case True
  show ?thesis
  proof (cases entry)
    case (Some e)
    then have "jget (st_itemReceipts s) (fst e) = Some (snd e)"
      using True assms by simp
    then show ?thesis
      using Some by (cases e) (auto simp: goes_def returnToPending_def ud.refl undisturbed_def settledKey_def
          applications_def appliedAtOf_def split: option.splits)
  qed (simp add: goes_def returnToPending_def ud.refl)
qed (simp add: goes_def undisturbed_def settledKey_def)

lemma recordResolution_undisturbed:
  "goes (undisturbed k) (recordResolution sc i conflict input now trx actionId answer eventPort) s"
  unfolding recordResolution_def closeResolution_def Let_def
  by (intro ud.goes_rules ud.goes_eventS | split option.split if_split | intro conjI allI impI | simp)+

lemma receiptEntry_in: "receiptEntry sc i s = Some e \<Longrightarrow> e \<in> set (st_itemReceipts s)"
  by (auto simp: receiptEntry_def find_Some_iff in_set_conv_nth)

lemma allowedResolutions_state: "allowedResolutions asked k receipt s = (r, t) \<Longrightarrow> t = s"
  by (auto simp: allowedResolutions_def bindS_def sync_basic split: option.splits sum.splits)

lemma allowedResolutions_undisturbed: "goes (undisturbed k') (allowedResolutions asked k receipt) s"
  unfolding goes_def by (metis allowedResolutions_state prod.collapse ud.refl)

lemma resolveWithPortLocked_undisturbed:
  "goes (undisturbed k) (resolveWithPortLocked E sc i input now port eventPort) s"
  unfolding resolveWithPortLocked_def Let_def
  by (intro ud.goes_rules returnToPending_undisturbed recordResolution_undisturbed
      allowedResolutions_undisturbed conjI allI impI | split option.split if_split)+
    (auto simp: uuidS_def drawUUID_def sync_basic dest!: allowedResolutions_state receiptEntry_in)

lemma resolveWithPort_undisturbed: "goes (undisturbed k) (resolveWithPort E sc i input now port eventPort) s"
  unfolding resolveWithPort_def mutateTenant_def
  by (intro ud.goes_ownedFrame resolveWithPortLocked_undisturbed)

lemma sync_step_undisturbed: "sync_step E s t \<Longrightarrow> undisturbed k s t"
proof (induction rule: sync_step.induct)
  case (number s t)
  then show ?case
    using more_fields [OF numbering_more] by (intro undisturbed_fields) simp_all
qed (blast dest: goesD [OF submitDurable_undisturbed] goesD [OF submitSyncBatch_undisturbed]
    goesD [OF openConflict_undisturbed] goesD [OF resolveConflict_undisturbed]
    goesD [OF resolveWithPort_undisturbed])+

subsection \<open>Numbering\<close>

lemma full_inv_numbers: "numbering_full_inv E (numbers s) \<longleftrightarrow> numbering_full_inv E s"
  by (simp add: numbering_full_inv_def numbering_inv_def keys_bound_def consumption_bound_def scopes_unique_def
      numbering_store.truncate_def)

lemma le_numbers: "numbering_le (numbers s) (numbers t) \<longleftrightarrow> numbering_le s t"
  by (simp add: numbering_le_def numbering_store.truncate_def)

text \<open>The operations on batches and conflicts use numbers as the numbering component allows.\<close>

lemma core_numbers: "same_core s t \<Longrightarrow> numbering_run E s t"
  by (rule same_core_run)

lemma submitItem_core: "goes same_core (submitItem sc input now item acc) s"
  unfolding goes_def submitItem_def Let_def
  by (auto simp: same_core_def numbering_store.truncate_def split: option.split)

lemma submitItems_run: "goes (numbering_run E) (submitItems sc input now items acc) s"
proof (induction items arbitrary: acc s)
  case (Cons item rest)
  show ?case
    unfolding submitItems.simps
    by (intro nr.goes_rules goes_mono [OF submitItem_core core_numbers] Cons.IH)
qed (simp add: nr.goes_returnS)

lemma run_same [simp]:
  "numbers (saveConflict c now a x d s) = numbers s" "numbers (s\<lparr>st_queueItems := q\<rparr>) = numbers s"
  "numbers (appendConflictAction action s) = numbers s" "numbers (saveAttributes k at s) = numbers s"
  "numbers (s\<lparr>st_conflicts := cs\<rparr>) = numbers s" "numbers (s\<lparr>st_effects := es\<rparr>) = numbers s"
  "numbers (s\<lparr>st_conflicts := cs, st_queueItems := q\<rparr>) = numbers s"
  "numbers (s\<lparr>st_queueItems := q, st_itemReceipts := rs\<rparr>) = numbers s"
  by (simp_all add: numbering_store.truncate_def saveConflict_def appendConflictAction_def saveAttributes_def
      Let_def split: option.split)

lemma submitSyncBatch_run: "goes (numbering_run E) (submitSyncBatch sc input now) s"
  unfolding submitSyncBatch_def mutateTenant_def
  by (intro nr.goes_rules submitItems_run allI impI | split prod.split)+

lemma openConflict_run: "goes (numbering_run E) (openConflict E' sc i kind description now) s"
  unfolding openConflict_def mutateTenant_def Let_def
  by (intro nr.goes_rules conjI allI impI | split option.split | simp)+

lemma resolveConflict_run: "goes (numbering_run E) (resolveConflict sc i res now) s"
  unfolding resolveConflict_def mutateTenant_def Let_def
  by (intro nr.goes_ownedFrame) (auto simp: goes_def split: option.split)

lemma resolveWithPort_run: "goes (numbering_run E) (resolveWithPort E' sc i input now port eventPort) s"
proof -
  have pending: "goes (numbering_run E) (returnToPending sc ck conflict item entry) s"
    for ck conflict item entry s
    by (auto simp: goes_def returnToPending_def split: option.split prod.split)
  have allowed: "goes (numbering_run E) (allowedResolutions asked k receipt) s" for asked k receipt s
    unfolding goes_def by (metis allowedResolutions_state prod.collapse nr.refl)
  show ?thesis
    unfolding resolveWithPort_def mutateTenant_def resolveWithPortLocked_def recordResolution_def
      closeResolution_def Let_def
    by (intro nr.goes_rules nr.goes_eventS pending allowed conjI allI impI
        | split option.split if_split | simp)+
qed

text \<open>Every step keeps the invariant of the numbering component and respects its order.\<close>

lemma numbering_run_keeps:
  assumes "numbering_run E s t" and "numbering_full_inv E s"
  shows "numbering_full_inv E t \<and> numbering_le s t"
  using numbering_runs.run_inv [OF assms(1)] numbering_runs.run_below [OF assms(1)] assms(2)
  by (simp add: full_inv_numbers le_numbers)

lemma goes_keeps:
  "goes (numbering_run E) m s \<Longrightarrow> m s = (r, t) \<Longrightarrow> numbering_full_inv E s
   \<Longrightarrow> numbering_full_inv E t \<and> numbering_le s t"
  by (rule numbering_run_keeps) (simp_all add: goes_def)

lemma sync_step_numbers:
  assumes "sync_step E s t" and "numbering_full_inv E s"
  shows "numbering_full_inv E t \<and> numbering_le s t"
  using assms
proof (induction rule: sync_step.induct)
  case (number s t)
  then show ?case
    using numbering_runs.step_inv numbering_runs.step_below by blast
qed (rule goes_keeps [OF submitDurable_run] goes_keeps [OF submitSyncBatch_run] goes_keeps [OF openConflict_run]
    goes_keeps [OF resolveConflict_run] goes_keeps [OF resolveWithPort_run], assumption+)+

end
