(* ===== verification/Conflict_Runs.thy ===== *)
theory Conflict_Runs
  imports Sync_Runs
begin

text \<open>
  Conflicts over runs of the store: they carry their own key and an identifier drawn before, none is lost,
  and one that is resolved stays exactly as it was resolved. A conflict is written under an identifier drawn
  for it (\<open>conflict_new\<close>) or as the resolution of an open one.
\<close>

definition conflicts_ok :: "env \<Rightarrow> offline_store \<Rightarrow> bool" where
  "conflicts_ok E s \<longleftrightarrow> inj (env_randomUUID E) \<and> jwf (st_conflicts s)
     \<and> (\<forall>k c. jget (st_conflicts s) k = Some c \<longrightarrow> k = tkey (cf_tenantId c) (cf_conflictId c)
          \<and> tenant_ok (cf_tenantId c) \<and> past_id E (st_uuids s) (cf_conflictId c))"

definition conflict_le :: "sync_conflict \<Rightarrow> sync_conflict \<Rightarrow> bool" where
  "conflict_le c c' \<longleftrightarrow> cf_tenantId c' = cf_tenantId c \<and> cf_conflictId c' = cf_conflictId c
     \<and> (cf_status c = Conflict_resolved \<longrightarrow> c' = c)"

definition conflicts_kept :: "offline_store \<Rightarrow> offline_store \<Rightarrow> bool" where
  "conflicts_kept s t \<longleftrightarrow> (\<forall>k c. jget (st_conflicts s) k = Some c
     \<longrightarrow> (\<exists>c'. jget (st_conflicts t) k = Some c' \<and> conflict_le c c'))"

definition conflicts_le :: "env \<Rightarrow> offline_store \<Rightarrow> offline_store \<Rightarrow> bool" where
  "conflicts_le E s t \<longleftrightarrow> (conflicts_ok E s \<longrightarrow>
     conflicts_ok E t \<and> st_uuids s \<le> st_uuids t \<and> conflicts_kept s t)"

text \<open>The identifier drawn as number \<open>n\<close> names no resolved conflict.\<close>

definition unresolved :: "env \<Rightarrow> nat \<Rightarrow> offline_store \<Rightarrow> bool" where
  "unresolved E n s \<longleftrightarrow> n < st_uuids s \<and> (\<forall>k c. jget (st_conflicts s) k = Some c
     \<longrightarrow> cf_conflictId c = env_randomUUID E n \<longrightarrow> cf_status c = Conflict_open)"

definition conflict_new :: "env \<Rightarrow> nat \<Rightarrow> offline_store \<Rightarrow> offline_store \<Rightarrow> bool" where
  "conflict_new E n s t \<longleftrightarrow> (unresolved E n s \<longrightarrow> conflicts_ok E s \<longrightarrow>
     unresolved E n t \<and> conflicts_ok E t \<and> st_uuids s \<le> st_uuids t \<and> conflicts_kept s t)"

lemma conflict_le_refl [simp]: "conflict_le c c"
  by (simp add: conflict_le_def)

lemma conflicts_kept_refl [simp]: "conflicts_kept s s"
  by (auto simp: conflicts_kept_def)

lemma conflicts_kept_trans: "conflicts_kept s t \<Longrightarrow> conflicts_kept t u \<Longrightarrow> conflicts_kept s u"
  unfolding conflicts_kept_def conflict_le_def by metis

lemma conflicts_ok_same:
  "conflicts_ok E s \<Longrightarrow> st_conflicts t = st_conflicts s \<Longrightarrow> st_uuids s \<le> st_uuids t \<Longrightarrow> conflicts_ok E t"
  unfolding conflicts_ok_def by (metis past_id_mono)

lemma conflicts_le_same:
  "st_conflicts t = st_conflicts s \<Longrightarrow> st_uuids s \<le> st_uuids t \<Longrightarrow> conflicts_le E s t"
  by (auto simp: conflicts_le_def conflicts_kept_def intro: conflicts_ok_same)

lemma conflict_new_same:
  "st_conflicts t = st_conflicts s \<Longrightarrow> st_uuids s \<le> st_uuids t \<Longrightarrow> conflict_new E n s t"
  by (auto simp: conflict_new_def conflicts_kept_def unresolved_def intro: conflicts_ok_same)

interpretation cl: sync_order "conflicts_le E" for E
proof (unfold_locales, goal_cases)
  case (2 s t u)
  then show ?case by (auto simp: conflicts_le_def intro: conflicts_kept_trans)
next
  case (4 s t)
  then show ?case by (auto simp: conflicts_le_def conflicts_kept_def intro: conflicts_ok_same)
qed (simp_all add: conflicts_le_same)

interpretation cn: sync_order "conflict_new E n" for E n
proof (unfold_locales, goal_cases)
  case (2 s t u)
  then show ?case by (auto simp: conflict_new_def intro: conflicts_kept_trans)
next
  case (4 s t)
  then show ?case by (auto simp: conflict_new_def conflicts_kept_def unresolved_def intro: conflicts_ok_same)
qed (simp_all add: conflict_new_same)

subsection \<open>Writing a conflict under a fresh identifier\<close>

lemma saveConflict_conflicts [simp]:
  "st_conflicts (saveConflict c now a x d s) = jset (tkey (cf_tenantId c) (cf_conflictId c)) c (st_conflicts s)"
  "st_uuids (saveConflict c now a x d s) = st_uuids s"
  by (simp_all add: saveConflict_def Let_def)

lemma openConflictOf_fields [simp]:
  "cf_conflictId (openConflictOf i t q l h kind d) = i" "cf_tenantId (openConflictOf i t q l h kind d) = t"
  "cf_status (openConflictOf i t q l h kind d) = Conflict_open"
  by (simp_all add: openConflictOf_def)

lemma past_drawn: "inj (env_randomUUID E) \<Longrightarrow> n < u \<Longrightarrow> past_id E u (env_randomUUID E n)"
  by (auto simp: past_id_def dest: injD)

lemma saveConflict_new:
  assumes "tenant_ok t"
  shows "conflict_new E n s (saveConflict (openConflictOf (env_randomUUID E n) t q l h kind d) now a x dc s)"
proof -
  have "conflict_le c (openConflictOf (env_randomUUID E n) t q l h kind d)"
    if ok: "conflicts_ok E s" "unresolved E n s" and c: "jget (st_conflicts s) (tkey t (env_randomUUID E n)) = Some c" for c
  proof -
    have "tkey (cf_tenantId c) (cf_conflictId c) = tkey t (env_randomUUID E n)" "tenant_ok (cf_tenantId c)"
      using ok(1) c by (auto simp: conflicts_ok_def)
    then have "cf_tenantId c = t" "cf_conflictId c = env_randomUUID E n"
      using tkey_inject [of "cf_tenantId c" t] assms by (auto simp: tenant_ok_def)
    then show ?thesis
      using ok(2) c by (auto simp: conflict_le_def unresolved_def)
  qed
  then show ?thesis
    using assms by (auto simp: conflict_new_def conflicts_kept_def unresolved_def conflicts_ok_def past_drawn
        split: if_splits)
qed

lemma goes_fresh:
  assumes "\<And>t. goes (conflict_new E (st_uuids s)) (f (env_randomUUID E (st_uuids s))) t"
  shows "goes (conflicts_le E) (bindS (uuidS E) f) s"
proof -
  let ?t = "s\<lparr>st_uuids := Suc (st_uuids s)\<rparr>"
  have run: "bindS (uuidS E) f s = f (env_randomUUID E (st_uuids s)) ?t"
    by (simp add: bindS_def uuidS_def drawUUID_def)
  have "unresolved E (st_uuids s) ?t" if "conflicts_ok E s"
    using that by (force simp: unresolved_def conflicts_ok_def past_id_def)
  moreover have "conflicts_ok E ?t" if "conflicts_ok E s"
    using that by (auto simp: conflicts_ok_def past_id_def)
  ultimately show ?thesis
    using assms [of ?t] by (auto simp: goes_def run conflicts_le_def conflict_new_def conflicts_kept_def)
qed

subsection \<open>Durable batches\<close>

lemma same_conflicts:
  "st_conflicts (saveRejection sc input item key original now s) = st_conflicts s"
  "st_uuids (saveRejection sc input item key original now s) = st_uuids s"
  "st_conflicts (bindTransport tk i f s) = st_conflicts s" "st_uuids (bindTransport tk i f s) = st_uuids s"
  "st_conflicts (useNumber B item a s) = st_conflicts s" "st_uuids (useNumber B item a s) = st_uuids s"
  "st_conflicts (appendConflictAction action s) = st_conflicts s"
  "st_uuids (appendConflictAction action s) = st_uuids s"
  "st_conflicts (saveAttributes ck x s) = st_conflicts s" "st_uuids (saveAttributes ck x s) = st_uuids s"
  by (auto simp: saveRejection_def Let_def bindTransport_def useNumber_def recordApplied_def
      appendConflictAction_def saveAttributes_def split: option.split)

lemmas same_rules = conflicts_le_same conflict_new_same

lemma integrityConflict_le:
  assumes "tenant_ok (sc_tenantId sc)"
  shows "goes (conflicts_le E) (integrityConflict E sc input item key original opts agentId now) s"
proof -
  have answer: "goes R (bindS (getS g) (\<lambda>r. case r of None \<Rightarrow> throwS TypeError | Some x \<Rightarrow> returnS (rejectionContext x))) s"
    if "sync_order R" for R g s
    using sync_order.refl [OF that] by (auto simp: goes_def sync_simps split: option.split)
  show ?thesis
    unfolding integrityConflict_def Let_def
    by (intro goes_fresh cl.goes_rules cn.goes_rules saveConflict_new assms answer cl.sync_order_axioms
        cn.sync_order_axioms conjI allI impI | split option.split prod.split | simp add: same_rules same_conflicts)+
qed

lemma handleFailure_le:
  assumes "tenant_ok (sc_tenantId (be_scope B))"
  shows "goes (conflicts_le E) (handleFailure E B item portItem key trx again attempts ctx e) s"
  unfolding handleFailure_def Let_def
  by (intro goes_fresh cl.goes_rules cn.goes_rules saveConflict_new assms conjI allI impI
      | split option.split prod.split)+

lemma markAffected_new:
  assumes "tenant_ok (sc_tenantId (be_scope B))"
  shows "conflict_new E n s (markAffected B affected (env_randomUUID E n) allowed evidence x row s)"
  unfolding markAffected_def concurrencyConflict_def Let_def
  by (rule cn.trans [OF conflict_new_same saveConflict_new [OF assms]]) (simp_all split: option.split)

lemma markAffected_fold_new:
  assumes "tenant_ok (sc_tenantId (be_scope B))"
  shows "conflict_new E n s (fold (markAffected B affected (env_randomUUID E n) allowed evidence x) rows s)"
  by (induction rows arbitrary: s) (auto intro: cn.refl cn.trans markAffected_new [OF assms])

lemma recordAffected_le:
  assumes "tenant_ok (sc_tenantId (be_scope B))"
  shows "goes (conflicts_le E) (recordAffected E B item queueItemId trx ctx pair affected out) s"
  unfolding recordAffected_def concurrencyConflict_def Let_def
  by (intro goes_fresh cl.goes_rules cn.goes_rules saveConflict_new markAffected_fold_new assms conjI impI
      | split if_split)+

lemma recordPairs_le:
  assumes "tenant_ok (sc_tenantId (be_scope B))"
  shows "goes (conflicts_le E) (recordPairs E B item queueItemId trx ctx pairs acc) s"
proof (induction pairs arbitrary: acc s)
  case (Cons pair rest)
  show ?case
    unfolding recordPairs.simps by (intro cl.goes_rules recordAffected_le [OF assms] Cons.IH)
qed (simp add: cl.goes_rules)

lemma applyThroughPort_le:
  assumes "tenant_ok (sc_tenantId (be_scope B))"
  shows "goes (conflicts_le E)
    (applyThroughPort E B item portItem key trx again attempts prepared covering applier) s"
  unfolding applyThroughPort_def Let_def
  by (intro cl.goes_rules cl.goes_eventS recordPairs_le [OF assms] allI impI | split prod.split
      | simp add: same_rules)+

lemma deferItem_le:
  assumes "tenant_ok (sc_tenantId (be_scope B))"
  shows "goes (conflicts_le E) (deferItem E B item portItem key trx attempts prepared) s"
  unfolding deferItem_def Let_def
  by (intro cl.goes_rules recordPairs_le [OF assms] allI impI | split prod.split)+

lemma applyPrepared_le:
  assumes "tenant_ok (sc_tenantId (be_scope B))"
  shows "goes (conflicts_le E) (applyPrepared E B item portItem key trx again attempts prepared) s"
  unfolding applyPrepared_def
  by (intro cl.goes_rules deferItem_le [OF assms] applyThroughPort_le [OF assms] conjI allI impI
      | split if_split option.split)+

lemma attemptItem_le:
  assumes "tenant_ok (sc_tenantId (be_scope B))"
  shows "goes (conflicts_le E) (attemptItem E B item key previous trx) s"
proof -
  have frame: "goes (conflicts_le E) (ownedFrame (bindS (liftE prepared)
      (applyPrepared E B item portItem key trx again attempts))) s" for prepared portItem again attempts
    by (intro cl.goes_rules applyPrepared_le [OF assms])
  have fail: "conflicts_le E t (snd (handleFailure E B item portItem key trx again attempts ctx e t))"
    for portItem again attempts ctx e t
    using handleFailure_le [OF assms] by (simp add: goes_def)
  show ?thesis
    unfolding attemptItem_def goes_def Let_def
    by (rule cl.goes_catch [OF frame]) (simp add: cl.refl fail)
qed

lemma finishItem_le: "goes (conflicts_le E) (finishItem B item key previous a acc) s"
  by (simp add: goes_def finishItem_def Let_def conflicts_le_same same_conflicts)

lemma processItem_le:
  assumes "tenant_ok (sc_tenantId (be_scope B))"
  shows "goes (conflicts_le E) (processItem E B item key acc) s"
  unfolding processItem_def processKnown_def applyAndFinish_def applyItem_def adoptLegacy_def legacyIntegrity_def
    rejectHash_def rejectChanged_def Let_def
  by (intro cl.goes_rules integrityConflict_le attemptItem_le finishItem_le assms conjI allI impI
      | split option.split if_split | simp add: same_rules)+

lemma processItems_le:
  assumes "tenant_ok (sc_tenantId (be_scope B))"
  shows "goes (conflicts_le E) (processItems E B keys items acc) s"
proof (induction items arbitrary: acc s)
  case (Cons item rest)
  show ?case
    unfolding processItems.simps by (intro cl.goes_rules processItem_le [OF assms] Cons.IH)
qed (simp add: cl.goes_rules)

lemma submitDurable_le:
  assumes "tenant_ok (sc_tenantId sc)"
  shows "goes (conflicts_le E) (submitDurableSyncBatch E sc input opts now) s"
proof -
  have run: "goes (conflicts_le E) (runBatch E sc input opts now keys rec) s" for keys rec s
    unfolding runBatch_def Let_def
    by (intro cl.goes_bindS processItems_le) (simp_all add: goes_def same_rules assms)
  show ?thesis
    unfolding submitDurableSyncBatch_def Let_def
    by (intro cl.goes_rules run conjI impI allI | split option.split if_split
        | simp add: same_rules same_conflicts)+
qed

subsection \<open>The other operations\<close>

lemma submitItems_conflicts:
  "st_conflicts (snd (submitItems sc input now items acc s)) = st_conflicts s
   \<and> st_uuids (snd (submitItems sc input now items acc s)) = st_uuids s"
proof (induction items arbitrary: acc s)
  case (Cons item rest)
  have "st_conflicts (snd (submitItem sc input now item acc s)) = st_conflicts s
    \<and> st_uuids (snd (submitItem sc input now item acc s)) = st_uuids s"
    by (simp add: submitItem_def Let_def split: option.split)
  then show ?case
    using Cons.IH by (auto simp: bindS_def split: prod.split sum.split)
qed (simp add: sync_basic)

lemma submitSyncBatch_le: "goes (conflicts_le E) (submitSyncBatch sc input now) s"
proof -
  have "goes (conflicts_le E) (submitItems sc input now (ba_items input) ([], 0)) s"
    using submitItems_conflicts by (auto simp: goes_def intro!: conflicts_le_same)
  then show ?thesis
    unfolding submitSyncBatch_def mutateTenant_def
    by (intro cl.goes_ownedFrame cl.goes_bindS) (simp_all add: cl.goes_returnS split: prod.split)
qed

lemma openConflict_le:
  assumes "tenant_ok (sc_tenantId sc)"
  shows "goes (conflicts_le E) (openConflict E sc i kind description now) s"
  unfolding openConflict_def mutateTenant_def Let_def
  by (intro cl.goes_rules goes_fresh cn.goes_rules saveConflict_new assms conjI allI impI
      | split option.split | simp add: same_rules)+

text \<open>An open conflict may be replaced by its resolution.\<close>

lemma resolution_le:
  assumes "jget (st_conflicts s) k = Some c" and "cf_status c = Conflict_open"
    and "st_conflicts t = jset k c' (st_conflicts s)" and "st_uuids t = st_uuids s"
    and "cf_tenantId c' = cf_tenantId c" and "cf_conflictId c' = cf_conflictId c"
  shows "conflicts_le E s t"
  using assms by (auto simp: conflicts_le_def conflicts_ok_def conflicts_kept_def conflict_le_def)

lemma resolution_write:
  "jget (st_conflicts s) k = Some c \<Longrightarrow> cf_status c = Conflict_open \<Longrightarrow> cf_tenantId c' = cf_tenantId c
   \<Longrightarrow> cf_conflictId c' = cf_conflictId c \<Longrightarrow> conflicts_le E s (s\<lparr>st_conflicts := jset k c' (st_conflicts s)\<rparr>)"
  by (rule resolution_le [where c = c and c' = c' and k = k]) simp_all

lemma resolution_write_item:
  "jget (st_conflicts s) k = Some c \<Longrightarrow> cf_status c = Conflict_open \<Longrightarrow> cf_tenantId c' = cf_tenantId c
   \<Longrightarrow> cf_conflictId c' = cf_conflictId c
   \<Longrightarrow> conflicts_le E s (s\<lparr>st_conflicts := jset k c' (st_conflicts s), st_queueItems := q\<rparr>)"
  by (rule resolution_le [where c = c and c' = c' and k = k]) simp_all

lemma resolveConflict_le: "goes (conflicts_le E) (resolveConflict sc i res now) s"
  unfolding resolveConflict_def mutateTenant_def Let_def
  by (intro cl.goes_ownedFrame)
    (auto simp: goes_def cl.refl split: option.split
      intro: resolution_write resolution_write_item)

lemma returnToPending_conflicts:
  "st_conflicts (snd (returnToPending sc ck conflict item entry s)) = st_conflicts s
   \<and> st_uuids (snd (returnToPending sc ck conflict item entry s)) = st_uuids s"
  by (auto simp: returnToPending_def split: option.split prod.split)

lemma returnToPending_state:
  "returnToPending sc ck conflict item entry s = (r, t) \<Longrightarrow> st_conflicts t = st_conflicts s"
  using returnToPending_conflicts [of sc ck conflict item entry s] by simp

lemma returnToPending_le: "goes (conflicts_le E) (returnToPending sc ck conflict item entry) s"
  using returnToPending_conflicts by (auto simp: goes_def intro!: conflicts_le_same)

lemma closeResolution_le:
  assumes "jget (st_conflicts s) (tkey (sc_tenantId sc) i) = Some conflict" and "cf_status conflict = Conflict_open"
  shows "goes (conflicts_le E) (closeResolution sc i conflict input now trx actionId answer eventPort stynx) s"
  unfolding closeResolution_def Let_def
  by (intro cl.goes_rules cl.goes_eventS conjI impI resolution_write [OF assms]
      | split if_split | simp add: conflicts_le_same)+

lemma recordResolution_le:
  assumes "jget (st_conflicts s) (tkey (sc_tenantId sc) i) = Some conflict" and "cf_status conflict = Conflict_open"
  shows "goes (conflicts_le E) (recordResolution sc i conflict input now trx actionId answer eventPort) s"
  unfolding recordResolution_def Let_def
  by (intro cl.goes_rules closeResolution_le)
    (use assms in \<open>auto simp: sync_basic same_conflicts intro!: conflicts_le_same\<close>)

lemma allowedResolutions_le: "goes (conflicts_le E) (allowedResolutions asked k receipt) s"
  unfolding goes_def by (metis allowedResolutions_state prod.collapse cl.refl)

lemma resolveWithPortLocked_le: "goes (conflicts_le E) (resolveWithPortLocked E' sc i input now port eventPort) s"
  unfolding resolveWithPortLocked_def Let_def
  by (intro cl.goes_rules returnToPending_le recordResolution_le allowedResolutions_le conjI allI impI
      | split option.split if_split)+
    (auto simp: uuidS_def drawUUID_def sync_basic dest!: allowedResolutions_state returnToPending_state
      split: if_splits)

lemma resolveWithPort_le: "goes (conflicts_le E) (resolveWithPort E' sc i input now port eventPort) s"
  unfolding resolveWithPort_def mutateTenant_def by (intro cl.goes_ownedFrame resolveWithPortLocked_le)

lemma sync_step_conflicts: "sync_step E s t \<Longrightarrow> conflicts_le E s t"
proof (induction rule: sync_step.induct)
  case (number s t)
  then show ?case
    using more_fields(3) [OF numbering_more] numbering_uuids by (intro conflicts_le_same) blast+
qed (blast dest: goesD [OF submitDurable_le] goesD [OF submitSyncBatch_le] goesD [OF openConflict_le]
    goesD [OF resolveConflict_le] goesD [OF resolveWithPort_le])+

end
