(* ===== verification/Batch_Sequence.thy ===== *)
theory Batch_Sequence
  imports Conflict_Runs
begin

text \<open>
  Batch sequences: a device that numbers its batches must number them 1, 2, 3 and so on, and the store refuses
  a gap and a repetition (\<open>checkSequence\<close>). In every reachable state the numbers of a device's batches, in the
  order in which the batches arrived, are an initial segment of the positive integers.
\<close>

definition sequenceOf :: "scope \<Rightarrow> string \<Rightarrow> string \<times> batch_record \<Rightarrow> int list" where
  "sequenceOf sc deviceId row = (case row of (k, b) \<Rightarrow>
     if startsWith k (sc_tenantId sc @ '':'') \<and> br_deviceId (bt_receipt b) = deviceId
     then (case br_batchSequence (bt_receipt b) of None \<Rightarrow> [] | Some n \<Rightarrow> [n]) else [])"

definition batchSequences :: "scope \<Rightarrow> string \<Rightarrow> offline_store \<Rightarrow> int list" where
  "batchSequences sc deviceId s = concat (map (sequenceOf sc deviceId) (st_batches s))"

definition sequences_ok :: "offline_store \<Rightarrow> bool" where
  "sequences_ok s \<longleftrightarrow> (\<forall>sc deviceId. tenant_ok (sc_tenantId sc) \<longrightarrow>
     batchSequences sc deviceId s = map int [1..<Suc (length (batchSequences sc deviceId s))])"

subsection \<open>Items leave the batches alone\<close>

definition same_batches :: "offline_store \<Rightarrow> offline_store \<Rightarrow> bool" where
  "same_batches s t \<longleftrightarrow> st_batches t = st_batches s \<and> st_transport t = st_transport s"

interpretation sb: sync_order same_batches
  by unfold_locales (auto simp: same_batches_def)

lemma only_conflicts_batches: "only_conflicts s t \<Longrightarrow> same_batches s t"
  by (simp add: only_conflicts_def same_core_def same_batches_def)

lemma applied_batches: "applied_by k s t \<Longrightarrow> same_batches s t"
  by (simp add: applied_by_def same_core_def same_batches_def)

lemma processItem_batches: "goes same_batches (processItem E B item key acc) s"
proof -
  have finish: "goes same_batches (finishItem B item key previous a acc) s" for previous a s
    by (simp add: goes_def same_batches_def finishItem_def Let_def)
  have application: "goes same_batches (applyAndFinish E B item key previous acc) s" for previous s
    unfolding applyAndFinish_def
    by (intro sb.goes_bindS finish goes_mono [OF applyItem_goes applied_batches])
  have adopt: "goes same_batches (adoptLegacy E B item key e6 acc) s" for e6 s
    unfolding adoptLegacy_def Let_def
    by (intro sb.goes_rules goes_mono [OF legacyIntegrity_goes only_conflicts_batches] conjI allI impI
        | split option.split | simp add: same_batches_def)+
  show ?thesis
    unfolding processItem_def processKnown_def Let_def
    by (auto simp: sync_simps split: option.split
        intro!: sb.goes_rules application adopt goes_mono [OF rejectHash_goes only_conflicts_batches]
          goes_mono [OF rejectChanged_goes only_conflicts_batches])
qed

lemma processItems_batches: "goes same_batches (processItems E B keys items acc) s"
proof (induction items arbitrary: acc s)
  case (Cons item rest)
  show ?case
    unfolding processItems.simps by (intro sb.goes_rules processItem_batches Cons.IH)
qed (simp add: sb.goes_rules)

subsection \<open>The next sequence\<close>

lemma jset_fresh: "jget m k = None \<Longrightarrow> jset k v m = m @ [(k, v)]"
  by (induction m) (auto split: if_splits)

lemma concat_jset_same:
  "jget m k = Some v0 \<Longrightarrow> g (k, v) = g (k, v0) \<Longrightarrow> concat (map g (jset k v m)) = concat (map g m)"
  by (induction m) (auto split: if_splits)

definition receiptSequence :: "batch_receipt \<Rightarrow> int list" where
  "receiptSequence r = (case br_batchSequence r of None \<Rightarrow> [] | Some n \<Rightarrow> [n])"

lemma siblings_sequences:
  "batchSequences sc deviceId s = concat (map receiptSequence (siblingReceipts sc deviceId s))"
proof -
  have "concat (map (sequenceOf sc deviceId) m) = concat (map receiptSequence (filter (\<lambda>r. br_deviceId r = deviceId)
      (map (\<lambda>(k, b). bt_receipt b) (filter (\<lambda>(k, b). startsWith k (sc_tenantId sc @ '':'')) m))))" for m
    by (induction m) (auto simp: sequenceOf_def receiptSequence_def)
  then show ?thesis
    by (simp add: batchSequences_def siblingReceipts_def)
qed

lemma foldl_max_sequences:
  "0 \<le> a \<Longrightarrow> foldl max a (map seqOf rs) = foldl max a (concat (map receiptSequence rs))"
  by (induction rs arbitrary: a) (auto simp: seqOf_def receiptSequence_def split: option.split)

lemma foldl_max_upto: "foldl max 0 (map int [1..<Suc n]) = int n"
  by (induction n) auto

lemma expected_next:
  assumes "batchSequences sc deviceId s = map int [1..<Suc n]"
  shows "expectedSequence (siblingReceipts sc deviceId s) = int (Suc n)"
  using assms foldl_max_sequences [of 0] foldl_max_upto [of n]
  by (simp add: expectedSequence_def siblings_sequences)

lemma checkSequence_next:
  assumes "checkSequence sc input s = Inr u" and "ba_batchSequence input = Some m"
    and "batchSequences sc (ba_deviceId input) s = map int [1..<Suc n]"
  shows "m = int (Suc n)"
  using assms(1) unfolding checkSequence_def assms(2) Let_def expected_next [OF assms(3)] option.case
  by (simp only: bindE_eq_Inr throwIf_eq_Inr) blast

subsection \<open>The invariant\<close>

lemma startsWith_tkey:
  assumes "startsWith (tkey t i) (u @ '':'')" and "tenant_ok t" and "tenant_ok u"
  shows "u = t"
proof -
  obtain j where "tkey t i = tkey u j"
    using assms(1) by (auto simp: tkey_def prefix_def)
  then show ?thesis
    using assms(2,3) tkey_inject [of t u i j] by (simp add: tenant_ok_def)
qed

lemma sequences_ok_batches: "st_batches t = st_batches s \<Longrightarrow> sequences_ok t = sequences_ok s"
  by (simp add: sequences_ok_def batchSequences_def)

lemma same_batches_sequences: "same_batches s t \<Longrightarrow> sequences_ok s \<Longrightarrow> sequences_ok t"
  using sequences_ok_batches [of t s] by (simp add: same_batches_def)

text \<open>A batch record that is replaced keeps the device and the sequence it was created with.\<close>

lemma replace_ok:
  assumes "jget (st_batches s) k = Some b" and "br_deviceId (bt_receipt b') = br_deviceId (bt_receipt b)"
    and "br_batchSequence (bt_receipt b') = br_batchSequence (bt_receipt b)"
  shows "sequences_ok (s\<lparr>st_batches := jset k b' (st_batches s)\<rparr>) = sequences_ok s"
proof -
  have "batchSequences sc d (s\<lparr>st_batches := jset k b' (st_batches s)\<rparr>) = batchSequences sc d s" for sc d
    using assms by (simp add: batchSequences_def concat_jset_same [OF assms(1)] sequenceOf_def)
  then show ?thesis
    by (simp add: sequences_ok_def)
qed

lemma closeBatch_keeps:
  "br_deviceId (bt_receipt (snd (closeBatch input opts rec acc))) = br_deviceId (bt_receipt rec)"
  "br_batchSequence (bt_receipt (snd (closeBatch input opts rec acc))) = br_batchSequence (bt_receipt rec)"
  by (simp_all add: closeBatch_def Let_def)

lemma runBatch_sequences:
  assumes "jget (st_batches s) (batchIdentity sc input) = Some rec" and "sequences_ok s"
  shows "sequences_ok (snd (runBatch E sc input opts now keys rec s))"
proof -
  let ?B = "\<lparr>be_scope = sc, be_input = input, be_options = opts, be_agentId = agentOf sc opts,
    be_now = now, be_identity = batchIdentity sc input, be_initial = bt_initialQueueStatus rec\<rparr>"
  obtain r t where t: "processItems E ?B keys (ba_items input) no_results s = (r, t)"
    by fastforce
  then have same: "st_batches t = st_batches s"
    using goesD [OF processItems_batches t] by (simp add: same_batches_def)
  from assms have "jget (st_batches t) (batchIdentity sc input) = Some rec" "sequences_ok t"
    using sequences_ok_batches [OF same] same by simp_all
  then show ?thesis
    by (cases r) (simp_all add: runBatch_def Let_def bindS_def t replace_ok closeBatch_keeps)
qed

lemma newBatch_ok:
  assumes "sequences_ok s" and "tenant_ok (sc_tenantId sc)" and "jget (st_batches s) (batchIdentity sc input) = None"
    and "checkSequence sc input s = Inr u"
  shows "sequences_ok (s\<lparr>st_batches := jset (batchIdentity sc input) (newBatch E sc input opts now) (st_batches s)\<rparr>)"
    (is "sequences_ok ?t")
  unfolding sequences_ok_def
proof (intro allI impI)
  fix sc' :: scope and d :: string
  assume ok: "tenant_ok (sc_tenantId sc')"
  let ?q = "batchSequences sc' d s"
  have new: "batchSequences sc' d ?t = ?q @ sequenceOf sc' d (batchIdentity sc input, newBatch E sc input opts now)"
    by (simp add: batchSequences_def jset_fresh [OF assms(3)])
  have old: "?q = map int [1..<Suc (length ?q)]"
    using assms(1) ok by (simp add: sequences_ok_def)
  show "batchSequences sc' d ?t = map int [1..<Suc (length (batchSequences sc' d ?t))]"
  proof (cases "sequenceOf sc' d (batchIdentity sc input, newBatch E sc input opts now)")
    case Nil
    then show ?thesis
      using old new by simp
  next
    case (Cons m ms)
    then have here: "startsWith (batchIdentity sc input) (sc_tenantId sc' @ '':'')" "d = ba_deviceId input"
      "ba_batchSequence input = Some m" "ms = []"
      by (auto simp: sequenceOf_def newBatch_def newReceipt_def split: if_splits option.splits)
    then have tenant: "sc_tenantId sc' = sc_tenantId sc"
      using startsWith_tkey assms(2) ok unfolding batchIdentity_def by blast
    then have "sequenceOf sc = sequenceOf sc'"
      by (simp add: sequenceOf_def fun_eq_iff)
    then have "batchSequences sc (ba_deviceId input) s = ?q"
      using here(2) by (simp add: batchSequences_def)
    then have "batchSequences sc (ba_deviceId input) s = map int [1..<Suc (length ?q)]"
      using old by (simp only:)
    then have "m = int (Suc (length ?q))"
      using checkSequence_next [OF assms(4) here(3)] by blast
    then have "batchSequences sc' d ?t = ?q @ map int [Suc (length ?q)]"
      using new Cons here(4) by simp
    moreover have "map int [1..<Suc (Suc (length ?q))] = map int [1..<Suc (length ?q)] @ map int [Suc (length ?q)]"
      by simp
    ultimately show ?thesis
      using old by simp
  qed
qed

lemma bindTransport_batches [simp]: "st_batches (bindTransport tk i f s) = st_batches s"
  by (simp add: bindTransport_def)

lemma submitDurable_sequences:
  assumes "tenant_ok (sc_tenantId sc)" and "sequences_ok s"
  shows "sequences_ok (snd (submitDurableSyncBatch E sc input opts now s))"
proof (cases "jget (st_batches s) (batchIdentity sc input)")
  case None
  have "sequences_ok (snd (runBatch E sc input opts now keys (newBatch E sc input opts now)
      (bindTransport tk (batchIdentity sc input) fp
        (s\<lparr>st_batches := jset (batchIdentity sc input) (newBatch E sc input opts now) (st_batches s)\<rparr>))))"
    if "checkSequence sc input s = Inr u" for keys tk fp u
    using newBatch_ok [OF assms(2,1) None that] by (intro runBatch_sequences)
      (simp_all add: sequences_ok_batches [OF bindTransport_batches])
  then show ?thesis
    using assms(2) None
    by (auto simp: submitDurableSyncBatch_def Let_def bindS_def sync_basic split: sum.split)
next
  case (Some prior)
  have "sequences_ok (snd (runBatch E sc input opts now keys prior (bindTransport tk i fp s)))" for keys tk i fp
    using assms(2) Some by (intro runBatch_sequences) (simp_all add: sequences_ok_batches [OF bindTransport_batches])
  then show ?thesis
    using assms(2) Some
    by (auto simp: submitDurableSyncBatch_def Let_def bindS_def sync_basic
        sequences_ok_batches [OF bindTransport_batches] split: sum.split option.split)
qed

lemma submitItems_batches: "goes same_batches (submitItems sc input now items acc) s"
proof (induction items arbitrary: acc s)
  case (Cons item rest)
  have "goes same_batches (submitItem sc input now item acc) s" for acc s
    unfolding goes_def same_batches_def submitItem_def Let_def by (auto split: option.split)
  then show ?case
    unfolding submitItems.simps by (intro sb.goes_rules Cons.IH)
qed (simp add: sb.goes_rules)

lemma batches_frames [simp]:
  "same_batches s (saveConflict c now a x d s)" "same_batches s (s\<lparr>st_queueItems := q\<rparr>)"
  "same_batches s (appendConflictAction action s)" "same_batches s (saveAttributes k at s)"
  "same_batches s (s\<lparr>st_conflicts := cs\<rparr>)" "same_batches s (s\<lparr>st_effects := es\<rparr>)"
  "same_batches s (s\<lparr>st_conflicts := cs, st_queueItems := q\<rparr>)"
  "same_batches s (s\<lparr>st_queueItems := q, st_itemReceipts := rs\<rparr>)"
  by (simp_all add: same_batches_def saveConflict_def appendConflictAction_def saveAttributes_def
      Let_def split: option.split)

lemma submitSyncBatch_batches: "goes same_batches (submitSyncBatch sc input now) s"
  unfolding submitSyncBatch_def mutateTenant_def
  by (intro sb.goes_rules submitItems_batches allI impI | split prod.split)+

lemma openConflict_batches: "goes same_batches (openConflict E' sc i kind description now) s"
  unfolding openConflict_def mutateTenant_def Let_def
  by (intro sb.goes_rules conjI allI impI | split option.split | simp)+

lemma resolveConflict_batches: "goes same_batches (resolveConflict sc i res now) s"
  unfolding resolveConflict_def mutateTenant_def Let_def
  by (intro sb.goes_ownedFrame) (auto simp: goes_def sb.refl split: option.split)

lemma resolveWithPort_batches: "goes same_batches (resolveWithPort E' sc i input now port eventPort) s"
proof -
  have pending: "goes same_batches (returnToPending sc ck conflict item entry) s" for ck conflict item entry s
    by (auto simp: goes_def returnToPending_def sb.refl split: option.split prod.split)
  have allowed: "goes same_batches (allowedResolutions asked k receipt) s" for asked k receipt s
    unfolding goes_def by (metis allowedResolutions_state prod.collapse sb.refl)
  show ?thesis
    unfolding resolveWithPort_def mutateTenant_def resolveWithPortLocked_def recordResolution_def
      closeResolution_def Let_def
    by (intro sb.goes_rules sb.goes_eventS pending allowed conjI allI impI
        | split option.split if_split | simp)+
qed

lemma sync_step_sequences: "sync_step E s t \<Longrightarrow> sequences_ok s \<Longrightarrow> sequences_ok t"
proof (induction rule: sync_step.induct)
  case (durable_batch sc input opts now s r t)
  then show ?case
    using submitDurable_sequences [of sc s E input opts now] by simp
next
  case (number s t)
  then show ?case
    using sequences_ok_batches [OF more_fields(5) [OF numbering_more]] by blast
qed (blast dest: goesD [OF submitSyncBatch_batches] goesD [OF openConflict_batches]
    goesD [OF resolveConflict_batches] goesD [OF resolveWithPort_batches] same_batches_sequences)+

subsection \<open>All runs\<close>

text \<open>The store as it starts: ranges at most, and nothing else.\<close>

definition sync_init :: "env \<Rightarrow> offline_store \<Rightarrow> bool" where
  "sync_init E s \<longleftrightarrow> numbering_init E s \<and> st_conflicts s = [] \<and> st_batches s = [] \<and> st_itemReceipts s = []"

definition sync_inv :: "env \<Rightarrow> offline_store \<Rightarrow> bool" where
  "sync_inv E s \<longleftrightarrow> numbering_full_inv E s \<and> conflicts_ok E s \<and> sequences_ok s"

definition sync_le :: "offline_store \<Rightarrow> offline_store \<Rightarrow> bool" where
  "sync_le s t \<longleftrightarrow> numbering_le s t \<and> conflicts_kept s t \<and> (\<forall>k. undisturbed k s t)"

interpretation sync_runs: monotone_system "sync_init E" "sync_step E" "sync_inv E" sync_le for E
proof (unfold_locales, goal_cases)
  case (1 s)
  then show ?case
    by (auto simp: sync_init_def sync_inv_def conflicts_ok_def sequences_ok_def batchSequences_def
        numbering_init_def intro: numbering_init_inv)
next
  case (2 s t)
  then show ?case
    using sync_step_numbers sync_step_conflicts sync_step_sequences
    unfolding sync_inv_def conflicts_le_def by blast
next
  case (3 s)
  show ?case
    by (simp add: sync_le_def ud.refl)
next
  case (4 s t u)
  then show ?case
    unfolding sync_le_def by (blast intro: numbering_le_trans conflicts_kept_trans ud.trans)
next
  case (5 s t)
  then show ?case
    using sync_step_numbers sync_step_conflicts sync_step_undisturbed
    unfolding sync_inv_def sync_le_def conflicts_le_def by blast
qed

end
