(* ===== verification/Sync_Demo.thy ===== *)
theory Sync_Demo
  imports Batch_Sequence Offline_Numbering_Props
begin

text \<open>
  A small run of the whole store, at which the properties of synchronisation are applied: a range is seeded,
  a device reserves numbers and submits a batch with a numbered item; the host applies it.
\<close>

definition sync_env :: env where
  "sync_env = demo_env\<lparr>env_sha256 := take 4\<rparr>"

definition demo_hash :: "nat \<Rightarrow> string" where
  "demo_hash n = ''sha256:'' @ pad_dec 64 n"

definition demo_item :: "string \<Rightarrow> string \<Rightarrow> nat \<Rightarrow> int option \<Rightarrow> batch_item" where
  "demo_item i key payload n = \<lparr>bi_queueItemId = i, bi_entityType = ''doc'', bi_localEntityId = ''local-'' @ i,
     bi_idempotencyKey = Some key, bi_payloadHash = demo_hash payload, bi_payloadJson = JNum (int payload),
     bi_createdLocallyAt = demo_now, bi_reservedNumber = n, bi_reservationId = None\<rparr>"

definition demo_input :: "string \<Rightarrow> int option \<Rightarrow> batch_item list \<Rightarrow> batch_input" where
  "demo_input batch q items = \<lparr>ba_orgUnitId = ''ou'', ba_deviceId = ''A'', ba_deviceBatchId = batch,
     ba_agentId = None, ba_batchSequence = q, ba_items = items\<rparr>"

text \<open>The host: its applier names the entity after the item, except for items of type \<open>down\<close>, where it fails.\<close>

definition demo_ports :: sync_ports where
  "demo_ports = \<lparr>
     pt_itemApplier = Some (\<lambda>trx item ctx. if bi_localEntityId item = ''local-down''
       then Inl (DomainError None None ''unavailable'' None)
       else Inr \<lparr>ap_serverEntityId = ''server-'' @ bi_queueItemId item, ap_consumerAttributes = None\<rparr>),
     pt_classifier = None,
     pt_payloadHash = Some (\<lambda>item ctx. case bi_payloadJson item of JNum n \<Rightarrow> Inr (demo_hash (nat n))
       | _ \<Rightarrow> Inl TypeError),
     pt_preApplyDetector = None, pt_concurrencyDetector = None, pt_handoff = None,
     pt_event = Some (\<lambda>trx event. Inr ()), pt_allowedActions = None, pt_legacyIdentity = None,
     pt_initialQueueStatus = None, pt_hasPolicyResolver = False\<rparr>"

definition demo_options :: "string \<Rightarrow> batch_options" where
  "demo_options key = \<lparr>op_transportIdempotencyKey = key, op_method = ''POST'', op_path = ''/sync'',
     op_transportUserId = None, op_requestBody = Some (JNum 1), op_responseHeaders = [], op_agentId = None,
     op_policy = \<lparr>po_concurrencyWindowMinutes = None, po_concurrencyApplication = None\<rparr>,
     op_ports = demo_ports\<rparr>"

definition demo_store :: "numbering_store \<Rightarrow> offline_store" where
  "demo_store ns = numbering_store.extend ns
     (offline_store.fields [] [] [] [] [] [] [] [] [] [] [] [] 0 [] [] [] [])"

definition demo_sync_start :: offline_store where
  "demo_sync_start = demo_store demo_start"

definition demo_sync_reserved :: offline_store where
  "demo_sync_reserved = snd (reserveDurableNumbering sync_env demo_scope (demo_reserve ''A'') demo_now
     demo_until demo_sync_start)"

definition demo_batch1 :: batch_input where
  "demo_batch1 = demo_input ''b1'' (Some 1) [demo_item ''q1'' ''K1'' 7 (Some 1)]"

definition demo_applied :: offline_store where
  "demo_applied = snd (submitDurableSyncBatch sync_env demo_scope demo_batch1 (demo_options ''h1'') demo_now
     demo_sync_reserved)"

definition demo_batch2 :: batch_input where
  "demo_batch2 = demo_input ''b2'' (Some 2) [demo_item ''q2'' ''K1'' 7 (Some 1), demo_item ''q3'' ''K3'' 9 None]"

definition demo_applied2 :: offline_store where
  "demo_applied2 = snd (submitDurableSyncBatch sync_env demo_scope demo_batch2 (demo_options ''h2'') demo_now
     demo_applied)"

text \<open>An E6 batch, a conflict on its item, and its resolution.\<close>

definition demo_e6 :: offline_store where
  "demo_e6 = snd (submitSyncBatch demo_scope (demo_input ''e1'' None [demo_item ''q1'' ''K1'' 7 None]) demo_now
     demo_sync_start)"

definition demo_disputed :: offline_store where
  "demo_disputed = snd (openConflict sync_env demo_scope ''q1'' ''domain'' ''two versions'' demo_now demo_e6)"

definition demo_resolve :: "string \<Rightarrow> resolve_input" where
  "demo_resolve action = \<lparr>ri_resolution = action, ri_description = None, ri_userRef = None\<rparr>"

definition demo_resolved :: offline_store where
  "demo_resolved = snd (resolveConflict demo_scope ''0'' (demo_resolve ''server-wins'') demo_now demo_disputed)"

definition demo_again :: offline_store where
  "demo_again = snd (resolveConflict demo_scope ''0'' (demo_resolve ''device-wins'') demo_now demo_resolved)"

lemma demo_tenant: "tenant_ok (sc_tenantId demo_scope)"
  by code_simp

lemma demo_sync_init: "sync_init sync_env demo_sync_start"
proof -
  have "numbering_init sync_env demo_sync_start"
    using demo_init by (simp add: numbering_init_def scopes_unique_def demo_sync_start_def demo_store_def
        numbering_store.defs sync_env_def past_id_def)
  then show ?thesis
    by (simp add: sync_init_def demo_sync_start_def demo_store_def numbering_store.defs offline_store.defs)
qed

lemma durable_sync_step:
  "tenant_ok (sc_tenantId sc) \<Longrightarrow> sync_step E s (snd (submitDurableSyncBatch E sc input opts now s))"
  by (rule sync_step.durable_batch [OF surjective_pairing])

lemma demo_sync_step1: "sync_step sync_env demo_sync_start demo_sync_reserved"
  unfolding demo_sync_reserved_def
  by (intro sync_step.number reserve_step demo_tenant) code_simp+

lemma demo_sync_step2: "sync_step sync_env demo_sync_reserved demo_applied"
  unfolding demo_applied_def by (intro durable_sync_step demo_tenant)

lemma demo_sync_step3: "sync_step sync_env demo_applied demo_applied2"
  unfolding demo_applied2_def by (intro durable_sync_step demo_tenant)

lemma sync_then: "sync_step E s t \<Longrightarrow> (sync_step E)\<^sup>*\<^sup>* t u \<Longrightarrow> (sync_step E)\<^sup>*\<^sup>* s u"
  by (rule converse_rtranclp_into_rtranclp)

lemma demo_run_applied: "(sync_step sync_env)\<^sup>*\<^sup>* demo_sync_start demo_applied"
  by (rule sync_then [OF demo_sync_step1 sync_then [OF demo_sync_step2 rtranclp.rtrancl_refl]])

lemma demo_run_applied2: "(sync_step sync_env)\<^sup>*\<^sup>* demo_applied demo_applied2"
  using demo_sync_step3 by blast

lemma demo_conflict_steps:
  "sync_step sync_env demo_sync_start demo_e6" "sync_step sync_env demo_e6 demo_disputed"
  "sync_step sync_env demo_disputed demo_resolved" "sync_step sync_env demo_resolved demo_again"
  unfolding demo_e6_def demo_disputed_def demo_resolved_def demo_again_def
  by (rule sync_step.e6_batch [OF surjective_pairing demo_tenant]
      sync_step.open_conflict [OF surjective_pairing demo_tenant]
      sync_step.resolve [OF surjective_pairing demo_tenant])+

lemma demo_run_resolved: "(sync_step sync_env)\<^sup>*\<^sup>* demo_sync_start demo_resolved"
  by (rule sync_then [OF demo_conflict_steps(1) sync_then [OF demo_conflict_steps(2)
        sync_then [OF demo_conflict_steps(3) rtranclp.rtrancl_refl]]])

end
