(* ===== verification/Offline_Sync_Props.thy ===== *)
theory Offline_Sync_Props
  imports Sync_Demo
begin

text \<open>
  The properties of synchronisation: over all runs of the store (\<open>sync_runs\<close>), and of single operations.
\<close>

subsection \<open>Items are applied once\<close>

text \<open>C1. Once the receipt of an item records its application, or the E6 path received an item under its key,
  nothing makes the store call the host's applier for it again: whatever batches, conflict resolutions and
  numbering operations follow, with whatever answers of the ports, the key stays settled and the calls made
  under it are the ones made before.\<close>

theorem applied_item_never_reapplied:
  assumes "settledKey k s" and "(sync_step E)\<^sup>*\<^sup>* s t"
  shows "settledKey k t \<and> applications k t = applications k s"
proof -
  have "undisturbed k s t"
    using assms(2) by (induction rule: rtranclp_induct) (auto intro: ud.refl ud.trans sync_step_undisturbed)
  with assms(1) show ?thesis
    by (simp add: undisturbed_def)
qed

lemma demo_settled: "settledKey ''t1:K1'' demo_applied \<and> length (applications ''t1:K1'' demo_applied) = 1"
  by code_simp

theorem applied_item_never_reapplied_witness:
  "settledKey ''t1:K1'' demo_applied2 \<and> length (applications ''t1:K1'' demo_applied2) = 1"
  using applied_item_never_reapplied [OF _ demo_run_applied2, of "''t1:K1''"] demo_settled by simp

subsection \<open>Numbers of a batch\<close>

text \<open>C3. On the numbering part of the state, a durable batch is a run of the numbering component: whatever
  its items and ports, and also when it throws, it draws identifiers and uses numbers that an open reservation
  of the device covers, and does nothing else to ranges, reservations and consumption.\<close>

theorem durable_batch_refines_numbering:
  "(numbering_step E)\<^sup>*\<^sup>* (numbering_store.truncate s)
     (numbering_store.truncate (snd (submitDurableSyncBatch E sc input opts now s)))"
  using submitDurable_run [of E E sc input opts now s] by (simp add: goes_def)

subsection \<open>Batch sequences\<close>

text \<open>C5. The sequence numbers of a device's batches, in the order the batches arrived, are 1, 2, 3 and so on
  without gap or repetition, in every reachable state.\<close>

theorem batch_sequences_contiguous:
  assumes "sync_init E s" and "(sync_step E)\<^sup>*\<^sup>* s t" and "tenant_ok (sc_tenantId sc)"
  shows "batchSequences sc deviceId t = map int [1..<Suc (length (batchSequences sc deviceId t))]"
  using sync_runs.reachable_inv [OF assms(1,2)] assms(3) by (simp add: sync_inv_def sequences_ok_def)

theorem batch_sequences_contiguous_witness:
  "batchSequences demo_scope ''A'' demo_applied =
     map int [1..<Suc (length (batchSequences demo_scope ''A'' demo_applied))]"
  by (rule batch_sequences_contiguous [OF demo_sync_init demo_run_applied demo_tenant])

lemma sequence_used:
  "list_ex (\<lambda>r. br_batchSequence r = Some m) rs \<longleftrightarrow> m \<in> set (concat (map receiptSequence rs))"
  by (induction rs) (auto simp: receiptSequence_def split: option.split)

lemma int_upto_mem: "m \<in> set (map int [1..<Suc n]) \<longleftrightarrow> 1 \<le> m \<and> m \<le> int n"
proof
  assume "1 \<le> m \<and> m \<le> int n"
  then have "nat m \<in> {1..<Suc n}" and "m = int (nat m)"
    by auto
  then show "m \<in> set (map int [1..<Suc n])"
    unfolding set_map set_upt by blast
qed auto

text \<open>A batch with a sequence other than the next is refused and changes nothing: with 409 when the
  sequence is taken, with 422 when it is not the next one.\<close>

theorem batch_sequence_refused:
  assumes "itemKeysOf E sc input opts (ba_items input) [] [] = Inr keys" and "requirePorts input opts = Inr u"
    and "jget (st_batches s) (batchIdentity sc input) = None" and "ba_batchSequence input = Some m"
    and "batchSequences sc (ba_deviceId input) s = map int [1..<Suc n]" and "m \<noteq> int (Suc n)"
  shows "\<exists>message context. submitDurableSyncBatch E sc input opts now s =
    (Inl (if 1 \<le> m \<and> m \<le> int n then OfflineSyncError OFFLINE_SYNC_BATCH_CONFLICT 409 message False context
          else OfflineSyncError OFFLINE_SYNC_BATCH_SEQUENCE 422 message False context), s)"
proof -
  have "list_ex (\<lambda>r. br_batchSequence r = Some m) (siblingReceipts sc (ba_deviceId input) s)
      \<longleftrightarrow> m \<in> set (batchSequences sc (ba_deviceId input) s)"
    unfolding siblings_sequences by (rule sequence_used)
  also have "\<dots> \<longleftrightarrow> 1 \<le> m \<and> m \<le> int n"
    unfolding assms(5) by (rule int_upto_mem)
  finally have taken: "list_ex (\<lambda>r. br_batchSequence r = Some m) (siblingReceipts sc (ba_deviceId input) s)
      \<longleftrightarrow> 1 \<le> m \<and> m \<le> int n" .
  obtain message ctx where "checkSequence sc input s =
      Inl (if 1 \<le> m \<and> m \<le> int n then OfflineSyncError OFFLINE_SYNC_BATCH_CONFLICT 409 message False ctx
        else OfflineSyncError OFFLINE_SYNC_BATCH_SEQUENCE 422 message False ctx)"
    unfolding checkSequence_def assms(4) option.case Let_def taken expected_next [OF assms(5)]
    using assms(6) by (cases "1 \<le> m \<and> m \<le> int n") auto
  then show ?thesis
    using assms(1-3) by (simp add: submitDurableSyncBatch_def Let_def bindS_def sync_basic)
qed

theorem batch_sequence_refused_witness:
  "\<exists>message context. submitDurableSyncBatch sync_env demo_scope demo_batch2 (demo_options ''h2'') demo_now
     demo_sync_start = (Inl (if 1 \<le> (2 :: int) \<and> 2 \<le> int 0
       then OfflineSyncError OFFLINE_SYNC_BATCH_CONFLICT 409 message False context
       else OfflineSyncError OFFLINE_SYNC_BATCH_SEQUENCE 422 message False context), demo_sync_start)"
proof -
  have "itemKeysOf sync_env demo_scope demo_batch2 (demo_options ''h2'') (ba_items demo_batch2) [] []
      = Inr [(''q2'', ''K1''), (''q3'', ''K3'')]" "requirePorts demo_batch2 (demo_options ''h2'') = Inr ()"
    by code_simp+
  then show ?thesis
    by (rule batch_sequence_refused) code_simp+
qed

lemma jset_same: "jget m k = Some v \<Longrightarrow> jset k v m = m"
  by (induction m) (auto split: if_splits)

lemma runBatch_closed:
  assumes "runBatch E sc input opts now keys rec s = (Inr r, t)"
    and "map_option br_status (bs_receipt r) = Some Batch_closed"
  shows "\<exists>b. jget (st_batches t) (batchIdentity sc input) = Some b \<and> bt_result b = Some r
    \<and> bt_contextHash b = bt_contextHash rec \<and> st_transport t = st_transport s"
proof -
  let ?B = "\<lparr>be_scope = sc, be_input = input, be_options = opts, be_agentId = agentOf sc opts,
    be_now = now, be_identity = batchIdentity sc input, be_initial = bt_initialQueueStatus rec\<rparr>"
  obtain acc u where u: "processItems E ?B keys (ba_items input) no_results s = (Inr acc, u)"
    and r: "r = fst (closeBatch input opts rec acc)"
    and t: "t = u\<lparr>st_batches := jset (batchIdentity sc input) (snd (closeBatch input opts rec acc)) (st_batches u)\<rparr>"
    using assms(1) by (auto simp: runBatch_def Let_def elim!: bindS_InrE)
  have "st_transport u = st_transport s"
    using goesD [OF processItems_batches u] by (simp add: same_batches_def)
  then show ?thesis
    using assms(2) t r by (auto simp: closeBatch_def Let_def split: if_splits)
qed

lemma replay_closed:
  assumes "itemKeysOf E sc input opts (ba_items input) [] [] = Inr keys" and "requirePorts input opts = Inr u"
    and "jget (st_batches t) (batchIdentity sc input) = Some b" and "bt_result b = Some r"
    and "bt_contextHash b = batchContextFingerprint E input (agentOf sc opts)"
    and "jget (st_transport t) (transportCompositeKey E sc opts) =
      Some (batchIdentity sc input, transportFingerprint E opts input)"
  shows "submitDurableSyncBatch E sc input opts now t = (Inr r, t)"
  using assms by (simp add: submitDurableSyncBatch_def Let_def bindS_def sync_basic checkTransport_def
      throwIf_def bindTransport_def jset_same)

lemma stored_result_closed:
  assumes "checkTransport (jget (st_transport s) tk) i fp = Inr u"
  shows "jget (st_transport (bindTransport tk i fp s)) tk = Some (i, fp)"
  by (simp add: bindTransport_def)

lemma submitDurable_closed:
  assumes "submitDurableSyncBatch E sc input opts now s = (Inr r, t)"
    and "map_option br_status (bs_receipt r) = Some Batch_closed"
  obtains keys u b where "itemKeysOf E sc input opts (ba_items input) [] [] = Inr keys"
    "requirePorts input opts = Inr u" "jget (st_batches t) (batchIdentity sc input) = Some b"
    "bt_result b = Some r" "bt_contextHash b = batchContextFingerprint E input (agentOf sc opts)"
    "jget (st_transport t) (transportCompositeKey E sc opts) =
      Some (batchIdentity sc input, transportFingerprint E opts input)"
proof -
  let ?i = "batchIdentity sc input"
  let ?bind = "bindTransport (transportCompositeKey E sc opts) ?i (transportFingerprint E opts input)"
  obtain keys u where keys: "itemKeysOf E sc input opts (ba_items input) [] [] = Inr keys"
    "requirePorts input opts = Inr u"
    using assms(1) by (auto simp: submitDurableSyncBatch_def sync_basic elim!: bindS_InrE)
  show thesis
  proof (cases "jget (st_batches s) ?i")
    case None
    let ?s = "?bind (s\<lparr>st_batches := jset ?i (newBatch E sc input opts now) (st_batches s)\<rparr>)"
    have "runBatch E sc input opts now keys (newBatch E sc input opts now) ?s = (Inr r, t)"
      using assms(1) keys None
      by (auto simp: submitDurableSyncBatch_def Let_def sync_simps bindS_def sync_basic split: sum.splits prod.splits)
    from runBatch_closed [OF this assms(2)] show thesis
      using that keys by (auto simp: newBatch_def bindTransport_def)
  next
    case (Some prior)
    have same: "bt_contextHash prior = batchContextFingerprint E input (agentOf sc opts)"
      and run: "(case bt_result prior of Some result \<Rightarrow> (Inr result, ?bind s)
        | None \<Rightarrow> runBatch E sc input opts now keys prior (?bind s)) = (Inr r, t)"
      using assms(1) keys Some
      by (auto simp: submitDurableSyncBatch_def Let_def sync_basic bindS_def split: if_splits sum.splits option.splits)
    show thesis
    proof (cases "bt_result prior")
      case None
      with run have "runBatch E sc input opts now keys prior (?bind s) = (Inr r, t)"
        by simp
      from runBatch_closed [OF this assms(2)] show thesis
        using that keys same by (auto simp: bindTransport_def)
    next
      case (Some result)
      with run \<open>jget (st_batches s) ?i = Some prior\<close> show thesis
        using that keys same by (auto simp: bindTransport_def)
    qed
  qed
qed

text \<open>C4. A closed batch is answered the same way for ever: submitting it again, with the same transport key
  and at whatever time, returns the same result, and leaves the store as it is.\<close>

theorem closed_batch_replayed:
  assumes "submitDurableSyncBatch E sc input opts now s = (Inr r, t)"
    and "map_option br_status (bs_receipt r) = Some Batch_closed"
  shows "submitDurableSyncBatch E sc input opts later t = (Inr r, t)"
  using assms by (rule submitDurable_closed) (rule replay_closed)

definition demo_first :: "(offline_error + batch_result) \<times> offline_store" where
  "demo_first = submitDurableSyncBatch sync_env demo_scope
     (demo_input ''b1'' None [demo_item ''q1'' ''K1'' 7 None]) (demo_options ''h1'') demo_now demo_sync_start"

lemma demo_first_closed:
  "\<not> isl (fst demo_first) \<and> map_option br_status (bs_receipt (projr (fst demo_first))) = Some Batch_closed"
  by code_simp

theorem closed_batch_replayed_witness:
  "submitDurableSyncBatch sync_env demo_scope (demo_input ''b1'' None [demo_item ''q1'' ''K1'' 7 None])
     (demo_options ''h1'') demo_until (snd demo_first) = demo_first"
proof -
  have "demo_first = (Inr (projr (fst demo_first)), snd demo_first)"
    using demo_first_closed by (simp add: prod_eq_iff)
  then show ?thesis
    using closed_batch_replayed [of sync_env demo_scope "demo_input ''b1'' None [demo_item ''q1'' ''K1'' 7 None]"
        "demo_options ''h1''" demo_now demo_sync_start "projr (fst demo_first)" "snd demo_first" demo_until]
      demo_first_closed by (simp add: demo_first_def [symmetric])
qed

subsection \<open>Integrity\<close>

lemma pushed_rejection:
  "\<exists>q' rc. pushItem q (receiptOf i Q_rejected (Some itemIntegrity) c x) acc = pushItem q' rc acc
     \<and> rc_queueItemId rc = i \<and> rc_status rc = Q_rejected \<and> rc_errorCode rc = Some ''OFFLINE_SYNC_ITEM_INTEGRITY''"
  by (intro exI [of _ q] exI [of _ "receiptOf i Q_rejected (Some itemIntegrity) c x"])
    (simp add: receiptOf_def itemIntegrity_def)

text \<open>C7. An item whose payload does not have the hash it was sent with is rejected as an integrity failure. So is an item
  under a key whose item receipt on record has another payload, provided that its queue identifier is not in use under
  another key and no E6 item is stored under the key; these two cases are handled before the comparison, by the
  rejection of the identifier and by the adoption of the E6 item. No queue item, no receipt, no number, no call of the
  applier or of the event port comes of the rejection; only a conflict and the rejection are recorded. This holds
  also when asking the host for the allowed actions throws.\<close>

theorem tampered_item_rejected:
  assumes "intactItem E B item key = Inr False
      \<or> intactItem E B item key = Inr True
        \<and> \<not> reusedId (jget (st_queueItems s) (tkey (sc_tenantId (be_scope B)) (bi_queueItemId item))) key
        \<and> jget (st_e6Items s) (tkey (sc_tenantId (be_scope B)) key) = None
        \<and> jget (st_itemReceipts s) (tkey (sc_tenantId (be_scope B)) key) = Some p
        \<and> it_hash p \<noteq> bi_payloadHash item"
    and "processItem E B item key acc s = (r, t)"
  shows "only_conflicts s t \<and> (\<forall>acc'. r = Inr acc' \<longrightarrow> (\<exists>q rc. acc' = pushItem q rc acc
    \<and> rc_queueItemId rc = bi_queueItemId item \<and> rc_status rc = Q_rejected
    \<and> rc_errorCode rc = Some ''OFFLINE_SYNC_ITEM_INTEGRITY''))"
  using assms(1)
proof
  assume "intactItem E B item key = Inr False"
  then have run: "rejectHash E B item key acc s = (r, t)"
    using assms(2) by (simp add: processItem_def Let_def bindS_def sync_basic)
  then show ?thesis
    using goesD [OF rejectHash_goes run]
    by (auto simp: rejectHash_def sync_simps pushed_rejection elim!: bindS_InrE)
next
  assume changed: "intactItem E B item key = Inr True
    \<and> \<not> reusedId (jget (st_queueItems s) (tkey (sc_tenantId (be_scope B)) (bi_queueItemId item))) key
    \<and> jget (st_e6Items s) (tkey (sc_tenantId (be_scope B)) key) = None
    \<and> jget (st_itemReceipts s) (tkey (sc_tenantId (be_scope B)) key) = Some p
    \<and> it_hash p \<noteq> bi_payloadHash item"
  then have "\<not> reapplying B item (Some p)" "\<not> answeredBefore B item p"
    by (simp_all add: reapplying_def answeredBefore_def)
  with changed have run: "rejectChanged E B item key p acc s = (r, t)"
    using assms(2) by (simp add: processItem_def processKnown_def Let_def bindS_def sync_basic)
  then show ?thesis
    using goesD [OF rejectChanged_goes run]
    by (auto simp: rejectChanged_def sync_simps pushed_rejection elim!: bindS_InrE)
qed

definition demo_env_of :: "batch_input \<Rightarrow> batch_env" where
  "demo_env_of input = \<lparr>be_scope = demo_scope, be_input = input, be_options = demo_options ''h1'',
     be_agentId = ''u1'', be_now = demo_now, be_identity = ''t1:A:b1'', be_initial = Q_received\<rparr>"

definition demo_tampered :: batch_item where
  "demo_tampered = (demo_item ''q1'' ''K1'' 7 None)\<lparr>bi_payloadJson := JNum 8\<rparr>"

lemma demo_tampered_not_intact:
  "intactItem sync_env (demo_env_of (demo_input ''b1'' None [demo_tampered])) demo_tampered ''K1'' = Inr False"
  by code_simp

theorem tampered_item_rejected_witness:
  "only_conflicts demo_sync_start (snd (processItem sync_env (demo_env_of (demo_input ''b1'' None [demo_tampered]))
     demo_tampered ''K1'' no_results demo_sync_start))"
  using tampered_item_rejected [OF disjI1 [OF demo_tampered_not_intact], where acc = no_results
      and s = demo_sync_start, OF surjective_pairing] by blast

text \<open>C14. A settled item that is sent again unchanged is answered with what is on record: the status, the error,
  the platform context of its receipt, under the identifier it was sent with; the store does not change.\<close>

theorem settled_item_answered:
  assumes "settledKey (tkey (sc_tenantId (be_scope B)) key) s"
    and "jget (st_e6Items s) (tkey (sc_tenantId (be_scope B)) key) = None"
    and "jget (st_itemReceipts s) (tkey (sc_tenantId (be_scope B)) key) = Some p"
    and "intactItem E B item key = Inr True" and "it_hash p = bi_payloadHash item"
    and "\<not> reusedId (jget (st_queueItems s) (tkey (sc_tenantId (be_scope B)) (bi_queueItemId item))) key"
  shows "processItem E B item key acc s =
    (Inr (pushItem ((it_item p)\<lparr>bi_queueItemId := bi_queueItemId item\<rparr>)
      (receiptOf (bi_queueItemId item) (rc_status (it_receipt p)) (rc_errorCode (it_receipt p))
        (nonempty (if bi_queueItemId (it_item p) = bi_queueItemId item then context_list (rc_context (it_receipt p))
          else jset ''originalQueueItemId'' (JStr (bi_queueItemId (it_item p)))
            (context_list (rc_context (it_receipt p)))))
        (rc_stynx (it_receipt p)))
      (if it_batchKey p = be_identity B then acc
       else acc\<lparr>acc_duplicates := Suc (acc_duplicates acc)\<rparr>)), s)"
proof -
  note again = settled_not_applied_again [OF assms(2,3,1)]
  have "processItem E B item key acc s = (Inr (repeatReceipt B item p acc), s)"
    using assms again by (simp add: processItem_def processKnown_def Let_def bindS_def sync_basic)
  moreover have "rc_status (it_receipt p) \<noteq> initialStatusOf B item"
    using assms(1-3) initialStatus_not_applied [of B item] by (auto simp: settledKey_def)
  ultimately show ?thesis
    by (simp add: repeatReceipt_def nonempty_def context_list_def Let_def)
qed

lemma demo_settled_item:
  "jget (st_e6Items demo_applied) ''t1:K1'' = None \<and>
   (case jget (st_itemReceipts demo_applied) ''t1:K1'' of None \<Rightarrow> False
    | Some p \<Rightarrow> it_hash p = demo_hash 7 \<and> rc_status (it_receipt p) = Q_applied
      \<and> jget (st_queueItems demo_applied) ''t1:q2'' = None)"
  by code_simp

lemma demo_repeated_intact:
  "intactItem sync_env (demo_env_of demo_batch2) (demo_item ''q2'' ''K1'' 7 (Some 1)) ''K1'' = Inr True"
  by code_simp

theorem settled_item_answered_witness:
  "\<exists>q rc acc. processItem sync_env (demo_env_of demo_batch2) (demo_item ''q2'' ''K1'' 7 (Some 1)) ''K1'' no_results
     demo_applied = (Inr (pushItem q rc acc), demo_applied) \<and> rc_status rc = Q_applied"
proof -
  obtain p where p: "jget (st_itemReceipts demo_applied) ''t1:K1'' = Some p" "it_hash p = demo_hash 7"
    "rc_status (it_receipt p) = Q_applied" "jget (st_queueItems demo_applied) ''t1:q2'' = None"
    "jget (st_e6Items demo_applied) ''t1:K1'' = None"
    using demo_settled_item by (auto split: option.splits)
  have "tkey (sc_tenantId (be_scope (demo_env_of demo_batch2))) ''K1'' = ''t1:K1''"
    "tkey (sc_tenantId (be_scope (demo_env_of demo_batch2))) (bi_queueItemId (demo_item ''q2'' ''K1'' 7 (Some 1)))
      = ''t1:q2''" "bi_payloadHash (demo_item ''q2'' ''K1'' 7 (Some 1)) = demo_hash 7"
    by (simp_all add: tkey_def demo_env_of_def demo_scope_def demo_item_def)
  then have "\<exists>q c x acc. processItem sync_env (demo_env_of demo_batch2) (demo_item ''q2'' ''K1'' 7 (Some 1)) ''K1''
      no_results demo_applied = (Inr (pushItem q (receiptOf ''q2'' Q_applied c x (rc_stynx (it_receipt p))) acc), demo_applied)"
    using settled_item_answered [of "demo_env_of demo_batch2" "''K1''" demo_applied p sync_env
        "demo_item ''q2'' ''K1'' 7 (Some 1)" no_results] p demo_settled demo_repeated_intact
    by (auto simp: reusedId_def demo_item_def)
  then show ?thesis
    by (fastforce simp: receiptOf_def)
qed

subsection \<open>Failed applications\<close>

lemma applyPrepared_success:
  "applyPrepared E B item portItem key trx again attempts prepared s = (Inr a, t) \<Longrightarrow> ai_errorCode a = None"
  unfolding applyPrepared_def deferItem_def applyThroughPort_def Let_def
  by (auto simp: sync_simps elim!: bindS_InrE split: if_splits option.splits prod.splits)

lemma handleFailure_answer:
  "handleFailure E B item portItem key trx again attempts ctx e s = (Inr a, t)
   \<Longrightarrow> ai_covering a = None \<and> ai_serverEntityId a = None"
  unfolding handleFailure_def Let_def
  by (auto simp: sync_simps elim!: bindS_InrE split: option.splits)

lemma frame_failed:
  assumes "ownedFrame (bindS (liftE prepared) (applyPrepared E B item portItem key trx again attempts)) s = (Inl e, u)"
  shows "same_core s u \<and> st_queueItems u = st_queueItems s \<and> st_itemReceipts u = st_itemReceipts s
    \<and> st_e6Items u = st_e6Items s \<and> st_queueBatches u = st_queueBatches s"
proof -
  obtain v where v: "bindS (liftE prepared) (applyPrepared E B item portItem key trx again attempts) s = (Inl e, v)"
    and u: "u = rollbackTo s v"
    using assms by (auto simp: ownedFrame_def split: prod.splits sum.splits)
  have "goes (applied_by (tkey (sc_tenantId (be_scope B)) key))
      (bindS (liftE prepared) (applyPrepared E B item portItem key trx again attempts)) s"
    by (intro ab.goes_rules applyPrepared_goes)
  then have "same_core s v"
    using goesD v applied_by_core by blast
  then show ?thesis
    using u by (simp add: same_core_def)
qed

text \<open>C8. When the application of an item fails, whatever the detectors, the applier and the event port had
  done by then, its writes are undone: the queue, the receipts, the numbering, the batches are as they were,
  no number counts as used, and what is recorded is the failure and the calls that were made.\<close>

theorem failed_application_undone:
  assumes "attemptItem E B item key previous trx s = (Inr a, t)" and "ai_errorCode a \<noteq> None"
  shows "same_core s t \<and> st_queueItems t = st_queueItems s \<and> st_itemReceipts t = st_itemReceipts s
    \<and> st_e6Items t = st_e6Items s \<and> st_queueBatches t = st_queueBatches s \<and> ai_covering a = None
    \<and> ai_serverEntityId a = None"
proof -
  let ?prepared = "prepareOfflineSyncItem trx (portItemOf B item previous)
    (itemContextOf (be_scope B) (be_input B) (be_agentId B) (be_now B) key) (be_options B)
    (\<lambda>i. i = bi_queueItemId (portItemOf B item previous)
       \<or> jget (st_queueItems s) (tkey (sc_tenantId (be_scope B)) i) \<noteq> None)"
  let ?frame = "ownedFrame (bindS (liftE ?prepared) (applyPrepared E B item (portItemOf B item previous) key trx
    (reapplying B item previous) (attemptsOf previous)))"
  obtain r u where frame: "?frame s = (r, u)"
    by fastforce
  show ?thesis
  proof (cases r)
    case (Inl e)
    then obtain ctx where fail: "handleFailure E B item (portItemOf B item previous) key trx (reapplying B item previous)
        (attemptsOf previous) ctx e u = (Inr a, t)"
      using assms(1) frame by (auto simp: attemptItem_def Let_def split: if_splits)
    show ?thesis
      using frame_failed [OF frame [unfolded Inl]] goesD [OF handleFailure_goes fail] handleFailure_answer [OF fail]
      by (auto simp: only_conflicts_def dest: same_core_trans)
  next
    case (Inr a')
    then have "a' = a"
      using assms(1) frame by (simp add: attemptItem_def Let_def)
    then have "ai_errorCode a = None"
      using frame Inr by (auto simp: ownedFrame_def elim!: bindS_InrE dest: applyPrepared_success
          split: prod.splits sum.splits)
    with assms(2) show ?thesis by simp
  qed
qed

definition demo_failing :: batch_item where
  "demo_failing = demo_item ''down'' ''K5'' 5 None"

definition demo_attempt :: "(offline_error + applied_item) \<times> offline_store" where
  "demo_attempt = attemptItem sync_env (demo_env_of (demo_input ''b1'' None [demo_failing])) demo_failing ''K5'' None
     ''trx'' demo_sync_start"

lemma demo_attempt_failed: "\<not> isl (fst demo_attempt) \<and> ai_errorCode (projr (fst demo_attempt)) = Some ''OFFLINE_SYNC_ITEM_FAILED''"
  by code_simp

theorem failed_application_undone_witness:
  "same_core demo_sync_start (snd demo_attempt) \<and> st_itemReceipts (snd demo_attempt) = st_itemReceipts demo_sync_start"
proof -
  have "demo_attempt = (Inr (projr (fst demo_attempt)), snd demo_attempt)"
    using demo_attempt_failed by (simp add: prod_eq_iff)
  then show ?thesis
    using failed_application_undone [of sync_env "demo_env_of (demo_input ''b1'' None [demo_failing])" demo_failing
        "''K5''" None "''trx''" demo_sync_start "projr (fst demo_attempt)" "snd demo_attempt"]
      demo_attempt_failed by (simp add: demo_attempt_def [symmetric])
qed

subsection \<open>Conflicts\<close>

text \<open>C6. A resolved conflict is final: no later operation reopens it, resolves it again or alters it.\<close>

theorem resolved_conflict_final:
  assumes "sync_init E s" and "(sync_step E)\<^sup>*\<^sup>* s t" and "(sync_step E)\<^sup>*\<^sup>* t u"
    and "jget (st_conflicts t) k = Some c" and "cf_status c = Conflict_resolved"
  shows "jget (st_conflicts u) k = Some c"
proof -
  have "conflicts_kept t u"
    using sync_runs.run_below [OF assms(3) sync_runs.reachable_inv [OF assms(1,2)]] by (simp add: sync_le_def)
  then show ?thesis
    using assms(4,5) by (auto simp: conflicts_kept_def conflict_le_def)
qed

lemma demo_conflict: "map_option cf_status (jget (st_conflicts demo_resolved) ''t1:0'') = Some Conflict_resolved"
  by code_simp

theorem resolved_conflict_final_witness:
  "map_option cf_status (jget (st_conflicts demo_again) ''t1:0'') = Some Conflict_resolved"
  using demo_conflict resolved_conflict_final [OF demo_sync_init demo_run_resolved
      sync_then [OF demo_conflict_steps(4) rtranclp.rtrancl_refl], of "''t1:0''"]
  by auto

subsection \<open>E6 batches\<close>

lemma rollbackTo_same [simp]: "rollbackTo s s = s"
  by (simp add: rollbackTo_def)

lemma submitItem_projections:
  "submitItem sc input now item acc s = (r, t) \<Longrightarrow> rollbackTo s0 t = rollbackTo s0 s"
  by (auto simp: submitItem_def Let_def rollbackTo_def split: option.splits if_splits)

lemma submitItems_projections:
  "submitItems sc input now items acc s = (r, t) \<Longrightarrow> rollbackTo s0 t = rollbackTo s0 s"
proof (induction items arbitrary: acc s)
  case (Cons item rest)
  then show ?case
    by (auto simp: bindS_def split: prod.splits sum.splits dest: submitItem_projections)
qed (simp add: sync_basic)

text \<open>C39. An E6 batch is taken whole or not at all: when one of its items is refused, the store is as it was.\<close>

theorem e6_batch_atomic:
  assumes "submitSyncBatch sc input now s = (Inl e, t)"
  shows "t = s"
  using assms submitItems_projections
  by (auto simp: submitSyncBatch_def mutateTenant_def ownedFrame_def bindS_def sync_basic
      split: prod.splits sum.splits)

definition demo_refused :: "(offline_error + batch_result) \<times> offline_store" where
  "demo_refused = submitSyncBatch demo_scope (demo_input ''e2'' None [demo_item ''q8'' ''K8'' 8 None,
     demo_item ''q1'' ''K9'' 9 None]) demo_now demo_e6"

lemma demo_refused_error: "isl (fst demo_refused)"
  by code_simp

theorem e6_batch_atomic_witness: "snd demo_refused = demo_e6"
proof -
  have "demo_refused = (Inl (projl (fst demo_refused)), snd demo_refused)"
    using demo_refused_error by (simp add: prod_eq_iff)
  then show ?thesis
    using e6_batch_atomic [of demo_scope "demo_input ''e2'' None [demo_item ''q8'' ''K8'' 8 None,
        demo_item ''q1'' ''K9'' 9 None]" demo_now demo_e6 "projl (fst demo_refused)" "snd demo_refused"]
    by (simp add: demo_refused_def [symmetric])
qed

end
