(* ===== verification/Js_Buffer.thy ===== *)
theory Js_Buffer
  imports Js_Json
begin

text \<open>
  What the code uses of \<open>Buffer\<close>: the base64url text of bytes and back, and the text of bytes read as UTF-8.

  \<^item> \<open>base64url_decode\<close> reads up to the first \<open>=\<close>, takes both alphabets and skips every other character; a
    single character left over at the end gives no byte.
  \<^item> \<open>utf8_lossy\<close> is \<open>toString('utf8')\<close>: each maximal ill-formed part becomes U+FFFD.
  \<^item> \<open>utf8_of_units\<close> is the way back from UTF-16 code units to the (generalised) UTF-8 in which the model holds
    its strings.

  Shown: decoding undoes encoding; a well-formed text is read as it is; \<open>utf8_of_units\<close> undoes \<open>utf16_codes\<close> on
  well-formed text, so that the order of code units is total on it.
\<close>

subsection \<open>Base64url\<close>

definition sextet_char :: "nat \<Rightarrow> char" where
  "sextet_char n = char_of (
     if n < 26 then n + 65 else if n < 52 then n + 71 else if n < 62 then n - 4
     else if n = 62 then 45 else 95)"

definition char_sextet :: "char \<Rightarrow> nat option" where
  "char_sextet c = (let n = (of_char c :: nat) in
     if 65 \<le> n \<and> n \<le> 90 then Some (n - 65)
     else if 97 \<le> n \<and> n \<le> 122 then Some (n - 71)
     else if 48 \<le> n \<and> n \<le> 57 then Some (n + 4)
     else if n = 45 \<or> n = 43 then Some 62
     else if n = 95 \<or> n = 47 then Some 63
     else None)"

fun base64_sextets :: "nat list \<Rightarrow> nat list" where
  "base64_sextets (a # b # c # r) =
     (a div 4) # ((a mod 4) * 16 + b div 16) # ((b mod 16) * 4 + c div 64) # (c mod 64) # base64_sextets r"
| "base64_sextets [a, b] = [a div 4, (a mod 4) * 16 + b div 16, (b mod 16) * 4]"
| "base64_sextets [a] = [a div 4, (a mod 4) * 16]"
| "base64_sextets [] = []"

fun base64_bytes :: "nat list \<Rightarrow> nat list" where
  "base64_bytes (p # q # r # s # t) =
     (p * 4 + q div 16) # ((q mod 16) * 16 + r div 4) # ((r mod 4) * 64 + s) # base64_bytes t"
| "base64_bytes [p, q, r] = [p * 4 + q div 16, (q mod 16) * 16 + r div 4]"
| "base64_bytes [p, q] = [p * 4 + q div 16]"
| "base64_bytes [p] = []"
| "base64_bytes [] = []"

definition base64url_encode :: "nat list \<Rightarrow> string" where
  "base64url_encode bs = map sextet_char (base64_sextets bs)"

definition base64url_decode :: "string \<Rightarrow> nat list" where
  "base64url_decode t = base64_bytes (List.map_filter char_sextet (takeWhile (\<lambda>c. c \<noteq> CHR ''='') t))"

lemma char_sextet_char: "n < 64 \<Longrightarrow> char_sextet (sextet_char n) = Some n \<and> sextet_char n \<noteq> CHR ''=''"
proof -
  assume "n < 64"
  then consider "n < 26" | "26 \<le> n" "n < 52" | "52 \<le> n" "n < 62" | "n = 62" | "n = 63"
    by linarith
  then have "char_sextet (sextet_char n) = Some n"
    by cases (auto simp: char_sextet_def sextet_char_def Let_def)
  moreover have "char_sextet (CHR ''='') = None"
    by (simp add: char_sextet_def)
  ultimately show ?thesis by auto
qed

lemma sextets_bound: "\<forall>a \<in> set as. a < 256 \<Longrightarrow> \<forall>n \<in> set (base64_sextets as). n < 64"
  by (induction as rule: base64_sextets.induct) auto

lemma base64_bytes_sextets: "\<forall>a \<in> set as. a < 256 \<Longrightarrow> base64_bytes (base64_sextets as) = as"
proof (induction as rule: base64_sextets.induct)
  case (1 a b c r)
  have "a div 4 * 4 + (a mod 4 * 16 + b div 16) div 16 = a"
    "(a mod 4 * 16 + b div 16) mod 16 * 16 + (b mod 16 * 4 + c div 64) div 4 = b"
    "(b mod 16 * 4 + c div 64) mod 4 * 64 + c mod 64 = c"
    using 1(2) by auto
  with 1 show ?case by simp
qed auto

lemma base64url_roundtrip:
  assumes "\<forall>a \<in> set bs. a < 256"
  shows "base64url_decode (base64url_encode bs) = bs"
proof -
  have chars: "List.map_filter char_sextet (map sextet_char ns) = ns
      \<and> takeWhile (\<lambda>c. c \<noteq> CHR ''='') (map sextet_char ns) = map sextet_char ns" if "\<forall>n \<in> set ns. n < 64" for ns
    using that by (induction ns) (auto simp: map_filter_simps char_sextet_char)
  show ?thesis
    using chars [OF sextets_bound [OF assms]] base64_bytes_sextets [OF assms]
    by (simp only: base64url_decode_def base64url_encode_def)
qed

subsection \<open>UTF-8\<close>

definition utf8_cont :: "nat \<Rightarrow> bool" where
  "utf8_cont b \<longleftrightarrow> 128 \<le> b \<and> b \<le> 191"

definition utf8_second :: "nat \<Rightarrow> nat \<Rightarrow> bool" where
  "utf8_second a b \<longleftrightarrow> utf8_cont b \<and> (a = 224 \<longrightarrow> 160 \<le> b) \<and> (a = 237 \<longrightarrow> b \<le> 159)
     \<and> (a = 240 \<longrightarrow> 144 \<le> b) \<and> (a = 244 \<longrightarrow> b \<le> 143)"

definition utf8_width :: "nat \<Rightarrow> nat" where
  "utf8_width a = (if a < 128 then 1 else if 194 \<le> a \<and> a \<le> 223 then 2
     else if 224 \<le> a \<and> a \<le> 239 then 3 else if 240 \<le> a \<and> a \<le> 244 then 4 else 0)"

text \<open>The length of the first sequence of a text and whether it is well-formed.\<close>

definition utf8_head :: "nat \<Rightarrow> nat list \<Rightarrow> nat \<times> bool" where
  "utf8_head a r = (let w = utf8_width a in
     if w = 0 then (1, False) else if w = 1 then (1, True)
     else case r of
       [] \<Rightarrow> (1, False)
     | b # r' \<Rightarrow> if \<not> utf8_second a b then (1, False) else if w = 2 then (2, True)
        else (case r' of
           [] \<Rightarrow> (2, False)
         | c # r'' \<Rightarrow> if \<not> utf8_cont c then (2, False) else if w = 3 then (3, True)
            else (case r'' of [] \<Rightarrow> (3, False) | d # _ \<Rightarrow> if utf8_cont d then (4, True) else (3, False))))"

lemma utf8_head_pos: "0 < fst (utf8_head a r)"
  by (simp add: utf8_head_def Let_def split: list.split)

lemma utf8_shorter: "utf8_head a r = (n, ok) \<Longrightarrow> length (drop n (a # r)) < Suc (length r)"
  using utf8_head_pos [of a r] by simp

function utf8_lossy :: "nat list \<Rightarrow> nat list" where
  "utf8_lossy [] = []"
| "utf8_lossy (a # r) = (case utf8_head a r of
     (n, ok) \<Rightarrow> (if ok then take n (a # r) else [239, 191, 189]) @ utf8_lossy (drop n (a # r)))"
  by pat_completeness auto
termination
  by (relation "measure length") (auto dest: utf8_shorter [OF sym])

text \<open>Well-formed UTF-8, by its sequences.\<close>

inductive utf8_ok :: "nat list \<Rightarrow> bool" where
  utf8_Nil: "utf8_ok []"
| utf8_one: "a < 128 \<Longrightarrow> utf8_ok r \<Longrightarrow> utf8_ok (a # r)"
| utf8_two: "utf8_width a = 2 \<Longrightarrow> utf8_second a b \<Longrightarrow> utf8_ok r \<Longrightarrow> utf8_ok (a # b # r)"
| utf8_three: "utf8_width a = 3 \<Longrightarrow> utf8_second a b \<Longrightarrow> utf8_cont c \<Longrightarrow> utf8_ok r \<Longrightarrow> utf8_ok (a # b # c # r)"
| utf8_four: "utf8_width a = 4 \<Longrightarrow> utf8_second a b \<Longrightarrow> utf8_cont c \<Longrightarrow> utf8_cont d \<Longrightarrow> utf8_ok r
    \<Longrightarrow> utf8_ok (a # b # c # d # r)"

code_pred utf8_ok .

lemma utf8_ascii: "\<forall>a \<in> set as. a < 128 \<Longrightarrow> utf8_ok as"
  by (induction as) (auto intro: utf8_ok.intros)

lemma utf8_append: "utf8_ok as \<Longrightarrow> utf8_ok bs \<Longrightarrow> utf8_ok (as @ bs)"
  by (induction rule: utf8_ok.induct) (auto intro: utf8_ok.intros)

lemma utf8_lossy_id: "utf8_ok s \<Longrightarrow> utf8_lossy s = s"
  by (induction rule: utf8_ok.induct) (simp_all add: utf8_head_def, simp add: utf8_width_def)

lemma utf8_bytes: "utf8_ok s \<Longrightarrow> \<forall>a \<in> set s. a < 256"
  by (induction rule: utf8_ok.induct)
    (auto simp: utf8_cont_def utf8_second_def utf8_width_def split: if_splits)

subsection \<open>UTF-16\<close>

lemma utf16_one: "a < 192 \<Longrightarrow> utf16_codes (a # r) = a # utf16_codes r"
  by (cases r; cases "tl r"; cases "tl (tl r)") auto

lemma utf16_two:
  "192 \<le> a \<Longrightarrow> a < 224 \<Longrightarrow> utf16_codes (a # b # r) = ((a mod 32) * 64 + b mod 64) # utf16_codes r"
  by (cases r; cases "tl r") auto

lemma utf16_three: "224 \<le> a \<Longrightarrow> a < 240 \<Longrightarrow>
    utf16_codes (a # b # c # r) = ((a mod 16) * 4096 + (b mod 64) * 64 + c mod 64) # utf16_codes r"
  by (cases r) auto

definition unit_bytes :: "nat \<Rightarrow> nat list" where
  "unit_bytes u = (if u < 128 then [u] else if u < 2048 then [192 + u div 64, 128 + u mod 64]
     else [224 + u div 4096, 128 + u div 64 mod 64, 128 + u mod 64])"

definition pair_bytes :: "nat \<Rightarrow> nat \<Rightarrow> nat list" where
  "pair_bytes u v = (let p = 65536 + (u - 55296) * 1024 + (v - 56320) in
     [240 + p div 262144, 128 + p div 4096 mod 64, 128 + p div 64 mod 64, 128 + p mod 64])"

definition high_surrogate :: "nat \<Rightarrow> bool" where
  "high_surrogate u \<longleftrightarrow> 55296 \<le> u \<and> u \<le> 56319"

definition low_surrogate :: "nat \<Rightarrow> bool" where
  "low_surrogate u \<longleftrightarrow> 56320 \<le> u \<and> u \<le> 57343"

fun utf8_of_units :: "nat list \<Rightarrow> nat list" where
  "utf8_of_units (u # v # r) =
     (if high_surrogate u \<and> low_surrogate v then pair_bytes u v @ utf8_of_units r
      else unit_bytes u @ utf8_of_units (v # r))"
| "utf8_of_units [u] = unit_bytes u"
| "utf8_of_units [] = []"

lemma units_one: "\<not> high_surrogate u \<Longrightarrow> utf8_of_units (u # r) = unit_bytes u @ utf8_of_units r"
  by (cases r) auto

text \<open>The digits of a number to the base 64.\<close>

lemma digit64:
  assumes "(z :: nat) < 64"
  shows "(k * 64 + z) div 64 = k" "(k * 64 + z) mod 64 = z"
  using assms by simp_all

lemma byte_digits:
  fixes x :: nat
  shows "x < 64 \<Longrightarrow> (128 + x) mod 64 = x" "x < 32 \<Longrightarrow> (192 + x) mod 32 = x"
    "x < 16 \<Longrightarrow> (224 + x) mod 16 = x" "x < 8 \<Longrightarrow> (240 + x) mod 8 = x"
  using mod_mult_self3 [of 2 64 x] mod_mult_self3 [of 6 32 x] mod_mult_self3 [of 14 16 x] mod_mult_self3 [of 30 8 x]
  by simp_all

lemma utf8_second_cont: "utf8_second a b \<Longrightarrow> utf8_cont b"
  by (simp add: utf8_second_def)

lemma cont_digit: "utf8_cont b \<Longrightarrow> \<exists>y < 64. b = 128 + y"
  by (rule exI [of _ "b - 128"]) (auto simp: utf8_cont_def)

lemma two_bytes:
  assumes "utf8_width a = 2" "utf8_cont b"
  shows "unit_bytes ((a mod 32) * 64 + b mod 64) = [a, b] \<and> \<not> high_surrogate ((a mod 32) * 64 + b mod 64)"
proof -
  obtain y where y: "b = 128 + y" "y < 64"
    using cont_digit [OF assms(2)] by auto
  obtain x where x: "a = 192 + x" "2 \<le> x" "x < 32"
    using assms(1) le_Suc_ex [of 192 a] by (auto simp: utf8_width_def split: if_splits)
  have "(a mod 32) * 64 + b mod 64 = x * 64 + y" "128 \<le> x * 64 + y" "x * 64 + y < 2048"
    using x y by (auto simp: byte_digits)
  then show ?thesis
    using x y by (simp add: unit_bytes_def high_surrogate_def)
qed

lemma three_bytes:
  assumes "utf8_width a = 3" "utf8_second a b" "utf8_cont c"
  shows "unit_bytes ((a mod 16) * 4096 + (b mod 64) * 64 + c mod 64) = [a, b, c]
    \<and> \<not> high_surrogate ((a mod 16) * 4096 + (b mod 64) * 64 + c mod 64)"
proof -
  obtain y z where yz: "b = 128 + y" "y < 64" "c = 128 + z" "z < 64"
    using cont_digit [OF assms(3)] cont_digit [OF utf8_second_cont [OF assms(2)]] by auto
  obtain x where x: "a = 224 + x" "x < 16"
    using assms(1) le_Suc_ex [of 224 a] by (auto simp: utf8_width_def split: if_splits)
  have r: "x = 0 \<Longrightarrow> 32 \<le> y" "x = 13 \<Longrightarrow> y < 32"
    using assms(2) x yz by (auto simp: utf8_second_def)
  define u where "u = (x * 64 + y) * 64 + z"
  have e: "(a mod 16) * 4096 + (b mod 64) * 64 + c mod 64 = u"
    using x yz by (simp add: byte_digits u_def)
  have "u div 64 = x * 64 + y" "u mod 64 = z"
    unfolding u_def by (rule digit64 [OF yz(4)])+
  moreover from this have "u div 4096 = x"
    using yz(2) div_mult2_eq [of u 64 64] by simp
  moreover have "2048 \<le> u" "\<not> high_surrogate u"
    using r x yz by (cases "x = 0"; cases "x = 13"; auto simp: u_def high_surrogate_def)+
  ultimately show ?thesis
    unfolding e using x(1) yz(1-3) by (simp add: unit_bytes_def)
qed

lemma four_bytes:
  assumes "utf8_width a = 4" "utf8_second a b" "utf8_cont c" "utf8_cont d"
  shows "\<exists>u v. utf16_codes (a # b # c # d # r) = u # v # utf16_codes r \<and> high_surrogate u \<and> low_surrogate v
    \<and> pair_bytes u v = [a, b, c, d]"
proof -
  obtain y z w where yz: "b = 128 + y" "y < 64" "c = 128 + z" "z < 64" "d = 128 + w" "w < 64"
    using cont_digit [OF assms(3)] cont_digit [OF assms(4)] cont_digit [OF utf8_second_cont [OF assms(2)]] by auto
  obtain x where x: "a = 240 + x" "x < 5"
    using assms(1) le_Suc_ex [of 240 a] by (auto simp: utf8_width_def split: if_splits)
  have r: "x = 0 \<Longrightarrow> 16 \<le> y" "x = 4 \<Longrightarrow> y < 16"
    using assms(2) x yz by (auto simp: utf8_second_def)
  define p where "p = ((x * 64 + y) * 64 + z) * 64 + w"
  have e: "(a mod 8) * 262144 + (b mod 64) * 4096 + (c mod 64) * 64 + d mod 64 = p"
    using x yz by (simp add: byte_digits p_def)
  have d1: "p div 64 = (x * 64 + y) * 64 + z" "p mod 64 = w"
    unfolding p_def by (rule digit64 [OF yz(6)])+
  have d2: "p div 4096 = x * 64 + y" "p div 64 mod 64 = z"
    using digit64 [OF yz(4), of "x * 64 + y"] div_mult2_eq [of p 64 64] by (simp_all add: d1)
  have d3: "p div 262144 = x" "p div 4096 mod 64 = y"
    using digit64 [OF yz(2), of x] div_mult2_eq [of p 4096 64] by (simp_all add: d2)
  have b: "65536 \<le> p" "p < 1114112"
    using r x yz by (cases "x = 0"; cases "x = 4"; auto simp: p_def)+
  let ?u = "55296 + (p - 65536) div 1024" and ?v = "56320 + (p - 65536) mod 1024"
  have "utf16_codes (a # b # c # d # r) = ?u # ?v # utf16_codes r"
    using x e by (simp add: surrogates_def)
  moreover have "high_surrogate ?u" "low_surrogate ?v"
    using b by (auto simp: high_surrogate_def low_surrogate_def)
  moreover have "65536 + (?u - 55296) * 1024 + (?v - 56320) = p"
    using b by simp
  then have "pair_bytes ?u ?v = [a, b, c, d]"
    using x yz d1(2) d2(2) d3 by (simp only: pair_bytes_def Let_def)
  ultimately show ?thesis by blast
qed

lemma utf8_of_utf16:
  "utf8_ok s \<Longrightarrow> utf8_of_units (utf16_codes s) = s"
proof (induction rule: utf8_ok.induct)
  case (utf8_one a r)
  then show ?case
    by (simp add: utf16_one units_one unit_bytes_def high_surrogate_def)
next
  case (utf8_two a b r)
  then have "192 \<le> a" "a < 224"
    by (auto simp: utf8_width_def split: if_splits)
  then show ?case
    using two_bytes [OF utf8_two(1) utf8_second_cont [OF utf8_two(2)]] utf8_two(4) by (simp add: utf16_two units_one)
next
  case (utf8_three a b c r)
  then have "224 \<le> a" "a < 240"
    by (auto simp: utf8_width_def split: if_splits)
  then show ?case
    using three_bytes [OF utf8_three(1-3)] utf8_three(5) by (simp add: utf16_three units_one)
next
  case (utf8_four a b c d r)
  then show ?case
    using four_bytes [OF utf8_four(1-4), of r] by auto
qed simp

lemma utf16_units_inject:
  assumes "utf8_ok (map of_char a)" and "utf8_ok (map of_char b)" and "utf16_units a = utf16_units b"
  shows "a = b"
proof -
  have "map of_char a = (map of_char b :: nat list)"
    using assms utf8_of_utf16 by (metis utf16_units_def)
  then show ?thesis
    by (metis inj_map_eq_map inj_of_char)
qed

end
