(* ===== verification/Instant_Order.thy ===== *)
theory Instant_Order
  imports Iso_Time Js_Buffer
begin

text \<open>
  The text of an instant orders as the instant does: for dates of the years 0 to 9999 the order of code units on
  \<open>toISOString\<close> texts is the order of time. Listings rest on it, since they sort and cut by the texts.
\<close>

subsection \<open>Lexicographic order of fixed-width fields\<close>

lemma append_less:
  fixes a c :: "nat list"
  assumes "length a = length c"
  shows "a @ b < c @ d \<longleftrightarrow> a < c \<or> a = c \<and> b < d"
  using assms by (induction a c rule: list_induct2) auto

lemma digit_val_less: "is_digit c \<Longrightarrow> digit_val c < 10"
  by (auto simp: is_digit_def digit_val_def)

lemma digit_val_inject: "is_digit c \<Longrightarrow> is_digit d \<Longrightarrow> digit_val c = digit_val d \<longleftrightarrow> (of_char c :: nat) = of_char d"
  "is_digit c \<Longrightarrow> is_digit d \<Longrightarrow> digit_val c < digit_val d \<longleftrightarrow> (of_char c :: nat) < of_char d"
  by (auto simp: is_digit_def digit_val_def eq_diff_iff)

lemma radix_less:
  fixes a b a' b' k :: nat
  assumes "b < k" "b' < k"
  shows "k * a + b < k * a' + b' \<longleftrightarrow> a < a' \<or> a = a' \<and> b < b'"
proof -
  have "k * a + b < k * a' + b'" if "a < a'"
  proof -
    have "k * a + k \<le> k * a'"
      using that by (metis Suc_leI add.commute mult_Suc_right mult_le_mono2)
    with assms(1) show ?thesis by simp
  qed
  moreover have "k * a' + b' < k * a + b" if "a' < a"
  proof -
    have "k * a' + k \<le> k * a"
      using that by (metis Suc_leI add.commute mult_Suc_right mult_le_mono2)
    with assms(2) show ?thesis by simp
  qed
  ultimately show ?thesis
    by (metis add_less_cancel_left less_irrefl less_not_sym linorder_neqE_nat)
qed

lemma digits_order:
  assumes "length a = length b" "\<forall>c \<in> set a \<union> set b. is_digit c"
  shows "(map of_char a < (map of_char b :: nat list) \<longleftrightarrow> digits_val a < digits_val b)
    \<and> (a = b \<longleftrightarrow> digits_val a = digits_val b)"
  using assms
proof (induction a arbitrary: b rule: rev_induct)
  case (snoc c a)
  then obtain d b' where b: "b = b' @ [d]" "length a = length b'"
    by (metis append_butlast_last_id butlast_snoc length_0_conv length_append_singleton length_butlast
        nat.distinct(1))
  have ih: "(map of_char a < (map of_char b' :: nat list) \<longleftrightarrow> digits_val a < digits_val b')
      \<and> (a = b' \<longleftrightarrow> digits_val a = digits_val b')"
    using snoc b by simp
  have d: "is_digit c" "is_digit d"
    using snoc.prems b by simp_all
  note r = radix_less [OF digit_val_less [OF d(1)] digit_val_less [OF d(2)], of "digits_val a" "digits_val b'"]
    radix_less [OF digit_val_less [OF d(2)] digit_val_less [OF d(1)], of "digits_val b'" "digits_val a"]
  have "map of_char (a @ [c]) < (map of_char (b' @ [d]) :: nat list)
      \<longleftrightarrow> map of_char a < (map of_char b' :: nat list) \<or> a = b' \<and> of_char c < (of_char d :: nat)"
    using b(2) by (simp add: append_less inj_map_eq_map [OF inj_of_char])
  moreover have "a @ [c] = b' @ [d] \<longleftrightarrow> a = b' \<and> digit_val c = digit_val d"
    using d by (simp add: digit_val_inject)
  ultimately show ?case
    using ih r d unfolding b(1) digits_val_snoc
    by (metis digit_val_inject(2) less_irrefl linorder_neqE_nat)
qed simp

lemma pad_order:
  assumes "m < 10 ^ w" "n < 10 ^ w" "0 < w"
  shows "map of_char (pad_dec w m) @ r < map of_char (pad_dec w n) @ (r' :: nat list) \<longleftrightarrow> m < n \<or> m = n \<and> r < r'"
proof -
  have len: "length (pad_dec w m) = length (pad_dec w n)"
    using assms by (simp add: length_pad_dec)
  have "\<forall>c \<in> set (pad_dec w m) \<union> set (pad_dec w n). is_digit c"
    using pad_dec_digits by blast
  note o = digits_order [OF len this]
  then show ?thesis
    using len by (simp add: append_less inj_map_eq_map [OF inj_of_char])
qed


subsection \<open>Fields of an instant\<close>

definition iso_fields_of :: "int \<Rightarrow> nat list" where
  "iso_fields_of t = (case civil_of_day (t div ms_per_day) of (y, m, d) \<Rightarrow> let r = t mod ms_per_day in
     [nat y, nat (m + 1), nat d, nat (r div 3600000), nat (r div 60000 mod 60), nat (r div 1000 mod 60),
      nat (r mod 1000)])"

lemma pair_radix_less:
  fixes a b a' b' k :: int
  assumes "a * k + b < a' * k + b'" "0 \<le> b'" "b' < k" "0 \<le> b"
  shows "a < a' \<or> a = a' \<and> b < b'"
proof (rule ccontr)
  assume "\<not> ?thesis"
  then consider "a' < a" | "a = a'" "b' \<le> b" by linarith
  then show False
  proof cases
    case 1
    then have "(a' + 1) * k \<le> a * k"
      using assms by (intro mult_right_mono) auto
    with assms show False by (simp add: algebra_simps)
  qed (use assms in simp)
qed

lemma radix_equal:
  fixes a b a' b' k :: int
  assumes "a * k + b = a' * k + b'" "0 \<le> b" "b < k" "0 \<le> b'" "b' < k"
  shows "a = a' \<and> b = b'"
proof -
  have "(a * k + b) div k = a" "(a' * k + b') div k = a'"
    using assms(2-) by simp_all
  with assms(1) show ?thesis by simp
qed

lemma clock_fields_less:
  fixes r r' :: int
  assumes "0 \<le> r" "r < r'" "r' < ms_per_day"
  shows "[nat (r div 3600000), nat (r div 60000 mod 60), nat (r div 1000 mod 60), nat (r mod 1000)]
    < [nat (r' div 3600000), nat (r' div 60000 mod 60), nat (r' div 1000 mod 60), nat (r' mod 1000)]"
proof -
  define h m s l where "h = r div 3600000" "m = r div 60000 mod 60" "s = r div 1000 mod 60" "l = r mod 1000"
  define h' m' s' l' where "h' = r' div 3600000" "m' = r' div 60000 mod 60" "s' = r' div 1000 mod 60" "l' = r' mod 1000"
  note defs = h_m_s_l_def h'_m'_s'_l'_def
  have pos: "0 \<le> r'"
    using assms by simp
  then have "0 \<le> h" "0 \<le> h'"
    unfolding defs using assms(1) by (simp_all only: pos_imp_zdiv_nonneg_iff zero_less_numeral)
  moreover have "0 \<le> m" "0 \<le> s" "0 \<le> l" "0 \<le> m'" "0 \<le> s'" "0 \<le> l'"
    "m < 60" "s < 60" "l < 1000" "m' < 60" "s' < 60" "l' < 1000"
    unfolding defs by (rule pos_mod_sign pos_mod_bound, simp)+
  ultimately have b: "0 \<le> h" "0 \<le> h'" "0 \<le> m" "0 \<le> s" "0 \<le> l" "0 \<le> m'" "0 \<le> s'" "0 \<le> l'"
    "m < 60" "s < 60" "l < 1000" "m' < 60" "s' < 60" "l' < 1000"
    by blast+
  have "((h * 60 + m) * 60 + s) * 1000 + l < ((h' * 60 + m') * 60 + s') * 1000 + l'"
    unfolding defs clock_parts(1) [OF assms(1) order.strict_trans [OF assms(2,3)]] clock_parts(1) [OF pos assms(3)]
    by (rule assms(2))
  then consider "(h * 60 + m) * 60 + s < (h' * 60 + m') * 60 + s'"
    | "(h * 60 + m) * 60 + s = (h' * 60 + m') * 60 + s'" "l < l'"
    using pair_radix_less b by meson
  then have "h < h' \<or> h = h' \<and> (m < m' \<or> m = m' \<and> (s < s' \<or> s = s' \<and> l < l'))"
  proof cases
    case 1
    then have "h * 60 + m < h' * 60 + m' \<or> h * 60 + m = h' * 60 + m' \<and> s < s'"
      using pair_radix_less b by meson
    then show ?thesis
      using pair_radix_less [of h 60 m h' m'] b by auto
  next
    case 2
    then have "s = s'" "h * 60 + m = h' * 60 + m'"
      using radix_equal [of "h * 60 + m" 60 s "h' * 60 + m'" s'] b by simp_all
    then have "h = h'" "m = m'" "s = s'"
      using radix_equal [of h 60 m h' m'] b by simp_all
    with 2(2) show ?thesis by simp
  qed
  then show ?thesis
    unfolding defs [symmetric] using b by auto
qed

lemma civil_fields_less:
  assumes "civil_of_day n = (y, m, d)" "civil_of_day n' = (y', m', d')" "n < n'"
  shows "y < y' \<or> y = y' \<and> (m < m' \<or> m = m' \<and> d < d')"
proof -
  have y: "y = year_from_day n" "y' = year_from_day n'"
    using assms(1,2) by (auto simp: civil_of_day_def Let_def)
  have v: "valid_civil y m d" "make_day y m d = n" "valid_civil y' m' d'" "make_day y' m' d' = n'"
    using make_day_of_civil assms(1,2) by blast+
  have "\<not> y' < y"
    using year_from_day [of n] year_from_day [of n'] assms(3) day_from_year_mono [of "y' + 1" y]
    unfolding y [symmetric] by (cases "y' + 1 = y") auto
  moreover have "m < m' \<or> m = m' \<and> d < d'" if "y = y'"
  proof -
    let ?b = "days_before_month (leap_year y)"
    have less: "?b m + d < ?b m' + d'"
      using v(2,4) assms(3) that by (simp add: make_day_def)
    have mono: "?b i \<le> ?b j" if "i \<le> j" "0 \<le> i" "j \<le> 12" for i j
      using that month_cases [of i] by (cases "leap_year y") (auto simp: days_before_month_def)
    have "\<not> m' < m"
      using less mono [of "m' + 1" m] v(1,3) that by (auto simp: valid_civil_def days_in_month_def)
    then show ?thesis
      using less by (cases "m = m'") auto
  qed
  ultimately show ?thesis by linarith
qed


lemma iso_fields_less:
  assumes "t < t'" "fst (civil_of_day (t div ms_per_day)) \<ge> 0"
  shows "iso_fields_of t < iso_fields_of t'"
proof -
  obtain y m d y' m' d' where c: "civil_of_day (t div ms_per_day) = (y, m, d)"
    "civil_of_day (t' div ms_per_day) = (y', m', d')"
    by (metis prod_cases3)
  have v: "0 \<le> m" "1 \<le> d" "0 \<le> m'" "1 \<le> d'" "0 \<le> y"
    using make_day_of_civil(1) [OF c(1)] make_day_of_civil(1) [OF c(2)] assms(2) c(1)
    by (auto simp: valid_civil_def)
  have r: "0 \<le> t mod ms_per_day" "t' mod ms_per_day < ms_per_day"
    by (simp_all add: ms_per_day_def)
  have pos: "0 < ms_per_day"
    by (simp add: ms_per_day_def)
  have le: "t div ms_per_day \<le> t' div ms_per_day"
    using assms(1) zdiv_mono1 [OF less_imp_le pos] by blast
  show ?thesis
  proof (cases "t div ms_per_day = t' div ms_per_day")
    case True
    then have "t mod ms_per_day < t' mod ms_per_day"
      using assms(1) by (metis div_mult_mod_eq add_less_cancel_left)
    then show ?thesis
      using clock_fields_less [OF r(1) _ r(2)] c True by (simp only: iso_fields_of_def Let_def prod.case) simp
  next
    case False
    then have "y < y' \<or> y = y' \<and> (m < m' \<or> m = m' \<and> d < d')"
      using civil_fields_less [OF c] le by simp
    then have "[nat y, nat (m + 1), nat d] < [nat y', nat (m' + 1), nat d']"
      using v by auto
    then show ?thesis
      unfolding iso_fields_of_def c prod.case Let_def Cons_less_Cons by blast
  qed
qed

definition common_year :: "int \<Rightarrow> bool" where
  "common_year t \<longleftrightarrow> date_in_range t \<and> 0 \<le> fst (civil_of_day (t div ms_per_day))
     \<and> fst (civil_of_day (t div ms_per_day)) \<le> 9999"

lemma iso_text_fields:
  assumes "common_year t"
  shows "\<exists>Y Mo D h mi se ms. iso_fields_of t = [Y, Mo, D, h, mi, se, ms] \<and>
    toISOString t = pad_dec 4 Y @ ''-'' @ pad_dec 2 Mo @ ''-'' @ pad_dec 2 D @ ''T'' @ pad_dec 2 h @ '':'' @
      pad_dec 2 mi @ '':'' @ pad_dec 2 se @ ''.'' @ pad_dec 3 ms @ ''Z'' \<and>
    Y < 10 ^ 4 \<and> Mo < 10 ^ 2 \<and> D < 10 ^ 2 \<and> h < 10 ^ 2 \<and> mi < 10 ^ 2 \<and> se < 10 ^ 2 \<and> ms < 10 ^ 3"
proof -
  obtain y m d where c: "civil_of_day (t div ms_per_day) = (y, m, d)"
    by (metis prod_cases3)
  define r where "r = t mod ms_per_day"
  have r: "0 \<le> r" "r < ms_per_day"
    by (simp_all add: r_def ms_per_day_def)
  have civil: "0 \<le> m" "m \<le> 11" "d \<le> 31" "0 \<le> y" "y \<le> 9999"
    using make_day_of_civil [OF c] days_in_month_le [of m y] assms c by (auto simp: valid_civil_def common_year_def)
  define h mi se ms where "h = nat (r div 3600000)" "mi = nat (r div 60000 mod 60)"
    "se = nat (r div 1000 mod 60)" "ms = nat (r mod 1000)"
  have fields: "iso_fields_of t = [nat y, nat (m + 1), nat d, h, mi, se, ms]"
    unfolding iso_fields_of_def c prod.case Let_def h_mi_se_ms_def r_def by (rule refl)
  have "year_text y = pad_dec 4 (nat y)"
    using civil by (simp add: year_text_def)
  then have iso: "toISOString t = pad_dec 4 (nat y) @ ''-'' @ pad_dec 2 (nat (m + 1)) @ ''-'' @ pad_dec 2 (nat d) @ ''T'' @
      pad_dec 2 h @ '':'' @ pad_dec 2 mi @ '':'' @ pad_dec 2 se @ ''.'' @ pad_dec 3 ms @ ''Z''"
    unfolding toISOString_def c prod.case Let_def h_mi_se_ms_def r_def by (simp only: )
  have "h < 24" "mi < 60" "se < 60" "ms < 1000"
    unfolding h_mi_se_ms_def by (rule nat_less_numeral clock_parts(2) [OF r] pos_mod_bound zero_less_numeral)+
  moreover have "nat y < 10000" "nat (m + 1) < 100" "nat d < 100"
    using civil by simp_all
  ultimately have "nat y < 10 ^ 4 \<and> nat (m + 1) < 10 ^ 2 \<and> nat d < 10 ^ 2 \<and> h < 10 ^ 2 \<and> mi < 10 ^ 2
      \<and> se < 10 ^ 2 \<and> ms < 10 ^ 3"
    by simp
  with fields iso show ?thesis by blast
qed

lemma iso_text_order:
  assumes "common_year t" "common_year t'" "t < t'"
  shows "map of_char (toISOString t) < (map of_char (toISOString t') :: nat list)"
proof -
  obtain Y Mo D h mi se ms where f: "iso_fields_of t = [Y, Mo, D, h, mi, se, ms]"
    "toISOString t = pad_dec 4 Y @ ''-'' @ pad_dec 2 Mo @ ''-'' @ pad_dec 2 D @ ''T'' @ pad_dec 2 h @ '':'' @
      pad_dec 2 mi @ '':'' @ pad_dec 2 se @ ''.'' @ pad_dec 3 ms @ ''Z''"
    "Y < 10 ^ 4" "Mo < 10 ^ 2" "D < 10 ^ 2" "h < 10 ^ 2" "mi < 10 ^ 2" "se < 10 ^ 2" "ms < 10 ^ 3"
    using iso_text_fields [OF assms(1)] by blast
  obtain Y' Mo' D' h' mi' se' ms' where f': "iso_fields_of t' = [Y', Mo', D', h', mi', se', ms']"
    "toISOString t' = pad_dec 4 Y' @ ''-'' @ pad_dec 2 Mo' @ ''-'' @ pad_dec 2 D' @ ''T'' @ pad_dec 2 h' @ '':'' @
      pad_dec 2 mi' @ '':'' @ pad_dec 2 se' @ ''.'' @ pad_dec 3 ms' @ ''Z''"
    "Y' < 10 ^ 4" "Mo' < 10 ^ 2" "D' < 10 ^ 2" "h' < 10 ^ 2" "mi' < 10 ^ 2" "se' < 10 ^ 2" "ms' < 10 ^ 3"
    using iso_text_fields [OF assms(2)] by blast
  have "iso_fields_of t < iso_fields_of t'"
    using iso_fields_less [OF assms(3)] assms(1) by (simp add: common_year_def)
  then show ?thesis
    unfolding f(1,2) f'(1,2) map_append using f(3-) f'(3-) by (simp add: pad_order)
qed


lemma iso_ascii:
  assumes "common_year t"
  shows "\<forall>a \<in> set (map of_char (toISOString t)). a < (128 :: nat)"
proof -
  obtain Y Mo D h mi se ms where
    "toISOString t = pad_dec 4 Y @ ''-'' @ pad_dec 2 Mo @ ''-'' @ pad_dec 2 D @ ''T'' @ pad_dec 2 h @ '':'' @
      pad_dec 2 mi @ '':'' @ pad_dec 2 se @ ''.'' @ pad_dec 3 ms @ ''Z''"
    using iso_text_fields [OF assms] by blast
  moreover have "of_char c < (128 :: nat)" if "c \<in> set (pad_dec w n)" for c w n
    using that pad_dec_digits [of w n] by (auto simp: is_digit_def)
  ultimately show ?thesis
    by auto
qed

lemma utf16_ascii: "\<forall>a \<in> set as. a < 128 \<Longrightarrow> utf16_codes as = as"
  by (induction as) (simp_all add: utf16_one)

lemma iso_text_js_less:
  assumes "common_year t" "common_year t'"
  shows "js_less (toISOString t) (toISOString t') \<longleftrightarrow> t < t'"
proof -
  have units: "utf16_units (toISOString u) = map of_char (toISOString u)" if "common_year u" for u
    by (simp only: utf16_units_def utf16_ascii [OF iso_ascii [OF that]])
  show ?thesis
    using iso_text_order [OF assms] iso_text_order [OF assms(2,1)]
    by (cases t t' rule: linorder_cases) (simp_all add: js_less_def units assms order.asym)
qed


lemma iso_prefix:
  assumes "common_year t"
  shows "\<exists>x. toISOString t = x @ ''Z'' \<and> length x = 23 \<and> CHR ''Z'' \<notin> set x"
proof -
  obtain Y Mo D h mi se ms where f:
    "toISOString t = pad_dec 4 Y @ ''-'' @ pad_dec 2 Mo @ ''-'' @ pad_dec 2 D @ ''T'' @ pad_dec 2 h @ '':'' @
      pad_dec 2 mi @ '':'' @ pad_dec 2 se @ ''.'' @ pad_dec 3 ms @ ''Z''"
    and b: "Y < 10 ^ 4" "Mo < 10 ^ 2" "D < 10 ^ 2" "h < 10 ^ 2" "mi < 10 ^ 2" "se < 10 ^ 2" "ms < 10 ^ 3"
    using iso_text_fields [OF assms] by blast
  let ?x = "pad_dec 4 Y @ ''-'' @ pad_dec 2 Mo @ ''-'' @ pad_dec 2 D @ ''T'' @ pad_dec 2 h @ '':'' @
      pad_dec 2 mi @ '':'' @ pad_dec 2 se @ ''.'' @ pad_dec 3 ms"
  have "CHR ''Z'' \<notin> set (pad_dec w n)" for w n
    using pad_dec_digits [of w n] by (auto simp: is_digit_def)
  then have "toISOString t = ?x @ ''Z'' \<and> length ?x = 23 \<and> CHR ''Z'' \<notin> set ?x"
    using b by (simp add: f length_pad_dec)
  then show ?thesis by blast
qed

end
