(* ===== verification/Js_Parse.thy ===== *)
theory Js_Parse
  imports Js_Buffer
begin

text \<open>
  \<open>JSON.parse\<close>, as far as the code asks for it: whether a text is an array of strings, and which. The text is
  the bytes of its UTF-8; a string may hold escapes, and the code units of \<open>\uXXXX\<close> escapes join to characters
  (\<open>utf8_of_units\<close>). The functions are total: each step consumes text.

  Shown: parsing undoes \<open>JSON.stringify\<close> on arrays of well-formed strings.
\<close>

subsection \<open>Strings\<close>

definition hex_val :: "nat \<Rightarrow> nat option" where
  "hex_val c = (if 48 \<le> c \<and> c \<le> 57 then Some (c - 48) else if 97 \<le> c \<and> c \<le> 102 then Some (c - 87)
     else if 65 \<le> c \<and> c \<le> 70 then Some (c - 55) else None)"

fun parse_hex4 :: "nat list \<Rightarrow> (nat \<times> nat list) option" where
  "parse_hex4 (a # b # c # d # r) =
     (case (hex_val a, hex_val b, hex_val c, hex_val d) of
        (Some p, Some q, Some s, Some t) \<Rightarrow> Some (p * 4096 + q * 256 + s * 16 + t, r)
      | _ \<Rightarrow> None)"
| "parse_hex4 _ = None"

text \<open>The character after a backslash: the bytes it stands for and the rest.\<close>

fun parse_escape :: "nat list \<Rightarrow> (nat list \<times> nat list) option" where
  "parse_escape (c # r) =
     (if c = 34 \<or> c = 92 \<or> c = 47 then Some ([c], r)
      else if c = 98 then Some ([8], r)
      else if c = 102 then Some ([12], r)
      else if c = 110 then Some ([10], r)
      else if c = 114 then Some ([13], r)
      else if c = 116 then Some ([9], r)
      else if c = 117 then map_option (map_prod unit_bytes id) (parse_hex4 r)
      else None)"
| "parse_escape [] = None"

lemma parse_hex4_length: "parse_hex4 s = Some (u, r) \<Longrightarrow> length r < length s"
  by (cases s rule: parse_hex4.cases) (auto split: option.splits)

lemma parse_escape_length: "parse_escape s = Some (x, r) \<Longrightarrow> length r < length s"
  by (cases s) (auto split: if_splits dest: parse_hex4_length)

text \<open>The rest of a string after its opening quote.\<close>

function parse_chars :: "nat list \<Rightarrow> (nat list \<times> nat list) option" where
  "parse_chars [] = None"
| "parse_chars (c # r) =
     (if c = 34 then Some ([], r)
      else if c < 32 then None
      else if c = 92 then
        (case parse_escape r of None \<Rightarrow> None
         | Some (x, r') \<Rightarrow> map_option (map_prod (append x) id) (parse_chars r'))
      else map_option (map_prod (Cons c) id) (parse_chars r))"
  by pat_completeness auto
termination
  by (relation "measure length") (auto dest: parse_escape_length)

lemma parse_chars_length: "parse_chars s = Some (x, r) \<Longrightarrow> length r < length s"
  by (induction s arbitrary: x r rule: parse_chars.induct)
    (auto split: if_splits option.splits dest!: parse_escape_length, fastforce+)

definition json_text :: "nat list \<Rightarrow> string" where
  "json_text x = map char_of (utf8_of_units (utf16_codes x))"

subsection \<open>Arrays of strings\<close>

definition skip_ws :: "nat list \<Rightarrow> nat list" where
  "skip_ws s = dropWhile (\<lambda>c. c \<in> {9, 10, 13, 32}) s"

lemma skip_ws_length: "length (skip_ws s) \<le> length s"
  by (simp add: skip_ws_def length_dropWhile_le)

text \<open>The elements from the first on, up to the closing bracket.\<close>

function parse_elements :: "nat list \<Rightarrow> (string list \<times> nat list) option" where
  "parse_elements s = (case skip_ws s of
     [] \<Rightarrow> None
   | q # r \<Rightarrow> if q \<noteq> 34 then None
      else (case parse_chars r of
          None \<Rightarrow> None
        | Some (x, r') \<Rightarrow> (case skip_ws r' of
            [] \<Rightarrow> None
          | d # t \<Rightarrow> if d = 93 then Some ([json_text x], t)
             else if d = 44 then map_option (map_prod (Cons (json_text x)) id) (parse_elements t)
             else None)))"
  by pat_completeness auto
termination
proof (relation "measure length", goal_cases)
  case (2 s q r x x' r' d t)
  then show ?case
    using skip_ws_length [of s] skip_ws_length [of r'] parse_chars_length [of r x' r'] by simp
qed simp

definition parse_string_array :: "nat list \<Rightarrow> string list option" where
  "parse_string_array s = (case skip_ws s of
     b # r \<Rightarrow> if b \<noteq> 91 then None
       else (case skip_ws r of
          d # t \<Rightarrow> if d = 93 then (if skip_ws t = [] then Some [] else None)
            else (case parse_elements r of
                Some (xs, t) \<Rightarrow> if skip_ws t = [] then Some xs else None
              | None \<Rightarrow> None)
        | [] \<Rightarrow> None)
   | [] \<Rightarrow> None)"


subsection \<open>Parsing undoes printing\<close>

lemma utf8_no_surrogate:
  "utf8_ok s \<Longrightarrow> successively (\<lambda>a b. \<not> (a = 237 \<and> 160 \<le> b)) s"
  by (induction rule: utf8_ok.induct)
    (auto simp: successively_Cons utf8_second_def utf8_cont_def)

lemma json_escape_plain:
  "successively (\<lambda>a b. \<not> (a = 237 \<and> 160 \<le> b)) (map of_char s :: nat list)
   \<Longrightarrow> json_escape s = concat (map json_escape_char s)"
  by (induction s rule: json_escape.induct) auto

lemma hex_val_digit: "d < 16 \<Longrightarrow> hex_val (of_char (hex_digit d)) = Some d"
  by (auto simp: hex_val_def hex_digit_def)

lemma parse_hex4_control: "n < 32 \<Longrightarrow> parse_hex4 (map of_char (hex4 n) @ r) = Some (n, r)"
  by (simp add: hex4_def hex_val_digit)

lemma parse_chars_char:
  "parse_chars (map of_char (json_escape_char c) @ s) = map_option (map_prod (Cons (of_char c)) id) (parse_chars s)"
proof -
  have one: "(@) [n] = (#) (n :: nat)" for n
    by (rule ext) simp
  show ?thesis
    by (simp add: json_escape_char_def Let_def one parse_hex4_control unit_bytes_def)
qed

lemma parse_chars_quoted:
  "parse_chars (map of_char (concat (map json_escape_char x)) @ 34 # r) = Some (map of_char x, r)"
  by (induction x) (simp_all add: parse_chars_char)

lemma escape_char_utf8:
  assumes "of_char c < (128 :: nat)"
  shows "\<forall>a \<in> set (map of_char (json_escape_char c)). a < (128 :: nat)"
proof -
  have "of_char (hex_digit d) < (128 :: nat)" if "d < 16" for d
    using that by (simp add: hex_digit_def)
  then show ?thesis
    using assms by (simp add: json_escape_char_def hex4_def Let_def)
qed

lemma escape_char_high: "128 \<le> (of_char c :: nat) \<Longrightarrow> json_escape_char c = [c]"
  by (simp add: json_escape_char_def Let_def)

lemma escaped_utf8:
  "utf8_ok ns \<Longrightarrow> ns = map of_char s \<Longrightarrow> utf8_ok (map of_char (concat (map json_escape_char s)))"
proof (induction arbitrary: s rule: utf8_ok.induct)
  case utf8_Nil
  then show ?case by (simp add: utf8_ok.intros)
next
  case (utf8_one a r)
  then obtain c t where "s = c # t" "a = of_char c" "r = map of_char t"
    by (auto simp: Cons_eq_map_conv)
  with utf8_one show ?case
    by (simp add: utf8_append utf8_ascii [OF escape_char_utf8])
next
  case (utf8_two a b r)
  then obtain c1 c2 t where "s = c1 # c2 # t" "a = of_char c1" "b = of_char c2" "r = map of_char t"
    by (auto simp: Cons_eq_map_conv)
  with utf8_two show ?case
    by (auto simp: escape_char_high utf8_second_def utf8_cont_def utf8_width_def split: if_splits
        intro!: utf8_ok.utf8_two)
next
  case (utf8_three a b c r)
  then obtain c1 c2 c3 t where "s = c1 # c2 # c3 # t" "a = of_char c1" "b = of_char c2" "c = of_char c3"
      "r = map of_char t"
    by (auto simp: Cons_eq_map_conv)
  with utf8_three show ?case
    by (auto simp: escape_char_high utf8_second_def utf8_cont_def utf8_width_def split: if_splits
        intro!: utf8_ok.utf8_three)
next
  case (utf8_four a b c d r)
  then obtain c1 c2 c3 c4 t where "s = c1 # c2 # c3 # c4 # t" "a = of_char c1" "b = of_char c2" "c = of_char c3"
      "d = of_char c4" "r = map of_char t"
    by (auto simp: Cons_eq_map_conv)
  with utf8_four show ?case
    by (auto simp: escape_char_high utf8_second_def utf8_cont_def utf8_width_def split: if_splits
        intro!: utf8_ok.utf8_four)
qed

abbreviation text_ok :: "string \<Rightarrow> bool" where
  "text_ok s \<equiv> utf8_ok (map of_char s)"

lemma json_text_ok: "text_ok s \<Longrightarrow> json_text (map of_char s) = s"
  by (simp add: json_text_def utf8_of_utf16 comp_def)

lemma quote_text:
  "text_ok s \<Longrightarrow> map of_char (json_quote s) = (34 :: nat) # map of_char (concat (map json_escape_char s)) @ [34]"
  by (simp add: json_quote_def json_escape_plain [OF utf8_no_surrogate])

lemma skip_ws_Cons: "c \<notin> {9, 10, 13, 32} \<Longrightarrow> skip_ws (c # r) = c # r"
  by (simp add: skip_ws_def)

declare parse_elements.simps [simp del]

lemma parse_elements_printed:
  "xs \<noteq> [] \<Longrightarrow> \<forall>x \<in> set xs. text_ok x
   \<Longrightarrow> parse_elements (map of_char (join_comma (map json_quote xs)) @ 93 # r) = Some (xs, r)"
proof (induction xs rule: join_comma.induct)
  case (2 x)
  then show ?case
    using parse_chars_quoted [of x "93 # r"]
    by (subst parse_elements.simps) (simp add: quote_text skip_ws_Cons json_text_ok)
next
  case (3 x y zs)
  let ?rest = "map of_char (join_comma (map json_quote (y # zs))) @ 93 # r"
  have ih: "parse_elements ?rest = Some (y # zs, r)"
    using 3 by simp
  show ?case
    using parse_chars_quoted [of x "44 # ?rest"] 3(3) ih
    by (subst parse_elements.simps) (simp add: quote_text skip_ws_Cons json_text_ok)
qed simp

lemma join_comma_quoted:
  "xs \<noteq> [] \<Longrightarrow> \<exists>t. join_comma (map json_quote xs) = CHR 0x22 # t"
  by (induction xs rule: join_comma.induct) (auto simp: json_quote_def)

lemma parse_string_array_printed:
  assumes "\<forall>x \<in> set xs. text_ok x"
  shows "parse_string_array (map of_char (JSON_stringify (JArr (map JStr xs)))) = Some xs"
proof (cases "xs = []")
  case False
  then obtain t where "join_comma (map json_quote xs) = CHR 0x22 # t"
    using join_comma_quoted by blast
  then show ?thesis
    using parse_elements_printed [OF False assms, of "[]"]
    by (simp add: parse_string_array_def skip_ws_Cons comp_def) (simp add: skip_ws_def)
qed (simp add: parse_string_array_def skip_ws_def)

lemma printed_array_utf8:
  assumes "\<forall>x \<in> set xs. text_ok x"
  shows "text_ok (JSON_stringify (JArr (map JStr xs)))"
proof -
  have quote: "text_ok (json_quote x)" if "text_ok x" for x
    using that escaped_utf8 [OF that refl]
    by (simp add: quote_text utf8_one utf8_append utf8_Nil del: map_map)
  have "text_ok (join_comma (map json_quote xs))"
    using assms quote by (induction xs rule: join_comma.induct) (auto intro!: utf8_append utf8_one simp: utf8_Nil)
  then show ?thesis
    by (simp add: utf8_one utf8_append utf8_Nil comp_def)
qed

end
