(* ===== verification/Offline_Cursor.thy ===== *)
theory Offline_Cursor
  imports Offline_Types Instant_Order Js_Parse "HOL-Library.Multiset"
begin

text \<open>
  Cursors and pages of \<open>listing.ts\<close>: the base64url text of the JSON array of a keyset ordering key and the way
  back with its validation, the order of keys, and the page after a cursor.

  Shown: decoding undoes encoding for well-formed keys that begin with an instant; the instant of a row is one;
  and following \<open>nextCursor\<close> from page to page (\<open>allPages\<close>) gives every row once, in descending order of the keys.
\<close>

subsection \<open>Instants\<close>

definition sortInstant :: "string \<Rightarrow> bool" where
  "sortInstant s \<longleftrightarrow> list_all2 (\<lambda>p c. if p = CHR ''d'' then is_digit c else c = p)
     ''dddd-dd-ddTdd:dd:dd.ddddddZ'' s"

definition validInstant :: "string \<Rightarrow> bool" where
  "validInstant s \<longleftrightarrow> sortInstant s \<and> (let millis = take 23 s @ ''Z'' in
     case date_parse millis of None \<Rightarrow> False | Some t \<Rightarrow> toISOString t = millis)"

text \<open>\<open>text.replace('Z', by)\<close>, which replaces the first occurrence.\<close>

definition replaceZ :: "string \<Rightarrow> string \<Rightarrow> string" where
  "replaceZ replacement s = (case dropWhile (\<lambda>c. c \<noteq> CHR ''Z'') s of
     [] \<Rightarrow> s | _ # r \<Rightarrow> takeWhile (\<lambda>c. c \<noteq> CHR ''Z'') s @ replacement @ r)"

definition sortInstantOf :: "string \<Rightarrow> offline_error + string" where
  "sortInstantOf s = (case date_parse s of None \<Rightarrow> Inl RangeError | Some t \<Rightarrow> Inr (replaceZ ''000Z'' (toISOString t)))"

subsection \<open>Cursors\<close>

definition encodeCursor :: "string list \<Rightarrow> string" where
  "encodeCursor key = base64url_encode (map of_char (JSON_stringify (JArr (map JStr key))))"

definition decodeCursor :: "string option \<Rightarrow> nat \<Rightarrow> offline_error + string list option" where
  "decodeCursor cursor arity = (case cursor of
     None \<Rightarrow> Inr None
   | Some c \<Rightarrow> (case parse_string_array (utf8_lossy (base64url_decode c)) of
       None \<Rightarrow> Inl (invalidInput ''cursor is invalid.'')
     | Some xs \<Rightarrow> (case xs of
         [] \<Rightarrow> Inl (invalidInput ''cursor is invalid.'')
       | v # _ \<Rightarrow> if length xs \<noteq> arity \<or> \<not> validInstant v then Inl (invalidInput ''cursor is invalid.'')
          else Inr (Some xs))))"

subsection \<open>Pages\<close>

definition listDefaultLimit :: int where
  "listDefaultLimit = 50"

fun compare :: "string list \<Rightarrow> string list \<Rightarrow> int" where
  "compare [] b = 0"
| "compare (x # a) [] = 1"
| "compare (x # a) (y # b) = (if x \<noteq> y then (if js_less x y then - 1 else 1) else compare a b)"

type_synonym 'a row = "string list \<times> 'a"

record 'a page =
  pg_items :: "'a list"
  pg_nextCursor :: "string option"

text \<open>\<open>rows.slice(0, n)\<close>.\<close>

definition slice0 :: "int \<Rightarrow> 'a list \<Rightarrow> 'a list" where
  "slice0 n xs = (if 0 \<le> n then take (nat n) xs else take (length xs - nat (- n)) xs)"

definition finishPage :: "'a row list \<Rightarrow> int \<Rightarrow> offline_error + 'a page" where
  "finishPage rows limit =
     (let items = slice0 limit rows in
      if int (length rows) > limit then
        (if items = [] then Inl TypeError
         else Inr \<lparr>pg_items = map snd items, pg_nextCursor = Some (encodeCursor (fst (last items)))\<rparr>)
      else Inr \<lparr>pg_items = map snd items, pg_nextCursor = None\<rparr>)"

definition ordered :: "'a row list \<Rightarrow> 'a row list" where
  "ordered rows = sort_by (\<lambda>a b. compare (fst b) (fst a) \<le> 0) rows"

definition pageOf :: "'a row list \<Rightarrow> nat \<Rightarrow> string option \<Rightarrow> int option \<Rightarrow> offline_error + 'a page" where
  "pageOf rows arity cursor limit = bindE (decodeCursor cursor arity) (\<lambda>after.
     let rest = filter (\<lambda>row. case after of None \<Rightarrow> True | Some k \<Rightarrow> compare (fst row) k < 0) (ordered rows);
         size = (case limit of None \<Rightarrow> listDefaultLimit | Some n \<Rightarrow> n)
     in finishPage (slice0 (size + 1) rest) size)"

text \<open>A client that follows \<open>nextCursor\<close> to the end.\<close>

fun allPages :: "nat \<Rightarrow> 'a row list \<Rightarrow> nat \<Rightarrow> string option \<Rightarrow> int option \<Rightarrow> 'a list option" where
  "allPages 0 rows arity cursor limit = None"
| "allPages (Suc fuel) rows arity cursor limit =
     (case pageOf rows arity cursor limit of
        Inl _ \<Rightarrow> None
      | Inr p \<Rightarrow> (case pg_nextCursor p of
          None \<Rightarrow> Some (pg_items p)
        | Some c \<Rightarrow> map_option (append (pg_items p)) (allPages fuel rows arity (Some c) limit)))"

subsection \<open>Round trip of cursors\<close>

definition cursorKey :: "string list \<Rightarrow> bool" where
  "cursorKey key \<longleftrightarrow> key \<noteq> [] \<and> validInstant (hd key) \<and> (\<forall>x \<in> set key. text_ok x)"

lemma decode_encode:
  assumes "cursorKey key"
  shows "decodeCursor (Some (encodeCursor key)) (length key) = Inr (Some key)"
proof -
  have ok: "\<forall>x \<in> set key. text_ok x"
    using assms by (simp add: cursorKey_def)
  let ?t = "map of_char (JSON_stringify (JArr (map JStr key)))"
  have "utf8_lossy (base64url_decode (encodeCursor key)) = ?t"
    using printed_array_utf8 [OF ok] by (simp add: encodeCursor_def base64url_roundtrip utf8_bytes utf8_lossy_id del: JSON_stringify.simps)
  then show ?thesis
    using assms parse_string_array_printed [OF ok]
    by (cases key) (simp_all add: decodeCursor_def cursorKey_def del: JSON_stringify.simps)
qed

text \<open>The instant of a row is one a cursor may begin with.\<close>

lemma digits_text_ok: "\<forall>c \<in> set s. is_digit c \<Longrightarrow> text_ok s"
  by (rule utf8_ascii) (auto simp: is_digit_def)

lemma digits_not_Z: "\<forall>c \<in> set s. is_digit c \<Longrightarrow> CHR ''Z'' \<notin> set s"
  by (auto simp: is_digit_def)

lemma pad_pattern:
  assumes "n < 10 ^ w" "0 < w"
  shows "list_all2 (\<lambda>p c. if p = CHR ''d'' then is_digit c else c = p) (replicate w CHR ''d'') (pad_dec w n)"
  using pad_dec_digits [of w n] length_pad_dec [OF assms]
  by (simp add: list_all2_conv_all_nth)


lemma replaceZ_first:
  assumes "CHR ''Z'' \<notin> set x"
  shows "replaceZ r (x @ ''Z'') = x @ r"
proof -
  have "\<And>c. c \<in> set x \<Longrightarrow> c \<noteq> CHR ''Z''"
    using assms by auto
  then show ?thesis
    by (simp only: replaceZ_def dropWhile_append2 takeWhile_append2) simp
qed

lemma sortInstantOf_text:
  assumes "date_parse v = Some t" and "common_year t" and "toISOString t = x @ ''Z''" and "CHR ''Z'' \<notin> set x"
  shows "sortInstantOf v = Inr (x @ ''000Z'')"
  using assms by (simp add: sortInstantOf_def replaceZ_first)

lemma sortInstantOf_valid:
  assumes "date_parse v = Some t" and "common_year t"
  shows "\<exists>i. sortInstantOf v = Inr i \<and> validInstant i \<and> text_ok i"
proof -
  have range: "date_in_range t"
    using assms(2) by (simp add: common_year_def)
  obtain Y Mo D h mi se ms where f:
    "toISOString t = pad_dec 4 Y @ ''-'' @ pad_dec 2 Mo @ ''-'' @ pad_dec 2 D @ ''T'' @ pad_dec 2 h @ '':'' @
      pad_dec 2 mi @ '':'' @ pad_dec 2 se @ ''.'' @ pad_dec 3 ms @ ''Z''"
    and b: "Y < 10 ^ 4" "Mo < 10 ^ 2" "D < 10 ^ 2" "h < 10 ^ 2" "mi < 10 ^ 2" "se < 10 ^ 2" "ms < 10 ^ 3"
    using iso_text_fields [OF assms(2)] by blast
  obtain x where x: "toISOString t = x @ ''Z''" "length x = 23" "CHR ''Z'' \<notin> set x"
    using iso_prefix [OF assms(2)] by blast
  have xf: "x = pad_dec 4 Y @ ''-'' @ pad_dec 2 Mo @ ''-'' @ pad_dec 2 D @ ''T'' @ pad_dec 2 h @ '':'' @
      pad_dec 2 mi @ '':'' @ pad_dec 2 se @ ''.'' @ pad_dec 3 ms"
    using f x(1) by (simp flip: append_assoc)
  have "list_all2 (\<lambda>p c. if p = CHR ''d'' then is_digit c else c = p)
      (replicate 4 CHR ''d'' @ ''-'' @ replicate 2 CHR ''d'' @ ''-'' @ replicate 2 CHR ''d'' @ ''T'' @
       replicate 2 CHR ''d'' @ '':'' @ replicate 2 CHR ''d'' @ '':'' @ replicate 2 CHR ''d'' @ ''.'' @
       replicate 3 CHR ''d'' @ ''dddZ'') (x @ ''000Z'')"
    unfolding xf append_assoc
    by (intro list_all2_appendI pad_pattern b) (simp_all add: is_digit_def)
  then have "sortInstant (x @ ''000Z'')"
    by (simp add: sortInstant_def numeral_eq_Suc)
  moreover have "text_ok (x @ ''000Z'')"
    unfolding xf map_append
    by (intro utf8_append digits_text_ok [OF pad_dec_digits]) (simp_all add: utf8_ascii)
  ultimately have "validInstant (x @ ''000Z'') \<and> text_ok (x @ ''000Z'')"
    using x date_parse_toISOString [OF range] by (simp add: validInstant_def)
  then show ?thesis
    using sortInstantOf_text [OF assms x(1,3)] by blast
qed

text \<open>Sort instants compare as the times they stand for.\<close>

lemma sortInstantOf_order:
  assumes "date_parse v = Some t" "common_year t" "date_parse v' = Some t'" "common_year t'"
    and "sortInstantOf v = Inr i" "sortInstantOf v' = Inr i'"
  shows "js_less i i' \<longleftrightarrow> t < t'"
proof -
  obtain x x' where x: "toISOString t = x @ ''Z''" "length x = 23" "CHR ''Z'' \<notin> set x"
    and x': "toISOString t' = x' @ ''Z''" "length x' = 23" "CHR ''Z'' \<notin> set x'"
    using iso_prefix [OF assms(2)] iso_prefix [OF assms(4)] by blast
  have i: "i = x @ ''000Z''" "i' = x' @ ''000Z''"
    using sortInstantOf_text [OF assms(1,2) x(1,3)] sortInstantOf_text [OF assms(3,4) x'(1,3)] assms(5,6) by simp_all
  have ascii: "\<forall>a \<in> set (map of_char x). a < (128 :: nat)" "\<forall>a \<in> set (map of_char x'). a < (128 :: nat)"
    using iso_ascii [OF assms(2)] iso_ascii [OF assms(4)] x(1) x'(1) by auto
  have "utf16_units (y @ r) = map of_char y @ map of_char r"
    if "\<forall>a \<in> set (map of_char y). a < (128 :: nat)" "\<forall>a \<in> set (map of_char r). a < (128 :: nat)" for y r
    using that utf16_ascii [of "map of_char (y @ r)"] by (simp add: utf16_units_def ball_Un)
  then have "js_less i i' \<longleftrightarrow> map of_char x < (map of_char x' :: nat list)"
    "js_less (toISOString t) (toISOString t') \<longleftrightarrow> map of_char x < (map of_char x' :: nat list)"
    using ascii x(1,2) x'(1,2) by (simp_all add: js_less_def i append_less)
  then show ?thesis
    using iso_text_js_less [OF assms(2,4)] by simp
qed

subsection \<open>The order of keys\<close>

definition rank :: "string list \<Rightarrow> nat list list" where
  "rank key = map utf16_units key"

lemma compare_rank:
  assumes "length a = length b" "\<forall>x \<in> set a \<union> set b. text_ok x"
  shows "(compare a b < 0 \<longleftrightarrow> rank a < rank b) \<and> (compare a b = 0 \<longleftrightarrow> a = b)"
  using assms
proof (induction a b rule: list_induct2)
  case (Cons x a y b)
  then show ?case
    using utf16_units_inject [of x y] by (auto simp: rank_def js_less_def)
qed (simp add: rank_def)

lemma rank_inject:
  assumes "length a = length b" "\<forall>x \<in> set a \<union> set b. text_ok x"
  shows "rank a = rank b \<longleftrightarrow> a = b"
  using assms
proof (induction a b rule: list_induct2)
  case (Cons x a y b)
  then show ?case
    using utf16_units_inject [of x y] by (auto simp: rank_def)
qed simp

lemma insort_by_cong:
  "(\<And>y. y \<in> set ys \<Longrightarrow> le x y = le' x y) \<Longrightarrow> insort_by le x ys = insort_by le' x ys"
  by (induction ys) auto

lemma sort_by_cong:
  "(\<And>x y. x \<in> set xs \<Longrightarrow> y \<in> set xs \<Longrightarrow> le x y = le' x y) \<Longrightarrow> sort_by le xs = sort_by le' xs"
proof (induction xs)
  case (Cons x xs)
  then have "sort_by le xs = sort_by le' xs"
    by simp
  moreover have "insort_by le x (sort_by le' xs) = insort_by le' x (sort_by le' xs)"
    using Cons.prems by (intro insort_by_cong) simp
  ultimately show ?case
    by (simp add: sort_by_def)
qed (simp add: sort_by_def)

lemma mset_sort_by [simp]: "mset (sort_by le xs) = mset xs"
proof (induction xs)
  case (Cons x xs)
  have "mset (insort_by le x ys) = add_mset x (mset ys)" for ys
    by (induction ys) auto
  with Cons show ?case
    by (simp add: sort_by_def)
qed (simp add: sort_by_def)


subsection \<open>Following the cursors\<close>

definition pageable :: "nat \<Rightarrow> 'a row list \<Rightarrow> bool" where
  "pageable arity rows \<longleftrightarrow> distinct (map fst rows) \<and> (\<forall>r \<in> set rows. cursorKey (fst r) \<and> length (fst r) = arity)"

lemma pageable_key:
  assumes "pageable arity rows" "a \<in> set rows" "b \<in> set rows"
  shows "fst a = fst b \<longleftrightarrow> a = b"
  using assms by (metis eq_key_imp_eq_value pageable_def prod.collapse)

lemma pageable_compare:
  assumes "pageable arity rows" "a \<in> set rows" "b \<in> set rows"
  shows "(compare (fst a) (fst b) < 0 \<longleftrightarrow> rank (fst a) < rank (fst b)) \<and> (compare (fst a) (fst b) = 0 \<longleftrightarrow> a = b)"
proof -
  have "length (fst a) = length (fst b)" "\<forall>x \<in> set (fst a) \<union> set (fst b). text_ok x"
    using assms by (auto simp: pageable_def cursorKey_def)
  then show ?thesis
    using pageable_key [OF assms] by (simp add: compare_rank)
qed

lemma ordered_descending:
  assumes "pageable arity rows"
  shows "sorted_wrt (\<lambda>a b. compare (fst b) (fst a) < 0) (ordered rows)"
proof -
  have le: "compare (fst b) (fst a) \<le> 0 \<longleftrightarrow> rank (fst b) \<le> rank (fst a)" if "a \<in> set rows" "b \<in> set rows" for a b
  proof -
    have "rank (fst b) = rank (fst a) \<longleftrightarrow> fst b = fst a"
      using assms that by (intro rank_inject) (auto simp: pageable_def cursorKey_def)
    then show ?thesis
      using pageable_compare [OF assms that(2,1)] pageable_key [OF assms that(2,1)] by (auto simp: order.order_iff_strict)
  qed
  have "ordered rows = sort_by (\<lambda>a b. rank (fst b) \<le> rank (fst a)) rows"
    unfolding ordered_def by (rule sort_by_cong) (simp add: le)
  moreover have "sorted_wrt (\<lambda>a b. rank (fst b) \<le> rank (fst a)) (sort_by (\<lambda>a b. rank (fst b) \<le> rank (fst a)) rows)"
    by (rule sorted_sort_by) auto
  ultimately have sorted: "sorted_wrt (\<lambda>a b. rank (fst b) \<le> rank (fst a)) (ordered rows)"
    by simp
  have "distinct (ordered rows)"
    using assms by (simp add: ordered_def pageable_def distinct_map)
  with sorted have "sorted_wrt (\<lambda>a b. rank (fst b) \<le> rank (fst a) \<and> a \<noteq> b) (ordered rows)"
    by (auto simp: sorted_wrt_iff_nth_less nth_eq_iff_index_eq)
  then show ?thesis
  proof (rule sorted_wrt_mono_rel [rotated])
    fix a b assume "a \<in> set (ordered rows)" "b \<in> set (ordered rows)" "rank (fst b) \<le> rank (fst a) \<and> a \<noteq> b"
    then show "compare (fst b) (fst a) < 0"
      using le [of a b] pageable_compare [OF assms, of b a] by (auto simp: ordered_def order.order_iff_strict)
  qed
qed

lemma filter_after:
  assumes "sorted_wrt R xs" "\<And>a b. a \<in> set xs \<Longrightarrow> b \<in> set xs \<Longrightarrow> R a b \<Longrightarrow> \<not> R b a" "i < length xs"
  shows "filter (\<lambda>r. R (xs ! i) r) xs = drop (Suc i) xs"
proof -
  have "\<not> R (xs ! i) (xs ! j)" if "j < length xs" "j \<le> i" for j
  proof (cases "j = i")
    case True
    with assms(2) [of "xs ! i" "xs ! i"] assms(3) show ?thesis by auto
  next
    case False
    with that have "j < i" by simp
    then have "R (xs ! j) (xs ! i)"
      using assms(1,3) sorted_wrt_nth_less by metis
    with assms(2) [of "xs ! j" "xs ! i"] assms(3) that(1) show ?thesis by simp
  qed
  then have "filter (\<lambda>r. R (xs ! i) r) (take (Suc i) xs) = []"
    by (auto simp: filter_empty_conv in_set_conv_nth)
  moreover have "filter (\<lambda>r. R (xs ! i) r) (drop (Suc i) xs) = drop (Suc i) xs"
    using sorted_wrt_nth_less [OF assms(1)] by (auto simp: filter_id_conv in_set_conv_nth)
  ultimately show ?thesis
    using filter_append [of "\<lambda>r. R (xs ! i) r" "take (Suc i) xs" "drop (Suc i) xs"] by simp
qed

lemma rows_after:
  assumes "pageable arity rows" and "i < length rows"
  shows "filter (\<lambda>r. compare (fst r) (fst (ordered rows ! i)) < 0) (ordered rows) = drop (Suc i) (ordered rows)"
proof (rule filter_after [OF ordered_descending [OF assms(1)]])
  fix a b assume "a \<in> set (ordered rows)" "b \<in> set (ordered rows)" "compare (fst b) (fst a) < 0"
  then show "\<not> compare (fst a) (fst b) < 0"
    using pageable_compare [OF assms(1), of a b] pageable_compare [OF assms(1), of b a]
    by (auto simp: ordered_def)
qed (use assms(2) in \<open>simp add: ordered_def\<close>)

lemma finishPage_take:
  assumes "0 < n"
  shows "finishPage (take (Suc n) xs) (int n) = Inr \<lparr>pg_items = map snd (take n xs),
    pg_nextCursor = (if n < length xs then Some (encodeCursor (fst (xs ! (n - 1)))) else None)\<rparr>"
proof -
  have "last (take n xs) = xs ! (n - 1)" "take n xs \<noteq> []" if "n < length xs"
    using assms that last_conv_nth [of "take n xs"] by (cases xs; simp add: min_def)+
  then show ?thesis
    using assms by (auto simp: finishPage_def slice0_def Let_def)
qed

lemma page_at:
  assumes "pageable arity rows" and "0 < n" and "limit = Some (int n) \<or> limit = None \<and> n = 50"
    and "cursor = (if i = 0 then None else Some (encodeCursor (fst (ordered rows ! (i - 1)))))" "i < Suc (length rows)"
  shows "pageOf rows arity cursor limit = Inr \<lparr>pg_items = map snd (take n (drop i (ordered rows))),
    pg_nextCursor = (if i + n < length rows then Some (encodeCursor (fst (ordered rows ! (i + n - 1)))) else None)\<rparr>"
proof -
  let ?xs = "ordered rows"
  have len: "length ?xs = length rows"
    by (simp add: ordered_def)
  have after: "\<exists>k. decodeCursor cursor arity = Inr k
      \<and> filter (\<lambda>row. case k of None \<Rightarrow> True | Some k \<Rightarrow> compare (fst row) k < 0) ?xs = drop i ?xs"
  proof (cases i)
    case (Suc j)
    then have "j < length rows" "?xs ! j \<in> set rows"
      using assms(5) nth_mem [of j ?xs] by (simp_all add: ordered_def)
    then show ?thesis
      using assms(1,4) Suc decode_encode [of "fst (?xs ! j)"] rows_after [OF assms(1), of j]
      by (auto simp: pageable_def)
  qed (use assms(4) in \<open>simp add: decodeCursor_def\<close>)
  have limit: "(case limit of None \<Rightarrow> listDefaultLimit | Some m \<Rightarrow> m) = int n" "slice0 (int n + 1) ys = take (Suc n) ys" for ys :: "'a row list"
    using assms(3) by (auto simp: listDefaultLimit_def slice0_def nat_add_distrib)
  have "?xs ! (i + (n - 1)) = drop i ?xs ! (n - 1)" if "i + n < length rows"
    using that len by simp
  then show ?thesis
    using after finishPage_take [OF assms(2), of "drop i ?xs"] assms(2) len
    by (auto simp: pageOf_def limit Let_def)
qed

lemma allPages_from:
  assumes "pageable arity rows" and "0 < n" and "limit = Some (int n) \<or> limit = None \<and> n = 50"
    and "cursor = (if i = 0 then None else Some (encodeCursor (fst (ordered rows ! (i - 1)))))" "i < Suc (length rows)"
    and "length rows - i < fuel"
  shows "allPages fuel rows arity cursor limit = Some (map snd (drop i (ordered rows)))"
  using assms(4-6)
proof (induction fuel arbitrary: cursor i)
  case (Suc fuel)
  note page = page_at [OF assms(1-3) Suc.prems(1,2)]
  show ?case
  proof (cases "i + n < length rows")
    case True
    then have "allPages fuel rows arity (Some (encodeCursor (fst (ordered rows ! (i + n - 1))))) limit
        = Some (map snd (drop (i + n) (ordered rows)))"
      using assms(2) Suc.prems by (intro Suc.IH) auto
    moreover have "take n (drop i (ordered rows)) @ drop (i + n) (ordered rows) = drop i (ordered rows)"
      by (metis add.commute append_take_drop_id drop_drop)
    ultimately show ?thesis
      using True page by (simp flip: map_append)
  next
    case False
    then have "take n (drop i (ordered rows)) = drop i (ordered rows)"
      by (simp add: ordered_def)
    then show ?thesis
      using False page by simp
  qed
qed simp

end
