(* ===== verification/Offline_Listing.thy ===== *)
theory Offline_Listing
  imports Offline_Cursor Offline_Durable
begin

text \<open>
  The listings of \<open>InMemoryOfflineSyncStore\<close>: batches, item receipts, queue items, conflicts and the actions taken
  on a conflict, each filtered to the tenant and the caller's criteria, keyed by its instant and tie-breakers and
  paged by \<open>pageOf\<close>. A listing reads the store and does not change it. An instant that is no date makes it throw,
  and so does a conflict whose queue item is missing.
\<close>

fun mapE :: "('a \<Rightarrow> 'e + 'b) \<Rightarrow> 'a list \<Rightarrow> 'e + 'b list" where
  "mapE f [] = Inr []"
| "mapE f (x # xs) = bindE (f x) (\<lambda>y. bindE (mapE f xs) (\<lambda>ys. Inr (y # ys)))"

fun filterE :: "('a \<Rightarrow> 'e + bool) \<Rightarrow> 'a list \<Rightarrow> 'e + 'a list" where
  "filterE p [] = Inr []"
| "filterE p (x # xs) = bindE (p x) (\<lambda>b. bindE (filterE p xs) (\<lambda>ys. Inr (if b then x # ys else ys)))"

lemma mapE_set:
  "mapE f xs = Inr ys \<Longrightarrow> y \<in> set ys \<longleftrightarrow> (\<exists>x \<in> set xs. f x = Inr y)"
  by (induction xs arbitrary: ys) auto

lemma filterE_set: "filterE p xs = Inr ys \<Longrightarrow> x \<in> set ys \<longleftrightarrow> x \<in> set xs \<and> p x = Inr True"
  by (induction xs arbitrary: ys) (auto split: if_splits)

text \<open>\<open>input.field === undefined || value === input.field\<close>.\<close>

definition wanted :: "'a option \<Rightarrow> 'a \<Rightarrow> bool" where
  "wanted asked v \<longleftrightarrow> (case asked of None \<Rightarrow> True | Some a \<Rightarrow> v = a)"

text \<open>\<open>new Date(text).toISOString()\<close>.\<close>

definition isoText :: "string \<Rightarrow> offline_error + string" where
  "isoText s = (case date_parse s of None \<Rightarrow> Inl RangeError | Some t \<Rightarrow> Inr (toISOString t))"

record list_input =
  li_limit :: "int option"
  li_cursor :: "string option"

subsection \<open>Batches\<close>

record list_batches_input = list_input +
  lb_deviceId :: "string option"
  lb_status :: "batch_status option"

record batch_summary =
  sm_deviceId :: string
  sm_deviceBatchId :: string
  sm_batchSequence :: "int option"
  sm_status :: batch_status
  sm_responseStatus :: "nat option"
  sm_createdAt :: string

definition batchRow :: "string \<times> batch_record \<Rightarrow> offline_error + batch_summary row" where
  "batchRow e = (let r = bt_receipt (snd e) in
     bindE (sortInstantOf (bt_createdAt (snd e))) (\<lambda>i.
     bindE (isoText (bt_createdAt (snd e))) (\<lambda>createdAt.
       Inr ([i, br_deviceId r, br_deviceBatchId r],
         \<lparr>sm_deviceId = br_deviceId r, sm_deviceBatchId = br_deviceBatchId r,
          sm_batchSequence = br_batchSequence r, sm_status = br_status r,
          sm_responseStatus = br_responseStatus r, sm_createdAt = createdAt\<rparr>))))"

definition listSyncBatchReceipts ::
  "scope \<Rightarrow> list_batches_input \<Rightarrow> offline_store \<Rightarrow> offline_error + batch_summary page" where
  "listSyncBatchReceipts sc input s =
     bindE (mapE batchRow (filter (\<lambda>(k, b). startsWith k (sc_tenantId sc @ '':'')
        \<and> wanted (lb_deviceId input) (br_deviceId (bt_receipt b))
        \<and> wanted (lb_status input) (br_status (bt_receipt b))) (st_batches s)))
       (\<lambda>rows. pageOf rows 3 (li_cursor input) (li_limit input))"

subsection \<open>Item receipts\<close>

record list_receipts_input = list_input +
  lr_deviceId :: "string option"
  lr_deviceBatchId :: "string option"
  lr_status :: "queue_status option"

record receipt_record = item_receipt +
  rr_receiptId :: string
  rr_deviceId :: string
  rr_deviceBatchId :: string
  rr_payloadHash :: string
  rr_receivedAt :: string

definition receiptRow :: "string \<Rightarrow> string \<times> item_record \<Rightarrow> offline_error + receipt_record row" where
  "receiptRow pre e = (let receiptId = drop (length pre) (fst e); rec = snd e in
     bindE (sortInstantOf (it_receivedAt rec)) (\<lambda>i.
     bindE (isoText (it_receivedAt rec)) (\<lambda>receivedAt.
       Inr ([i, receiptId],
         item_receipt.extend ((it_receipt rec)\<lparr>rc_queueItemId := bi_queueItemId (it_item rec)\<rparr>)
           (receipt_record.fields receiptId (qi_deviceId (it_item rec)) (it_deviceBatchId rec) (it_hash rec)
             receivedAt)))))"

definition listSyncItemReceipts ::
  "scope \<Rightarrow> list_receipts_input \<Rightarrow> offline_store \<Rightarrow> offline_error + receipt_record page" where
  "listSyncItemReceipts sc input s = (let pre = sc_tenantId sc @ '':'' in
     bindE (mapE (receiptRow pre) (filter (\<lambda>(k, rec). startsWith k pre
        \<and> wanted (lr_deviceId input) (qi_deviceId (it_item rec))
        \<and> wanted (lr_deviceBatchId input) (it_deviceBatchId rec)
        \<and> wanted (lr_status input) (rc_status (it_receipt rec))) (st_itemReceipts s)))
       (\<lambda>rows. pageOf rows 2 (li_cursor input) (li_limit input)))"

subsection \<open>Queue items\<close>

record list_queue_input = list_input +
  lq_deviceId :: "string option"
  lq_status :: "queue_status option"
  lq_entityType :: "string option"

record queue_record = queue_item +
  qr_deviceBatchId :: "string option"

text \<open>An item without a key has the receipt key of the text \<open>undefined\<close>.\<close>

definition queueStynx :: "scope \<Rightarrow> queue_item \<Rightarrow> offline_store \<Rightarrow> stynx_context option" where
  "queueStynx sc item s = Option.bind (jget (st_itemReceipts s) (tkey (sc_tenantId sc)
     (case bi_idempotencyKey item of None \<Rightarrow> ''undefined'' | Some k \<Rightarrow> k))) (\<lambda>p. rc_stynx (it_receipt p))"

definition queueRow :: "scope \<Rightarrow> offline_store \<Rightarrow> string \<times> queue_item \<Rightarrow> offline_error + queue_record row" where
  "queueRow sc s e = (let item = snd e; stynx = queueStynx sc item s in
     bindE (sortInstantOf (qi_receivedAt item)) (\<lambda>i.
       Inr ([i, bi_queueItemId item],
         queue_item.extend (case stynx of None \<Rightarrow> item | Some x \<Rightarrow> item\<lparr>qi_stynx := Some x\<rparr>)
           (queue_record.fields (jget (st_queueBatches s) (fst e))))))"

definition listSyncQueueItems ::
  "scope \<Rightarrow> list_queue_input \<Rightarrow> offline_store \<Rightarrow> offline_error + queue_record page" where
  "listSyncQueueItems sc input s =
     bindE (mapE (queueRow sc s) (filter (\<lambda>(k, item). startsWith k (sc_tenantId sc @ '':'')
        \<and> wanted (lq_deviceId input) (qi_deviceId item)
        \<and> wanted (lq_status input) (qi_status item)
        \<and> wanted (lq_entityType input) (bi_entityType item)) (st_queueItems s)))
       (\<lambda>rows. pageOf rows 2 (li_cursor input) (li_limit input))"

subsection \<open>Conflict actions\<close>

record list_actions_input = list_input +
  lc_conflictId :: string

definition actionRow :: "conflict_action \<times> nat \<Rightarrow> offline_error + conflict_action row" where
  "actionRow e = bindE (sortInstantOf (ca_createdAt (fst e))) (\<lambda>i. Inr ([i, pad_dec 12 (snd e)], fst e))"

definition listSyncConflictActions ::
  "scope \<Rightarrow> list_actions_input \<Rightarrow> offline_store \<Rightarrow> offline_error + conflict_action page" where
  "listSyncConflictActions sc input s =
     bindE (mapE actionRow (filter (\<lambda>(a, n). ca_tenantId a = sc_tenantId sc
        \<and> ca_conflictId a = lc_conflictId input) (st_conflictActions s)))
       (\<lambda>rows. pageOf rows 2 (li_cursor input) (li_limit input))"

subsection \<open>Conflicts\<close>

record list_conflicts_input = list_input +
  lf_status :: "conflict_status option"
  lf_conflictType :: "string option"
  lf_queueItemId :: "string option"
  lf_deviceId :: "string option"

record conflict_record = sync_conflict +
  fr_deviceId :: string
  fr_createdAt :: string

definition deviceOf :: "scope \<Rightarrow> offline_store \<Rightarrow> sync_conflict \<Rightarrow> offline_error + string" where
  "deviceOf sc s conflict =
     bindE (require TypeError (jget (st_queueItems s) (tkey (sc_tenantId sc) (cf_queueItemId conflict))))
       (\<lambda>item. Inr (qi_deviceId item))"

definition wantedConflict ::
  "scope \<Rightarrow> list_conflicts_input \<Rightarrow> offline_store \<Rightarrow> string \<times> sync_conflict \<Rightarrow> offline_error + bool" where
  "wantedConflict sc input s e = (case e of (k, conflict) \<Rightarrow>
     if startsWith k (sc_tenantId sc @ '':'') \<and> wanted (lf_status input) (cf_status conflict)
       \<and> wanted (lf_conflictType input) (cf_conflictType conflict)
       \<and> wanted (lf_queueItemId input) (cf_queueItemId conflict)
     then (case lf_deviceId input of None \<Rightarrow> Inr True
       | Some d \<Rightarrow> bindE (deviceOf sc s conflict) (\<lambda>d'. Inr (d' = d)))
     else Inr False)"

definition conflictRow ::
  "scope \<Rightarrow> offline_store \<Rightarrow> string \<times> sync_conflict \<Rightarrow> offline_error + conflict_record row" where
  "conflictRow sc s e = (let conflict = snd e in
     bindE (require RangeError (jget (st_conflictCreatedAt s) (fst e))) (\<lambda>createdAt.
     bindE (sortInstantOf createdAt) (\<lambda>i.
     bindE (deviceOf sc s conflict) (\<lambda>device.
     bindE (isoText createdAt) (\<lambda>iso.
       Inr ([i, cf_conflictId conflict],
         sync_conflict.extend (case jget (st_conflictStynx s) (fst e) of
             None \<Rightarrow> conflict | Some x \<Rightarrow> conflict\<lparr>cf_stynx := Some x\<rparr>)
           (conflict_record.fields device iso)))))))"

definition listSyncConflicts ::
  "scope \<Rightarrow> list_conflicts_input \<Rightarrow> offline_store \<Rightarrow> offline_error + conflict_record page" where
  "listSyncConflicts sc input s =
     bindE (filterE (wantedConflict sc input s) (st_conflicts s)) (\<lambda>found.
     bindE (mapE (conflictRow sc s) found) (\<lambda>rows. pageOf rows 2 (li_cursor input) (li_limit input)))"


subsection \<open>Reconciliations\<close>

definition listMaxLimit :: int where
  "listMaxLimit = 200"

definition reconciliationList :: "list_reconciliations_input \<Rightarrow> offline_error + int" where
  "reconciliationList input =
     bindE (rangeText (lci_reservationId input) 255) (\<lambda>_.
     let limit = (case lci_limit input of None \<Rightarrow> listDefaultLimit | Some n \<Rightarrow> n) in
     bindE (throwIf (\<not> isSafeInteger limit \<or> limit < 1 \<or> limit > listMaxLimit)
       (invalidInput (''limit must be an integer between 1 and '' @ dec_int listMaxLimit @ ''.''))) (\<lambda>_.
     bindE (decodeCursor (lci_cursor input) 2) (\<lambda>_. Inr limit)))"

definition reconciliationSortInstant :: "string \<Rightarrow> offline_error + string" where
  "reconciliationSortInstant v = bindE (readInstant v) (\<lambda>micros.
     if date_in_range (micros div 1000)
     then Inr (replaceZ (pad_dec 3 (nat (micros mod 1000)) @ ''Z'') (toISOString (micros div 1000)))
     else Inl RangeError)"

definition reconciliationRow :: "reconciliation_record \<Rightarrow> offline_error + reconciliation_record row" where
  "reconciliationRow rec = bindE (reconciliationSortInstant (rec_createdAt rec)) (\<lambda>i.
     Inr ([i, rec_reconciliationId rec], rec))"

definition listNumberingReconciliations ::
  "scope \<Rightarrow> list_reconciliations_input \<Rightarrow> 'a numbering_store_scheme \<Rightarrow> offline_error + reconciliation_record page" where
  "listNumberingReconciliations sc input s =
     bindE (reconciliationList input) (\<lambda>limit.
     bindE (mapE reconciliationRow (filter (\<lambda>rec. rec_tenantId rec = sc_tenantId sc
        \<and> rec_reservationId rec = lci_reservationId input) (map snd (jvalues (st_reconciliations s)))))
       (\<lambda>rows. pageOf rows 2 (lci_cursor input) (Some limit)))"

end
