(* ===== verification/Offline_Listing_Props.thy ===== *)
theory Offline_Listing_Props
  imports Offline_Listing Batch_Sequence Sync_Demo
begin

text \<open>
  The properties of listings: cursors read back, pages lose and repeat nothing, texts order as times, and a listing
  of conflicts shows the tenant's own.
\<close>

subsection \<open>Cursors\<close>

text \<open>C19. A cursor reads back as the key it was made of, for every key of well-formed Unicode texts, quotes, control
  characters and characters beyond the basic plane included, that begins with an instant.\<close>

theorem cursor_roundtrip:
  assumes "cursorKey key"
  shows "decodeCursor (Some (encodeCursor key)) (length key) = Inr (Some key)"
  using assms by (rule decode_encode)

definition demo_instant :: "int \<Rightarrow> string" where
  "demo_instant t = replaceZ ''000Z'' (toISOString t)"

lemma demo_instant:
  assumes "0 \<le> t" "t < ms_per_day"
  shows "date_parse (toISOString t) = Some t" "common_year t" "sortInstantOf (toISOString t) = Inr (demo_instant t)"
    "validInstant (demo_instant t)" "text_ok (demo_instant t)"
proof -
  have "civil_of_day 0 = (1970, 0, 1)"
    by (simp add: civil_of_day_def year_from_day_def day_from_year_def month_of_yday_def days_before_month_def
        leap_year_def Let_def)
  moreover have "t div ms_per_day = 0"
    using assms by simp
  ultimately show year: "common_year t"
    using assms by (simp add: common_year_def date_in_range_def ms_per_day_def)
  then show parse: "date_parse (toISOString t) = Some t"
    by (simp add: common_year_def date_parse_toISOString)
  then show instant: "sortInstantOf (toISOString t) = Inr (demo_instant t)"
    by (simp add: sortInstantOf_def demo_instant_def)
  show "validInstant (demo_instant t)" "text_ok (demo_instant t)"
    using sortInstantOf_valid [OF parse year] instant by auto
qed

definition demo_key :: "int \<Rightarrow> string list" where
  "demo_key t = [demo_instant t, ''q'']"

lemma demo_small: "0 \<le> n \<Longrightarrow> n < 10 \<Longrightarrow> n < ms_per_day"
  by (simp add: ms_per_day_def)

lemma demo_cursorKey: "0 \<le> t \<Longrightarrow> t < 10 \<Longrightarrow> cursorKey (demo_key t)"
  using demo_instant [of t] demo_small [of t] by (auto simp: cursorKey_def demo_key_def intro: utf8_ascii)

theorem cursor_roundtrip_witness: "decodeCursor (Some (encodeCursor (demo_key 7))) 2 = Inr (Some (demo_key 7))"
  using cursor_roundtrip [OF demo_cursorKey [of 7]] by (simp add: demo_key_def numeral_2_eq_2)

subsection \<open>Pages\<close>

text \<open>C18. A client that follows \<open>nextCursor\<close> comes to an end after at most one page per row and has then seen every
  row exactly once, in strictly descending order of the keys, whatever the page size.\<close>

theorem pages_complete:
  assumes "pageable arity rows" and "limit = None \<or> (\<exists>n. limit = Some n \<and> 1 \<le> n)"
  shows "\<exists>rs. mset rs = mset rows \<and> sorted_wrt (\<lambda>a b. compare (fst b) (fst a) < 0) rs
    \<and> allPages (Suc (length rows)) rows arity None limit = Some (map snd rs)"
proof (intro exI conjI)
  show "mset (ordered rows) = mset rows"
    by (simp add: ordered_def)
  show "sorted_wrt (\<lambda>a b. compare (fst b) (fst a) < 0) (ordered rows)"
    by (rule ordered_descending [OF assms(1)])
  have "\<exists>n. 0 < n \<and> (limit = Some (int n) \<or> limit = None \<and> n = 50)"
    using assms(2) by (cases limit) (auto dest: zero_less_imp_eq_int [OF order.strict_trans2 [OF zero_less_one]])
  then obtain n where "0 < n" "limit = Some (int n) \<or> limit = None \<and> n = 50"
    by blast
  then show "allPages (Suc (length rows)) rows arity None limit = Some (map snd (ordered rows))"
    using allPages_from [OF assms(1), of n limit None 0 "Suc (length rows)"] by simp
qed

definition demo_rows :: "string row list" where
  "demo_rows = [(demo_key 8, ''b''), (demo_key 7, ''a''), (demo_key 9, ''c'')]"

lemma demo_instant_inject: "0 \<le> t \<Longrightarrow> t < t' \<Longrightarrow> t' < 10 \<Longrightarrow> demo_instant t \<noteq> demo_instant t'"
  using sortInstantOf_order [of "toISOString t" t "toISOString t'" t'] demo_instant [of t] demo_instant [of t']
    demo_small [of t] demo_small [of t'] by (auto simp: js_less_def)

lemma demo_pageable: "pageable 2 demo_rows"
  using demo_cursorKey [of 7] demo_cursorKey [of 8] demo_cursorKey [of 9] demo_instant_inject [of 7 8]
    demo_instant_inject [of 7 9] demo_instant_inject [of 8 9]
  by (auto simp: pageable_def demo_rows_def demo_key_def)

theorem pages_complete_witness:
  "\<exists>rs. mset rs = mset demo_rows \<and> allPages 4 demo_rows 2 None (Some 2) = Some (map snd rs)"
  using pages_complete [OF demo_pageable, of "Some 2"] by (auto simp: demo_rows_def numeral_eq_Suc)

subsection \<open>Order\<close>

text \<open>C20. The instants rows are sorted by order exactly as the times they stand for, for all times of the years 0
  to 9999, so that newest first is what a listing gives.\<close>

theorem sort_instants_order_time:
  assumes "date_parse v = Some t" and "common_year t" and "date_parse v' = Some t'" and "common_year t'"
  shows "\<exists>i i'. sortInstantOf v = Inr i \<and> sortInstantOf v' = Inr i' \<and> validInstant i \<and> validInstant i'
    \<and> (js_less i i' \<longleftrightarrow> t < t')"
proof -
  obtain i i' where "sortInstantOf v = Inr i" "validInstant i" "sortInstantOf v' = Inr i'" "validInstant i'"
    using sortInstantOf_valid assms by blast
  moreover from this have "js_less i i' \<longleftrightarrow> t < t'"
    using sortInstantOf_order assms by blast
  ultimately show ?thesis by blast
qed

theorem sort_instants_order_time_witness:
  "\<exists>i i'. sortInstantOf (toISOString 7) = Inr i \<and> sortInstantOf (toISOString 8) = Inr i' \<and> js_less i i'"
  using sort_instants_order_time [OF demo_instant(1,2) [of 7] demo_instant(1,2) [of 8]] demo_small [of 7] demo_small [of 8]
  by auto

subsection \<open>Tenants\<close>

lemma slice0_subset: "set (slice0 n xs) \<subseteq> set xs"
  by (auto simp: slice0_def dest: in_set_takeD)

lemma finishPage_items: "finishPage rows limit = Inr p \<Longrightarrow> set (pg_items p) \<subseteq> set (map snd rows)"
  using slice0_subset [of limit rows] by (force simp: finishPage_def Let_def split: if_splits)

lemma pageOf_items:
  assumes "pageOf rows arity cursor limit = Inr p" "x \<in> set (pg_items p)"
  shows "\<exists>k. (k, x) \<in> set rows"
proof -
  obtain after n m where "finishPage (slice0 n (filter after (ordered rows))) m = Inr p"
    using assms(1) by (auto simp: pageOf_def Let_def)
  then have "x \<in> snd ` set (slice0 n (filter after (ordered rows)))"
    using assms(2) finishPage_items by fastforce
  then show ?thesis
    using slice0_subset [of n "filter after (ordered rows)"] by (auto simp: ordered_def)
qed

lemma conflictRow_stored:
  assumes "conflictRow sc s (k, c) = Inr (key, x)"
  shows "sync_conflict.truncate x = c\<lparr>cf_stynx := cf_stynx x\<rparr>"
    "\<exists>item. jget (st_queueItems s) (tkey (sc_tenantId sc) (cf_queueItemId c)) = Some item \<and> fr_deviceId x = qi_deviceId item"
  using assms by (auto simp: conflictRow_def deviceOf_def sync_conflict.defs conflict_record.defs Let_def
      split: option.splits)

lemma conflictRow_fields:
  assumes "conflictRow sc s (k, c) = Inr (key, x)"
  shows "cf_tenantId x = cf_tenantId c" "cf_conflictId x = cf_conflictId c" "cf_queueItemId x = cf_queueItemId c"
  using conflictRow_stored(1) [OF assms] by (cases x; cases c; simp add: sync_conflict.defs)+

lemma mapE_in: "mapE f xs = Inr ys \<Longrightarrow> x \<in> set xs \<Longrightarrow> \<exists>y \<in> set ys. f x = Inr y"
  by (induction xs arbitrary: ys) auto

text \<open>A page without a next cursor, asked for without a cursor, holds every row.\<close>

lemma pageOf_all:
  assumes "pageOf rows arity None limit = Inr p" "pg_nextCursor p = None" "(k, x) \<in> set rows"
  shows "x \<in> set (pg_items p)"
proof -
  define n where "n = (case limit of None \<Rightarrow> listDefaultLimit | Some n \<Rightarrow> n)"
  have finish: "finishPage (slice0 (n + 1) (ordered rows)) n = Inr p"
    using assms(1) by (simp add: pageOf_def decodeCursor_def n_def Let_def)
  then have short: "int (length (slice0 (n + 1) (ordered rows))) \<le> n" and
    items: "pg_items p = map snd (slice0 n (slice0 (n + 1) (ordered rows)))"
    using assms(2) by (auto simp: finishPage_def Let_def split: if_splits)
  have "0 \<le> n"
    by (rule order_trans [OF _ short]) simp
  moreover from this have "length (ordered rows) \<le> nat n"
    using short by (simp add: slice0_def min_def split: if_splits)
  ultimately have "slice0 (n + 1) (ordered rows) = ordered rows" "slice0 n (ordered rows) = ordered rows"
    by (simp_all add: slice0_def)
  then have "pg_items p = map snd (ordered rows)"
    using items by simp
  with assms(3) show ?thesis
    by (force simp: ordered_def)
qed

text \<open>The criteria of a caller, for a conflict and the device of its queue item.\<close>

definition meetsCriteria :: "list_conflicts_input \<Rightarrow> string \<Rightarrow> sync_conflict \<Rightarrow> bool" where
  "meetsCriteria input device c \<longleftrightarrow> wanted (lf_status input) (cf_status c)
     \<and> wanted (lf_conflictType input) (cf_conflictType c) \<and> wanted (lf_queueItemId input) (cf_queueItemId c)
     \<and> wanted (lf_deviceId input) device"

lemma wantedConflict_meets:
  assumes "jget (st_queueItems s) (tkey (sc_tenantId sc) (cf_queueItemId c)) = Some item"
  shows "wantedConflict sc input s (k, c) = Inr True
    \<longleftrightarrow> startsWith k (sc_tenantId sc @ '':'') \<and> meetsCriteria input (qi_deviceId item) c"
  using assms by (auto simp: wantedConflict_def meetsCriteria_def deviceOf_def wanted_def split: option.splits)

lemma conflict_keyed:
  assumes "conflicts_ok E t" "tenant_ok tenant" "jget (st_conflicts t) k = Some c" "startsWith k (tenant @ '':'')"
  shows "k = tkey tenant (cf_conflictId c)" "cf_tenantId c = tenant"
proof -
  have k: "k = tkey (cf_tenantId c) (cf_conflictId c)" "tenant_ok (cf_tenantId c)"
    using assms(1,3) unfolding conflicts_ok_def by blast+
  then show "cf_tenantId c = tenant"
    using startsWith_tkey assms(2,4) by blast
  with k(1) show "k = tkey tenant (cf_conflictId c)" by simp
qed

text \<open>C21. A listing of conflicts shows conflicts of the caller's tenant only, as they are stored but for the
  platform context, each with the device of its queue item, and only such as meet the caller's criteria on status,
  type, queue item and device, in every reachable state. A first page that has no next page shows all of them.\<close>

theorem listed_conflicts_own:
  assumes "sync_init E s" and "(sync_step E)\<^sup>*\<^sup>* s t" and "tenant_ok (sc_tenantId sc)"
    and "listSyncConflicts sc input t = Inr p"
  shows "(\<forall>x \<in> set (pg_items p). cf_tenantId x = sc_tenantId sc
      \<and> (\<exists>c item. jget (st_conflicts t) (tkey (sc_tenantId sc) (cf_conflictId x)) = Some c
        \<and> sync_conflict.truncate x = c\<lparr>cf_stynx := cf_stynx x\<rparr>
        \<and> jget (st_queueItems t) (tkey (sc_tenantId sc) (cf_queueItemId x)) = Some item
        \<and> fr_deviceId x = qi_deviceId item \<and> meetsCriteria input (qi_deviceId item) c))
    \<and> (li_cursor input = None \<longrightarrow> pg_nextCursor p = None \<longrightarrow>
        (\<forall>i c item. jget (st_conflicts t) (tkey (sc_tenantId sc) i) = Some c
          \<longrightarrow> jget (st_queueItems t) (tkey (sc_tenantId sc) (cf_queueItemId c)) = Some item
          \<longrightarrow> meetsCriteria input (qi_deviceId item) c \<longrightarrow> (\<exists>x \<in> set (pg_items p). cf_conflictId x = i)))"
proof -
  obtain found rows where f: "filterE (wantedConflict sc input t) (st_conflicts t) = Inr found"
    "mapE (conflictRow sc t) found = Inr rows" "pageOf rows 2 (li_cursor input) (li_limit input) = Inr p"
    using assms(4) by (auto simp: listSyncConflicts_def)
  have ok: "conflicts_ok E t"
    using sync_runs.reachable_inv [OF assms(1,2)] by (simp add: sync_inv_def)
  have stored: "(k, c) \<in> set (st_conflicts t) \<longleftrightarrow> jget (st_conflicts t) k = Some c" for k c
    using ok by (simp add: conflicts_ok_def in_set_jget [symmetric])
  note keyed = conflict_keyed [OF ok assms(3)]
  have "cf_tenantId x = sc_tenantId sc
      \<and> (\<exists>c item. jget (st_conflicts t) (tkey (sc_tenantId sc) (cf_conflictId x)) = Some c
        \<and> sync_conflict.truncate x = c\<lparr>cf_stynx := cf_stynx x\<rparr>
        \<and> jget (st_queueItems t) (tkey (sc_tenantId sc) (cf_queueItemId x)) = Some item
        \<and> fr_deviceId x = qi_deviceId item \<and> meetsCriteria input (qi_deviceId item) c)"
    if shown: "x \<in> set (pg_items p)" for x
  proof -
    obtain key where "(key, x) \<in> set rows"
      using pageOf_items [OF f(3) shown] by blast
    then obtain k c where c: "(k, c) \<in> set found" "conflictRow sc t (k, c) = Inr (key, x)"
      using mapE_set [OF f(2)] by auto
    then have w: "jget (st_conflicts t) k = Some c" "wantedConflict sc input t (k, c) = Inr True"
      using filterE_set [OF f(1)] by (auto simp: stored)
    obtain item where item: "jget (st_queueItems t) (tkey (sc_tenantId sc) (cf_queueItemId c)) = Some item"
        "fr_deviceId x = qi_deviceId item"
      using conflictRow_stored(2) [OF c(2)] by blast
    then have meets: "meetsCriteria input (qi_deviceId item) c" "startsWith k (sc_tenantId sc @ '':'')"
      using w(2) by (simp_all add: wantedConflict_meets)
    show ?thesis
      using keyed [OF w(1) meets(2)] w(1) conflictRow_stored(1) [OF c(2)] conflictRow_fields [OF c(2)] item meets(1)
      by (intro conjI exI [of _ c] exI [of _ item]) simp_all
  qed
  moreover have "\<exists>x \<in> set (pg_items p). cf_conflictId x = i"
    if first: "li_cursor input = None" "pg_nextCursor p = None"
      and c: "jget (st_conflicts t) (tkey (sc_tenantId sc) i) = Some c"
      and item: "jget (st_queueItems t) (tkey (sc_tenantId sc) (cf_queueItemId c)) = Some item"
      and meets: "meetsCriteria input (qi_deviceId item) c" for i c item
  proof -
    have start: "startsWith (tkey (sc_tenantId sc) i) (sc_tenantId sc @ '':'')"
      by (simp add: tkey_def)
    then have "(tkey (sc_tenantId sc) i, c) \<in> set found"
      using c meets filterE_set [OF f(1)] by (simp add: stored wantedConflict_meets [OF item])
    then obtain key x where x: "conflictRow sc t (tkey (sc_tenantId sc) i, c) = Inr (key, x)" "(key, x) \<in> set rows"
      using mapE_in [OF f(2)] by force
    have "tkey (sc_tenantId sc) i = tkey (sc_tenantId sc) (cf_conflictId c)"
      by (rule keyed(1) [OF c start])
    then have "cf_conflictId x = i"
      using conflictRow_fields(2) [OF x(1)] by (simp add: tkey_def)
    moreover have "x \<in> set (pg_items p)"
      using pageOf_all [OF _ first(2) x(2)] f(3) first(1) by simp
    ultimately show ?thesis by blast
  qed
  ultimately show ?thesis by blast
qed

definition demo_conflicts_asked :: list_conflicts_input where
  "demo_conflicts_asked = \<lparr>li_limit = None, li_cursor = None, lf_status = Some Conflict_resolved, lf_conflictType = None,
     lf_queueItemId = None, lf_deviceId = Some ''A''\<rparr>"

definition demo_listing :: "offline_error + conflict_record page" where
  "demo_listing = listSyncConflicts demo_scope demo_conflicts_asked demo_resolved"

lemma demo_listing_found: "\<not> isl demo_listing \<and> map cf_conflictId (pg_items (projr demo_listing)) = [''0'']"
  by code_simp

theorem listed_conflicts_own_witness:
  "\<exists>x. pg_items (projr demo_listing) = [x] \<and> cf_tenantId x = ''t1'' \<and> cf_status x = Conflict_resolved
    \<and> fr_deviceId x = ''A''"
proof -
  obtain x where x: "pg_items (projr demo_listing) = [x]" "cf_conflictId x = ''0''"
    using demo_listing_found by auto
  have "listSyncConflicts demo_scope demo_conflicts_asked demo_resolved = Inr (projr demo_listing)"
    using demo_listing_found by (simp add: demo_listing_def)
  note own = listed_conflicts_own [OF demo_sync_init demo_run_resolved demo_tenant this]
  then obtain c where "sync_conflict.truncate x = c\<lparr>cf_stynx := cf_stynx x\<rparr>" "cf_tenantId x = ''t1''"
      "wanted (Some Conflict_resolved) (cf_status c)" "wanted (Some ''A'') (fr_deviceId x)"
    using x(1) by (auto simp: meetsCriteria_def demo_conflicts_asked_def demo_scope_def)
  moreover from this(1) have "cf_status x = cf_status c"
    by (cases x; cases c; simp add: sync_conflict.defs)
  ultimately show ?thesis
    using x(1) by (simp add: wanted_def)
qed

end
