(* ===== verification/Jobs_Cron.thy ===== *)
theory Jobs_Cron
  imports Iso_Time
begin

text \<open>
  \<open>packages/jobs/src/cron.ts\<close>: the five-field cron expressions of job schedules and the next run after an instant.

  A parsed field is the list of its values in the order in which the \<open>Set\<close> holds them. Instants are
  milliseconds. The time zone data of \<open>Intl.DateTimeFormat\<close> is the parameter \<open>icu\<close>: which zones it knows, and the
  wall clock it shows in a zone at an instant. Instants that a \<open>Date\<close> cannot hold are \<open>Invalid Date\<close>s in the source:
  the loop over days does not run for them, and a formatter throws a \<open>RangeError\<close>.

  The loops are recursive functions: over the values of a field, over the days of the search, and the bisection of a
  change of offset, each with its measure.
\<close>

datatype cron_error = InvalidCronExpressionError string | CronRangeError

subsection \<open>Splitting\<close>

fun splitOn :: "char \<Rightarrow> string \<Rightarrow> string list" where
  "splitOn c [] = [[]]"
| "splitOn c (x # xs) = (if x = c then [] # splitOn c xs
     else case splitOn c xs of [] \<Rightarrow> [[x]] | p # ps \<Rightarrow> (x # p) # ps)"

text \<open>The runs of characters between white space, which \<open>trim().split(/\s+/)\<close> gives for a text that is not blank.\<close>

function js_words :: "nat list \<Rightarrow> nat list \<Rightarrow> nat list list" where
  "js_words w [] = (if w = [] then [] else [rev w])"
| "js_words w (c # r) =
     (if ws_width (c # r) = 0 then js_words (c # w) r
      else (if w = [] then [] else [rev w]) @ js_words [] (drop (ws_width (c # r)) (c # r)))"
  by pat_completeness auto
termination
  by (relation "measure (\<lambda>(w, s). length s)") auto

definition splitWhitespace :: "string \<Rightarrow> string list" where
  "splitWhitespace s = (case js_words [] (map of_char s) of
     [] \<Rightarrow> [[]] | ws \<Rightarrow> map (map char_of) ws)"

subsection \<open>Fields\<close>

record field_range =
  fr_min :: nat
  fr_max :: nat

definition FIELD_RANGES :: "field_range list" where
  "FIELD_RANGES = [\<lparr>fr_min = 0, fr_max = 59\<rparr>, \<lparr>fr_min = 0, fr_max = 23\<rparr>, \<lparr>fr_min = 1, fr_max = 31\<rparr>,
     \<lparr>fr_min = 1, fr_max = 12\<rparr>, \<lparr>fr_min = 0, fr_max = 6\<rparr>]"

definition allDigits :: "string \<Rightarrow> bool" where
  "allDigits s \<longleftrightarrow> s \<noteq> [] \<and> list_all is_digit s"

definition parseStep :: "string \<Rightarrow> string option \<Rightarrow> cron_error + nat" where
  "parseStep expression stepPart = (case stepPart of
     None \<Rightarrow> Inr 1
   | Some p \<Rightarrow> bindE (throwIf (\<not> allDigits p) (InvalidCronExpressionError expression)) (\<lambda>_.
       let step = digits_val p in
       bindE (throwIf (step = 0) (InvalidCronExpressionError expression)) (\<lambda>_. Inr step)))"

text \<open>\<open>/^(\d+)(?:-(\d+))?$/u\<close>: the first number and the second, where there is one.\<close>

definition rangeMatch :: "string \<Rightarrow> (nat \<times> nat option) option" where
  "rangeMatch s = (let a = takeWhile is_digit s; r = dropWhile is_digit s in
     if a = [] then None
     else (case r of
        [] \<Rightarrow> Some (digits_val a, None)
      | c # b \<Rightarrow> if c = CHR ''-'' \<and> allDigits b then Some (digits_val a, Some (digits_val b)) else None))"

definition parseBounds ::
  "string \<Rightarrow> field_range \<Rightarrow> string \<Rightarrow> string option \<Rightarrow> cron_error + nat \<times> nat" where
  "parseBounds expression rg basePart stepPart =
     (if basePart = ''*'' then Inr (fr_min rg, fr_max rg)
      else case rangeMatch basePart of
        None \<Rightarrow> Inl (InvalidCronExpressionError expression)
      | Some (start, second) \<Rightarrow> Inr (start, case second of
            Some e \<Rightarrow> e
          | None \<Rightarrow> if stepPart \<noteq> None then fr_max rg else start))"

definition addValue :: "nat \<Rightarrow> nat list \<Rightarrow> nat list" where
  "addValue v vs = (if v \<in> set vs then vs else vs @ [v])"

text \<open>\<open>for (let value = start; value <= end; value += step) values.add(value)\<close>, with a positive step.\<close>

function addSteps :: "nat \<Rightarrow> nat \<Rightarrow> nat \<Rightarrow> nat list \<Rightarrow> nat list" where
  "addSteps v e step vs =
     (if v \<le> e \<and> 0 < step then addSteps (v + step) e step (addValue v vs) else vs)"
  by pat_completeness auto
termination
  by (relation "measure (\<lambda>(v, e, step, vs). Suc e - v)") auto

declare addSteps.simps [simp del]

definition parsePart :: "field_range \<Rightarrow> string \<Rightarrow> string \<Rightarrow> nat list \<Rightarrow> cron_error + nat list" where
  "parsePart rg expression part vs =
     (let segments = splitOn (CHR ''/'') part in
      bindE (throwIf (length segments > 2 \<or> [] \<in> set segments) (InvalidCronExpressionError expression)) (\<lambda>_.
      let basePart = hd segments; stepPart = (case tl segments of [] \<Rightarrow> None | p # _ \<Rightarrow> Some p) in
      bindE (parseStep expression stepPart) (\<lambda>step.
      bindE (parseBounds expression rg basePart stepPart) (\<lambda>(start, final).
      bindE (throwIf (start < fr_min rg \<or> final > fr_max rg \<or> start > final)
        (InvalidCronExpressionError expression)) (\<lambda>_.
        Inr (addSteps start final step vs))))))"

definition parseField :: "string \<Rightarrow> field_range \<Rightarrow> string \<Rightarrow> cron_error + nat list" where
  "parseField raw rg expression = foldE (parsePart rg expression) (splitOn (CHR '','') raw) []"

record parsed_cron =
  cr_minute :: "nat list"
  cr_hour :: "nat list"
  cr_dayOfMonth :: "nat list"
  cr_month :: "nat list"
  cr_dayOfWeek :: "nat list"
  cr_dayOfMonthRestricted :: bool
  cr_dayOfWeekRestricted :: bool

definition parseCronExpression :: "string \<Rightarrow> cron_error + parsed_cron" where
  "parseCronExpression expression = (case splitWhitespace expression of
     [minuteRaw, hourRaw, domRaw, monthRaw, dowRaw] \<Rightarrow>
       bindE (parseField minuteRaw (FIELD_RANGES ! 0) expression) (\<lambda>minute.
       bindE (parseField hourRaw (FIELD_RANGES ! 1) expression) (\<lambda>hour.
       bindE (parseField domRaw (FIELD_RANGES ! 2) expression) (\<lambda>dom.
       bindE (parseField monthRaw (FIELD_RANGES ! 3) expression) (\<lambda>month.
       bindE (parseField dowRaw (FIELD_RANGES ! 4) expression) (\<lambda>dow.
         Inr \<lparr>cr_minute = minute, cr_hour = hour, cr_dayOfMonth = dom, cr_month = month, cr_dayOfWeek = dow,
           cr_dayOfMonthRestricted = (domRaw \<noteq> ''*''), cr_dayOfWeekRestricted = (dowRaw \<noteq> ''*'')\<rparr>)))))
   | _ \<Rightarrow> Inl (InvalidCronExpressionError expression))"

subsection \<open>Wall clocks\<close>

definition MINUTE_MS :: int where
  "MINUTE_MS = 60000"

definition DAY_MS :: int where
  "DAY_MS = 24 * 60 * MINUTE_MS"

definition MAX_SEARCH_MINUTES :: int where
  "MAX_SEARCH_MINUTES = 60 * 24 * 366 * 5"

record wall_minute =
  wl_year :: int
  wl_month :: int
  wl_day :: int
  wl_hour :: int
  wl_minute :: int

text \<open>\<open>Date.UTC\<close> takes the years 0 to 99 as 1900 to 1999.\<close>

definition date_UTC :: "int \<Rightarrow> int \<Rightarrow> int \<Rightarrow> int \<Rightarrow> int \<Rightarrow> int" where
  "date_UTC y m d h mi = make_day (if 0 \<le> y \<and> y \<le> 99 then 1900 + y else y) m d * DAY_MS + (h * 60 + mi) * MINUTE_MS"

definition wallTime :: "wall_minute \<Rightarrow> int" where
  "wallTime w = date_UTC (wl_year w) (wl_month w - 1) (wl_day w) (wl_hour w) (wl_minute w)"

definition utcWall :: "int \<Rightarrow> wall_minute" where
  "utcWall t = (case civil_of_day (t div DAY_MS) of (y, m, d) \<Rightarrow>
     \<lparr>wl_year = y, wl_month = m + 1, wl_day = d, wl_hour = t mod DAY_MS div 3600000,
      wl_minute = t mod DAY_MS div MINUTE_MS mod 60\<rparr>)"

text \<open>\<open>set.has(n)\<close>.\<close>

definition has :: "nat list \<Rightarrow> int \<Rightarrow> bool" where
  "has vs n \<longleftrightarrow> n \<in> int ` set vs"

definition matchesDay :: "parsed_cron \<Rightarrow> wall_minute \<Rightarrow> bool" where
  "matchesDay parsed w \<longleftrightarrow>
     (let domMatches = has (cr_dayOfMonth parsed) (wl_day w);
          dowMatches = has (cr_dayOfWeek parsed) (week_day (wallTime w div DAY_MS))
      in if cr_dayOfMonthRestricted parsed \<and> cr_dayOfWeekRestricted parsed
         then domMatches \<or> dowMatches else domMatches \<and> dowMatches)"

definition matches :: "parsed_cron \<Rightarrow> wall_minute \<Rightarrow> bool" where
  "matches parsed w \<longleftrightarrow>
     (let domMatches = has (cr_dayOfMonth parsed) (wl_day w);
          dowMatches = has (cr_dayOfWeek parsed) (week_day (wallTime w div DAY_MS));
          dayMatches = (if cr_dayOfMonthRestricted parsed \<and> cr_dayOfWeekRestricted parsed
            then domMatches \<or> dowMatches else domMatches \<and> dowMatches)
      in has (cr_minute parsed) (wl_minute w) \<and> has (cr_hour parsed) (wl_hour w)
         \<and> has (cr_month parsed) (wl_month w) \<and> dayMatches)"

record icu =
  icu_supported :: "string \<Rightarrow> bool"
  icu_wall :: "string \<Rightarrow> int \<Rightarrow> wall_minute"

definition timezoneFormatter :: "icu \<Rightarrow> string \<Rightarrow> string \<Rightarrow> cron_error + (int \<Rightarrow> wall_minute)" where
  "timezoneFormatter I timezone expression =
     bindE (throwIf (timezone \<noteq> ''UTC'' \<and> CHR ''/'' \<notin> set timezone
         \<or> prefix ''Etc/GMT+'' timezone \<or> prefix ''Etc/GMT-'' timezone \<or> \<not> icu_supported I timezone)
       (InvalidCronExpressionError expression)) (\<lambda>_. Inr (icu_wall I timezone))"


subsection \<open>The search\<close>

text \<open>\<open>formatter ? wallMinute(new Date(time), formatter) : utcWall(new Date(time))\<close>.\<close>

definition wallAt :: "(int \<Rightarrow> wall_minute) option \<Rightarrow> int \<Rightarrow> wall_minute" where
  "wallAt formatter t = (case formatter of None \<Rightarrow> utcWall t | Some f \<Rightarrow> f t)"

text \<open>The first minute after \<open>low\<close> at which the offset is another one, by bisection.\<close>

function bisect :: "(int \<Rightarrow> int) \<Rightarrow> int \<Rightarrow> int \<Rightarrow> int \<Rightarrow> int" where
  "bisect offsetAt previousOffset low high =
     (if high - low > 1 then
        (let middle = (low + high) div 2 in
         if offsetAt (middle * MINUTE_MS) = previousOffset then bisect offsetAt previousOffset middle high
         else bisect offsetAt previousOffset low middle)
      else high)"
  by pat_completeness auto
termination
  by (relation "measure (\<lambda>(f, p, low, high). nat (high - low))") auto

declare bisect.simps [simp del]

record transition =
  tr_at :: int
  tr_before :: int
  tr_after :: int

record probe_state =
  ps_previousTime :: int
  ps_previousOffset :: int
  ps_offsets :: "int list"
  ps_transitions :: "transition list"

definition addOffset :: "int \<Rightarrow> int list \<Rightarrow> int list" where
  "addOffset v vs = (if v \<in> set vs then vs else vs @ [v])"

definition probeStep :: "(int \<Rightarrow> int) \<Rightarrow> int \<Rightarrow> probe_state \<Rightarrow> probe_state" where
  "probeStep offsetAt probe ps =
     (let currentOffset = offsetAt probe;
          ts = (if currentOffset \<noteq> ps_previousOffset ps
            then ps_transitions ps @ [\<lparr>tr_at = bisect offsetAt (ps_previousOffset ps) (ps_previousTime ps div MINUTE_MS)
                (probe div MINUTE_MS) * MINUTE_MS, tr_before = ps_previousOffset ps, tr_after = currentOffset\<rparr>]
            else ps_transitions ps)
      in \<lparr>ps_previousTime = probe, ps_previousOffset = currentOffset,
          ps_offsets = addOffset currentOffset (ps_offsets ps), ps_transitions = ts\<rparr>)"

definition probeDay :: "(int \<Rightarrow> wall_minute) \<Rightarrow> int \<Rightarrow> probe_state" where
  "probeDay f dayTime =
     (let windowStart = dayTime - DAY_MS;
          offsetAt = (\<lambda>time. wallTime (f time) - time)
      in fold (probeStep offsetAt) (map (\<lambda>k. windowStart + int k * (6 * 60 * MINUTE_MS)) [1..<13])
           \<lparr>ps_previousTime = windowStart, ps_previousOffset = offsetAt windowStart,
            ps_offsets = [offsetAt windowStart], ps_transitions = []\<rparr>)"

text \<open>The later of the instants that show a wall time; the earlier of two candidates.\<close>

definition laterOf ::
  "(int \<Rightarrow> wall_minute) option \<Rightarrow> int \<Rightarrow> int \<Rightarrow> int \<Rightarrow> int \<Rightarrow> int option \<Rightarrow> int option" where
  "laterOf formatter first latest lcl offset later =
     (let time = lcl - offset in
      if time < first \<or> time > latest then later
      else if wallTime (wallAt formatter time) = lcl \<and> (case later of None \<Rightarrow> True | Some l \<Rightarrow> time > l)
      then Some time else later)"

definition earlier :: "int option \<Rightarrow> int option \<Rightarrow> int option" where
  "earlier candidate best = (case candidate of None \<Rightarrow> best
     | Some c \<Rightarrow> (case best of None \<Rightarrow> Some c | Some b \<Rightarrow> if c < b then Some c else best))"

definition bestOfDay ::
  "parsed_cron \<Rightarrow> (int \<Rightarrow> wall_minute) option \<Rightarrow> int \<Rightarrow> int \<Rightarrow> wall_minute \<Rightarrow> int list \<Rightarrow> int option" where
  "bestOfDay parsed formatter first latest day offsets =
     fold (\<lambda>hour best. fold (\<lambda>minute best.
        let lcl = wallTime (day\<lparr>wl_hour := int hour, wl_minute := int minute\<rparr>)
        in earlier (fold (laterOf formatter first latest lcl) offsets None) best)
       (sort (cr_minute parsed)) best) (sort (cr_hour parsed)) None"

text \<open>The minutes a forward jump skips, up to the first that matches on this date.\<close>

function missingMatch :: "parsed_cron \<Rightarrow> wall_minute \<Rightarrow> int \<Rightarrow> int \<Rightarrow> bool" where
  "missingMatch parsed day missing until =
     (if missing < until then
        (let w = utcWall missing in
         if wl_year w = wl_year day \<and> wl_month w = wl_month day \<and> wl_day w = wl_day day \<and> matches parsed w
         then True else missingMatch parsed day (missing + MINUTE_MS) until)
      else False)"
  by pat_completeness auto
termination
  by (relation "measure (\<lambda>(p, d, m, u). nat (u - m))") (auto simp: MINUTE_MS_def)

declare missingMatch.simps [simp del]

definition jump ::
  "parsed_cron \<Rightarrow> wall_minute \<Rightarrow> int \<Rightarrow> int \<Rightarrow> transition \<Rightarrow> int option \<Rightarrow> int option" where
  "jump parsed day first latest t best =
     (if tr_after t \<le> tr_before t \<or> tr_at t < first \<or> tr_at t > latest then best
      else if missingMatch parsed day (tr_at t + tr_before t) (tr_at t + tr_after t)
        \<and> (case best of None \<Rightarrow> True | Some b \<Rightarrow> tr_at t < b)
      then Some (tr_at t) else best)"

definition searchDay ::
  "parsed_cron \<Rightarrow> (int \<Rightarrow> wall_minute) option \<Rightarrow> int \<Rightarrow> int \<Rightarrow> int \<Rightarrow> cron_error + int option" where
  "searchDay parsed formatter first latest dayTime =
     (let day = utcWall dayTime in
      if \<not> has (cr_month parsed) (wl_month day) \<or> \<not> matchesDay parsed day then Inr None
      else case formatter of
        None \<Rightarrow> Inr (bestOfDay parsed None first latest day [0])
      | Some f \<Rightarrow>
          if date_in_range (dayTime - DAY_MS) \<and> date_in_range (dayTime + 2 * DAY_MS)
          then (let ps = probeDay f dayTime
                in Inr (fold (jump parsed day first latest) (ps_transitions ps)
                     (bestOfDay parsed formatter first latest day (ps_offsets ps))))
          else Inl CronRangeError)"

function searchDays ::
  "string \<Rightarrow> (int \<Rightarrow> cron_error + int option) \<Rightarrow> int \<Rightarrow> int \<Rightarrow> cron_error + int" where
  "searchDays expression search dayTime lastDay =
     (if dayTime \<le> lastDay then
        bindE (search dayTime) (\<lambda>best. case best of
           Some t \<Rightarrow> Inr t
         | None \<Rightarrow> searchDays expression search (dayTime + DAY_MS) lastDay)
      else Inl (InvalidCronExpressionError expression))"
  by pat_completeness auto
termination
  by (relation "measure (\<lambda>(e, s, d, l). nat (l + 1 - d))") (auto simp: DAY_MS_def MINUTE_MS_def)

declare searchDays.simps [simp del]

definition dayOf :: "wall_minute \<Rightarrow> int" where
  "dayOf w = date_UTC (wl_year w) (wl_month w - 1) (wl_day w) 0 0"

definition firstMinute :: "int \<Rightarrow> int" where
  "firstMinute after = after div MINUTE_MS * MINUTE_MS + MINUTE_MS"

definition nextCronRunAt :: "icu \<Rightarrow> string \<Rightarrow> int \<Rightarrow> string \<Rightarrow> cron_error + int" where
  "nextCronRunAt I expression after timezone =
     bindE (parseCronExpression expression) (\<lambda>parsed.
     bindE (if timezone = ''UTC'' then Inr None
            else bindE (timezoneFormatter I timezone expression) (\<lambda>f. Inr (Some f))) (\<lambda>formatter.
     let first = firstMinute after;
         latest = first + (MAX_SEARCH_MINUTES - 1) * MINUTE_MS
     in if \<not> date_in_range first \<or> \<not> date_in_range latest
        then Inl (case formatter of None \<Rightarrow> InvalidCronExpressionError expression | Some _ \<Rightarrow> CronRangeError)
        else
          let firstDay = dayOf (wallAt formatter first); lastDay = dayOf (wallAt formatter latest)
          in if \<not> date_in_range firstDay \<or> \<not> date_in_range lastDay then Inl (InvalidCronExpressionError expression)
             else searchDays expression (searchDay parsed formatter first latest) firstDay lastDay))"

end
