(* ===== verification/Jobs_Cron_Props.thy ===== *)
theory Jobs_Cron_Props
  imports Jobs_Cron
begin

text \<open>
  The properties of cron schedules: what a parsed expression holds, and that the search by calendar days gives, in
  UTC, the least matching minute after an instant, or none exists in the five years it looks ahead.
\<close>

subsection \<open>Values of a field\<close>

lemma set_addSteps: "0 < step \<Longrightarrow>
    set (addSteps v e step vs) = set vs \<union> {x. v \<le> x \<and> x \<le> e \<and> (x - v) mod step = 0}"
proof (induction v e step vs rule: addSteps.induct)
  case (1 v e step vs)
  show ?case
  proof (cases "v \<le> e")
    case True
    have "{x. v \<le> x \<and> x \<le> e \<and> (x - v) mod step = 0}
        = insert v {x. v + step \<le> x \<and> x \<le> e \<and> (x - (v + step)) mod step = 0}" (is "?l = ?r")
    proof (intro set_eqI iffI)
      fix x assume "x \<in> ?l"
      then have x: "v \<le> x" "x \<le> e" "(x - v) mod step = 0" by auto
      show "x \<in> ?r"
      proof (cases "x = v")
        case False
        with x have "step \<le> x - v"
          by (metis diff_is_0_eq' dvd_imp_le le_antisym mod_0_imp_dvd zero_less_diff linorder_not_le)
        then have "(x - v) mod step = (x - (v + step)) mod step"
          by (metis diff_diff_left le_mod_geq)
        with x \<open>step \<le> x - v\<close> show ?thesis by auto
      qed simp
    next
      fix x assume "x \<in> ?r"
      then show "x \<in> ?l"
        using True 1(2) by (auto simp: le_mod_geq diff_diff_add)
    qed
    then show ?thesis
      using True 1 by (subst addSteps.simps) (auto simp: addValue_def)
  qed (subst addSteps.simps, auto)
qed

lemma distinct_addSteps: "distinct vs \<Longrightarrow> distinct (addSteps v e step vs)"
proof (induction v e step vs rule: addSteps.induct)
  case (1 v e step vs)
  then show ?case
    by (subst addSteps.simps) (simp add: addValue_def)
qed

definition field_ok :: "field_range \<Rightarrow> nat list \<Rightarrow> bool" where
  "field_ok rg vs \<longleftrightarrow> distinct vs \<and> (\<forall>v \<in> set vs. fr_min rg \<le> v \<and> v \<le> fr_max rg)"

lemma parsePart_ok:
  assumes "parsePart rg expression part vs = Inr ws" "field_ok rg vs"
  shows "field_ok rg ws \<and> ws \<noteq> []"
proof -
  obtain step start final where p: "0 < step" "fr_min rg \<le> start" "final \<le> fr_max rg" "start \<le> final"
    "ws = addSteps start final step vs"
    using assms(1) by (fastforce simp: parsePart_def parseStep_def Let_def not_less split: option.splits if_splits)
  then have "set ws = set vs \<union> {x. start \<le> x \<and> x \<le> final \<and> (x - start) mod step = 0}" "distinct ws"
    using assms(2) by (simp_all add: set_addSteps distinct_addSteps field_ok_def)
  moreover have "start \<in> {x. start \<le> x \<and> x \<le> final \<and> (x - start) mod step = 0}"
    using p by simp
  ultimately show ?thesis
    using assms(2) p by (auto simp: field_ok_def)
qed

lemma splitOn_not_Nil [simp]: "splitOn c s \<noteq> []"
  by (cases s) (auto split: list.split)

lemma parseField_ok:
  assumes "parseField raw rg expression = Inr vs"
  shows "field_ok rg vs \<and> vs \<noteq> []"
proof -
  have parts: "field_ok rg ws \<and> ws \<noteq> []"
    if "foldE (parsePart rg expression) ps vs = Inr ws" "field_ok rg vs" "ps \<noteq> [] \<or> vs \<noteq> []" for ps vs ws
    using that
  proof (induction ps arbitrary: vs)
    case (Cons p ps)
    then obtain us where "parsePart rg expression p vs = Inr us" "foldE (parsePart rg expression) ps us = Inr ws"
      by auto
    then show ?case
      using Cons.IH parsePart_ok Cons.prems(2) by blast
  qed simp
  show ?thesis
    using assms unfolding parseField_def by (rule parts) (simp_all add: field_ok_def)
qed

definition cron_ok :: "parsed_cron \<Rightarrow> bool" where
  "cron_ok p \<longleftrightarrow> field_ok (FIELD_RANGES ! 0) (cr_minute p) \<and> field_ok (FIELD_RANGES ! 1) (cr_hour p)
     \<and> field_ok (FIELD_RANGES ! 2) (cr_dayOfMonth p) \<and> field_ok (FIELD_RANGES ! 3) (cr_month p)
     \<and> field_ok (FIELD_RANGES ! 4) (cr_dayOfWeek p)
     \<and> cr_minute p \<noteq> [] \<and> cr_hour p \<noteq> [] \<and> cr_dayOfMonth p \<noteq> [] \<and> cr_month p \<noteq> [] \<and> cr_dayOfWeek p \<noteq> []"

lemma parse_cron_ok: "parseCronExpression e = Inr p \<Longrightarrow> cron_ok p"
  unfolding parseCronExpression_def
  by (auto split: list.splits dest!: parseField_ok simp: cron_ok_def)

lemma cron_ok_bounds:
  "cron_ok p \<Longrightarrow> h \<in> set (cr_hour p) \<Longrightarrow> h < 24" "cron_ok p \<Longrightarrow> m \<in> set (cr_minute p) \<Longrightarrow> m < 60"
  by (auto simp: cron_ok_def field_ok_def FIELD_RANGES_def)


subsection \<open>The UTC wall clock\<close>

lemma day_minute: "DAY_MS = 1440 * MINUTE_MS" "MINUTE_MS = 60000" "DAY_MS = 86400000"
  by (simp_all add: DAY_MS_def MINUTE_MS_def)

lemma year_after_epoch:
  assumes "0 \<le> d" "civil_of_day d = (y, m, n)"
  shows "1970 \<le> y"
proof (rule ccontr)
  assume "\<not> 1970 \<le> y"
  moreover have "y = year_from_day d"
    using assms(2) by (simp add: civil_of_day_def Let_def)
  ultimately have "d < day_from_year 1970"
    using year_from_day(2) [of d] day_from_year_mono [of "y + 1" 1970] by (cases "y + 1 = 1970") auto
  then show False
    using assms(1) by (simp add: day_from_year_def)
qed

text \<open>A minute of a day of 1970 or later.\<close>

definition at_minute :: "int \<Rightarrow> int \<Rightarrow> int \<Rightarrow> int" where
  "at_minute day h m = day * DAY_MS + (h * 60 + m) * MINUTE_MS"

lemma at_minute_parts:
  assumes "0 \<le> h" "h < 24" "0 \<le> m" "m < 60"
  shows "at_minute day h m div DAY_MS = day" "at_minute day h m mod DAY_MS = (h * 60 + m) * MINUTE_MS"
    "(h * 60 + m) * MINUTE_MS div 3600000 = h" "(h * 60 + m) * MINUTE_MS div MINUTE_MS mod 60 = m"
proof -
  have b: "0 \<le> (h * 60 + m) * MINUTE_MS" "(h * 60 + m) * MINUTE_MS < DAY_MS"
    using assms by (simp_all add: day_minute)
  then show d: "at_minute day h m div DAY_MS = day" "at_minute day h m mod DAY_MS = (h * 60 + m) * MINUTE_MS"
    by (simp_all add: at_minute_def)
  have "(h * 60 + m) * MINUTE_MS = h * 3600000 + m * MINUTE_MS" "m * MINUTE_MS < 3600000" "0 \<le> m * MINUTE_MS"
    using assms by (simp_all add: day_minute)
  then show "(h * 60 + m) * MINUTE_MS div 3600000 = h"
    by simp
  show "(h * 60 + m) * MINUTE_MS div MINUTE_MS mod 60 = m"
    using assms by (simp add: day_minute(2))
qed

lemma utcWall_at_minute:
  assumes "civil_of_day day = (y, mo, d)" "0 \<le> h" "h < 24" "0 \<le> m" "m < 60"
  shows "utcWall (at_minute day h m) =
    \<lparr>wl_year = y, wl_month = mo + 1, wl_day = d, wl_hour = h, wl_minute = m\<rparr>"
  by (simp only: utcWall_def at_minute_parts [OF assms(2-)] assms(1) prod.case)

lemma wallTime_at_minute:
  assumes "0 \<le> day" "civil_of_day day = (y, mo, d)"
  shows "wallTime \<lparr>wl_year = y, wl_month = mo + 1, wl_day = d, wl_hour = h, wl_minute = m\<rparr> = at_minute day h m"
  using year_after_epoch [OF assms] make_day_of_civil(2) [OF assms(2)]
  by (simp add: wallTime_def date_UTC_def at_minute_def)

text \<open>Every whole minute is of this form.\<close>

lemma minute_cases:
  assumes "t mod MINUTE_MS = 0"
  obtains h m where "0 \<le> h" "h < 24" "0 \<le> m" "m < 60" "t = at_minute (t div DAY_MS) h m"
proof -
  define k where "k = t mod DAY_MS div MINUTE_MS"
  have t: "t = t div DAY_MS * DAY_MS + t mod DAY_MS"
    by simp
  have "t mod DAY_MS mod MINUTE_MS = 0"
    using assms by (metis day_minute(1) dvd_triv_right mod_mod_cancel)
  then have r: "t mod DAY_MS = k * MINUTE_MS"
    unfolding k_def by (metis add.right_neutral div_mult_mod_eq)
  moreover have "0 \<le> t mod DAY_MS" "t mod DAY_MS < DAY_MS"
    by (simp_all add: day_minute)
  ultimately have k: "0 \<le> k" "k < 1440"
    by (simp_all add: day_minute)
  show ?thesis
  proof (rule that)
    show "0 \<le> k div 60" "k div 60 < 24" "0 \<le> k mod 60" "k mod 60 < 60"
      using k by simp_all
    show "t = at_minute (t div DAY_MS) (k div 60) (k mod 60)"
      using t r by (simp add: at_minute_def)
  qed
qed

definition runsAt :: "parsed_cron \<Rightarrow> int \<Rightarrow> bool" where
  "runsAt parsed t \<longleftrightarrow> t mod MINUTE_MS = 0 \<and> matches parsed (utcWall t)"

definition dayRuns :: "parsed_cron \<Rightarrow> int \<Rightarrow> bool" where
  "dayRuns parsed day \<longleftrightarrow> has (cr_month parsed) (wl_month (utcWall (day * DAY_MS)))
     \<and> matchesDay parsed (utcWall (day * DAY_MS))"

lemma day_start: "day * DAY_MS = at_minute day 0 0"
  by (simp add: at_minute_def)

lemma matches_at_minute:
  assumes "0 \<le> day" "0 \<le> h" "h < 24" "0 \<le> m" "m < 60"
  shows "matches parsed (utcWall (at_minute day h m)) \<longleftrightarrow>
    has (cr_hour parsed) h \<and> has (cr_minute parsed) m \<and> dayRuns parsed day"
proof -
  obtain y mo d where c: "civil_of_day day = (y, mo, d)"
    by (metis prod_cases3)
  have w: "wallTime \<lparr>wl_year = y, wl_month = mo + 1, wl_day = d, wl_hour = h', wl_minute = m'\<rparr> div DAY_MS = day"
    if "0 \<le> h'" "h' < 24" "0 \<le> m'" "m' < 60" for h' m'
    using that by (simp add: wallTime_at_minute [OF assms(1) c] at_minute_parts)
  have w0: "utcWall (day * DAY_MS) = \<lparr>wl_year = y, wl_month = mo + 1, wl_day = d, wl_hour = 0, wl_minute = 0\<rparr>"
    unfolding day_start by (rule utcWall_at_minute [OF c]) simp_all
  show ?thesis
    unfolding utcWall_at_minute [OF c assms(2-)] dayRuns_def w0
    using w [OF assms(2-)] w [of 0 0] by (auto simp: matches_def matchesDay_def Let_def)
qed

lemma at_minute_mod: "at_minute day h m mod MINUTE_MS = 0"
  by (simp add: at_minute_def day_minute)


subsection \<open>The best minute of a day\<close>

lemma fold_earlier:
  "fold earlier cs b = None \<longleftrightarrow> b = None \<and> (\<forall>c \<in> set cs. c = None)"
  "fold earlier cs b = Some t \<Longrightarrow> Some t \<in> insert b (set cs) \<and> (\<forall>u. Some u \<in> insert b (set cs) \<longrightarrow> t \<le> u)"
proof (induction cs arbitrary: b)
  case (Cons c cs)
  {
    case 1
    show ?case
      using Cons.IH(1) [of "earlier c b"] by (auto simp: earlier_def split: option.splits if_splits)
  next
    case 2
    then have t: "Some t \<in> insert (earlier c b) (set cs)" "\<And>u. Some u \<in> insert (earlier c b) (set cs) \<Longrightarrow> t \<le> u"
      using Cons.IH(2) [of "earlier c b"] by auto
    have e: "earlier c b \<in> {c, b}" "\<And>u. Some u \<in> {c, b} \<Longrightarrow> \<exists>v \<le> u. earlier c b = Some v"
      by (auto simp: earlier_def split: option.splits)
    have "t \<le> u" if "Some u \<in> insert b (set (c # cs))" for u
    proof (cases "Some u \<in> set cs")
      case False
      with that e(2) [of u] obtain v where "v \<le> u" "earlier c b = Some v"
        by auto
      with t(2) [of v] show ?thesis by simp
    qed (use t(2) in simp)
    moreover have "Some t \<in> insert b (set (c # cs))"
      using t(1) e(1) by auto
    ultimately show ?case by blast
  }
qed auto

lemma fold_nested:
  "fold (\<lambda>x b. fold (\<lambda>y b. f (g x y) b) ys b) xs b = fold f (concat (map (\<lambda>x. map (g x) ys) xs)) b"
  by (induction xs arbitrary: b) (simp_all add: fold_map comp_def)

definition candidate :: "int \<Rightarrow> int \<Rightarrow> int \<Rightarrow> nat \<Rightarrow> nat \<Rightarrow> int option" where
  "candidate first latest day h m = (let t = at_minute day (int h) (int m) in
     if first \<le> t \<and> t \<le> latest then Some t else None)"

lemma bestOfDay_utc:
  assumes "0 \<le> day" "cron_ok p"
  shows "bestOfDay p None first latest (utcWall (day * DAY_MS)) [0] =
    fold earlier (concat (map (\<lambda>h. map (candidate first latest day h) (sort (cr_minute p))) (sort (cr_hour p)))) None"
proof -
  obtain y mo d where c: "civil_of_day day = (y, mo, d)"
    by (metis prod_cases3)
  have w0: "utcWall (day * DAY_MS) = \<lparr>wl_year = y, wl_month = mo + 1, wl_day = d, wl_hour = 0, wl_minute = 0\<rparr>"
    unfolding day_start by (rule utcWall_at_minute [OF c]) simp_all
  have cand: "fold (laterOf None first latest (wallTime ((utcWall (day * DAY_MS))\<lparr>wl_hour := int h, wl_minute := int m\<rparr>))) [0] None
      = candidate first latest day h m" if "h < 24" "m < 60" for h m
    using that by (auto simp: w0 wallTime_at_minute [OF assms(1) c] laterOf_def wallAt_def candidate_def Let_def
        utcWall_at_minute [OF c])
  have "fold (\<lambda>minute best. earlier (fold (laterOf None first latest
          (wallTime ((utcWall (day * DAY_MS))\<lparr>wl_hour := int h, wl_minute := int minute\<rparr>))) [0] None) best)
        (sort (cr_minute p)) b = fold (\<lambda>minute. earlier (candidate first latest day h minute)) (sort (cr_minute p)) b"
    if "h < 24" for h b
    using that cand cron_ok_bounds(2) [OF assms(2)] by (intro fold_cong) auto
  then have "bestOfDay p None first latest (utcWall (day * DAY_MS)) [0] =
      fold (\<lambda>h b. fold (\<lambda>m b. earlier (candidate first latest day h m) b) (sort (cr_minute p)) b) (sort (cr_hour p)) None"
    using cron_ok_bounds(1) [OF assms(2)] unfolding bestOfDay_def Let_def by (intro fold_cong) auto
  then show ?thesis
    by (simp only: fold_nested)
qed

lemma candidate_runs:
  assumes "0 \<le> day" "cron_ok p" "dayRuns p day"
  shows "Some t \<in> set (concat (map (\<lambda>h. map (candidate first latest day h) (sort (cr_minute p))) (sort (cr_hour p))))
    \<longleftrightarrow> runsAt p t \<and> t div DAY_MS = day \<and> first \<le> t \<and> t \<le> latest"
proof
  assume "Some t \<in> set (concat (map (\<lambda>h. map (candidate first latest day h) (sort (cr_minute p))) (sort (cr_hour p))))"
  then obtain h m where hm: "h \<in> set (cr_hour p)" "m \<in> set (cr_minute p)" "candidate first latest day h m = Some t"
    by fastforce
  then have b: "h < 24" "m < 60"
    using cron_ok_bounds [OF assms(2)] by blast+
  then show "runsAt p t \<and> t div DAY_MS = day \<and> first \<le> t \<and> t \<le> latest"
    using hm assms by (auto simp: candidate_def Let_def runsAt_def at_minute_mod matches_at_minute at_minute_parts has_def
        split: if_splits)
next
  assume r: "runsAt p t \<and> t div DAY_MS = day \<and> first \<le> t \<and> t \<le> latest"
  then obtain h m where hm: "0 \<le> h" "h < 24" "0 \<le> m" "m < 60" "t = at_minute day h m"
    using minute_cases [of t] unfolding runsAt_def by metis
  then have "has (cr_hour p) h" "has (cr_minute p) m"
    using r matches_at_minute [OF assms(1) hm(1-4)] by (auto simp: runsAt_def)
  then obtain h' m' where "h' \<in> set (cr_hour p)" "m' \<in> set (cr_minute p)" "h = int h'" "m = int m'"
    by (auto simp: has_def)
  moreover from this have "candidate first latest day h' m' = Some t"
    using r hm(5) by (simp add: candidate_def)
  ultimately show "Some t \<in> set (concat (map (\<lambda>h. map (candidate first latest day h) (sort (cr_minute p))) (sort (cr_hour p))))"
    by force
qed

lemma searchDay_utc:
  assumes "0 \<le> day" "cron_ok p"
  shows "(\<exists>r. searchDay p None first latest (day * DAY_MS) = Inr r)"
    "searchDay p None first latest (day * DAY_MS) = Inr None \<Longrightarrow> runsAt p u \<Longrightarrow> u div DAY_MS = day
      \<Longrightarrow> first \<le> u \<Longrightarrow> u \<le> latest \<Longrightarrow> False"
    "searchDay p None first latest (day * DAY_MS) = Inr (Some t) \<Longrightarrow>
      runsAt p t \<and> t div DAY_MS = day \<and> first \<le> t \<and> t \<le> latest
      \<and> (\<forall>u. runsAt p u \<and> u div DAY_MS = day \<and> first \<le> u \<and> u \<le> latest \<longrightarrow> t \<le> u)"
proof -
  let ?cs = "concat (map (\<lambda>h. map (candidate first latest day h) (sort (cr_minute p))) (sort (cr_hour p)))"
  have search: "searchDay p None first latest (day * DAY_MS) = (if dayRuns p day then Inr (fold earlier ?cs None) else Inr None)"
    unfolding searchDay_def Let_def dayRuns_def bestOfDay_utc [OF assms] by simp
  then show "\<exists>r. searchDay p None first latest (day * DAY_MS) = Inr r"
    by simp
  have no: "dayRuns p day" if "runsAt p u" "u div DAY_MS = day" for u
    using that assms(1) minute_cases [of u] unfolding runsAt_def by (metis matches_at_minute)
  show "searchDay p None first latest (day * DAY_MS) = Inr None \<Longrightarrow> runsAt p u \<Longrightarrow> u div DAY_MS = day
      \<Longrightarrow> first \<le> u \<Longrightarrow> u \<le> latest \<Longrightarrow> False"
    using no [of u] candidate_runs [OF assms, of u first latest] fold_earlier(1) [of ?cs None] search by fastforce
  show "searchDay p None first latest (day * DAY_MS) = Inr (Some t) \<Longrightarrow>
      runsAt p t \<and> t div DAY_MS = day \<and> first \<le> t \<and> t \<le> latest
      \<and> (\<forall>u. runsAt p u \<and> u div DAY_MS = day \<and> first \<le> u \<and> u \<le> latest \<longrightarrow> t \<le> u)"
    using candidate_runs [OF assms, of _ first latest] fold_earlier(2) [of ?cs None t] search by (auto split: if_splits)
qed


subsection \<open>The days of the search\<close>

lemma searchDays_utc:
  assumes "cron_ok p" "0 \<le> day"
    and "\<And>u. runsAt p u \<Longrightarrow> first \<le> u \<Longrightarrow> u \<le> latest \<Longrightarrow> day \<le> u div DAY_MS"
  shows "case searchDays e (searchDay p None first latest) (day * DAY_MS) (lastDay * DAY_MS) of
     Inr t \<Rightarrow> runsAt p t \<and> first \<le> t \<and> t \<le> latest \<and> (\<forall>u. runsAt p u \<and> first \<le> u \<and> u \<le> latest \<longrightarrow> t \<le> u)
   | Inl err \<Rightarrow> err = InvalidCronExpressionError e
       \<and> (\<forall>u. runsAt p u \<and> first \<le> u \<and> u \<le> latest \<longrightarrow> lastDay < u div DAY_MS)"
  using assms(2,3)
proof (induction "nat (lastDay + 1 - day)" arbitrary: day)
  case 0
  then have "lastDay < day" by simp
  moreover from this have "\<not> day * DAY_MS \<le> lastDay * DAY_MS"
    by (simp add: day_minute)
  ultimately show ?case
    using 0(3) by (subst searchDays.simps) force
next
  case (Suc n)
  then have le: "day * DAY_MS \<le> lastDay * DAY_MS"
    by (simp add: day_minute)
  obtain r where r: "searchDay p None first latest (day * DAY_MS) = Inr r"
    using searchDay_utc(1) [OF Suc.prems(1) assms(1)] by blast
  show ?case
  proof (cases r)
    case None
    have next_day: "(day + 1) * DAY_MS = day * DAY_MS + DAY_MS"
      by (simp add: algebra_simps)
    have later: "day + 1 \<le> u div DAY_MS" if "runsAt p u" "first \<le> u" "u \<le> latest" for u
      using Suc.prems(2) [OF that] searchDay_utc(2) [OF Suc.prems(1) assms(1) r [unfolded None], of u] that
      by (cases "u div DAY_MS = day") auto
    have "searchDays e (searchDay p None first latest) (day * DAY_MS) (lastDay * DAY_MS)
        = searchDays e (searchDay p None first latest) ((day + 1) * DAY_MS) (lastDay * DAY_MS)"
      using le r None unfolding next_day by (subst searchDays.simps) simp
    then show ?thesis
      using Suc.hyps(1) [of "day + 1"] Suc.hyps(2) Suc.prems(1) later by simp
  next
    case (Some t)
    note found = searchDay_utc(3) [OF Suc.prems(1) assms(1) r [unfolded Some]]
    have "t \<le> u" if u: "runsAt p u" "first \<le> u" "u \<le> latest" for u
    proof (cases "u div DAY_MS = day")
      case False
      then have "t div DAY_MS < u div DAY_MS"
        using Suc.prems(2) [OF u] found by simp
      then show ?thesis
        using zdiv_mono1 [of u t DAY_MS] by (force simp: day_minute)
    qed (use found u in blast)
    then show ?thesis
      using le r Some found by (subst searchDays.simps) simp
  qed
qed

lemma dayOf_utc:
  assumes "0 \<le> t"
  shows "dayOf (utcWall t) = t div DAY_MS * DAY_MS"
proof -
  obtain y mo d where c: "civil_of_day (t div DAY_MS) = (y, mo, d)"
    by (metis prod_cases3)
  have "0 \<le> t div DAY_MS"
    using assms by (simp add: day_minute pos_imp_zdiv_nonneg_iff)
  from year_after_epoch [OF this c] show ?thesis
    using make_day_of_civil(2) [OF c] by (simp add: dayOf_def utcWall_def c date_UTC_def)
qed

lemma firstMinute_least:
  shows "after < firstMinute after" "firstMinute after mod MINUTE_MS = 0"
    "u mod MINUTE_MS = 0 \<Longrightarrow> after < u \<Longrightarrow> firstMinute after \<le> u"
proof -
  have m: "after = after div MINUTE_MS * MINUTE_MS + after mod MINUTE_MS" "after mod MINUTE_MS < MINUTE_MS"
    by (simp_all add: day_minute(2))
  then show "after < firstMinute after"
    unfolding firstMinute_def by linarith
  show "firstMinute after mod MINUTE_MS = 0"
    by (simp add: firstMinute_def)
  assume "u mod MINUTE_MS = 0" "after < u"
  then have u: "u = u div MINUTE_MS * MINUTE_MS" "after div MINUTE_MS * MINUTE_MS < u"
    using m by (auto simp: day_minute(2) algebra_simps)
  then have "after div MINUTE_MS < u div MINUTE_MS"
    by (metis day_minute(2) mult_less_cancel_right_pos zero_less_numeral)
  then have "(after div MINUTE_MS + 1) * MINUTE_MS \<le> u div MINUTE_MS * MINUTE_MS"
    by (intro mult_right_mono) (simp_all add: day_minute(2))
  then show "firstMinute after \<le> u"
    using u by (simp add: firstMinute_def algebra_simps)
qed


subsection \<open>Properties\<close>

lemma nextCron_utc:
  assumes "parseCronExpression e = Inr p" "0 \<le> after"
    and "date_in_range (firstMinute after + (MAX_SEARCH_MINUTES - 1) * MINUTE_MS)"
  defines "first \<equiv> firstMinute after" and "latest \<equiv> firstMinute after + (MAX_SEARCH_MINUTES - 1) * MINUTE_MS"
  shows "nextCronRunAt I e after ''UTC'' =
    searchDays e (searchDay p None first latest) (first div DAY_MS * DAY_MS) (latest div DAY_MS * DAY_MS)"
proof -
  have order: "0 \<le> first" "first \<le> latest"
    using firstMinute_least(1) [of after] assms(2) by (simp_all add: first_def latest_def MAX_SEARCH_MINUTES_def day_minute(2))
  have day: "0 \<le> x div DAY_MS * DAY_MS \<and> x div DAY_MS * DAY_MS \<le> x" if "0 \<le> x" for x
    using that div_mult_mod_eq [of x DAY_MS] pos_mod_sign [of DAY_MS x]
    by (simp add: day_minute(3) pos_imp_zdiv_nonneg_iff)
  have ranges: "date_in_range first" "date_in_range latest" "date_in_range (first div DAY_MS * DAY_MS)"
    "date_in_range (latest div DAY_MS * DAY_MS)"
    using assms(3) order day [of first] day [of latest] by (auto simp: date_in_range_def latest_def)
  have latest: "latest = first + (MAX_SEARCH_MINUTES - 1) * MINUTE_MS"
    by (simp add: first_def latest_def)
  show ?thesis
    using order ranges
    by (simp add: nextCronRunAt_def assms(1) wallAt_def dayOf_utc Let_def flip: first_def latest)
qed

lemma nextCron_utc_least:
  assumes "parseCronExpression e = Inr p" and "0 \<le> after"
    and "date_in_range (firstMinute after + (MAX_SEARCH_MINUTES - 1) * MINUTE_MS)"
  shows "case nextCronRunAt I e after ''UTC'' of
      Inr t \<Rightarrow> after < t \<and> runsAt p t \<and> (\<forall>u. runsAt p u \<and> after < u \<longrightarrow> t \<le> u)
    | Inl err \<Rightarrow> err = InvalidCronExpressionError e
        \<and> (\<forall>u. runsAt p u \<and> after < u \<longrightarrow> firstMinute after + (MAX_SEARCH_MINUTES - 1) * MINUTE_MS < u)"
proof -
  define first latest where "first = firstMinute after"
    "latest = firstMinute after + (MAX_SEARCH_MINUTES - 1) * MINUTE_MS"
  note defs = first_latest_def
  have pos: "0 \<le> first div DAY_MS"
    using firstMinute_least(1) [of after] assms(2) by (simp add: defs day_minute(3) pos_imp_zdiv_nonneg_iff)
  have mono: "x \<le> y \<Longrightarrow> x div DAY_MS \<le> y div DAY_MS" for x y
    by (simp add: day_minute(3) zdiv_mono1)
  have after: "first \<le> u \<longleftrightarrow> after < u" if "runsAt p u" for u
    using firstMinute_least(1) [of after] firstMinute_least(3) [of u after] that by (auto simp: defs runsAt_def)
  have run: "nextCronRunAt I e after ''UTC'' =
      searchDays e (searchDay p None first latest) (first div DAY_MS * DAY_MS) (latest div DAY_MS * DAY_MS)"
    unfolding defs by (rule nextCron_utc [OF assms])
  note spec = searchDays_utc [OF parse_cron_ok [OF assms(1)] pos mono, of first latest e "latest div DAY_MS"]
  show ?thesis
  proof (cases "nextCronRunAt I e after ''UTC''")
    case (Inl err)
    then have "err = InvalidCronExpressionError e"
      "\<forall>u. runsAt p u \<and> first \<le> u \<and> u \<le> latest \<longrightarrow> latest div DAY_MS < u div DAY_MS"
      using spec run by simp_all
    moreover from this(2) have "latest < u" if "runsAt p u" "after < u" for u
      using that after [OF that(1)] mono [of u latest] by (cases "u \<le> latest") auto
    ultimately show ?thesis
      using Inl by (simp add: defs)
  next
    case (Inr t)
    then have t: "runsAt p t" "first \<le> t" "t \<le> latest"
      "\<And>u. runsAt p u \<Longrightarrow> first \<le> u \<Longrightarrow> u \<le> latest \<Longrightarrow> t \<le> u"
      using spec run by simp_all
    have "t \<le> u" if "runsAt p u" "after < u" for u
      using t(3) t(4) [OF that(1)] after [OF that(1)] that(2) by (cases "u \<le> latest") auto
    then show ?thesis
      using Inr t(1,2) after by auto
  qed
qed

definition demo_icu :: icu where
  "demo_icu = \<lparr>icu_supported = (\<lambda>z. False), icu_wall = (\<lambda>z. utcWall)\<rparr>"

definition demo_cron :: parsed_cron where
  "demo_cron = projr (parseCronExpression ''30 3 * * *'')"

lemma demo_cron_parsed: "\<not> isl (parseCronExpression ''30 3 * * *'')"
  by code_simp

lemma demo_cron_runs: "runsAt demo_cron 12600000"
  by code_simp

lemma demo_cron_facts:
  "parseCronExpression ''30 3 * * *'' = Inr demo_cron"
  "date_in_range (firstMinute 0 + (MAX_SEARCH_MINUTES - 1) * MINUTE_MS)"
  "\<not> firstMinute 0 + (MAX_SEARCH_MINUTES - 1) * MINUTE_MS < 12600000"
  using demo_cron_parsed
  by (simp_all add: demo_cron_def date_in_range_def firstMinute_def MAX_SEARCH_MINUTES_def MINUTE_MS_def)

lemma demo_next_run: "\<exists>t. nextCronRunAt demo_icu ''30 3 * * *'' 0 ''UTC'' = Inr t"
  using nextCron_utc_least [OF demo_cron_facts(1) _ demo_cron_facts(2), of demo_icu] demo_cron_runs demo_cron_facts(3)
  by (auto split: sum.splits)

text \<open>C31. In UTC the next run of a schedule is the least whole minute strictly after the given instant that the
  expression matches, although the search goes by calendar days and sorted hours and minutes; and when the search
  gives up, no minute of the five years it looks ahead matches. It always ends.\<close>

theorem next_run_is_least:
  assumes "parseCronExpression e = Inr p" and "0 \<le> after"
    and "date_in_range (firstMinute after + (MAX_SEARCH_MINUTES - 1) * MINUTE_MS)"
  shows "case nextCronRunAt I e after ''UTC'' of
      Inr t \<Rightarrow> after < t \<and> runsAt p t \<and> (\<forall>u. runsAt p u \<and> after < u \<longrightarrow> t \<le> u)
    | Inl err \<Rightarrow> err = InvalidCronExpressionError e
        \<and> (\<forall>u. runsAt p u \<and> after < u \<longrightarrow> firstMinute after + (MAX_SEARCH_MINUTES - 1) * MINUTE_MS < u)"
  by (rule nextCron_utc_least [OF assms])

theorem next_run_is_least_witness:
  "\<exists>t. nextCronRunAt demo_icu ''30 3 * * *'' 0 ''UTC'' = Inr t \<and> 0 < t \<and> t \<le> 12600000"
  using next_run_is_least [OF demo_cron_facts(1) _ demo_cron_facts(2), of demo_icu] demo_cron_runs demo_cron_facts(3)
  by (auto split: sum.splits)

text \<open>C32. A parsed expression has in each of its five fields at least one value, none twice and all within the bounds
  of the field, so that every match the search compares is a possible time.\<close>

theorem parsed_fields_in_range:
  assumes "parseCronExpression e = Inr p"
  shows "cron_ok p"
  using assms by (rule parse_cron_ok)

theorem parsed_fields_in_range_witness: "cron_ok demo_cron"
  using parsed_fields_in_range [of "''30 3 * * *''"] demo_cron_parsed by (simp add: demo_cron_def)

text \<open>A field with bounds and a step, such as \<open>10-50/20\<close>, stands for the values from the first to the last bound
  in steps; \<open>*\<close> for all of its range.\<close>

theorem field_part_values:
  assumes "parsePart rg e part vs = Inr ws"
  shows "\<exists>step start final. 0 < step \<and> parseBounds e rg (hd (splitOn (CHR ''/'') part))
      (case tl (splitOn (CHR ''/'') part) of [] \<Rightarrow> None | p # _ \<Rightarrow> Some p) = Inr (start, final)
    \<and> set ws = set vs \<union> {x. start \<le> x \<and> x \<le> final \<and> (x - start) mod step = 0}"
proof -
  let ?step = "case tl (splitOn (CHR ''/'') part) of [] \<Rightarrow> None | p # _ \<Rightarrow> Some p"
  obtain step start final where p: "parseStep e ?step = Inr step"
    "parseBounds e rg (hd (splitOn (CHR ''/'') part)) ?step = Inr (start, final)" "ws = addSteps start final step vs"
    using assms by (fastforce simp: parsePart_def Let_def)
  from p(1) have "0 < step"
    by (auto simp: parseStep_def Let_def split: option.splits)
  from set_addSteps [OF this, of start final vs] p(2,3) this show ?thesis
    by (intro exI [of _ step] exI [of _ start] exI [of _ final] conjI) simp_all
qed

lemma demo_part: "parsePart (FIELD_RANGES ! 0) ''x'' ''10-50/20'' [] = Inr [10, 30, 50]"
  by code_simp

theorem field_part_values_witness:
  "\<exists>step start final. 0 < step \<and> set [10, 30, 50] = {x. start \<le> x \<and> x \<le> final \<and> (x - start) mod step = (0 :: nat)}"
  using field_part_values [OF demo_part]
proof (elim exE conjE)
  fix step start final :: nat
  assume "0 < step" "set [10, 30, 50] = set [] \<union> {x. start \<le> x \<and> x \<le> final \<and> (x - start) mod step = 0}"
  then show ?thesis
    unfolding list.set(1) sup_bot.left_neutral by (intro exI conjI)
qed


subsection \<open>Time zones\<close>

text \<open>The bisection for a change of offset ends on the minute at which the offset changes: the minute before
  still shows the former offset, and the minute itself does not.\<close>

theorem bisect_finds_change:
  assumes "low < high" and "offsetAt (low * MINUTE_MS) = previous" and "offsetAt (high * MINUTE_MS) \<noteq> previous"
  shows "low < bisect offsetAt previous low high \<and> bisect offsetAt previous low high \<le> high
    \<and> offsetAt ((bisect offsetAt previous low high - 1) * MINUTE_MS) = previous
    \<and> offsetAt (bisect offsetAt previous low high * MINUTE_MS) \<noteq> previous"
  using assms
proof (induction offsetAt previous low high rule: bisect.induct)
  case (1 offsetAt previous low high)
  show ?case
  proof (cases "high - low > 1")
    case True
    define middle where "middle = (low + high) div 2"
    have m: "low < middle" "middle < high"
      using True by (simp_all add: middle_def)
    have step: "bisect offsetAt previous low high = (if offsetAt (middle * MINUTE_MS) = previous
        then bisect offsetAt previous middle high else bisect offsetAt previous low middle)"
      using True by (subst bisect.simps) (simp add: middle_def Let_def)
    show ?thesis
      using "1.IH"(1) [OF True middle_def] "1.IH"(2) [OF True middle_def] "1.prems" m step by auto
  next
    case False
    then have "high = low + 1"
      using "1.prems"(1) by simp
    then show ?thesis
      using "1.prems" by (subst (1 2 3 4) bisect.simps) simp
  qed
qed

definition demo_offset :: "int \<Rightarrow> int" where
  "demo_offset t = (if t < 100 * MINUTE_MS then 0 else 3600000)"

theorem bisect_finds_change_witness:
  "demo_offset ((bisect demo_offset 0 0 360 - 1) * MINUTE_MS) = 0 \<and> demo_offset (bisect demo_offset 0 0 360 * MINUTE_MS) \<noteq> 0"
  using bisect_finds_change [of 0 360 demo_offset 0] by (simp add: demo_offset_def MINUTE_MS_def)

lemma fold_inv: "P b \<Longrightarrow> (\<And>x b. P b \<Longrightarrow> P (f x b)) \<Longrightarrow> P (fold f xs b)"
  by (induction xs arbitrary: b) auto

definition within :: "int \<Rightarrow> int \<Rightarrow> int option \<Rightarrow> bool" where
  "within first latest b \<longleftrightarrow> (\<forall>t. b = Some t \<longrightarrow> first \<le> t \<and> t \<le> latest)"

lemma within_steps:
  "within first latest b \<Longrightarrow> within first latest (laterOf formatter first latest lcl offset b)"
  "within first latest c \<Longrightarrow> within first latest b \<Longrightarrow> within first latest (earlier c b)"
  "within first latest b \<Longrightarrow> within first latest (jump parsed day first latest tr b)"
  "within first latest None"
  by (auto simp: within_def laterOf_def earlier_def jump_def Let_def split: option.splits if_splits)

lemma searchDay_within:
  assumes "searchDay parsed formatter first latest dayTime = Inr b"
  shows "within first latest b"
proof -
  note loop = fold_inv [where P = "within first latest"]
  have later: "within first latest (fold (laterOf formatter first latest lcl) offsets None)" for lcl offsets
    by (intro loop within_steps)
  have minutes: "within first latest (fold (\<lambda>m. earlier (fold (laterOf formatter first latest (g m)) offsets None)) ms b)"
    if "within first latest b" for g ms b offsets
    by (rule loop [OF that]) (rule within_steps(2) [OF later])
  have best: "within first latest (bestOfDay parsed formatter first latest day offsets)" for day offsets
    unfolding bestOfDay_def Let_def by (rule loop [OF within_steps(4)]) (rule minutes)
  then have "within first latest (fold (jump parsed day first latest) ts (bestOfDay parsed formatter first latest day offsets))"
    for ts day offsets
    by (rule loop) (rule within_steps(3))
  then show ?thesis
    using assms best within_steps(4) by (auto simp: searchDay_def Let_def split: if_splits option.splits)
qed

lemma searchDays_found:
  "searchDays e search dayTime lastDay = Inr t \<Longrightarrow> \<exists>d. search d = Inr (Some t)"
proof (induction e search dayTime lastDay rule: searchDays.induct)
  case (1 e search dayTime lastDay)
  have "(if dayTime \<le> lastDay then bindE (search dayTime) (\<lambda>best. case best of Some t \<Rightarrow> Inr t
      | None \<Rightarrow> searchDays e search (dayTime + DAY_MS) lastDay) else Inl (InvalidCronExpressionError e)) = Inr t"
    using "1.prems" by (simp only: searchDays.simps [of e search dayTime lastDay, symmetric])
  then show ?case
    using "1.IH" by (auto split: if_splits option.splits)
qed

text \<open>In every time zone, whatever the zone data, a run lies strictly after the given instant and within the five
  years of the search.\<close>

theorem next_run_in_window:
  assumes "nextCronRunAt I e after timezone = Inr t"
  shows "after < t \<and> t \<le> firstMinute after + (MAX_SEARCH_MINUTES - 1) * MINUTE_MS"
proof -
  obtain parsed formatter firstDay lastDay where
    "searchDays e (searchDay parsed formatter (firstMinute after)
       (firstMinute after + (MAX_SEARCH_MINUTES - 1) * MINUTE_MS)) firstDay lastDay = Inr t"
    using assms by (auto simp: nextCronRunAt_def Let_def split: if_splits option.splits)
  then show ?thesis
    using searchDays_found searchDay_within firstMinute_least(1) [of after] unfolding within_def by fastforce
qed

theorem next_run_in_window_witness: "\<exists>t. nextCronRunAt demo_icu ''30 3 * * *'' 0 ''UTC'' = Inr t \<and> 0 < t"
  using demo_next_run next_run_in_window by blast

end
