(* ===== verification/Session_Store.thy ===== *)
theory Session_Store
  imports Iso_Time Js_Json
begin

text \<open>
  \<open>packages/sessions/src/in-memory-session-store.ts\<close>: sessions, the lookups of refresh tokens, the indexes by user
  and by tenant, and the revocations, as the maps of \<open>InMemorySessionStore\<close>. An index bucket is the list of the
  identifiers its \<open>Set\<close> holds, in insertion order. The event emitter beside \<open>invalidations\<close> only repeats
  the message to listeners in the process.
\<close>

datatype session_status = Session_active | Session_revoked | Session_reuse_detected

record session_record =
  se_sid :: string
  se_userId :: string
  se_tenantId :: string
  se_cognitoSub :: string
  se_membershipId :: "string option"
  se_permsHash :: "string option"
  se_permissions :: "string list option"
  se_roles :: "string list option"
  se_deviceMeta :: "(string \<times> json) list option"
  se_refreshFamilyId :: string
  se_refreshTokenHash :: string
  se_status :: session_status
  se_createdAt :: string
  se_updatedAt :: string
  se_lastTouchedAt :: string
  se_expiresAt :: string
  se_idleExpiresAt :: string
  se_revokedAt :: "string option"
  se_strongFactorVerifiedAt :: "string option"

datatype lookup_state = Token_active | Token_used

record token_lookup =
  lk_sid :: string
  lk_familyId :: string
  lk_state :: lookup_state

datatype single_session_mode = Mode_off | Mode_revoke_existing | Mode_reject_new

record policy_options =
  pl_mode :: single_session_mode
  pl_now :: string
  pl_priorSessionId :: "string option"

datatype exchange_code = SESSION_NOT_FOUND | SESSION_OWNER_MISMATCH | SESSION_NOT_ACTIVE

datatype session_error =
    InvalidRefreshTokenError
  | RefreshTokenReuseDetectedError string
  | SessionExpiredError string
  | SessionConflictError
  | StrongFactorRequiredError
  | SessionExchangeError exchange_code string
  | SessionError string

record session_store =
  ss_sessions :: "(string, session_record) jsmap"
  ss_refreshLookups :: "(string, token_lookup) jsmap"
  ss_sessionsByUser :: "(string, string list) jsmap"
  ss_sessionsByTenant :: "(string, string list) jsmap"
  ss_revokedSessions :: "(string, string) jsmap"
  ss_invalidations :: "string list"

subsection \<open>Indexes\<close>

definition setAdd :: "string \<Rightarrow> string list \<Rightarrow> string list" where
  "setAdd x xs = (if x \<in> set xs then xs else xs @ [x])"

definition addIndex :: "string \<Rightarrow> string \<Rightarrow> (string, string list) jsmap \<Rightarrow> (string, string list) jsmap" where
  "addIndex key sid index = jset key (setAdd sid (case jget index key of None \<Rightarrow> [] | Some b \<Rightarrow> b)) index"

text \<open>\<open>index.get(key)?.delete(sid)\<close>.\<close>

definition removeIndex :: "string \<Rightarrow> string \<Rightarrow> (string, string list) jsmap \<Rightarrow> (string, string list) jsmap" where
  "removeIndex key sid index = (case jget index key of
     None \<Rightarrow> index | Some b \<Rightarrow> jset key (filter (\<lambda>x. x \<noteq> sid) b) index)"

subsection \<open>Operations\<close>

definition lookupOf :: "session_record \<Rightarrow> lookup_state \<Rightarrow> token_lookup" where
  "lookupOf r st = \<lparr>lk_sid = se_sid r, lk_familyId = se_refreshFamilyId r, lk_state = st\<rparr>"

definition createSession :: "session_record \<Rightarrow> session_store \<Rightarrow> session_store" where
  "createSession record s = s\<lparr>
     ss_sessions := jset (se_sid record) record (ss_sessions s),
     ss_refreshLookups := jset (se_refreshTokenHash record) (lookupOf record Token_active) (ss_refreshLookups s),
     ss_sessionsByUser := addIndex (se_userId record) (se_sid record) (ss_sessionsByUser s),
     ss_sessionsByTenant := addIndex (se_tenantId record) (se_sid record) (ss_sessionsByTenant s)\<rparr>"

definition isActive :: "session_record \<Rightarrow> int option \<Rightarrow> bool" where
  "isActive record now \<longleftrightarrow> se_status record = Session_active
     \<and> nan_gt (date_parse (se_expiresAt record)) now \<and> nan_gt (date_parse (se_idleExpiresAt record)) now"

text \<open>What \<open>createWithPolicy\<close> and \<open>revokeSession\<close> both do to a session that ends.\<close>

definition dropSession :: "session_record \<Rightarrow> string \<Rightarrow> session_store \<Rightarrow> session_store" where
  "dropSession session now s = s\<lparr>
     ss_sessions := jdel (se_sid session) (ss_sessions s),
     ss_refreshLookups := jset (se_refreshTokenHash session) (lookupOf session Token_used) (ss_refreshLookups s),
     ss_sessionsByUser := removeIndex (se_userId session) (se_sid session) (ss_sessionsByUser s),
     ss_sessionsByTenant := removeIndex (se_tenantId session) (se_sid session) (ss_sessionsByTenant s),
     ss_revokedSessions := jset (se_sid session) now (ss_revokedSessions s)\<rparr>"

definition revokedRecord :: "session_record \<Rightarrow> session_status \<Rightarrow> string \<Rightarrow> session_record" where
  "revokedRecord session status now =
     session\<lparr>se_status := status, se_revokedAt := Some now, se_updatedAt := now\<rparr>"

definition conflictsOf :: "session_record \<Rightarrow> policy_options \<Rightarrow> session_store \<Rightarrow> session_record list" where
  "conflictsOf record options s =
     filter (\<lambda>session. se_tenantId session = se_tenantId record \<and> isActive session (date_parse (pl_now options)))
       (List.map_filter (jget (ss_sessions s))
         (filter (\<lambda>sid. Some sid \<noteq> pl_priorSessionId options)
           (case jget (ss_sessionsByUser s) (se_userId record) of None \<Rightarrow> [] | Some b \<Rightarrow> b)))"

definition priorOf :: "policy_options \<Rightarrow> session_store \<Rightarrow> session_record option" where
  "priorOf options s = Option.bind (pl_priorSessionId options) (jget (ss_sessions s))"

text \<open>A prior session named by the empty text counts as none.\<close>

definition hasPrior :: "string option \<Rightarrow> bool" where
  "hasPrior i \<longleftrightarrow> i \<noteq> None \<and> i \<noteq> Some []"

definition createWithPolicy ::
  "session_record \<Rightarrow> policy_options \<Rightarrow> session_store \<Rightarrow> (session_error + session_record list) \<times> session_store" where
  "createWithPolicy record options s =
     (let now = date_parse (pl_now options);
          prior = (if hasPrior (pl_priorSessionId options) then priorOf options s else None);
          conflicts = conflictsOf record options s
      in if hasPrior (pl_priorSessionId options)
           \<and> (case prior of None \<Rightarrow> True | Some p \<Rightarrow> se_userId p \<noteq> se_userId record \<or> \<not> isActive p now)
         then (Inl (SessionExchangeError SESSION_NOT_ACTIVE ''Prior session is not active for this user''), s)
         else if pl_mode options = Mode_reject_new \<and> conflicts \<noteq> [] then (Inl SessionConflictError, s)
         else
           let ended = (if pl_mode options = Mode_revoke_existing then conflicts else [])
                 @ (case prior of None \<Rightarrow> [] | Some p \<Rightarrow> [p]);
               s1 = fold (\<lambda>session. dropSession session (pl_now options)) ended s
           in (Inr (map (\<lambda>session. revokedRecord session Session_revoked (pl_now options)) ended),
               createSession record s1))"

definition getSession :: "string \<Rightarrow> session_store \<Rightarrow> session_record option" where
  "getSession sid s = jget (ss_sessions s) sid"

definition lookupRefreshToken :: "string \<Rightarrow> session_store \<Rightarrow> token_lookup option" where
  "lookupRefreshToken hash s = jget (ss_refreshLookups s) hash"

definition rotateRefreshToken ::
  "string \<Rightarrow> string \<Rightarrow> string \<Rightarrow> string \<Rightarrow> string \<Rightarrow> session_store \<Rightarrow> session_record option \<times> session_store" where
  "rotateRefreshToken sid currentHash nextHash idleExpiresAt touchedAt s =
     (case (jget (ss_sessions s) sid, jget (ss_refreshLookups s) currentHash) of
        (Some session, Some lookup) \<Rightarrow>
          if lk_state lookup \<noteq> Token_active \<or> se_refreshTokenHash session \<noteq> currentHash then (None, s)
          else
            let updated = session\<lparr>se_refreshTokenHash := nextHash, se_idleExpiresAt := idleExpiresAt,
                  se_lastTouchedAt := touchedAt, se_updatedAt := touchedAt\<rparr>;
                entry = (\<lambda>st. \<lparr>lk_sid = sid, lk_familyId = se_refreshFamilyId session, lk_state = st\<rparr>)
            in (Some updated, s\<lparr>
                 ss_sessions := jset sid updated (ss_sessions s),
                 ss_refreshLookups := jset nextHash (entry Token_active)
                   (jset currentHash (entry Token_used) (ss_refreshLookups s))\<rparr>)
      | _ \<Rightarrow> (None, s))"

definition touchSession ::
  "string \<Rightarrow> string \<Rightarrow> string \<Rightarrow> session_store \<Rightarrow> session_record option \<times> session_store" where
  "touchSession sid idleExpiresAt touchedAt s = (case jget (ss_sessions s) sid of
     None \<Rightarrow> (None, s)
   | Some session \<Rightarrow>
       let updated = session\<lparr>se_idleExpiresAt := idleExpiresAt, se_lastTouchedAt := touchedAt,
             se_updatedAt := touchedAt\<rparr>
       in (Some updated, s\<lparr>ss_sessions := jset sid updated (ss_sessions s)\<rparr>))"

definition revokeSession ::
  "string \<Rightarrow> string \<Rightarrow> session_status \<Rightarrow> session_store \<Rightarrow> session_record option \<times> session_store" where
  "revokeSession sid revokedAt status s = (case jget (ss_sessions s) sid of
     None \<Rightarrow> (None, s)
   | Some session \<Rightarrow>
       (Some (revokedRecord session status revokedAt), s\<lparr>
          ss_sessions := jdel sid (ss_sessions s),
          ss_refreshLookups := jset (se_refreshTokenHash session)
            \<lparr>lk_sid = sid, lk_familyId = se_refreshFamilyId session, lk_state = Token_used\<rparr> (ss_refreshLookups s),
          ss_sessionsByUser := removeIndex (se_userId session) sid (ss_sessionsByUser s),
          ss_sessionsByTenant := removeIndex (se_tenantId session) sid (ss_sessionsByTenant s),
          ss_revokedSessions := jset sid revokedAt (ss_revokedSessions s)\<rparr>))"

definition filterActive :: "string list option \<Rightarrow> session_store \<Rightarrow> string list" where
  "filterActive values s = (case values of None \<Rightarrow> []
     | Some b \<Rightarrow> filter (\<lambda>sid. jget (ss_sessions s) sid \<noteq> None) b)"

definition listSessionIdsByUser :: "string \<Rightarrow> session_store \<Rightarrow> string list" where
  "listSessionIdsByUser userId s = filterActive (jget (ss_sessionsByUser s) userId) s"

definition listSessionIdsByTenant :: "string \<Rightarrow> session_store \<Rightarrow> string list" where
  "listSessionIdsByTenant tenantId s = filterActive (jget (ss_sessionsByTenant s) tenantId) s"

definition publishInvalidation :: "string \<Rightarrow> session_store \<Rightarrow> session_store" where
  "publishInvalidation message s = s\<lparr>ss_invalidations := ss_invalidations s @ [message]\<rparr>"

text \<open>\<open>a < b\<close> for instants that may be \<open>NaN\<close> is \<open>nan_gt b a\<close>.\<close>

definition listRevokedSessions :: "string \<Rightarrow> session_store \<Rightarrow> (string \<times> string) list \<times> session_store" where
  "listRevokedSessions since s =
     (let kept = filter (\<lambda>(sid, at). \<not> nan_gt (date_parse since) (date_parse at)) (ss_revokedSessions s)
      in (kept, s\<lparr>ss_revokedSessions := kept\<rparr>))"

definition sessionCount :: "session_store \<Rightarrow> nat" where
  "sessionCount s = length (ss_sessions s)"

definition refreshLookupCount :: "session_store \<Rightarrow> nat" where
  "refreshLookupCount s = length (ss_refreshLookups s)"

end
