(* ===== verification/Session_Service.thy ===== *)
theory Session_Service
  imports Session_Store
begin

text \<open>
  \<open>session.service.ts\<close> and \<open>session-revocation-list.ts\<close> of \<open>packages/sessions\<close> over the in-memory store.

  An operation takes the state to its outcome and the next state; \<open>thenR\<close> sequences, stopping at a throw, and the
  writes made before a throw stay. The clock, the random identifiers and tokens are functions of the number of
  readings made so far, which the state counts. Parameters: the signer of access tokens, the claims resolver (whose
  answers may differ from call to call), the mirror (which may refuse an entry), the token digest, and Unicode lower
  case. Clock readings and the limits added to them are within the range of \<open>Date\<close>. Operations run one after the
  other. The mirror's accepted entries and the revocation list are part of the state.
\<close>

record mirror_entry =
  me_sid :: string
  me_tenantId :: string
  me_userId :: string
  me_membershipId :: "string option"
  me_status :: session_status
  me_expiresAt :: string
  me_createdAt :: string

record claims =
  cl_permissions :: "string list"
  cl_roles :: "string list"
  cl_permsHash :: "string option"

record create_metadata =
  md_membershipId :: "string option"
  md_permsHash :: "string option"
  md_claims :: "claims option"
  md_factorClaims :: "(string \<times> json) list option"
  md_priorSessionId :: "string option"

record session_bundle =
  sb_sid :: string
  sb_revokedSessionIds :: "string list option"
  sb_accessToken :: string
  sb_accessTokenExpiresAt :: string
  sb_refreshToken :: string
  sb_expiresAt :: string
  sb_idleExpiresAt :: string

record session_env =
  sv_mode :: single_session_mode
  sv_strongFactor :: "(string \<times> string list) option"
  sv_absoluteSeconds :: int
  sv_idleSeconds :: int
  sv_accessSeconds :: int
  sv_clock :: "nat \<Rightarrow> int"
  sv_wall :: "nat \<Rightarrow> int"
  sv_uuid :: "nat \<Rightarrow> string"
  sv_token :: "nat \<Rightarrow> string"
  sv_sha256 :: "string \<Rightarrow> string"
  sv_lower :: "string \<Rightarrow> string"
  sv_resolver :: "(nat \<Rightarrow> string \<Rightarrow> string \<Rightarrow> string \<Rightarrow> string \<Rightarrow> session_error + claims) option"
  sv_sign :: "session_record \<Rightarrow> int \<Rightarrow> session_error + string \<times> string"
  sv_mirror :: "mirror_entry \<Rightarrow> session_error option"
  sv_hasRevocations :: bool

record session_state =
  sx_store :: session_store
  sx_mirror :: "mirror_entry list"
  sx_revoked :: "(string, int) jsmap"
  sx_lastRefreshedAt :: "int option"
  sx_ticks :: nat
  sx_uuids :: nat
  sx_tokens :: nat

subsection \<open>Sequencing\<close>

type_synonym 'a sess = "session_state \<Rightarrow> (session_error + 'a) \<times> session_state"

definition returnR :: "'a \<Rightarrow> 'a sess" where
  "returnR x s = (Inr x, s)"

definition throwR :: "session_error \<Rightarrow> 'a sess" where
  "throwR e s = (Inl e, s)"

definition thenR :: "'a sess \<Rightarrow> ('a \<Rightarrow> 'b sess) \<Rightarrow> 'b sess" where
  "thenR m f s = (case m s of (Inl e, t) \<Rightarrow> (Inl e, t) | (Inr x, t) \<Rightarrow> f x t)"

definition guardR :: "bool \<Rightarrow> session_error \<Rightarrow> unit sess" where
  "guardR c e = (if c then throwR e else returnR ())"

definition readR :: "(session_store \<Rightarrow> 'a) \<Rightarrow> 'a sess" where
  "readR f s = (Inr (f (sx_store s)), s)"

definition storeR :: "(session_store \<Rightarrow> 'a \<times> session_store) \<Rightarrow> 'a sess" where
  "storeR f s = (case f (sx_store s) of (x, t) \<Rightarrow> (Inr x, s\<lparr>sx_store := t\<rparr>))"

definition liftR :: "session_error + 'a \<Rightarrow> 'a sess" where
  "liftR r s = (r, s)"

fun forR :: "('a \<Rightarrow> 'b sess) \<Rightarrow> 'a list \<Rightarrow> 'b list sess" where
  "forR f [] = returnR []"
| "forR f (x # xs) = thenR (f x) (\<lambda>y. thenR (forR f xs) (\<lambda>ys. returnR (y # ys)))"

text \<open>\<open>Promise.all\<close> over calls that all start: every call has its effect; the first failure is the outcome.\<close>

fun allR :: "('a \<Rightarrow> unit sess) \<Rightarrow> 'a list \<Rightarrow> unit sess" where
  "allR f [] = returnR ()"
| "allR f (x # xs) = (\<lambda>s. case f x s of
     (Inr u, t) \<Rightarrow> allR f xs t
   | (Inl e, t) \<Rightarrow> (Inl e, snd (allR f xs t)))"

definition nowR :: "session_env \<Rightarrow> int sess" where
  "nowR E s = (Inr (sv_clock E (sx_ticks s)), s\<lparr>sx_ticks := Suc (sx_ticks s)\<rparr>)"

definition uuidR :: "session_env \<Rightarrow> string sess" where
  "uuidR E s = (Inr (sv_uuid E (sx_uuids s)), s\<lparr>sx_uuids := Suc (sx_uuids s)\<rparr>)"

definition createRefreshToken :: "session_env \<Rightarrow> string sess" where
  "createRefreshToken E s = (Inr (sv_token E (sx_tokens s)), s\<lparr>sx_tokens := Suc (sx_tokens s)\<rparr>)"

definition hashRefreshToken :: "session_env \<Rightarrow> string \<Rightarrow> string" where
  "hashRefreshToken E token = sv_sha256 E token"

subsection \<open>The revocation list\<close>

definition RETENTION_SKEW_MS :: int where
  "RETENTION_SKEW_MS = 60000"

definition retentionMs :: "session_env \<Rightarrow> int" where
  "retentionMs E = sv_accessSeconds E * 1000 + RETENTION_SKEW_MS"

definition addRevocation :: "session_env \<Rightarrow> int \<Rightarrow> string \<Rightarrow> string \<Rightarrow> (string, int) jsmap \<Rightarrow> (string, int) jsmap" where
  "addRevocation E nowMs sid revokedAt m =
     (let until = (case date_parse revokedAt of None \<Rightarrow> nowMs | Some t \<Rightarrow> t) + retentionMs E
      in case jget m sid of
           None \<Rightarrow> jset sid until m
         | Some current \<Rightarrow> if current < until then jset sid until m else m)"

definition isRevoked :: "int \<Rightarrow> string \<Rightarrow> session_state \<Rightarrow> bool \<times> session_state" where
  "isRevoked nowMs sid s = (case jget (sx_revoked s) sid of
     None \<Rightarrow> (False, s)
   | Some until \<Rightarrow> if until \<le> nowMs then (False, s\<lparr>sx_revoked := jdel sid (sx_revoked s)\<rparr>) else (True, s))"

definition isStale :: "int \<Rightarrow> int \<Rightarrow> session_state \<Rightarrow> bool" where
  "isStale maxStalenessMs nowMs s = (case sx_lastRefreshedAt s of
     None \<Rightarrow> True | Some t \<Rightarrow> nowMs - t > maxStalenessMs)"

definition prune :: "int \<Rightarrow> (string, int) jsmap \<Rightarrow> (string, int) jsmap" where
  "prune nowMs m = filter (\<lambda>(sid, until). \<not> until \<le> nowMs) m"

definition refreshFromStore :: "session_env \<Rightarrow> int \<Rightarrow> int \<Rightarrow> session_state \<Rightarrow> session_state" where
  "refreshFromStore E startedAt nowMs s =
     (case listRevokedSessions (toISOString (startedAt - retentionMs E)) (sx_store s) of
        (entries, t) \<Rightarrow> s\<lparr>sx_store := t,
          sx_revoked := prune nowMs (fold (\<lambda>(sid, at) m. if sid \<noteq> [] then addRevocation E nowMs sid at m else m)
            entries (sx_revoked s)),
          sx_lastRefreshedAt := Some startedAt\<rparr>)"

text \<open>\<open>this.revocations?.add(sid, revokedAt)\<close>.\<close>

definition revocationR :: "session_env \<Rightarrow> string \<Rightarrow> string \<Rightarrow> unit sess" where
  "revocationR E sid revokedAt s = (Inr (), if sv_hasRevocations E
     then s\<lparr>sx_revoked := addRevocation E (sv_wall E (sx_ticks s)) sid revokedAt (sx_revoked s)\<rparr> else s)"

subsection \<open>Helpers\<close>

definition addSeconds :: "int \<Rightarrow> int \<Rightarrow> int" where
  "addSeconds date seconds = date + seconds * 1000"

definition minIso :: "string \<Rightarrow> string \<Rightarrow> string" where
  "minIso a b = (if nan_le (date_parse a) (date_parse b) then a else b)"

definition mirrorR :: "session_env \<Rightarrow> mirror_entry \<Rightarrow> unit sess" where
  "mirrorR E entry s = (case sv_mirror E entry of
     Some e \<Rightarrow> (Inl e, s) | None \<Rightarrow> (Inr (), s\<lparr>sx_mirror := sx_mirror s @ [entry]\<rparr>))"

definition appendMirror :: "session_env \<Rightarrow> session_record \<Rightarrow> session_status \<Rightarrow> string \<Rightarrow> unit sess" where
  "appendMirror E r status createdAt = mirrorR E \<lparr>me_sid = se_sid r, me_tenantId = se_tenantId r,
     me_userId = se_userId r, me_membershipId = se_membershipId r, me_status = status,
     me_expiresAt = se_expiresAt r, me_createdAt = createdAt\<rparr>"

definition publishR :: "string \<Rightarrow> unit sess" where
  "publishR message = storeR (\<lambda>t. ((), publishInvalidation message t))"

definition scopeOf :: "session_record \<Rightarrow> string" where
  "scopeOf r = se_userId r @ '':'' @ se_tenantId r"

definition assertActive :: "session_record \<Rightarrow> int \<Rightarrow> session_error + unit" where
  "assertActive r now =
     bindE (throwIf (se_status r \<noteq> Session_active) InvalidRefreshTokenError) (\<lambda>_.
       throwIf (nan_le (date_parse (se_expiresAt r)) (Some now) \<or> nan_le (date_parse (se_idleExpiresAt r)) (Some now))
         (SessionExpiredError (se_sid r)))"

definition bundleOf :: "session_env \<Rightarrow> session_record \<Rightarrow> string \<Rightarrow> int \<Rightarrow> session_bundle sess" where
  "bundleOf E r refreshToken now = thenR (liftR (sv_sign E r now)) (\<lambda>(token, expires).
     returnR \<lparr>sb_sid = se_sid r, sb_revokedSessionIds = None, sb_accessToken = token,
       sb_accessTokenExpiresAt = expires, sb_refreshToken = refreshToken,
       sb_expiresAt = se_expiresAt r, sb_idleExpiresAt = se_idleExpiresAt r\<rparr>)"

definition revokeRecord :: "session_env \<Rightarrow> string \<Rightarrow> session_status \<Rightarrow> (session_record \<times> string) option sess" where
  "revokeRecord E sid status = thenR (nowR E) (\<lambda>now.
     let revokedAt = toISOString now in
     thenR (storeR (revokeSession sid revokedAt status)) (\<lambda>r. case r of
       None \<Rightarrow> returnR None
     | Some record \<Rightarrow> thenR (revocationR E sid revokedAt) (\<lambda>_. returnR (Some (record, revokedAt)))))"

definition revokeInternal ::
  "session_env \<Rightarrow> string \<Rightarrow> session_status \<Rightarrow> bool \<Rightarrow> session_record option sess" where
  "revokeInternal E sid status publish = thenR (revokeRecord E sid status) (\<lambda>r. case r of
     None \<Rightarrow> returnR None
   | Some (record, revokedAt) \<Rightarrow>
       thenR (appendMirror E record status revokedAt) (\<lambda>_.
       thenR (if publish then publishR (scopeOf record) else returnR ()) (\<lambda>_. returnR (Some record))))"

definition claimsR :: "session_env \<Rightarrow> string \<Rightarrow> string \<Rightarrow> string \<Rightarrow> string \<Rightarrow> claims option sess" where
  "claimsR E sid userId tenantId expiresAt = (\<lambda>s. case sv_resolver E of
     None \<Rightarrow> (Inr None, s)
   | Some f \<Rightarrow> (case f (sx_ticks s) sid userId tenantId expiresAt of Inl e \<Rightarrow> (Inl e, s) | Inr c \<Rightarrow> (Inr (Some c), s)))"

subsection \<open>The strong factor\<close>

fun trimRight :: "nat list \<Rightarrow> nat list" where
  "trimRight [] = []"
| "trimRight (c # r) = (if js_blank_codes (c # r) then [] else c # trimRight r)"

lemma ws_width_pos: "0 < ws_width s \<Longrightarrow> s \<noteq> []"
  by auto

function trimLeft :: "nat list \<Rightarrow> nat list" where
  "trimLeft s = (if ws_width s = 0 then s else trimLeft (drop (ws_width s) s))"
  by pat_completeness auto
termination
  by (relation "measure length") (simp_all add: ws_width_pos)

declare trimLeft.simps [simp del]

definition js_trim :: "string \<Rightarrow> string" where
  "js_trim s = map char_of (trimRight (trimLeft (map of_char s)))"

text \<open>\<open>raw.split(/[,\s]+/).filter(Boolean)\<close>.\<close>

function factorWords :: "nat list \<Rightarrow> nat list \<Rightarrow> nat list list" where
  "factorWords w [] = (if w = [] then [] else [rev w])"
| "factorWords w (c # r) =
     (if c = 44 then (if w = [] then [] else [rev w]) @ factorWords [] r
      else if ws_width (c # r) = 0 then factorWords (c # w) r
      else (if w = [] then [] else [rev w]) @ factorWords [] (drop (ws_width (c # r)) (c # r)))"
  by pat_completeness auto
termination
  by (relation "measure (\<lambda>(w, s). length s)") auto

fun jsonTexts :: "json list \<Rightarrow> string list option" where
  "jsonTexts [] = Some []"
| "jsonTexts (JStr s # r) = map_option (Cons s) (jsonTexts r)"
| "jsonTexts (_ # r) = None"

definition factorAccepted :: "session_env \<Rightarrow> string list \<Rightarrow> json option \<Rightarrow> bool" where
  "factorAccepted E acceptedValues raw =
     (case (case raw of
         Some (JStr s) \<Rightarrow> Some (map (map char_of) (factorWords [] (map of_char s)))
       | Some (JArr xs) \<Rightarrow> jsonTexts xs
       | _ \<Rightarrow> None) of
        None \<Rightarrow> False
      | Some vs \<Rightarrow> list_ex (\<lambda>v. let normalized = sv_lower E (js_trim v) in
          normalized \<noteq> [] \<and> normalized \<in> set acceptedValues) vs)"

text \<open>The instant at which the strong factor was verified: the prior session's, or now when the claims show it.\<close>

definition factorVerifiedAt ::
  "session_env \<Rightarrow> create_metadata \<Rightarrow> session_record option \<Rightarrow> int \<Rightarrow> session_error + string option" where
  "factorVerifiedAt E md prior now = (case sv_strongFactor E of
     None \<Rightarrow> Inr (Option.bind prior se_strongFactorVerifiedAt)
   | Some (claimName, acceptedValues) \<Rightarrow>
       (case prior of
          None \<Rightarrow> bindE (throwIf (\<not> factorAccepted E acceptedValues
              (Option.bind (md_factorClaims md) (\<lambda>c. jget c claimName))) StrongFactorRequiredError)
            (\<lambda>_. Inr (Some (toISOString now)))
        | Some p \<Rightarrow> (case se_strongFactorVerifiedAt p of
            None \<Rightarrow> Inl StrongFactorRequiredError
          | Some v \<Rightarrow> if v = [] then Inl StrongFactorRequiredError else Inr (Some v))))"


subsection \<open>Creating a session\<close>

definition newRecord ::
  "session_env \<Rightarrow> string \<Rightarrow> string \<Rightarrow> string \<Rightarrow> (string \<times> json) list \<Rightarrow> create_metadata \<Rightarrow> claims option \<Rightarrow> string option
   \<Rightarrow> int \<Rightarrow> string \<Rightarrow> string \<Rightarrow> string \<Rightarrow> session_record" where
  "newRecord E userId tenantId cognitoSub deviceMeta md claims factor now sid refreshToken family =
     (let expiresAt = toISOString (addSeconds now (sv_absoluteSeconds E));
          iso = toISOString now
      in \<lparr>se_sid = sid, se_userId = userId, se_tenantId = tenantId, se_cognitoSub = cognitoSub,
          se_membershipId = md_membershipId md,
          se_permsHash = (case Option.bind claims cl_permsHash of None \<Rightarrow> md_permsHash md | Some h \<Rightarrow> Some h),
          se_permissions = map_option cl_permissions claims, se_roles = map_option cl_roles claims,
          se_deviceMeta = (if deviceMeta = [] then None else Some deviceMeta),
          se_refreshFamilyId = family, se_refreshTokenHash = hashRefreshToken E refreshToken,
          se_status = Session_active, se_createdAt = iso, se_updatedAt = iso, se_lastTouchedAt = iso,
          se_expiresAt = expiresAt,
          se_idleExpiresAt = minIso (toISOString (addSeconds now (sv_idleSeconds E))) expiresAt,
          se_revokedAt = None,
          se_strongFactorVerifiedAt = (case factor of None \<Rightarrow> None | Some v \<Rightarrow> if v = [] then None else Some v)\<rparr>)"

text \<open>The store's part: plain creation, or creation under the single-session policy.\<close>

definition placeSession :: "session_env \<Rightarrow> create_metadata \<Rightarrow> session_record \<Rightarrow> int \<Rightarrow> session_record list sess" where
  "placeSession E md record now s =
     (if sv_mode E = Mode_off \<and> \<not> hasPrior (md_priorSessionId md)
      then (Inr [], s\<lparr>sx_store := createSession record (sx_store s)\<rparr>)
      else case createWithPolicy record \<lparr>pl_mode = sv_mode E, pl_now = toISOString now,
             pl_priorSessionId = (if hasPrior (md_priorSessionId md) then md_priorSessionId md else None)\<rparr> (sx_store s) of
          (r, t) \<Rightarrow> (r, s\<lparr>sx_store := t\<rparr>))"

definition remdupsKeep :: "string list \<Rightarrow> string list" where
  "remdupsKeep xs = fold setAdd xs []"

text \<open>What follows the placing: revocations, invalidations and the mirror.\<close>

definition announce :: "session_env \<Rightarrow> session_record \<Rightarrow> session_record list \<Rightarrow> int \<Rightarrow> unit sess" where
  "announce E record revoked now =
     thenR (forR (\<lambda>old. revocationR E (se_sid old) (toISOString now)) revoked) (\<lambda>_.
     thenR (forR publishR (remdupsKeep (map scopeOf revoked))) (\<lambda>_.
     thenR (forR (\<lambda>old. appendMirror E old Session_revoked (toISOString now)) revoked) (\<lambda>_.
       mirrorR E \<lparr>me_sid = se_sid record, me_tenantId = se_tenantId record, me_userId = se_userId record,
         me_membershipId = None, me_status = Session_active, me_expiresAt = se_expiresAt record,
         me_createdAt = se_createdAt record\<rparr>)))"

definition checkPrior :: "string \<Rightarrow> create_metadata \<Rightarrow> session_record option \<Rightarrow> int \<Rightarrow> session_error + unit" where
  "checkPrior userId md prior now =
     bindE (throwIf (hasPrior (md_priorSessionId md)
         \<and> (case prior of None \<Rightarrow> True | Some p \<Rightarrow> se_userId p \<noteq> userId))
       (SessionExchangeError SESSION_OWNER_MISMATCH ''Prior session does not belong to actor'')) (\<lambda>_.
     case prior of None \<Rightarrow> Inr ()
     | Some p \<Rightarrow> throwIf (isl (assertActive p now))
         (SessionExchangeError SESSION_NOT_ACTIVE ''Prior session is not active''))"

definition priorR :: "create_metadata \<Rightarrow> session_record option sess" where
  "priorR md = readR (\<lambda>t. if hasPrior (md_priorSessionId md)
     then Option.bind (md_priorSessionId md) (\<lambda>i. getSession i t) else None)"

definition create ::
  "session_env \<Rightarrow> string \<Rightarrow> string \<Rightarrow> string \<Rightarrow> (string \<times> json) list \<Rightarrow> create_metadata \<Rightarrow> session_bundle sess" where
  "create E userId tenantId cognitoSub deviceMeta md =
     thenR (nowR E) (\<lambda>now.
     thenR (priorR md) (\<lambda>prior.
     thenR (liftR (checkPrior userId md prior now)) (\<lambda>_.
     thenR (liftR (factorVerifiedAt E md prior now)) (\<lambda>factor.
     thenR (uuidR E) (\<lambda>sid.
     thenR (case md_claims md of Some c \<Rightarrow> returnR (Some c)
        | None \<Rightarrow> claimsR E sid userId tenantId (toISOString (addSeconds now (sv_absoluteSeconds E)))) (\<lambda>claims.
     thenR (createRefreshToken E) (\<lambda>refreshToken.
     thenR (uuidR E) (\<lambda>family.
     let record = newRecord E userId tenantId cognitoSub deviceMeta md claims factor now sid refreshToken family in
     thenR (placeSession E md record now) (\<lambda>revoked.
     thenR (announce E record revoked now) (\<lambda>_.
     thenR (bundleOf E record refreshToken now) (\<lambda>b.
       returnR (if revoked = [] then b else b\<lparr>sb_revokedSessionIds := Some (map se_sid revoked)\<rparr>))))))))))))"

subsection \<open>Refreshing\<close>

definition mintedRecord :: "claims option \<Rightarrow> session_record \<Rightarrow> session_record" where
  "mintedRecord claims rotated = (case claims of None \<Rightarrow> rotated
     | Some c \<Rightarrow> rotated\<lparr>se_permissions := Some (cl_permissions c), se_roles := Some (cl_roles c),
         se_permsHash := (case cl_permsHash c of None \<Rightarrow> se_permsHash rotated | Some h \<Rightarrow> Some h)\<rparr>)"

definition rotateCurrent :: "session_env \<Rightarrow> string \<Rightarrow> session_record \<Rightarrow> int \<Rightarrow> session_bundle sess" where
  "rotateCurrent E refreshHash current now =
     thenR (claimsR E (se_sid current) (se_userId current) (se_tenantId current) (se_expiresAt current)) (\<lambda>claims.
     thenR (createRefreshToken E) (\<lambda>nextRefreshToken.
     thenR (storeR (rotateRefreshToken (se_sid current) refreshHash (hashRefreshToken E nextRefreshToken)
         (minIso (toISOString (addSeconds now (sv_idleSeconds E))) (se_expiresAt current)) (toISOString now))) (\<lambda>rotated.
     case rotated of
       None \<Rightarrow> throwR InvalidRefreshTokenError
     | Some r \<Rightarrow> bundleOf E (mintedRecord claims r) nextRefreshToken now)))"

definition refresh :: "session_env \<Rightarrow> string \<Rightarrow> session_bundle sess" where
  "refresh E refreshToken =
     thenR (nowR E) (\<lambda>now.
     let refreshHash = hashRefreshToken E refreshToken in
     thenR (readR (lookupRefreshToken refreshHash)) (\<lambda>lookup. case lookup of
       None \<Rightarrow> throwR InvalidRefreshTokenError
     | Some l \<Rightarrow>
         if lk_state l = Token_used
         then thenR (revokeInternal E (lk_sid l) Session_reuse_detected False)
           (\<lambda>_. throwR (RefreshTokenReuseDetectedError (lk_sid l)))
         else thenR (readR (getSession (lk_sid l))) (\<lambda>current. case current of
             None \<Rightarrow> throwR InvalidRefreshTokenError
           | Some c \<Rightarrow> thenR (liftR (assertActive c now)) (\<lambda>_. rotateCurrent E refreshHash c now))))"

subsection \<open>Revoking\<close>

definition revoke :: "session_env \<Rightarrow> string \<Rightarrow> bool sess" where
  "revoke E sid = thenR (revokeInternal E sid Session_revoked True) (\<lambda>r. returnR (r \<noteq> None))"

definition revokeAllForUser :: "session_env \<Rightarrow> string \<Rightarrow> nat sess" where
  "revokeAllForUser E userId =
     thenR (readR (listSessionIdsByUser userId)) (\<lambda>sids.
     thenR (forR (\<lambda>sid. revokeRecord E sid Session_revoked) sids) (\<lambda>rs.
     let revoked = List.map_filter id rs in
     thenR (forR publishR (remdupsKeep (map (scopeOf \<circ> fst) revoked))) (\<lambda>_.
     thenR (allR (\<lambda>(r, at). appendMirror E r Session_revoked at) revoked) (\<lambda>_. returnR (length revoked)))))"

definition revokeAllForTenant :: "session_env \<Rightarrow> string \<Rightarrow> nat sess" where
  "revokeAllForTenant E tenantId =
     thenR (readR (listSessionIdsByTenant tenantId)) (\<lambda>sids.
     thenR (forR (\<lambda>sid. revokeRecord E sid Session_revoked) sids) (\<lambda>rs.
     let revoked = List.map_filter id rs in
     thenR (if revoked = [] then returnR () else publishR (''*:'' @ tenantId)) (\<lambda>_.
     thenR (allR (\<lambda>(r, at). appendMirror E r Session_revoked at) revoked) (\<lambda>_. returnR (length revoked)))))"

subsection \<open>Reading, touching and exchanging\<close>

definition get :: "session_env \<Rightarrow> string \<Rightarrow> session_record option sess" where
  "get E sid = thenR (readR (getSession sid)) (\<lambda>session. case session of
     None \<Rightarrow> returnR None
   | Some r \<Rightarrow> thenR (nowR E) (\<lambda>now. case assertActive r now of
        Inr _ \<Rightarrow> returnR (Some r)
      | Inl (SessionExpiredError i) \<Rightarrow> thenR (revokeInternal E sid Session_revoked False) (\<lambda>_. returnR None)
      | Inl e \<Rightarrow> throwR e))"

text \<open>The checks \<open>getActive\<close> makes of a record before it trusts it.\<close>

definition recordValid :: "string \<Rightarrow> session_record \<Rightarrow> bool" where
  "recordValid sid r \<longleftrightarrow> se_sid r = sid \<and> se_userId r \<noteq> [] \<and> se_tenantId r \<noteq> [] \<and> se_cognitoSub r \<noteq> []
     \<and> se_refreshFamilyId r \<noteq> [] \<and> se_refreshTokenHash r \<noteq> []
     \<and> (case (date_parse (se_createdAt r), date_parse (se_updatedAt r), date_parse (se_lastTouchedAt r),
          date_parse (se_expiresAt r), date_parse (se_idleExpiresAt r)) of
         (Some createdAt, Some updatedAt, Some lastTouchedAt, Some expiresAt, Some idleExpiresAt) \<Rightarrow>
           \<not> (createdAt > lastTouchedAt \<or> lastTouchedAt > updatedAt \<or> createdAt > idleExpiresAt
             \<or> idleExpiresAt > expiresAt \<or> lastTouchedAt > expiresAt)
           \<and> (case se_revokedAt r of None \<Rightarrow> True
              | Some v \<Rightarrow> (case date_parse v of None \<Rightarrow> False | Some t \<Rightarrow> \<not> t < createdAt))
           \<and> (case se_strongFactorVerifiedAt r of None \<Rightarrow> True | Some v \<Rightarrow> date_parse v \<noteq> None)
       | _ \<Rightarrow> False)"

definition getActive :: "session_env \<Rightarrow> string \<Rightarrow> session_record option sess" where
  "getActive E sid = thenR (readR (getSession sid)) (\<lambda>session. case session of
     None \<Rightarrow> returnR None
   | Some r \<Rightarrow>
      thenR (guardR (\<not> recordValid sid r) (SessionError ''SESSION_RECORD_INVALID'')) (\<lambda>_.
      thenR (nowR E) (\<lambda>now.
      if se_status r \<noteq> Session_active then returnR None
      else if nan_le (date_parse (se_expiresAt r)) (Some now) \<or> nan_le (date_parse (se_idleExpiresAt r)) (Some now)
      then thenR (revokeInternal E sid Session_revoked False) (\<lambda>_. returnR None)
      else returnR (Some r))))"

definition touch :: "session_env \<Rightarrow> string \<Rightarrow> session_record option sess" where
  "touch E sid = thenR (get E sid) (\<lambda>session. case session of
     None \<Rightarrow> returnR None
   | Some r \<Rightarrow> thenR (nowR E) (\<lambda>now. storeR (touchSession sid
       (minIso (toISOString (addSeconds now (sv_idleSeconds E))) (se_expiresAt r)) (toISOString now))))"

record exchange_options =
  xo_sessionId :: string
  xo_newTenantId :: string
  xo_actorUserId :: string
  xo_membershipId :: "string option"
  xo_deviceMeta :: "(string \<times> json) list option"
  xo_permsHash :: "string option"

definition exchange :: "session_env \<Rightarrow> exchange_options \<Rightarrow> (session_bundle \<times> string) sess" where
  "exchange E options = thenR (readR (getSession (xo_sessionId options))) (\<lambda>session. case session of
     None \<Rightarrow> throwR (SessionExchangeError SESSION_NOT_FOUND (''Session '' @ xo_sessionId options @ '' not found''))
   | Some current \<Rightarrow>
      thenR (guardR (se_userId current \<noteq> xo_actorUserId options) (SessionExchangeError SESSION_OWNER_MISMATCH
        (''Session '' @ xo_sessionId options @ '' does not belong to user '' @ xo_actorUserId options))) (\<lambda>_.
      thenR (nowR E) (\<lambda>now.
      thenR (guardR (isl (assertActive current now)) (SessionExchangeError SESSION_NOT_ACTIVE
        (''Session '' @ xo_sessionId options @ '' is no longer active''))) (\<lambda>_.
      thenR (create E (xo_actorUserId options) (xo_newTenantId options) (se_cognitoSub current)
        (case xo_deviceMeta options of Some d \<Rightarrow> d | None \<Rightarrow>
           (case se_deviceMeta current of Some d \<Rightarrow> d | None \<Rightarrow> []))
        \<lparr>md_membershipId = xo_membershipId options, md_permsHash = xo_permsHash options, md_claims = None,
         md_factorClaims = None, md_priorSessionId = Some (xo_sessionId options)\<rparr>) (\<lambda>b.
      returnR (b, xo_sessionId options))))))"

end
