(* ===== verification/Session_Inv.thy ===== *)
theory Session_Inv
  imports Session_Service
begin

text \<open>
  The invariant of the session store. Every stored session is active, stored under its own identifier, reachable
  through both indexes, and its current refresh token is the only active one that leads to it; every active refresh
  token leads to a stored session that holds it. Each operation of the store keeps it, given that a created session
  has a new identifier and a new token.
\<close>

definition bucket :: "(string, string list) jsmap \<Rightarrow> string \<Rightarrow> string list" where
  "bucket index key = (case jget index key of None \<Rightarrow> [] | Some b \<Rightarrow> b)"

lemma bucket_addIndex [simp]:
  "bucket (addIndex key sid index) k = (if k = key then setAdd sid (bucket index key) else bucket index k)"
  by (simp add: bucket_def addIndex_def)

lemma bucket_removeIndex [simp]:
  "bucket (removeIndex key sid index) k = (if k = key then filter (\<lambda>x. x \<noteq> sid) (bucket index key) else bucket index k)"
  by (simp add: bucket_def removeIndex_def split: option.split)

lemma set_setAdd [simp]: "set (setAdd x xs) = insert x (set xs)"
  by (auto simp: setAdd_def)

lemma distinct_setAdd [simp]: "distinct xs \<Longrightarrow> distinct (setAdd x xs)"
  by (simp add: setAdd_def)

definition live_ok :: "session_store \<Rightarrow> string \<Rightarrow> session_record \<Rightarrow> bool" where
  "live_ok s sid r \<longleftrightarrow> se_sid r = sid \<and> se_status r = Session_active
     \<and> jget (ss_refreshLookups s) (se_refreshTokenHash r) = Some (lookupOf r Token_active)
     \<and> sid \<in> set (bucket (ss_sessionsByUser s) (se_userId r))
     \<and> sid \<in> set (bucket (ss_sessionsByTenant s) (se_tenantId r))"

definition token_ok :: "session_store \<Rightarrow> string \<Rightarrow> token_lookup \<Rightarrow> bool" where
  "token_ok s h l \<longleftrightarrow> (lk_state l = Token_active \<longrightarrow>
     (\<exists>r. jget (ss_sessions s) (lk_sid l) = Some r \<and> se_refreshTokenHash r = h))"

definition store_inv :: "session_store \<Rightarrow> bool" where
  "store_inv s \<longleftrightarrow> (\<forall>sid r. jget (ss_sessions s) sid = Some r \<longrightarrow> live_ok s sid r)
     \<and> (\<forall>h l. jget (ss_refreshLookups s) h = Some l \<longrightarrow> token_ok s h l)
     \<and> (\<forall>u. distinct (bucket (ss_sessionsByUser s) u))"

lemma store_inv_live: "store_inv s \<Longrightarrow> jget (ss_sessions s) sid = Some r \<Longrightarrow> live_ok s sid r"
  by (simp add: store_inv_def)

lemma store_inv_token: "store_inv s \<Longrightarrow> jget (ss_refreshLookups s) h = Some l \<Longrightarrow> token_ok s h l"
  by (simp add: store_inv_def)

text \<open>Two stored sessions have different tokens.\<close>

lemma live_hash_inject:
  assumes "store_inv s" "jget (ss_sessions s) i = Some r" "jget (ss_sessions s) j = Some q"
    "se_refreshTokenHash r = se_refreshTokenHash q"
  shows "i = j"
proof -
  have "lookupOf r Token_active = lookupOf q Token_active" "se_sid r = i" "se_sid q = j"
    using store_inv_live [OF assms(1,2)] store_inv_live [OF assms(1,3)] assms(4) by (auto simp: live_ok_def)
  then show ?thesis
    by (simp add: lookupOf_def)
qed

lemma createSession_inv:
  assumes "store_inv s" "jget (ss_sessions s) (se_sid r) = None" "jget (ss_refreshLookups s) (se_refreshTokenHash r) = None"
    "se_status r = Session_active"
  shows "store_inv (createSession r s)"
  unfolding store_inv_def
proof (intro conjI allI impI)
  fix sid q assume q: "jget (ss_sessions (createSession r s)) sid = Some q"
  show "live_ok (createSession r s) sid q"
  proof (cases "sid = se_sid r")
    case True
    with q assms(4) show ?thesis
      by (simp add: createSession_def live_ok_def)
  next
    case False
    then have "live_ok s sid q"
      using q assms(1) by (simp add: createSession_def store_inv_live)
    with False assms(3) show ?thesis
      by (auto simp: createSession_def live_ok_def)
  qed
next
  fix h l assume l: "jget (ss_refreshLookups (createSession r s)) h = Some l"
  show "token_ok (createSession r s) h l"
  proof (cases "h = se_refreshTokenHash r")
    case True
    with l show ?thesis
      by (auto simp: createSession_def token_ok_def lookupOf_def)
  next
    case False
    then have "token_ok s h l"
      using l assms(1) by (simp add: createSession_def store_inv_token)
    with assms(2) show ?thesis
      by (auto simp: createSession_def token_ok_def)
  qed
next
  fix u show "distinct (bucket (ss_sessionsByUser (createSession r s)) u)"
    using assms(1) by (simp add: createSession_def store_inv_def)
qed

lemma dropSession_inv:
  assumes "store_inv s" "jget (ss_sessions s) (se_sid r) = Some r"
  shows "store_inv (dropSession r now s)"
  unfolding store_inv_def
proof (intro conjI allI impI)
  fix sid q assume q: "jget (ss_sessions (dropSession r now s)) sid = Some q"
  then have sid: "sid \<noteq> se_sid r" "jget (ss_sessions s) sid = Some q"
    by (auto simp: dropSession_def split: if_splits)
  then have "se_refreshTokenHash q \<noteq> se_refreshTokenHash r"
    using live_hash_inject [OF assms(1) sid(2) assms(2)] by blast
  then show "live_ok (dropSession r now s) sid q"
    using store_inv_live [OF assms(1) sid(2)] sid(1) by (auto simp: dropSession_def live_ok_def)
next
  fix h l assume l: "jget (ss_refreshLookups (dropSession r now s)) h = Some l"
  show "token_ok (dropSession r now s) h l"
  proof (cases "h = se_refreshTokenHash r")
    case True
    with l show ?thesis
      by (auto simp: dropSession_def token_ok_def lookupOf_def)
  next
    case False
    then have "token_ok s h l"
      using l assms(1) by (simp add: dropSession_def store_inv_token)
    with False assms(2) show ?thesis
      by (auto simp: dropSession_def token_ok_def)
  qed
next
  fix u show "distinct (bucket (ss_sessionsByUser (dropSession r now s)) u)"
    using assms(1) by (simp add: dropSession_def store_inv_def)
qed

text \<open>\<open>revokeSession\<close> is the dropping of the stored session.\<close>

lemma revokeSession_drop:
  assumes "store_inv s" "jget (ss_sessions s) sid = Some r"
  shows "revokeSession sid at status s = (Some (revokedRecord r status at), dropSession r at s)"
proof -
  have "se_sid r = sid"
    using store_inv_live [OF assms] by (simp add: live_ok_def)
  then show ?thesis
    using assms(2) by (simp add: revokeSession_def dropSession_def lookupOf_def)
qed

lemma touchSession_inv:
  assumes "store_inv s"
  shows "store_inv (snd (touchSession sid idle at s))"
proof (cases "jget (ss_sessions s) sid")
  case (Some r)
  show ?thesis
    unfolding store_inv_def
  proof (intro conjI allI impI)
    fix i q assume "jget (ss_sessions (snd (touchSession sid idle at s))) i = Some q"
    then show "live_ok (snd (touchSession sid idle at s)) i q"
      using Some store_inv_live [OF assms]
      by (force simp: touchSession_def live_ok_def lookupOf_def Let_def split: if_splits)
  next
    fix h l assume "jget (ss_refreshLookups (snd (touchSession sid idle at s))) h = Some l"
    then have "token_ok s h l"
      using Some store_inv_token [OF assms] by (simp add: touchSession_def Let_def)
    then show "token_ok (snd (touchSession sid idle at s)) h l"
      using Some by (auto simp: touchSession_def token_ok_def Let_def)
  next
    fix u show "distinct (bucket (ss_sessionsByUser (snd (touchSession sid idle at s))) u)"
      using assms Some by (simp add: touchSession_def store_inv_def Let_def)
  qed
qed (use assms in \<open>simp add: touchSession_def\<close>)

lemma rotateRefreshToken_inv:
  assumes "store_inv s" "jget (ss_refreshLookups s) nextHash = None"
  shows "store_inv (snd (rotateRefreshToken sid currentHash nextHash idle at s))"
proof (cases "fst (rotateRefreshToken sid currentHash nextHash idle at s)")
  case None
  then have "snd (rotateRefreshToken sid currentHash nextHash idle at s) = s"
    by (auto simp: rotateRefreshToken_def Let_def split: option.splits if_splits)
  with assms(1) show ?thesis by simp
next
  case (Some q)
  then obtain r l where r: "jget (ss_sessions s) sid = Some r" "jget (ss_refreshLookups s) currentHash = Some l"
    "lk_state l = Token_active" "se_refreshTokenHash r = currentHash"
    by (auto simp: rotateRefreshToken_def Let_def split: option.splits if_splits)
  have sid: "se_sid r = sid" "l = lookupOf r Token_active"
    using store_inv_live [OF assms(1) r(1)] r(2,4) by (auto simp: live_ok_def)
  have diff: "nextHash \<noteq> currentHash"
    using assms(2) r(2) by auto
  let ?q = "r\<lparr>se_refreshTokenHash := nextHash, se_idleExpiresAt := idle, se_lastTouchedAt := at, se_updatedAt := at\<rparr>"
  let ?t = "snd (rotateRefreshToken sid currentHash nextHash idle at s)"
  have t: "?t = s\<lparr>ss_sessions := jset sid ?q (ss_sessions s),
      ss_refreshLookups := jset nextHash (lookupOf ?q Token_active)
        (jset currentHash (lookupOf r Token_used) (ss_refreshLookups s))\<rparr>"
    using r sid(1) by (simp add: rotateRefreshToken_def lookupOf_def Let_def)
  show ?thesis
    unfolding store_inv_def
  proof (intro conjI allI impI)
    fix i p assume p: "jget (ss_sessions ?t) i = Some p"
    show "live_ok ?t i p"
    proof (cases "i = sid")
      case True
      then show ?thesis
        using p store_inv_live [OF assms(1) r(1)] diff sid(1) by (auto simp: t live_ok_def)
    next
      case False
      then have s: "jget (ss_sessions s) i = Some p"
        using p by (simp add: t)
      then have "se_refreshTokenHash p \<noteq> currentHash" "se_refreshTokenHash p \<noteq> nextHash"
        using live_hash_inject [OF assms(1) s r(1)] r(4) False store_inv_live [OF assms(1) s] assms(2)
        by (auto simp: live_ok_def)
      then show ?thesis
        using store_inv_live [OF assms(1) s] by (simp add: t live_ok_def)
    qed
  next
    fix h k assume k: "jget (ss_refreshLookups ?t) h = Some k"
    show "token_ok ?t h k"
    proof (cases "h = nextHash \<or> h = currentHash")
      case True
      then show ?thesis
        using k sid(1) diff by (auto simp: t token_ok_def lookupOf_def split: if_splits)
    next
      case False
      then have "token_ok s h k"
        using k store_inv_token [OF assms(1)] by (simp add: t)
      then show ?thesis
        using False r by (auto simp: t token_ok_def)
    qed
  next
    fix u show "distinct (bucket (ss_sessionsByUser ?t) u)"
      using assms(1) by (simp add: t store_inv_def)
  qed
qed


subsection \<open>Several sessions ended at once\<close>

lemma dropSession_sessions [simp]:
  "jget (ss_sessions (dropSession r now s)) i = (if i = se_sid r then None else jget (ss_sessions s) i)"
  by (simp add: dropSession_def)

lemma fold_drop_inv:
  "store_inv s \<Longrightarrow> distinct (map se_sid rs) \<Longrightarrow> \<forall>r \<in> set rs. jget (ss_sessions s) (se_sid r) = Some r
   \<Longrightarrow> store_inv (fold (\<lambda>r. dropSession r now) rs s)"
proof (induction rs arbitrary: s)
  case (Cons r rs)
  have "store_inv (dropSession r now s)"
    using Cons.prems by (intro dropSession_inv) simp_all
  moreover have "\<forall>q \<in> set rs. jget (ss_sessions (dropSession r now s)) (se_sid q) = Some q"
  proof
    fix q assume q: "q \<in> set rs"
    then have "se_sid q \<noteq> se_sid r"
      using Cons.prems(2) by (metis distinct.simps(2) image_eqI list.set_map list.simps(9))
    with q Cons.prems(3) show "jget (ss_sessions (dropSession r now s)) (se_sid q) = Some q"
      by simp
  qed
  ultimately show ?case
    using Cons.IH [of "dropSession r now s"] Cons.prems(2) by simp
qed simp

lemma fold_drop_sessions:
  "jget (ss_sessions (fold (\<lambda>r. dropSession r now) rs s)) i =
   (if i \<in> se_sid ` set rs then None else jget (ss_sessions s) i)"
  by (induction rs arbitrary: s) auto

lemma fold_drop_fresh:
  "h \<notin> se_refreshTokenHash ` set rs
   \<Longrightarrow> jget (ss_refreshLookups (fold (\<lambda>r. dropSession r now) rs s)) h = jget (ss_refreshLookups s) h"
  by (induction rs arbitrary: s) (auto simp: dropSession_def)

text \<open>The sessions that \<open>createWithPolicy\<close> ends.\<close>

definition endedBy :: "session_record \<Rightarrow> policy_options \<Rightarrow> session_store \<Rightarrow> session_record list" where
  "endedBy record options s =
     (if pl_mode options = Mode_revoke_existing then conflictsOf record options s else [])
     @ (case (if hasPrior (pl_priorSessionId options) then priorOf options s else None) of None \<Rightarrow> [] | Some p \<Rightarrow> [p])"

lemma conflict_in:
  assumes "store_inv s"
  shows "r \<in> set (conflictsOf record options s) \<longleftrightarrow> jget (ss_sessions s) (se_sid r) = Some r
    \<and> Some (se_sid r) \<noteq> pl_priorSessionId options \<and> se_sid r \<in> set (bucket (ss_sessionsByUser s) (se_userId record))
    \<and> se_tenantId r = se_tenantId record \<and> isActive r (date_parse (pl_now options))"
proof -
  have own: "jget (ss_sessions s) i = Some q \<Longrightarrow> se_sid q = i" for i q
    using store_inv_live [OF assms] by (simp add: live_ok_def)
  have "q \<in> set (List.map_filter (jget (ss_sessions s)) is)
      \<longleftrightarrow> se_sid q \<in> set is \<and> jget (ss_sessions s) (se_sid q) = Some q" for q "is"
  proof
    assume "q \<in> set (List.map_filter (jget (ss_sessions s)) is)"
    then obtain i where "i \<in> set is" "jget (ss_sessions s) i = Some q"
      by (auto simp: List.map_filter_def)
    with own [of i q] show "se_sid q \<in> set is \<and> jget (ss_sessions s) (se_sid q) = Some q"
      by simp
  qed (force simp: List.map_filter_def)
  then show ?thesis
    by (auto simp: conflictsOf_def bucket_def [symmetric])
qed

lemma conflicts_distinct:
  assumes "store_inv s"
  shows "distinct (map se_sid (conflictsOf record options s))"
proof -
  have own: "jget (ss_sessions s) i = Some q \<Longrightarrow> se_sid q = i" for i q
    using store_inv_live [OF assms] by (simp add: live_ok_def)
  have "distinct (map se_sid (filter P (List.map_filter (jget (ss_sessions s)) is)))" if "distinct is" for P "is"
    using that
  proof (induction "is")
    case (Cons i "is")
    have "se_sid q \<in> set is" if "q \<in> set (List.map_filter (jget (ss_sessions s)) is)" for q
      using that own by (auto simp: List.map_filter_def)
    then show ?case
      using Cons own by (auto simp: map_filter_simps split: option.split)
  qed (simp add: map_filter_simps)
  moreover have "distinct (filter Q (bucket (ss_sessionsByUser s) u))" for Q u
    using assms by (simp add: store_inv_def)
  ultimately show ?thesis
    by (simp add: conflictsOf_def bucket_def [symmetric])
qed

lemma endedBy_stored:
  assumes "store_inv s"
  shows "distinct (map se_sid (endedBy record options s))"
    "\<forall>r \<in> set (endedBy record options s). jget (ss_sessions s) (se_sid r) = Some r"
proof -
  have prior: "pl_priorSessionId options = Some (se_sid p) \<and> jget (ss_sessions s) (se_sid p) = Some p"
    if "priorOf options s = Some p" for p
  proof -
    obtain i where i: "pl_priorSessionId options = Some i" "jget (ss_sessions s) i = Some p"
      using \<open>priorOf options s = Some p\<close> by (auto simp: priorOf_def bind_eq_Some_conv)
    then show ?thesis
      using store_inv_live [OF assms i(2)] by (simp add: live_ok_def)
  qed
  have new: "se_sid p \<notin> se_sid ` set (conflictsOf record options s)" if "priorOf options s = Some p" for p
    using prior [OF that] conflict_in [OF assms] by auto
  show "distinct (map se_sid (endedBy record options s))"
  proof (cases "priorOf options s")
    case None
    then show ?thesis
      using conflicts_distinct [OF assms] by (simp add: endedBy_def)
  next
    case (Some p)
    then show ?thesis
      using conflicts_distinct [OF assms] new [OF Some] by (simp add: endedBy_def)
  qed
  have "\<forall>r \<in> set (conflictsOf record options s). jget (ss_sessions s) (se_sid r) = Some r"
    using conflict_in [OF assms] by blast
  then show "\<forall>r \<in> set (endedBy record options s). jget (ss_sessions s) (se_sid r) = Some r"
    using prior by (cases "priorOf options s") (simp_all add: endedBy_def ball_Un)
qed

lemma createWithPolicy_cases:
  assumes "createWithPolicy record options s = (r, t)"
  obtains e where "r = Inl e" "t = s"
  | "r = Inr (map (\<lambda>q. revokedRecord q Session_revoked (pl_now options)) (endedBy record options s))"
    "t = createSession record (fold (\<lambda>q. dropSession q (pl_now options)) (endedBy record options s) s)"
    "pl_mode options = Mode_reject_new \<Longrightarrow> conflictsOf record options s = []"
proof -
  let ?prior = "if hasPrior (pl_priorSessionId options) then priorOf options s else None"
  let ?c = "hasPrior (pl_priorSessionId options) \<and> (case ?prior of None \<Rightarrow> True
    | Some p \<Rightarrow> se_userId p \<noteq> se_userId record \<or> \<not> isActive p (date_parse (pl_now options)))"
  let ?d = "pl_mode options = Mode_reject_new \<and> conflictsOf record options s \<noteq> []"
  consider "?c" | "\<not> ?c" "?d" | "\<not> ?c" "\<not> ?d"
    by blast
  then show thesis
  proof cases
    case 1
    then have "createWithPolicy record options s
      = (Inl (SessionExchangeError SESSION_NOT_ACTIVE ''Prior session is not active for this user''), s)"
      unfolding createWithPolicy_def Let_def by (rule if_P)
    with assms show thesis by (auto intro: that(1))
  next
    case 2
    then have "createWithPolicy record options s = (Inl SessionConflictError, s)"
      unfolding createWithPolicy_def Let_def by (subst if_not_P [OF 2(1)], subst if_P [OF 2(2)]) (rule refl)
    with assms show thesis by (auto intro: that(1))
  next
    case 3
    then have "createWithPolicy record options s = (Inr (map (\<lambda>q. revokedRecord q Session_revoked (pl_now options))
        (endedBy record options s)),
      createSession record (fold (\<lambda>q. dropSession q (pl_now options)) (endedBy record options s) s))"
      unfolding createWithPolicy_def Let_def endedBy_def by (subst if_not_P [OF 3(1)], subst if_not_P [OF 3(2)]) (rule refl)
    with assms 3 that(2) show thesis by simp
  qed
qed

end
