(* ===== verification/Session_Runs.thy ===== *)
theory Session_Runs
  imports Session_Inv Transition_System
begin

text \<open>
  What an operation of the session service may change, as a relation between the state before and the state after.
  The locale \<open>session_order\<close> is the interface of such a relation; its rules follow the structure of an operation.
  \<open>calm\<close> leaves sessions and tokens alone, \<open>proper\<close> keeps the invariant and makes what is used or ended stay so,
  and \<open>reported\<close> keeps a session on the revocation list. The service as a step relation is an instance of
  \<open>monotone_system\<close>.
\<close>

subsection \<open>Relations that follow the structure of an operation\<close>

named_theorems sess_simps

lemma sess_basic [sess_simps]:
  "returnR x s = (Inr x, s)" "throwR e s = (Inl e, s)" "liftR r s = (r, s)" "readR f s = (Inr (f (sx_store s)), s)"
  by (simp_all add: returnR_def throwR_def liftR_def readR_def)

lemma thenR_now [sess_simps]: "thenR (nowR E) f s = f (sv_clock E (sx_ticks s)) (s\<lparr>sx_ticks := Suc (sx_ticks s)\<rparr>)"
  by (simp add: thenR_def nowR_def)

lemma thenR_read [sess_simps]: "thenR (readR g) f s = f (g (sx_store s)) s"
  by (simp add: thenR_def sess_basic)

lemma thenR_return [sess_simps]: "thenR (returnR x) f s = f x s"
  by (simp add: thenR_def sess_basic)

lemma thenR_throw [sess_simps]: "thenR (throwR e) f s = (Inl e, s)"
  by (simp add: thenR_def sess_basic)

lemma thenR_Inr:
  assumes "thenR m f s = (Inr y, u)"
  obtains x t where "m s = (Inr x, t)" "f x t = (Inr y, u)"
  using assms by (auto simp: thenR_def split: prod.splits sum.splits)

definition leads :: "(session_state \<Rightarrow> session_state \<Rightarrow> bool) \<Rightarrow> 'a sess \<Rightarrow> session_state \<Rightarrow> bool" where
  "leads R m s \<longleftrightarrow> R s (snd (m s))"

lemma leadsD: "leads R m s \<Longrightarrow> m s = (r, t) \<Longrightarrow> R s t"
  by (simp add: leads_def)

lemma leads_mono: "leads R m s \<Longrightarrow> (\<And>t. R s t \<Longrightarrow> Q s t) \<Longrightarrow> leads Q m s"
  by (simp add: leads_def)

locale session_order =
  fixes R :: "session_state \<Rightarrow> session_state \<Rightarrow> bool"
  assumes refl: "R s s"
    and trans: "R s t \<Longrightarrow> R t u \<Longrightarrow> R s u"
begin

lemma leads_same: "snd (m s) = s \<Longrightarrow> leads R m s"
  by (simp add: leads_def refl)

lemma leads_return: "leads R (returnR x) s"
  by (simp add: leads_same sess_basic)

lemma leads_throw: "leads R (throwR e) s"
  by (simp add: leads_same sess_basic)

lemma leads_lift: "leads R (liftR r) s"
  by (simp add: leads_same sess_basic)

lemma leads_read: "leads R (readR f) s"
  by (simp add: leads_same sess_basic)

lemma leads_guard: "leads R (guardR c e) s"
  by (simp add: guardR_def leads_return leads_throw)

lemma leads_claims: "leads R (claimsR E sid u t x) s"
  by (rule leads_same) (simp add: claimsR_def split: option.split sum.split)

lemma leads_then:
  assumes "leads R m s" and "\<And>x t. m s = (Inr x, t) \<Longrightarrow> leads R (f x) t"
  shows "leads R (thenR m f) s"
proof (cases "m s")
  case (Pair r t)
  then have "R s t"
    using assms(1) by (simp add: leads_def)
  show ?thesis
  proof (cases r)
    case (Inr x)
    then show ?thesis
      using Pair \<open>R s t\<close> assms(2) [of x t] by (auto simp: leads_def thenR_def intro: trans)
  qed (use Pair \<open>R s t\<close> in \<open>auto simp: leads_def thenR_def\<close>)
qed

lemma leads_for: "(\<And>x t. leads R (f x) t) \<Longrightarrow> leads R (forR f xs) s"
  by (induction xs arbitrary: s) (auto intro!: leads_return leads_then)

lemma leads_all:
  assumes "\<And>x t. leads R (f x) t"
  shows "leads R (allR f xs) s"
proof (induction xs arbitrary: s)
  case (Cons x xs)
  show ?case
  proof (cases "f x s")
    case (Pair r t)
    have "R s t" "R t (snd (allR f xs t))"
      using assms [of x s] Cons [of t] Pair by (simp_all add: leads_def)
    then have "R s (snd (allR f xs t))" by (rule trans)
    then show ?thesis
      using Pair by (simp add: leads_def split: sum.split)
  qed
qed (simp add: leads_return)

lemma leads_bundle: "leads R (bundleOf E r tok now) s"
  unfolding bundleOf_def by (intro leads_then leads_lift) (simp add: leads_return split: prod.split)

lemmas leads_rules = leads_return leads_throw leads_lift leads_read leads_guard leads_claims leads_bundle leads_then

end

subsection \<open>Calm operations\<close>

text \<open>
  Sessions, tokens and indexes are as before; identifiers, tokens and instants may have been drawn, and sessions may
  have been put on the revocation list, or stay there for longer.
\<close>

definition revocations_grow :: "session_state \<Rightarrow> session_state \<Rightarrow> bool" where
  "revocations_grow s t \<longleftrightarrow> (\<forall>sid u. jget (sx_revoked s) sid = Some u \<longrightarrow> (\<exists>v\<ge>u. jget (sx_revoked t) sid = Some v))"

lemma revocations_grow_trans: "revocations_grow s t \<Longrightarrow> revocations_grow t u \<Longrightarrow> revocations_grow s u"
  unfolding revocations_grow_def by (meson order_trans)

lemma revocations_grow_same: "sx_revoked t = sx_revoked s \<Longrightarrow> revocations_grow s t"
  by (auto simp: revocations_grow_def)

definition same_store :: "session_store \<Rightarrow> session_store \<Rightarrow> bool" where
  "same_store a b \<longleftrightarrow> ss_sessions b = ss_sessions a \<and> ss_refreshLookups b = ss_refreshLookups a
     \<and> ss_sessionsByUser b = ss_sessionsByUser a \<and> ss_sessionsByTenant b = ss_sessionsByTenant a"

definition calm :: "session_state \<Rightarrow> session_state \<Rightarrow> bool" where
  "calm s t \<longleftrightarrow> same_store (sx_store s) (sx_store t) \<and> sx_uuids s \<le> sx_uuids t \<and> sx_tokens s \<le> sx_tokens t
     \<and> revocations_grow s t"

interpretation cm: session_order calm
  by unfold_locales (auto simp: calm_def same_store_def revocations_grow_same intro: revocations_grow_trans)

lemma calm_now: "leads calm (nowR E) s"
  by (simp add: leads_def nowR_def calm_def same_store_def revocations_grow_same)

lemma calm_publish: "leads calm (publishR x) s"
  by (simp add: leads_def publishR_def storeR_def publishInvalidation_def calm_def same_store_def
    revocations_grow_same)

lemma calm_mirror: "leads calm (mirrorR E x) s"
  by (simp add: leads_def mirrorR_def calm_def same_store_def revocations_grow_same split: option.split)

lemma calm_appendMirror: "leads calm (appendMirror E r st at) s"
  by (simp add: appendMirror_def calm_mirror)

lemma calm_revocation: "leads calm (revocationR E sid at) s"
  by (simp add: leads_def revocationR_def calm_def same_store_def revocations_grow_same)
    (simp add: revocations_grow_def addRevocation_def Let_def split: option.split)

lemma calm_announce: "leads calm (announce E record revoked now) s"
  unfolding announce_def
  by (intro cm.leads_then cm.leads_for calm_revocation calm_publish calm_appendMirror calm_mirror)

subsection \<open>The invariant of the service\<close>

text \<open>Tokens and identifiers in the store have been drawn before.\<close>

definition drawn :: "session_env \<Rightarrow> nat \<Rightarrow> nat \<Rightarrow> session_store \<Rightarrow> bool" where
  "drawn E m n a \<longleftrightarrow> (\<forall>h l. jget (ss_refreshLookups a) h = Some l \<longrightarrow>
     (\<exists>i<n. h = hashRefreshToken E (sv_token E i)) \<and> (\<exists>i<m. lk_sid l = sv_uuid E i))"

text \<open>
  The strong factor, when one is required, has been verified, and the idle limit is not after the absolute one.
\<close>

definition verified :: "session_env \<Rightarrow> session_record \<Rightarrow> bool" where
  "verified E r \<longleftrightarrow> (sv_strongFactor E \<noteq> None \<longrightarrow> se_strongFactorVerifiedAt r \<noteq> None)
     \<and> \<not> nan_gt (date_parse (se_idleExpiresAt r)) (date_parse (se_expiresAt r))"

definition session_inv :: "session_env \<Rightarrow> session_state \<Rightarrow> bool" where
  "session_inv E s \<longleftrightarrow> store_inv (sx_store s) \<and> drawn E (sx_uuids s) (sx_tokens s) (sx_store s)
     \<and> (\<forall>sid r. jget (ss_sessions (sx_store s)) sid = Some r \<longrightarrow> verified E r)"

text \<open>A token keeps its session and stays used once used; a session that was there and is gone stays gone.\<close>

definition store_later :: "session_store \<Rightarrow> session_store \<Rightarrow> bool" where
  "store_later a b \<longleftrightarrow> (\<forall>h l. jget (ss_refreshLookups a) h = Some l \<longrightarrow>
       (\<exists>l'. jget (ss_refreshLookups b) h = Some l' \<and> lk_sid l' = lk_sid l
          \<and> (lk_state l = Token_used \<longrightarrow> lk_state l' = Token_used))
       \<and> (jget (ss_sessions a) (lk_sid l) = None \<longrightarrow> jget (ss_sessions b) (lk_sid l) = None))"

lemma store_later_refl: "store_later a a"
  by (simp add: store_later_def)

lemma store_later_trans: "store_later a b \<Longrightarrow> store_later b c \<Longrightarrow> store_later a c"
  unfolding store_later_def by fastforce

definition later :: "session_state \<Rightarrow> session_state \<Rightarrow> bool" where
  "later s t \<longleftrightarrow> store_later (sx_store s) (sx_store t)"

definition proper :: "session_env \<Rightarrow> session_state \<Rightarrow> session_state \<Rightarrow> bool" where
  "proper E s t \<longleftrightarrow> (session_inv E s \<longrightarrow> session_inv E t \<and> later s t \<and> revocations_grow s t)"

interpretation pr: session_order "proper E" for E
  by unfold_locales (auto simp: proper_def later_def store_later_refl revocations_grow_same
    intro: store_later_trans revocations_grow_trans)

lemma drawn_mono: "drawn E m n a \<Longrightarrow> m \<le> m' \<Longrightarrow> n \<le> n' \<Longrightarrow> drawn E m' n' a"
  unfolding drawn_def by (meson less_le_trans)

lemma calm_proper: assumes "calm s t" shows "proper E s t"
proof -
  have same: "same_store (sx_store s) (sx_store t)" "sx_uuids s \<le> sx_uuids t" "sx_tokens s \<le> sx_tokens t"
    "revocations_grow s t"
    using assms by (simp_all add: calm_def)
  then have "drawn E (sx_uuids s) (sx_tokens s) (sx_store s) \<Longrightarrow> drawn E (sx_uuids t) (sx_tokens t) (sx_store t)"
    using drawn_mono [of E "sx_uuids s" "sx_tokens s" "sx_store t"] by (simp add: drawn_def same_store_def)
  then show ?thesis
    using same by (simp add: proper_def session_inv_def later_def store_later_def store_inv_def live_ok_def
      token_ok_def same_store_def)
qed

lemma calm_leads_proper: "leads calm m s \<Longrightarrow> leads (proper E) m s"
  by (auto elim: leads_mono intro: calm_proper)

lemma proper_assume: "(session_inv E s \<Longrightarrow> leads (proper E) m s) \<Longrightarrow> leads (proper E) m s"
  by (auto simp: leads_def proper_def)


subsection \<open>The operations of the store are proper\<close>

text \<open>What the session a token or a hash was drawn for needs: neither occurs in the store.\<close>

definition unseen :: "session_store \<Rightarrow> string \<Rightarrow> string \<Rightarrow> bool" where
  "unseen a sid h \<longleftrightarrow> jget (ss_refreshLookups a) h = None \<and> (\<forall>k l. jget (ss_refreshLookups a) k = Some l \<longrightarrow> lk_sid l \<noteq> sid)"

definition distinct_draws :: "session_env \<Rightarrow> bool" where
  "distinct_draws E \<longleftrightarrow> inj (sv_uuid E) \<and> inj (\<lambda>n. hashRefreshToken E (sv_token E n))"

lemma drawn_unseen:
  assumes "distinct_draws E" "drawn E m n a"
  shows "unseen a (sv_uuid E m) (hashRefreshToken E (sv_token E n))"
proof -
  have "hashRefreshToken E (sv_token E i) = hashRefreshToken E (sv_token E n) \<longleftrightarrow> i = n" for i
    using assms(1) by (auto simp: distinct_draws_def dest: injD)
  moreover have "sv_uuid E i = sv_uuid E m \<longleftrightarrow> i = m" for i
    using assms(1) by (auto simp: distinct_draws_def dest: injD)
  ultimately show ?thesis
    using assms(2) unfolding drawn_def unseen_def by (metis less_irrefl not_None_eq)
qed

lemma unseen_not_live: "store_inv a \<Longrightarrow> unseen a sid h \<Longrightarrow> jget (ss_sessions a) sid = None"
proof (rule ccontr)
  assume a: "store_inv a" "unseen a sid h" "jget (ss_sessions a) sid \<noteq> None"
  then obtain r where "jget (ss_sessions a) sid = Some r" by blast
  with a(1) have "jget (ss_refreshLookups a) (se_refreshTokenHash r) = Some (lookupOf r Token_active)" "se_sid r = sid"
    by (auto simp: live_ok_def dest: store_inv_live)
  moreover from this(1) a(2) have "lk_sid (lookupOf r Token_active) \<noteq> sid"
    unfolding unseen_def by blast
  ultimately show False by (simp add: lookupOf_def)
qed

text \<open>The three conditions on a state, for a state with another store.\<close>

lemma session_inv_store:
  "session_inv E (s\<lparr>sx_store := a\<rparr>) \<longleftrightarrow> store_inv a \<and> drawn E (sx_uuids s) (sx_tokens s) a
     \<and> (\<forall>sid r. jget (ss_sessions a) sid = Some r \<longrightarrow> verified E r)"
  by (simp add: session_inv_def)

lemma proper_storeI:
  assumes "session_inv E s \<Longrightarrow> store_inv a" "session_inv E s \<Longrightarrow> drawn E (sx_uuids s) (sx_tokens s) a"
    "\<And>sid r. session_inv E s \<Longrightarrow> jget (ss_sessions a) sid = Some r \<Longrightarrow> verified E r"
    "session_inv E s \<Longrightarrow> store_later (sx_store s) a"
  shows "proper E s (s\<lparr>sx_store := a\<rparr>)"
  using assms by (auto simp: proper_def session_inv_store later_def revocations_grow_same)

lemma session_invD:
  assumes "session_inv E s"
  shows "store_inv (sx_store s)" "drawn E (sx_uuids s) (sx_tokens s) (sx_store s)"
    "jget (ss_sessions (sx_store s)) sid = Some r \<Longrightarrow> verified E r"
  using assms by (auto simp: session_inv_def)

lemma live_drawn:
  assumes "session_inv E s" "jget (ss_sessions (sx_store s)) sid = Some r"
  shows "jget (ss_refreshLookups (sx_store s)) (se_refreshTokenHash r) = Some (lookupOf r Token_active)" "se_sid r = sid"
  using store_inv_live [OF session_invD(1) [OF assms(1)] assms(2)] by (simp_all add: live_ok_def)

lemma drop_later:
  assumes "store_inv a" "jget (ss_sessions a) (se_sid r) = Some r"
  shows "store_later a (dropSession r now a)"
proof -
  have "jget (ss_refreshLookups a) (se_refreshTokenHash r) = Some (lookupOf r Token_active)"
    using store_inv_live [OF assms] by (simp add: live_ok_def)
  then show ?thesis
    by (auto simp: store_later_def dropSession_def lookupOf_def)
qed

lemma drop_drawn:
  assumes "store_inv a" "jget (ss_sessions a) (se_sid r) = Some r" "drawn E m n a"
  shows "drawn E m n (dropSession r now a)"
proof -
  have "jget (ss_refreshLookups a) (se_refreshTokenHash r) = Some (lookupOf r Token_active)"
    using store_inv_live [OF assms(1,2)] by (simp add: live_ok_def)
  then have "(\<exists>i<n. se_refreshTokenHash r = hashRefreshToken E (sv_token E i)) \<and> (\<exists>i<m. se_sid r = sv_uuid E i)"
    using assms(3) unfolding drawn_def by (force simp: lookupOf_def)
  then show ?thesis
    using assms(3) by (auto simp: drawn_def dropSession_def lookupOf_def)
qed

lemma fold_drop_later:
  "store_inv a \<Longrightarrow> drawn E m n a \<Longrightarrow> distinct (map se_sid rs) \<Longrightarrow> \<forall>r \<in> set rs. jget (ss_sessions a) (se_sid r) = Some r
   \<Longrightarrow> store_later a (fold (\<lambda>r. dropSession r now) rs a) \<and> drawn E m n (fold (\<lambda>r. dropSession r now) rs a)"
proof (induction rs arbitrary: a)
  case (Cons r rs)
  have r: "jget (ss_sessions a) (se_sid r) = Some r" "se_sid r \<notin> se_sid ` set rs"
    using Cons.prems(3,4) by simp_all
  have "\<forall>q \<in> set rs. jget (ss_sessions (dropSession r now a)) (se_sid q) = Some q"
  proof
    fix q assume q: "q \<in> set rs"
    then have "se_sid q \<noteq> se_sid r" using r(2) by (metis image_eqI)
    then show "jget (ss_sessions (dropSession r now a)) (se_sid q) = Some q"
      using q Cons.prems(4) by simp
  qed
  then have "store_later (dropSession r now a) (fold (\<lambda>r. dropSession r now) rs (dropSession r now a))
      \<and> drawn E m n (fold (\<lambda>r. dropSession r now) rs (dropSession r now a))"
    using Cons.prems r by (intro Cons.IH dropSession_inv drop_drawn) simp_all
  then show ?case
    using store_later_trans [OF drop_later [OF Cons.prems(1) r(1), of now]] by simp
qed (simp add: store_later_refl)

lemma create_later:
  assumes "unseen a (se_sid r) (se_refreshTokenHash r)"
  shows "store_later a (createSession r a)"
  using assms by (auto simp: store_later_def unseen_def createSession_def)


lemma proper_createSession:
  assumes "unseen (sx_store s) (se_sid r) (se_refreshTokenHash r)" "se_status r = Session_active" "verified E r"
    "\<exists>i<sx_uuids s. se_sid r = sv_uuid E i" "\<exists>i<sx_tokens s. se_refreshTokenHash r = hashRefreshToken E (sv_token E i)"
  shows "proper E s (s\<lparr>sx_store := createSession r (sx_store s)\<rparr>)"
proof (rule proper_storeI)
  assume inv: "session_inv E s"
  show "store_inv (createSession r (sx_store s))"
    using createSession_inv [OF session_invD(1) [OF inv]] unseen_not_live [OF session_invD(1) [OF inv] assms(1)]
      assms(1,2) by (simp add: unseen_def)
  show "drawn E (sx_uuids s) (sx_tokens s) (createSession r (sx_store s))"
    using session_invD(2) [OF inv] assms(4,5) by (auto simp: drawn_def createSession_def lookupOf_def)
  show "store_later (sx_store s) (createSession r (sx_store s))"
    by (rule create_later) (rule assms(1))
next
  fix sid q assume inv: "session_inv E s" and "jget (ss_sessions (createSession r (sx_store s))) sid = Some q"
  then show "verified E q"
    using assms(3) session_invD(3) [OF inv] by (auto simp: createSession_def split: if_splits)
qed

lemma proper_fold_drop:
  assumes "distinct (map se_sid rs)" "\<forall>r \<in> set rs. jget (ss_sessions (sx_store s)) (se_sid r) = Some r"
  shows "proper E s (s\<lparr>sx_store := fold (\<lambda>r. dropSession r now) rs (sx_store s)\<rparr>)"
proof (rule proper_storeI)
  assume inv: "session_inv E s"
  note a = session_invD(1,2) [OF inv]
  show "store_inv (fold (\<lambda>r. dropSession r now) rs (sx_store s))"
    by (rule fold_drop_inv [OF a(1) assms])
  show "drawn E (sx_uuids s) (sx_tokens s) (fold (\<lambda>r. dropSession r now) rs (sx_store s))"
    "store_later (sx_store s) (fold (\<lambda>r. dropSession r now) rs (sx_store s))"
    using fold_drop_later [OF a assms] by blast+
next
  fix sid q assume inv: "session_inv E s"
    and "jget (ss_sessions (fold (\<lambda>r. dropSession r now) rs (sx_store s))) sid = Some q"
  then show "verified E q"
    using session_invD(3) [OF inv] by (simp add: fold_drop_sessions split: if_splits)
qed

lemma proper_revokeSession: "leads (proper E) (storeR (revokeSession sid at st)) s"
proof (rule proper_assume)
  assume inv: "session_inv E s"
  show "leads (proper E) (storeR (revokeSession sid at st)) s"
  proof (cases "jget (ss_sessions (sx_store s)) sid")
    case None
    then show ?thesis
      by (intro pr.leads_same) (simp add: storeR_def revokeSession_def)
  next
    case (Some r)
    then have "storeR (revokeSession sid at st) s = (Inr (Some (revokedRecord r st at)),
        s\<lparr>sx_store := fold (\<lambda>r. dropSession r at) [r] (sx_store s)\<rparr>)"
      by (simp add: storeR_def revokeSession_drop [OF session_invD(1) [OF inv] Some])
    moreover have "proper E s (s\<lparr>sx_store := fold (\<lambda>r. dropSession r at) [r] (sx_store s)\<rparr>)"
      by (rule proper_fold_drop) (use Some live_drawn(2) [OF inv Some] in simp_all)
    ultimately show ?thesis
      by (simp add: leads_def)
  qed
qed

lemma later_same_lookups:
  assumes "ss_refreshLookups b = ss_refreshLookups a" "\<And>i. jget (ss_sessions a) i = None \<Longrightarrow> jget (ss_sessions b) i = None"
  shows "store_later a b"
  using assms by (simp add: store_later_def)

lemma minIso_bound: "\<not> nan_gt (date_parse (minIso a b)) (date_parse b)"
  by (auto simp: minIso_def nan_gt_iff nan_le_iff)

lemma proper_touchSession:
  assumes "\<And>r. jget (ss_sessions (sx_store s)) sid = Some r \<Longrightarrow>
    \<not> nan_gt (date_parse idle) (date_parse (se_expiresAt r))"
  shows "leads (proper E) (storeR (touchSession sid idle at)) s"
proof (cases "jget (ss_sessions (sx_store s)) sid")
  case None
  then show ?thesis
    by (intro pr.leads_same) (simp add: storeR_def touchSession_def)
next
  case (Some r)
  let ?a = "snd (touchSession sid idle at (sx_store s))"
  have "proper E s (s\<lparr>sx_store := ?a\<rparr>)"
  proof (rule proper_storeI)
    assume inv: "session_inv E s"
    show "store_inv ?a"
      by (rule touchSession_inv [OF session_invD(1) [OF inv]])
    show "drawn E (sx_uuids s) (sx_tokens s) ?a"
      using session_invD(2) [OF inv] Some by (simp add: drawn_def touchSession_def Let_def)
    show "store_later (sx_store s) ?a"
      by (rule later_same_lookups) (use Some in \<open>auto simp: touchSession_def Let_def\<close>)
  next
    fix i q assume inv: "session_inv E s" and "jget (ss_sessions ?a) i = Some q"
    then show "verified E q"
      using session_invD(3) [OF inv] Some assms [OF Some]
      by (auto simp: touchSession_def Let_def verified_def split: if_splits)
  qed
  then show ?thesis
    by (simp add: leads_def storeR_def case_prod_beta)
qed


lemma rotate_cases:
  obtains "rotateRefreshToken sid h h' idle at a = (None, a)"
  | r l q where "jget (ss_sessions a) sid = Some r" "jget (ss_refreshLookups a) h = Some l" "lk_state l = Token_active"
    "se_refreshTokenHash r = h"
    "q = r\<lparr>se_refreshTokenHash := h', se_idleExpiresAt := idle, se_lastTouchedAt := at, se_updatedAt := at\<rparr>"
    "rotateRefreshToken sid h h' idle at a = (Some q, a\<lparr>ss_sessions := jset sid q (ss_sessions a),
       ss_refreshLookups := jset h' \<lparr>lk_sid = sid, lk_familyId = se_refreshFamilyId r, lk_state = Token_active\<rparr>
         (jset h \<lparr>lk_sid = sid, lk_familyId = se_refreshFamilyId r, lk_state = Token_used\<rparr> (ss_refreshLookups a))\<rparr>)"
proof (cases "jget (ss_sessions a) sid")
  case None
  then show thesis
    by (intro that(1)) (simp add: rotateRefreshToken_def)
next
  case (Some r)
  show thesis
  proof (cases "jget (ss_refreshLookups a) h")
    case None
    then show thesis
      by (intro that(1)) (simp add: rotateRefreshToken_def split: option.split)
  next
    case l: (Some l)
    show thesis
    proof (cases "lk_state l = Token_active \<and> se_refreshTokenHash r = h")
      case True
      then show thesis
        using Some l by (intro that(2) [of r l]) (simp_all add: rotateRefreshToken_def Let_def)
    next
      case False
      then show thesis
        using Some l by (intro that(1)) (simp add: rotateRefreshToken_def)
    qed
  qed
qed

lemma proper_rotate:
  assumes "jget (ss_refreshLookups (sx_store s)) h' = None" "\<exists>i<sx_tokens s. h' = hashRefreshToken E (sv_token E i)"
    "\<And>r. jget (ss_sessions (sx_store s)) sid = Some r \<Longrightarrow> \<not> nan_gt (date_parse idle) (date_parse (se_expiresAt r))"
  shows "leads (proper E) (storeR (rotateRefreshToken sid h h' idle at)) s"
proof (rule rotate_cases [of sid h h' idle at "sx_store s"])
  assume "rotateRefreshToken sid h h' idle at (sx_store s) = (None, sx_store s)"
  then show ?thesis
    by (intro pr.leads_same) (simp add: storeR_def)
next
  fix r l q
  assume r: "jget (ss_sessions (sx_store s)) sid = Some r" "jget (ss_refreshLookups (sx_store s)) h = Some l"
      "lk_state l = Token_active" "se_refreshTokenHash r = h"
      "q = r\<lparr>se_refreshTokenHash := h', se_idleExpiresAt := idle, se_lastTouchedAt := at, se_updatedAt := at\<rparr>"
    and eq: "rotateRefreshToken sid h h' idle at (sx_store s) = (Some q, (sx_store s)
       \<lparr>ss_sessions := jset sid q (ss_sessions (sx_store s)),
        ss_refreshLookups := jset h' \<lparr>lk_sid = sid, lk_familyId = se_refreshFamilyId r, lk_state = Token_active\<rparr>
         (jset h \<lparr>lk_sid = sid, lk_familyId = se_refreshFamilyId r, lk_state = Token_used\<rparr>
           (ss_refreshLookups (sx_store s)))\<rparr>)" (is "_ = (_, ?a)")
  have "proper E s (s\<lparr>sx_store := ?a\<rparr>)"
  proof (rule proper_storeI)
    assume inv: "session_inv E s"
    show "store_inv ?a"
      using rotateRefreshToken_inv [OF session_invD(1) [OF inv] assms(1), of sid h idle at] by (simp add: eq)
    have l: "l = lookupOf r Token_active" "se_sid r = sid"
      using live_drawn [OF inv r(1)] r(2,4) by auto
    have "(\<exists>i<sx_tokens s. h = hashRefreshToken E (sv_token E i)) \<and> (\<exists>i<sx_uuids s. lk_sid l = sv_uuid E i)"
      using session_invD(2) [OF inv] r(2) unfolding drawn_def by blast
    then show "drawn E (sx_uuids s) (sx_tokens s) ?a"
      using session_invD(2) [OF inv] assms(2) l by (auto simp: drawn_def lookupOf_def)
    show "store_later (sx_store s) ?a"
      using r(1,2) l assms(1) by (auto simp: store_later_def lookupOf_def)
  next
    fix i p assume inv: "session_inv E s" and p: "jget (ss_sessions ?a) i = Some p"
    have "verified E q"
      using session_invD(3) [OF inv r(1)] assms(3) [OF r(1)] by (simp add: verified_def r(5))
    then show "verified E p"
      using p session_invD(3) [OF inv] by (simp split: if_splits)
  qed
  then show ?thesis
    by (simp add: leads_def storeR_def eq)
qed

end
