(* ===== verification/Session_Steps.thy ===== *)
theory Session_Steps
  imports Session_Runs
begin

text \<open>
  Every operation of the session service is proper: it keeps the invariant, a used token stays used and an ended
  session ended, and no session leaves the revocation list. The service is then a step relation, with the operations
  of the revocation list among its steps, and an instance of \<open>monotone_system\<close>.
\<close>

subsection \<open>Revoking\<close>

lemma proper_now: "leads (proper E) (nowR E) s"
  by (rule calm_leads_proper) (rule calm_now)

lemma proper_revocation: "leads (proper E) (revocationR E sid at) s"
  by (rule calm_leads_proper) (rule calm_revocation)

lemma proper_publish: "leads (proper E) (publishR x) s"
  by (rule calm_leads_proper) (rule calm_publish)

lemma proper_appendMirror: "leads (proper E) (appendMirror E r st at) s"
  by (rule calm_leads_proper) (rule calm_appendMirror)

lemma proper_announce: "leads (proper E) (announce E record revoked now) s"
  by (rule calm_leads_proper) (rule calm_announce)

lemmas proper_rules = pr.leads_rules proper_now proper_revocation proper_publish proper_appendMirror
  proper_announce proper_revokeSession

lemma proper_revokeRecord: "leads (proper E) (revokeRecord E sid st) s"
  unfolding revokeRecord_def Let_def
  by (intro pr.leads_then proper_rules) (auto split: option.split intro!: proper_rules)

lemma proper_revokeInternal: "leads (proper E) (revokeInternal E sid st pub) s"
  unfolding revokeInternal_def
  by (intro pr.leads_then proper_revokeRecord) (auto split: option.split intro!: proper_rules)

lemma proper_revoke: "leads (proper E) (revoke E sid) s"
  unfolding revoke_def by (intro pr.leads_then proper_revokeInternal pr.leads_return)

lemma proper_revokeAllForUser: "leads (proper E) (revokeAllForUser E u) s"
  unfolding revokeAllForUser_def Let_def
  by (intro pr.leads_then pr.leads_read pr.leads_for pr.leads_all proper_revokeRecord proper_publish pr.leads_return)
    (auto intro: proper_appendMirror)

lemma proper_revokeAllForTenant: "leads (proper E) (revokeAllForTenant E u) s"
  unfolding revokeAllForTenant_def Let_def
  by (intro pr.leads_then pr.leads_read pr.leads_for pr.leads_all proper_revokeRecord pr.leads_return)
    (auto intro: proper_appendMirror proper_publish pr.leads_return)

subsection \<open>Reading and touching\<close>

lemma proper_get: "leads (proper E) (get E sid) s"
  unfolding get_def
  by (intro pr.leads_then pr.leads_read)
    (auto split: option.split sum.split session_error.split intro!: proper_rules proper_revokeInternal)

lemma proper_getActive: "leads (proper E) (getActive E sid) s"
  unfolding getActive_def
  by (intro pr.leads_then pr.leads_read)
    (auto split: option.split intro!: proper_rules proper_revokeInternal)

lemma get_Some:
  assumes "get E sid s = (Inr (Some r), t)"
  shows "jget (ss_sessions (sx_store t)) sid = Some r"
proof -
  obtain q where q: "getSession sid (sx_store s) = Some q"
    using assms by (auto simp: get_def sess_simps split: option.splits)
  show ?thesis
  proof (cases "assertActive q (sv_clock E (sx_ticks s))")
    case (Inr u)
    then show ?thesis
      using assms q by (auto simp: get_def sess_simps getSession_def)
  next
    case (Inl e)
    then show ?thesis
      using assms q by (auto simp: get_def sess_simps elim!: thenR_Inr split: session_error.splits)
  qed
qed

lemma proper_touch: "leads (proper E) (touch E sid) s"
  unfolding touch_def
proof (rule pr.leads_then [OF proper_get])
  fix x t assume x: "get E sid s = (Inr x, t)"
  show "leads (proper E) (case x of None \<Rightarrow> returnR None | Some r \<Rightarrow> thenR (nowR E) (\<lambda>now. storeR (touchSession sid
      (minIso (toISOString (addSeconds now (sv_idleSeconds E))) (se_expiresAt r)) (toISOString now)))) t"
  proof (cases x)
    case (Some r)
    then have "jget (ss_sessions (sx_store t)) sid = Some r"
      using get_Some x by blast
    then show ?thesis
      unfolding Some option.case
      by (intro pr.leads_then proper_now proper_touchSession) (auto simp: nowR_def minIso_bound)
  qed (simp add: pr.leads_return)
qed


subsection \<open>Refreshing\<close>

lemma proper_drawToken:
  assumes "distinct_draws E"
    and "\<And>tok t. sx_store t = sx_store s \<Longrightarrow> jget (ss_refreshLookups (sx_store t)) (hashRefreshToken E tok) = None
      \<Longrightarrow> \<exists>i<sx_tokens t. hashRefreshToken E tok = hashRefreshToken E (sv_token E i) \<Longrightarrow> leads (proper E) (f tok) t"
  shows "leads (proper E) (thenR (createRefreshToken E) f) s"
proof (rule proper_assume)
  assume inv: "session_inv E s"
  let ?t = "s\<lparr>sx_tokens := Suc (sx_tokens s)\<rparr>"
  have "unseen (sx_store s) (sv_uuid E (sx_uuids s)) (hashRefreshToken E (sv_token E (sx_tokens s)))"
    by (rule drawn_unseen [OF assms(1) session_invD(2) [OF inv]])
  then have "leads (proper E) (f (sv_token E (sx_tokens s))) ?t"
    by (intro assms(2)) (auto simp: unseen_def)
  moreover have "leads calm (createRefreshToken E) s"
    by (simp add: createRefreshToken_def leads_def calm_def same_store_def revocations_grow_same)
  ultimately show "leads (proper E) (thenR (createRefreshToken E) f) s"
    by (intro pr.leads_then [OF calm_leads_proper]) (auto simp: createRefreshToken_def)
qed

lemma claimsR_same: "claimsR E sid u t x s = (r, s') \<Longrightarrow> s' = s"
  by (auto simp: claimsR_def split: option.splits sum.splits)

lemma proper_rotateCurrent:
  assumes "distinct_draws E" "getSession (se_sid c) (sx_store s) = Some c"
  shows "leads (proper E) (rotateCurrent E h c now) s"
  unfolding rotateCurrent_def
proof (rule pr.leads_then [OF pr.leads_claims], rule proper_drawToken [OF assms(1)])
  fix claims s1 tok and t :: session_state
  assume "claimsR E (se_sid c) (se_userId c) (se_tenantId c) (se_expiresAt c) s = (Inr claims, s1)"
    and t: "sx_store t = sx_store s1" and new: "jget (ss_refreshLookups (sx_store t)) (hashRefreshToken E tok) = None"
      "\<exists>i<sx_tokens t. hashRefreshToken E tok = hashRefreshToken E (sv_token E i)"
  then have live: "jget (ss_sessions (sx_store t)) (se_sid c) = Some c"
    using assms(2) claimsR_same by (force simp: getSession_def)
  show "leads (proper E) (thenR (storeR (rotateRefreshToken (se_sid c) h (hashRefreshToken E tok)
      (minIso (toISOString (addSeconds now (sv_idleSeconds E))) (se_expiresAt c)) (toISOString now))) (\<lambda>rotated.
        case rotated of None \<Rightarrow> throwR InvalidRefreshTokenError
        | Some r \<Rightarrow> bundleOf E (mintedRecord claims r) tok now)) t"
    by (rule pr.leads_then [OF proper_rotate [OF new]])
      (auto simp: live minIso_bound split: option.split intro!: pr.leads_rules)
qed

lemma proper_refresh:
  assumes "distinct_draws E"
  shows "leads (proper E) (refresh E tok) s"
  unfolding refresh_def Let_def
proof (rule pr.leads_then [OF proper_now], rule pr.leads_then [OF pr.leads_read])
  fix now s1 x and t :: session_state
  assume x: "readR (lookupRefreshToken (hashRefreshToken E tok)) s1 = (Inr x, t)"
  show "leads (proper E) (case x of None \<Rightarrow> throwR InvalidRefreshTokenError
     | Some l \<Rightarrow> if lk_state l = Token_used
         then thenR (revokeInternal E (lk_sid l) Session_reuse_detected False)
           (\<lambda>_. throwR (RefreshTokenReuseDetectedError (lk_sid l)))
         else thenR (readR (getSession (lk_sid l))) (\<lambda>current. case current of
             None \<Rightarrow> throwR InvalidRefreshTokenError
           | Some c \<Rightarrow> thenR (liftR (assertActive c now)) (\<lambda>_. rotateCurrent E (hashRefreshToken E tok) c now))) t"
  proof (rule proper_assume)
    assume inv: "session_inv E t"
    have "leads (proper E) (rotateCurrent E (hashRefreshToken E tok) c now) u"
      if "getSession sid (sx_store t) = Some c" "u = t" for sid c u
      by (rule proper_rotateCurrent [OF assms]) (use that live_drawn(2) [OF inv] in \<open>auto simp: getSession_def\<close>)
    then show ?thesis
      by (auto split: option.split simp: readR_def liftR_def
        intro!: pr.leads_rules proper_revokeInternal)
  qed
qed

subsection \<open>Creating and exchanging\<close>

text \<open>A record that \<open>placeSession\<close> may store.\<close>

definition placeable :: "session_env \<Rightarrow> session_record \<Rightarrow> session_state \<Rightarrow> bool" where
  "placeable E r s \<longleftrightarrow> unseen (sx_store s) (se_sid r) (se_refreshTokenHash r) \<and> se_status r = Session_active
     \<and> verified E r \<and> (\<exists>i<sx_uuids s. se_sid r = sv_uuid E i)
     \<and> (\<exists>i<sx_tokens s. se_refreshTokenHash r = hashRefreshToken E (sv_token E i))"

lemma drop_unseen:
  assumes "store_inv a" "jget (ss_sessions a) (se_sid r) = Some r" "unseen a sid h"
  shows "unseen (dropSession r now a) sid h"
proof -
  have l: "jget (ss_refreshLookups a) (se_refreshTokenHash r) = Some (lookupOf r Token_active)"
    using store_inv_live [OF assms(1,2)] by (simp add: live_ok_def)
  then have "lk_sid (lookupOf r Token_active) \<noteq> sid" "se_refreshTokenHash r \<noteq> h"
    using assms(3) unfolding unseen_def by auto
  then show ?thesis
    using assms(3) by (auto simp: unseen_def dropSession_def lookupOf_def)
qed

lemma fold_drop_unseen:
  "store_inv a \<Longrightarrow> distinct (map se_sid rs) \<Longrightarrow> \<forall>r \<in> set rs. jget (ss_sessions a) (se_sid r) = Some r \<Longrightarrow> unseen a sid h
   \<Longrightarrow> unseen (fold (\<lambda>r. dropSession r now) rs a) sid h"
proof (induction rs arbitrary: a)
  case (Cons r rs)
  have "jget (ss_sessions (dropSession r now a)) (se_sid q) = Some q" if "q \<in> set rs" for q
  proof -
    have "se_sid q \<noteq> se_sid r"
      using that Cons.prems(2) by (metis distinct.simps(2) image_eqI list.set_map list.simps(9))
    then show ?thesis
      using that Cons.prems(3) by simp
  qed
  then show ?case
    using Cons.IH [of "dropSession r now a"] Cons.prems by (simp add: dropSession_inv drop_unseen)
qed simp

lemma placeSession_cases:
  assumes "placeSession E md record now s = (r, t)"
  obtains e where "r = Inl e" "t = s"
  | rs where "set rs \<subseteq> {q. jget (ss_sessions (sx_store s)) (se_sid q) = Some q}" "distinct (map se_sid rs)"
    "r = Inr (map (\<lambda>q. revokedRecord q Session_revoked (toISOString now)) rs)"
    "t = s\<lparr>sx_store := createSession record (fold (\<lambda>q. dropSession q (toISOString now)) rs (sx_store s))\<rparr>"
  | "\<not> store_inv (sx_store s)"
proof (cases "sv_mode E = Mode_off \<and> \<not> hasPrior (md_priorSessionId md)")
  case True
  then have "r = Inr []" "t = s\<lparr>sx_store := createSession record (sx_store s)\<rparr>"
    using assms by (simp_all add: placeSession_def)
  then show thesis
    using that(2) [of "[]"] by simp
next
  case False
  define options where "options = \<lparr>pl_mode = sv_mode E, pl_now = toISOString now,
    pl_priorSessionId = (if hasPrior (md_priorSessionId md) then md_priorSessionId md else None)\<rparr>"
  obtain u where u: "createWithPolicy record options (sx_store s) = (r, u)" "t = s\<lparr>sx_store := u\<rparr>"
    using assms False by (auto simp: placeSession_def options_def split: prod.splits)
  have now: "pl_now options = toISOString now"
    by (simp add: options_def)
  show thesis
  proof (cases "store_inv (sx_store s)")
    case True
    show thesis
      using u(1)
    proof (cases rule: createWithPolicy_cases)
      case (1 e)
      then show thesis
        using that(1) u(2) by simp
    next
      case 2
      show thesis
      proof (rule that(2) [of "endedBy record options (sx_store s)"])
        show "set (endedBy record options (sx_store s)) \<subseteq> {q. jget (ss_sessions (sx_store s)) (se_sid q) = Some q}"
          using endedBy_stored(2) [OF True] by blast
      qed (use endedBy_stored(1) [OF True] 2 u(2) now in simp_all)
    qed
  qed (rule that(3))
qed


lemma proper_placeSession:
  assumes "placeable E record s"
  shows "leads (proper E) (placeSession E md record now) s"
proof (rule proper_assume)
  assume inv: "session_inv E s"
  obtain r t where m: "placeSession E md record now s = (r, t)"
    by (cases "placeSession E md record now s")
  then have "proper E s t"
  proof (cases rule: placeSession_cases)
    case (1 e)
    then show ?thesis by (simp add: pr.refl)
  next
    case (2 rs)
    let ?u = "s\<lparr>sx_store := fold (\<lambda>q. dropSession q (toISOString now)) rs (sx_store s)\<rparr>"
    have live: "\<forall>q \<in> set rs. jget (ss_sessions (sx_store s)) (se_sid q) = Some q"
      using 2(1) by blast
    have "unseen (sx_store ?u) (se_sid record) (se_refreshTokenHash record)"
      using fold_drop_unseen [OF session_invD(1) [OF inv] 2(2) live] assms by (simp add: placeable_def)
    then have "proper E ?u (?u\<lparr>sx_store := createSession record (sx_store ?u)\<rparr>)"
      using assms by (intro proper_createSession) (simp_all add: placeable_def)
    with proper_fold_drop [OF 2(2) live] show ?thesis
      using 2(4) pr.trans [of E s ?u t] by simp
  next
    case 3
    then show ?thesis using session_invD(1) [OF inv] by simp
  qed
  then show "leads (proper E) (placeSession E md record now) s"
    by (simp add: leads_def m)
qed

lemma newRecord_select [simp]:
  "se_sid (newRecord E u t c d md cl f now sid tok fam) = sid"
  "se_userId (newRecord E u t c d md cl f now sid tok fam) = u"
  "se_tenantId (newRecord E u t c d md cl f now sid tok fam) = t"
  "se_status (newRecord E u t c d md cl f now sid tok fam) = Session_active"
  "se_refreshTokenHash (newRecord E u t c d md cl f now sid tok fam) = hashRefreshToken E tok"
  by (simp_all add: newRecord_def Let_def)

lemma factorVerified_Some:
  assumes "factorVerifiedAt E md prior now = Inr f" "sv_strongFactor E \<noteq> None"
  shows "\<exists>v. f = Some v \<and> v \<noteq> []"
proof -
  have "toISOString now \<noteq> []"
    by (simp add: toISOString_def Let_def split: prod.split)
  then show ?thesis
    using assms
    by (auto simp: factorVerifiedAt_def throwIf_def split: option.splits if_splits prod.splits) (metis option.inject)
qed

lemma newRecord_verified:
  assumes "factorVerifiedAt E md prior now = Inr f"
  shows "verified E (newRecord E u t c d md' cl f now' sid tok fam)"
  using factorVerified_Some [OF assms] by (auto simp: verified_def newRecord_def Let_def minIso_bound split: option.split)

text \<open>The four drawings before the session is placed: afterwards the record may be placed.\<close>

lemma drawSession:
  assumes "snd (cl (sv_uuid E (sx_uuids s)) (s\<lparr>sx_uuids := Suc (sx_uuids s)\<rparr>)) = s\<lparr>sx_uuids := Suc (sx_uuids s)\<rparr>"
  obtains e where "thenR (uuidR E) (\<lambda>sid. thenR (cl sid) (\<lambda>c. thenR (createRefreshToken E) (\<lambda>tok.
      thenR (uuidR E) (\<lambda>fam. f sid c tok fam)))) s = (Inl e, s\<lparr>sx_uuids := Suc (sx_uuids s)\<rparr>)"
  | c where "thenR (uuidR E) (\<lambda>sid. thenR (cl sid) (\<lambda>c. thenR (createRefreshToken E) (\<lambda>tok.
      thenR (uuidR E) (\<lambda>fam. f sid c tok fam)))) s
    = f (sv_uuid E (sx_uuids s)) c (sv_token E (sx_tokens s)) (sv_uuid E (Suc (sx_uuids s)))
        (s\<lparr>sx_tokens := Suc (sx_tokens s), sx_uuids := Suc (Suc (sx_uuids s))\<rparr>)"
proof (cases "cl (sv_uuid E (sx_uuids s)) (s\<lparr>sx_uuids := Suc (sx_uuids s)\<rparr>)")
  case (Pair r t)
  with assms have t: "t = s\<lparr>sx_uuids := Suc (sx_uuids s)\<rparr>" by simp
  show thesis
  proof (cases r)
    case (Inl e)
    then show thesis
      using Pair t by (intro that(1)) (simp add: thenR_def uuidR_def)
  next
    case (Inr c)
    then show thesis
      using Pair t by (intro that(2) [of c]) (simp add: thenR_def uuidR_def createRefreshToken_def)
  qed
qed

lemma proper_drawSession:
  assumes "distinct_draws E" "\<And>sid t. snd (cl sid t) = t"
    and "\<And>sid c tok fam t. placeable E (g sid c tok fam) t \<Longrightarrow> leads (proper E) (f sid c tok fam) t"
    and "\<And>sid c tok fam. verified E (g sid c tok fam) \<and> se_sid (g sid c tok fam) = sid
      \<and> se_refreshTokenHash (g sid c tok fam) = hashRefreshToken E tok \<and> se_status (g sid c tok fam) = Session_active"
  shows "leads (proper E) (thenR (uuidR E) (\<lambda>sid. thenR (cl sid) (\<lambda>c. thenR (createRefreshToken E) (\<lambda>tok.
      thenR (uuidR E) (\<lambda>fam. f sid c tok fam))))) s" (is "leads _ ?m s")
proof (rule proper_assume)
  assume inv: "session_inv E s"
  show "leads (proper E) ?m s"
  proof (rule drawSession [of cl E s f])
    show "snd (cl (sv_uuid E (sx_uuids s)) (s\<lparr>sx_uuids := Suc (sx_uuids s)\<rparr>)) = s\<lparr>sx_uuids := Suc (sx_uuids s)\<rparr>"
      by (rule assms(2))
  next
    fix e assume "?m s = (Inl e, s\<lparr>sx_uuids := Suc (sx_uuids s)\<rparr>)"
    moreover have "calm s (s\<lparr>sx_uuids := Suc (sx_uuids s)\<rparr>)"
      by (simp add: calm_def same_store_def revocations_grow_same)
    ultimately show ?thesis
      by (simp add: leads_def calm_proper)
  next
    let ?t = "s\<lparr>sx_tokens := Suc (sx_tokens s), sx_uuids := Suc (Suc (sx_uuids s))\<rparr>"
    let ?a = "\<lambda>h c. h (sv_uuid E (sx_uuids s)) c (sv_token E (sx_tokens s)) (sv_uuid E (Suc (sx_uuids s)))"
    fix c assume m: "?m s = f (sv_uuid E (sx_uuids s)) c (sv_token E (sx_tokens s)) (sv_uuid E (Suc (sx_uuids s))) ?t"
    have "placeable E (?a g c) ?t"
      using assms(4) drawn_unseen [OF assms(1) session_invD(2) [OF inv]]
      by (auto simp: placeable_def intro: exI [of _ "sx_uuids s"])
    then have "leads (proper E) (?a f c) ?t"
      by (rule assms(3))
    moreover have "calm s ?t"
      by (simp add: calm_def same_store_def revocations_grow_same)
    ultimately show ?thesis
      using pr.trans [OF calm_proper] m by (auto simp: leads_def)
  qed
qed

definition claimsFor :: "session_env \<Rightarrow> create_metadata \<Rightarrow> string \<Rightarrow> string \<Rightarrow> int \<Rightarrow> string \<Rightarrow> claims option sess" where
  "claimsFor E md u t now sid = (case md_claims md of Some c \<Rightarrow> returnR (Some c)
     | None \<Rightarrow> claimsR E sid u t (toISOString (addSeconds now (sv_absoluteSeconds E))))"

lemma claimsFor_same: "snd (claimsFor E md u t now sid s) = s"
  by (auto simp: claimsFor_def claimsR_def returnR_def split: option.split sum.split)

text \<open>The second half of \<open>create\<close>, once the prior session and the factor are accepted.\<close>

definition createRest ::
  "session_env \<Rightarrow> string \<Rightarrow> string \<Rightarrow> string \<Rightarrow> (string \<times> json) list \<Rightarrow> create_metadata \<Rightarrow> string option \<Rightarrow> int
   \<Rightarrow> session_bundle sess" where
  "createRest E u t c d md factor now =
     thenR (uuidR E) (\<lambda>sid. thenR (claimsFor E md u t now sid) (\<lambda>claims.
     thenR (createRefreshToken E) (\<lambda>tok. thenR (uuidR E) (\<lambda>fam.
     let record = newRecord E u t c d md claims factor now sid tok fam in
     thenR (placeSession E md record now) (\<lambda>revoked. thenR (announce E record revoked now) (\<lambda>_.
     thenR (bundleOf E record tok now) (\<lambda>b.
       returnR (if revoked = [] then b else b\<lparr>sb_revokedSessionIds := Some (map se_sid revoked)\<rparr>))))))))"

lemma create_split:
  "create E u t c d md = thenR (nowR E) (\<lambda>now. thenR (priorR md) (\<lambda>prior. thenR (liftR (checkPrior u md prior now)) (\<lambda>_.
     thenR (liftR (factorVerifiedAt E md prior now)) (\<lambda>factor. createRest E u t c d md factor now))))"
  by (simp only: create_def createRest_def claimsFor_def)

lemma proper_createRest:
  assumes "distinct_draws E" "factorVerifiedAt E md prior now = Inr factor"
  shows "leads (proper E) (createRest E u t c d md factor now) s"
  unfolding createRest_def Let_def
  by (rule proper_drawSession [OF assms(1) claimsFor_same,
      where g = "\<lambda>sid claims tok fam. newRecord E u t c d md claims factor now sid tok fam"])
    (auto intro!: pr.leads_then proper_placeSession proper_announce pr.leads_bundle pr.leads_return
      newRecord_verified [OF assms(2)])

lemma proper_create:
  assumes "distinct_draws E"
  shows "leads (proper E) (create E u t c d md) s"
  unfolding create_split priorR_def
  by (intro pr.leads_then proper_now pr.leads_read pr.leads_lift proper_createRest [OF assms])
    (simp add: liftR_def)

lemma proper_exchange:
  assumes "distinct_draws E"
  shows "leads (proper E) (exchange E options) s"
  unfolding exchange_def
  by (intro pr.leads_then pr.leads_read)
    (auto split: option.split intro!: pr.leads_rules proper_now proper_create [OF assms])

subsection \<open>The service as a step relation\<close>

text \<open>
  One rule per operation. The operations of the revocation list read the wall clock, the parameter \<open>now\<close>;
  \<open>prune\<close> is part of \<open>refreshFromStore\<close>.
\<close>

inductive session_step :: "session_env \<Rightarrow> int \<Rightarrow> session_state \<Rightarrow> session_state \<Rightarrow> bool" for E now where
  step_create: "create E u t c d md s = (r, s') \<Longrightarrow> session_step E now s s'"
| step_refresh: "refresh E tok s = (b, s') \<Longrightarrow> session_step E now s s'"
| step_revoke: "revoke E sid s = (x, s') \<Longrightarrow> session_step E now s s'"
| step_revokeAllForUser: "revokeAllForUser E u s = (n, s') \<Longrightarrow> session_step E now s s'"
| step_revokeAllForTenant: "revokeAllForTenant E t s = (n, s') \<Longrightarrow> session_step E now s s'"
| step_get: "get E sid s = (q, s') \<Longrightarrow> session_step E now s s'"
| step_getActive: "getActive E sid s = (q, s') \<Longrightarrow> session_step E now s s'"
| step_touch: "touch E sid s = (q, s') \<Longrightarrow> session_step E now s s'"
| step_exchange: "exchange E xo s = (y, s') \<Longrightarrow> session_step E now s s'"
| step_isRevoked: "isRevoked now sid s = (z, s') \<Longrightarrow> session_step E now s s'"
| step_refreshFromStore: "refreshFromStore E startedAt now s = s' \<Longrightarrow> session_step E now s s'"

lemma quiet_store:
  assumes "same_store (sx_store s) (sx_store t)" "sx_uuids t = sx_uuids s" "sx_tokens t = sx_tokens s" "session_inv E s"
  shows "session_inv E t \<and> later s t"
  using assms by (simp add: session_inv_def later_def store_later_def store_inv_def live_ok_def
    token_ok_def same_store_def drawn_def)

lemma isRevoked_store: "isRevoked now sid s = (z, t) \<Longrightarrow> sx_store t = sx_store s \<and> sx_uuids t = sx_uuids s \<and> sx_tokens t = sx_tokens s"
  by (auto simp: isRevoked_def split: option.splits if_splits)

lemma refreshFromStore_store:
  "same_store (sx_store s) (sx_store (refreshFromStore E a now s)) \<and> sx_uuids (refreshFromStore E a now s) = sx_uuids s
   \<and> sx_tokens (refreshFromStore E a now s) = sx_tokens s"
  by (simp add: refreshFromStore_def listRevokedSessions_def same_store_def Let_def)

lemmas proper_operations = proper_create proper_refresh proper_revoke proper_revokeAllForUser proper_revokeAllForTenant
  proper_get proper_getActive proper_touch proper_exchange

lemma step_proper:
  assumes "distinct_draws E" "session_step E now s t" "session_inv E s"
  shows "session_inv E t \<and> later s t"
  using assms(2,3)
proof cases
  case (step_isRevoked sid z)
  then show ?thesis
    using isRevoked_store quiet_store [OF _ _ _ assms(3)] by (metis same_store_def)
next
  case (step_refreshFromStore a)
  then show ?thesis
    using refreshFromStore_store quiet_store [OF _ _ _ assms(3)] by metis
qed (use assms(1,3) in \<open>auto simp: proper_def dest!: leadsD [rotated, where R = "proper E"] intro: proper_operations\<close>)


definition session_run :: "session_env \<Rightarrow> session_state \<Rightarrow> session_state \<Rightarrow> bool" where
  "session_run E s t \<longleftrightarrow> (\<exists>now. session_step E now s t)"

text \<open>The service when it starts, over an empty store.\<close>

definition session_init :: session_state where
  "session_init = \<lparr>sx_store = \<lparr>ss_sessions = [], ss_refreshLookups = [], ss_sessionsByUser = [], ss_sessionsByTenant = [],
       ss_revokedSessions = [], ss_invalidations = []\<rparr>,
     sx_mirror = [], sx_revoked = [], sx_lastRefreshedAt = None, sx_ticks = 0, sx_uuids = 0, sx_tokens = 0\<rparr>"

lemma session_init_inv: "session_inv E session_init"
  by (simp add: session_inv_def session_init_def store_inv_def drawn_def bucket_def)

text \<open>With \<open>distinct_draws\<close> as a guard of the step relation the contract holds for every environment.\<close>

interpretation sv: monotone_system "\<lambda>s. s = session_init" "\<lambda>s t. distinct_draws E \<and> session_run E s t" "session_inv E" later for E
proof unfold_locales
  show "later s s" for s by (simp add: later_def store_later_refl)
  show "later s t \<Longrightarrow> later t u \<Longrightarrow> later s u" for s t u
    unfolding later_def by (rule store_later_trans)
qed (auto simp: session_init_inv session_run_def dest: step_proper)

lemma guarded_run: "distinct_draws E \<Longrightarrow> (\<lambda>s t. distinct_draws E \<and> session_run E s t) = session_run E"
  by (intro ext) simp

lemma session_reachable: "distinct_draws E \<Longrightarrow> (session_run E)\<^sup>*\<^sup>* session_init s \<Longrightarrow> session_inv E s"
  using sv.reachable_inv [of session_init E s] by (simp add: guarded_run)

lemma session_later: "distinct_draws E \<Longrightarrow> (session_run E)\<^sup>*\<^sup>* s t \<Longrightarrow> session_inv E s \<Longrightarrow> later s t \<and> session_inv E t"
  using sv.run_below [of E s t] sv.run_inv [of E s t] by (simp add: guarded_run)

subsection \<open>A session on the revocation list\<close>

definition listed :: "int \<Rightarrow> string \<Rightarrow> session_state \<Rightarrow> bool" where
  "listed T sid s \<longleftrightarrow> (\<exists>u\<ge>T. jget (sx_revoked s) sid = Some u)"

lemma listed_grow: "revocations_grow s t \<Longrightarrow> listed T sid s \<Longrightarrow> listed T sid t"
  unfolding listed_def revocations_grow_def by (meson order_trans)

lemma listed_add:
  "\<exists>u\<ge>T. jget m sid = Some u \<Longrightarrow> \<exists>u\<ge>T. jget (addRevocation E w i at m) sid = Some u"
  by (auto simp: addRevocation_def Let_def split: option.split)

lemma listed_prune: "jget m sid = Some u \<Longrightarrow> now < u \<Longrightarrow> jget (prune now m) sid = Some u"
  by (induction m) (auto simp: prune_def)

lemma listed_fold:
  "\<exists>u\<ge>T. jget m sid = Some u \<Longrightarrow>
   \<exists>u\<ge>T. jget (fold (\<lambda>(i, at) m. if i \<noteq> [] then addRevocation E now i at m else m) es m) sid = Some u"
proof (induction es arbitrary: m)
  case (Cons e es)
  have "\<exists>u\<ge>T. jget ((\<lambda>(i, at) m. if i \<noteq> [] then addRevocation E now i at m else m) e m) sid = Some u"
    using listed_add [OF Cons.prems] Cons.prems by (cases e) simp
  then show ?case
    using Cons.IH by simp
qed simp

lemma refreshFromStore_revoked:
  "\<exists>es. sx_revoked (refreshFromStore E a now s) =
     prune now (fold (\<lambda>(i, at) m. if i \<noteq> [] then addRevocation E now i at m else m) es (sx_revoked s))"
  by (simp add: refreshFromStore_def split: prod.split) blast

lemma listed_refresh:
  assumes "listed T sid s" "now < T"
  shows "listed T sid (refreshFromStore E a now s)"
proof -
  obtain es where es: "sx_revoked (refreshFromStore E a now s) =
     prune now (fold (\<lambda>(i, at) m. if i \<noteq> [] then addRevocation E now i at m else m) es (sx_revoked s))"
    using refreshFromStore_revoked by blast
  obtain u where "T \<le> u"
    "jget (fold (\<lambda>(i, at) m. if i \<noteq> [] then addRevocation E now i at m else m) es (sx_revoked s)) sid = Some u"
    using listed_fold [of T "sx_revoked s" sid] assms(1) unfolding listed_def by blast
  then show ?thesis
    using listed_prune [of _ sid u now] assms(2) by (auto simp: listed_def es)
qed

lemma listed_isRevoked: "listed T sid s \<Longrightarrow> now < T \<Longrightarrow> listed T sid (snd (isRevoked now i s))"
  by (auto simp: listed_def isRevoked_def split: option.split)

lemma listed_step:
  assumes "distinct_draws E" "session_step E now s t" "session_inv E s" "now < T" "listed T sid s"
  shows "listed T sid t"
  using assms(2)
proof cases
  case (step_isRevoked i z)
  then show ?thesis
    using listed_isRevoked [OF assms(5,4), of i] by simp
next
  case (step_refreshFromStore a)
  then show ?thesis
    using listed_refresh [OF assms(5,4)] by blast
qed (use assms(1,3,5) in \<open>auto simp: proper_def dest!: leadsD [rotated, where R = "proper E"]
    intro: proper_operations listed_grow\<close>)

end
