(* ===== verification/Session_Effects.thy ===== *)
theory Session_Effects
  imports Session_Steps
begin

text \<open>
  What the operations of the session service do when they succeed: revoking removes the session, presenting a used
  token fails and ends the session, a refresh replaces the token, a creation places one new session.
\<close>

subsection \<open>What revoking and refreshing do\<close>

lemma calm_sessions: "calm s t \<Longrightarrow> getSession sid (sx_store t) = getSession sid (sx_store s)"
  by (simp add: calm_def same_store_def getSession_def)

lemma revokeRecord_None:
  "getSession sid (sx_store s) = None \<Longrightarrow> revokeRecord E sid st s = (Inr None, s\<lparr>sx_ticks := Suc (sx_ticks s)\<rparr>)"
  by (simp add: revokeRecord_def thenR_now Let_def) (simp add: thenR_def storeR_def revokeSession_def getSession_def returnR_def)

lemma revokeRecord_Some:
  assumes "getSession sid (sx_store s) = Some r"
  shows "revokeRecord E sid st s = (let now = sv_clock E (sx_ticks s); at = toISOString now in
      (Inr (Some (revokedRecord r st at, at)), snd (revocationR E sid at
         (s\<lparr>sx_ticks := Suc (sx_ticks s), sx_store := snd (revokeSession sid at st (sx_store s))\<rparr>))))"
  using assms by (simp add: revokeRecord_def thenR_now Let_def)
    (simp add: thenR_def storeR_def revokeSession_def getSession_def returnR_def revocationR_def)

lemma revokeRecord_gone:
  assumes "revokeRecord E sid st s = (r, t)"
  shows "getSession sid (sx_store t) = None" "isl r = False" "r = Inr None \<longleftrightarrow> getSession sid (sx_store s) = None"
proof -
  have "getSession sid (sx_store t) = None \<and> isl r = False \<and> (r = Inr None \<longleftrightarrow> getSession sid (sx_store s) = None)"
  proof (cases "getSession sid (sx_store s)")
    case None
    then show ?thesis
      using assms by (auto simp: revokeRecord_None)
  next
    case (Some q)
    have "getSession sid (sx_store t) = None"
      using assms Some by (auto simp: revokeRecord_Some Let_def revocationR_def getSession_def revokeSession_def)
    with assms Some show ?thesis
      by (auto simp: revokeRecord_Some Let_def)
  qed
  then show "getSession sid (sx_store t) = None" "isl r = False" "r = Inr None \<longleftrightarrow> getSession sid (sx_store s) = None"
    by blast+
qed

lemma revokeInternal_calm:
  assumes "revokeInternal E sid st pub s = (r, t)" "revokeRecord E sid st s = (q, u)"
  shows "calm u t"
proof -
  obtain x where x: "q = Inr x"
    using revokeRecord_gone(2) [OF assms(2)] by (cases q) auto
  have "leads calm (case x of None \<Rightarrow> returnR None
     | Some (record, revokedAt) \<Rightarrow> thenR (appendMirror E record st revokedAt) (\<lambda>_.
         thenR (if pub then publishR (scopeOf record) else returnR ()) (\<lambda>_. returnR (Some record)))) u"
    by (auto split: option.split intro!: cm.leads_rules calm_appendMirror calm_publish)
  then show "calm u t"
    using assms x by (simp add: revokeInternal_def thenR_def [of "revokeRecord E sid st"] leads_def)
qed

lemma revokeInternal_gone:
  assumes "revokeInternal E sid st pub s = (r, t)"
  shows "getSession sid (sx_store t) = None"
proof (cases "revokeRecord E sid st s")
  case (Pair q u)
  then show ?thesis
    using revokeRecord_gone(1) [OF Pair] calm_sessions [OF revokeInternal_calm [OF assms Pair]] by simp
qed

lemma revoke_True:
  assumes "revoke E sid s = (Inr True, t)"
  shows "getSession sid (sx_store s) \<noteq> None" "getSession sid (sx_store t) = None"
proof -
  obtain x where x: "revokeInternal E sid Session_revoked True s = (Inr x, t)" "x \<noteq> None"
    using assms by (auto simp: revoke_def returnR_def elim!: thenR_Inr)
  then show "getSession sid (sx_store t) = None"
    using revokeInternal_gone by blast
  obtain y u where y: "revokeRecord E sid Session_revoked s = (Inr y, u)"
    "(case y of None \<Rightarrow> returnR None
      | Some (record, revokedAt) \<Rightarrow> thenR (appendMirror E record Session_revoked revokedAt) (\<lambda>_.
          thenR (if True then publishR (scopeOf record) else returnR ()) (\<lambda>_. returnR (Some record)))) u = (Inr x, t)"
    using x(1) unfolding revokeInternal_def by (rule thenR_Inr)
  have "y \<noteq> None"
    using y(2) x(2) by (cases y) (auto simp: returnR_def)
  then show "getSession sid (sx_store s) \<noteq> None"
    using revokeRecord_gone(3) [OF y(1)] by blast
qed

text \<open>Presenting a used token fails and ends the session it led to.\<close>

lemma used_refresh:
  assumes "lookupRefreshToken (hashRefreshToken E tok) (sx_store s) = Some l" "lk_state l = Token_used"
    "refresh E tok s = (r, t)"
  shows "isl r" "getSession (lk_sid l) (sx_store t) = None"
proof -
  let ?s = "s\<lparr>sx_ticks := Suc (sx_ticks s)\<rparr>"
  have m: "refresh E tok s = thenR (revokeInternal E (lk_sid l) Session_reuse_detected False)
      (\<lambda>_. throwR (RefreshTokenReuseDetectedError (lk_sid l))) ?s"
    using assms(1,2) by (simp add: refresh_def sess_simps Let_def)
  obtain x u where u: "revokeInternal E (lk_sid l) Session_reuse_detected False ?s = (x, u)"
    by (cases "revokeInternal E (lk_sid l) Session_reuse_detected False ?s")
  show "isl r" "getSession (lk_sid l) (sx_store t) = None"
    using m u assms(3) revokeInternal_gone [OF u] by (auto simp: thenR_def throwR_def split: sum.splits)
qed

text \<open>A successful refresh.\<close>

lemma refresh_Inr:
  assumes "distinct_draws E" "session_inv E s" "refresh E tok s = (Inr b, t)"
  obtains l c q where "lookupRefreshToken (hashRefreshToken E tok) (sx_store s) = Some l" "lk_state l = Token_active"
    "lk_sid l = sb_sid b" "getSession (sb_sid b) (sx_store s) = Some c" "assertActive c (sv_clock E (sx_ticks s)) = Inr ()"
    "getSession (sb_sid b) (sx_store t) = Some q" "se_refreshTokenHash q = hashRefreshToken E (sb_refreshToken b)"
    "se_expiresAt q = se_expiresAt c" "sb_refreshToken b = sv_token E (sx_tokens s)" "sx_tokens t = Suc (sx_tokens s)"
    "lookupRefreshToken (hashRefreshToken E tok) (sx_store t) = Some (l\<lparr>lk_state := Token_used\<rparr>)"
proof -
  let ?h = "hashRefreshToken E tok" and ?now = "sv_clock E (sx_ticks s)"
  let ?s = "s\<lparr>sx_ticks := Suc (sx_ticks s)\<rparr>"
  obtain l where l: "lookupRefreshToken ?h (sx_store s) = Some l" "lk_state l = Token_active"
    using assms(3) by (cases "lookupRefreshToken ?h (sx_store s)"; cases "lk_state (the (lookupRefreshToken ?h (sx_store s)))")
      (auto simp: refresh_def sess_simps Let_def elim!: thenR_Inr)
  obtain c where c: "getSession (lk_sid l) (sx_store s) = Some c" "assertActive c ?now = Inr ()"
    "rotateCurrent E ?h c ?now ?s = (Inr b, t)"
    using assms(3) l by (auto simp: refresh_def sess_simps Let_def elim!: thenR_Inr split: option.splits)
  have sid: "se_sid c = lk_sid l" "l = lookupOf c Token_active" "se_refreshTokenHash c = ?h"
  proof -
    have "token_ok (sx_store s) ?h l"
      using store_inv_token [OF session_invD(1) [OF assms(2)]] l(1) by (simp add: lookupRefreshToken_def)
    then show "se_refreshTokenHash c = ?h"
      using l(2) c(1) by (auto simp: token_ok_def getSession_def)
    then show "se_sid c = lk_sid l" "l = lookupOf c Token_active"
      using live_drawn [OF assms(2), of "lk_sid l" c] c(1) l(1) by (simp_all add: getSession_def lookupRefreshToken_def)
  qed
  let ?tok = "sv_token E (sx_tokens s)"
  have fresh: "hashRefreshToken E ?tok \<noteq> ?h"
    using drawn_unseen [OF assms(1) session_invD(2) [OF assms(2)]] l(1) by (auto simp: unseen_def lookupRefreshToken_def)
  obtain claims r u where r: "storeR (rotateRefreshToken (lk_sid l) ?h (hashRefreshToken E ?tok)
      (minIso (toISOString (addSeconds ?now (sv_idleSeconds E))) (se_expiresAt c)) (toISOString ?now))
        (?s\<lparr>sx_tokens := Suc (sx_tokens s)\<rparr>) = (Inr (Some r), u)"
    "bundleOf E (mintedRecord claims r) ?tok ?now u = (Inr b, t)"
    using c(3) unfolding rotateCurrent_def
    by (auto simp: createRefreshToken_def sid(1) sess_simps elim!: thenR_Inr dest!: claimsR_same split: option.splits)
  have b: "sb_sid b = se_sid r" "sb_refreshToken b = ?tok" "t = u"
    using r(2) by (auto simp: bundleOf_def sess_simps mintedRecord_def elim!: thenR_Inr split: option.splits)
  let ?a = "sx_store (?s\<lparr>sx_tokens := Suc (sx_tokens s)\<rparr>)"
  have eq: "r = c\<lparr>se_refreshTokenHash := hashRefreshToken E ?tok,
        se_idleExpiresAt := minIso (toISOString (addSeconds ?now (sv_idleSeconds E))) (se_expiresAt c),
        se_lastTouchedAt := toISOString ?now, se_updatedAt := toISOString ?now\<rparr>
      \<and> u = s\<lparr>sx_ticks := Suc (sx_ticks s), sx_tokens := Suc (sx_tokens s),
          sx_store := (sx_store s)\<lparr>ss_sessions := jset (lk_sid l) r (ss_sessions (sx_store s)),
            ss_refreshLookups := jset (hashRefreshToken E ?tok)
              \<lparr>lk_sid = lk_sid l, lk_familyId = se_refreshFamilyId c, lk_state = Token_active\<rparr>
              (jset ?h \<lparr>lk_sid = lk_sid l, lk_familyId = se_refreshFamilyId c, lk_state = Token_used\<rparr>
                (ss_refreshLookups (sx_store s)))\<rparr>\<rparr>"
    using r(1) l c(1) sid(3) by (auto simp: storeR_def rotateRefreshToken_def getSession_def lookupRefreshToken_def Let_def)
  then have r': "se_sid r = lk_sid l" "se_refreshTokenHash r = hashRefreshToken E ?tok" "se_expiresAt r = se_expiresAt c"
    using sid(1) by simp_all
  have store: "getSession (lk_sid l) (sx_store u) = Some r" "sx_tokens u = Suc (sx_tokens s)"
    "lookupRefreshToken ?h (sx_store u)
      = Some \<lparr>lk_sid = lk_sid l, lk_familyId = se_refreshFamilyId c, lk_state = Token_used\<rparr>"
    using conjunct2 [OF eq] fresh by (simp_all add: getSession_def lookupRefreshToken_def)
  have used: "l\<lparr>lk_state := Token_used\<rparr>
      = \<lparr>lk_sid = lk_sid l, lk_familyId = se_refreshFamilyId c, lk_state = Token_used\<rparr>"
    using arg_cong [OF sid(2), of "lk_state_update (\<lambda>_. Token_used)"] sid(1) by (simp add: lookupOf_def)
  show thesis
    by (rule that [of l c r]) (use l c(1,2) b r' store used in simp_all)
qed


text \<open>A successful creation: the placing of the new session, between calm parts.\<close>

lemma create_Inr:
  assumes "create E u t c d md s = (Inr b, s')"
  obtains rec revoked s1 s2 where "placeSession E md rec (sv_clock E (sx_ticks s)) s1 = (Inr revoked, s2)"
    "calm s s1" "calm s2 s'" "se_userId rec = u" "se_tenantId rec = t" "sb_sid b = se_sid rec"
    "se_refreshTokenHash rec = hashRefreshToken E (sb_refreshToken b)"
proof -
  let ?now = "sv_clock E (sx_ticks s)" and ?s = "s\<lparr>sx_ticks := Suc (sx_ticks s)\<rparr>"
  obtain factor where rest: "createRest E u t c d md factor ?now ?s = (Inr b, s')"
    using assms unfolding create_split priorR_def thenR_now thenR_read by (auto simp: liftR_def elim!: thenR_Inr)
  let ?f = "\<lambda>sid claims tok fam. let rec = newRecord E u t c d md claims factor ?now sid tok fam in
     thenR (placeSession E md rec ?now) (\<lambda>revoked. thenR (announce E rec revoked ?now) (\<lambda>_.
     thenR (bundleOf E rec tok ?now) (\<lambda>b.
       returnR (if revoked = [] then b else b\<lparr>sb_revokedSessionIds := Some (map se_sid revoked)\<rparr>))))"
  show thesis
  proof (rule drawSession [of "claimsFor E md u t ?now" E ?s ?f])
    show "snd (claimsFor E md u t ?now (sv_uuid E (sx_uuids ?s)) (?s\<lparr>sx_uuids := Suc (sx_uuids ?s)\<rparr>))
      = ?s\<lparr>sx_uuids := Suc (sx_uuids ?s)\<rparr>"
      by (rule claimsFor_same)
  next
    fix e assume "thenR (uuidR E) (\<lambda>sid. thenR (claimsFor E md u t ?now sid) (\<lambda>c. thenR (createRefreshToken E)
      (\<lambda>tok. thenR (uuidR E) (\<lambda>fam. ?f sid c tok fam)))) ?s = (Inl e, ?s\<lparr>sx_uuids := Suc (sx_uuids ?s)\<rparr>)"
    then show thesis
      using rest unfolding createRest_def by simp
  next
    let ?s1 = "?s\<lparr>sx_tokens := Suc (sx_tokens ?s), sx_uuids := Suc (Suc (sx_uuids ?s))\<rparr>"
    let ?tok = "sv_token E (sx_tokens ?s)"
    fix cl assume "thenR (uuidR E) (\<lambda>sid. thenR (claimsFor E md u t ?now sid) (\<lambda>c. thenR (createRefreshToken E)
        (\<lambda>tok. thenR (uuidR E) (\<lambda>fam. ?f sid c tok fam)))) ?s
      = ?f (sv_uuid E (sx_uuids ?s)) cl ?tok (sv_uuid E (Suc (sx_uuids ?s))) ?s1"
    then have "?f (sv_uuid E (sx_uuids ?s)) cl ?tok (sv_uuid E (Suc (sx_uuids ?s))) ?s1 = (Inr b, s')"
      using rest unfolding createRest_def by simp
    then have place: "thenR (placeSession E md rec ?now) (\<lambda>revoked. thenR (announce E rec revoked ?now) (\<lambda>_.
        thenR (bundleOf E rec ?tok ?now) (\<lambda>b.
         returnR (if revoked = [] then b else b\<lparr>sb_revokedSessionIds := Some (map se_sid revoked)\<rparr>)))) ?s1 = (Inr b, s')"
      if "rec = newRecord E u t c d md cl factor ?now (sv_uuid E (sx_uuids ?s)) ?tok (sv_uuid E (Suc (sx_uuids ?s)))" for rec
      using that by (simp only: Let_def)
    define rec where rec: "rec = newRecord E u t c d md cl factor ?now (sv_uuid E (sx_uuids ?s)) ?tok
      (sv_uuid E (Suc (sx_uuids ?s)))"
    obtain revoked s2 where place: "placeSession E md rec ?now ?s1 = (Inr revoked, s2)"
      and after: "thenR (announce E rec revoked ?now) (\<lambda>_. thenR (bundleOf E rec ?tok ?now) (\<lambda>b.
       returnR (if revoked = [] then b else b\<lparr>sb_revokedSessionIds := Some (map se_sid revoked)\<rparr>))) s2 = (Inr b, s')"
      by (rule thenR_Inr [OF place [OF rec]])
    have "leads calm (thenR (announce E rec revoked ?now) (\<lambda>_. thenR (bundleOf E rec ?tok ?now) (\<lambda>b.
       returnR (if revoked = [] then b else b\<lparr>sb_revokedSessionIds := Some (map se_sid revoked)\<rparr>)))) s2"
      by (intro cm.leads_then calm_announce cm.leads_bundle cm.leads_return)
    then have "calm s2 s'"
      using after by (simp add: leads_def)
    moreover have "calm s ?s1"
      by (simp add: calm_def same_store_def revocations_grow_same)
    moreover have "sb_sid b = se_sid rec" "sb_refreshToken b = ?tok"
      using after by (auto simp: bundleOf_def sess_simps elim!: thenR_Inr split: if_splits)
    ultimately show thesis
      by (intro that [OF place]) (simp_all add: rec)
  qed
qed


text \<open>A revocation puts the session on the revocation list.\<close>

lemma revokeRecord_listed:
  assumes "sv_hasRevocations E" "date_in_range (sv_clock E (sx_ticks s))" "getSession sid (sx_store s) \<noteq> None"
    "revokeRecord E sid st s = (r, t)"
  shows "listed (sv_clock E (sx_ticks s) + retentionMs E) sid t"
proof -
  obtain q where "getSession sid (sx_store s) = Some q"
    using assms(3) by blast
  then show ?thesis
    using assms(1,4) date_parse_toISOString [OF assms(2)]
    by (auto simp: revokeRecord_Some Let_def revocationR_def listed_def addRevocation_def split: option.splits)
qed

lemma revoke_listed:
  assumes "sv_hasRevocations E" "date_in_range (sv_clock E (sx_ticks s))" "revoke E sid s = (Inr True, t)"
    "T = sv_clock E (sx_ticks s) + retentionMs E"
  shows "listed T sid t"
proof (cases "revokeRecord E sid Session_revoked s")
  case (Pair q u)
  have u: "listed T sid u"
    using revokeRecord_listed [OF assms(1,2) revoke_True(1) [OF assms(3)] Pair] assms(4) by simp
  obtain x where "revokeInternal E sid Session_revoked True s = (Inr x, t)"
    using assms(3) by (auto simp: revoke_def returnR_def elim!: thenR_Inr)
  then have "calm u t"
    by (rule revokeInternal_calm [OF _ Pair])
  then show ?thesis
    using u listed_grow by (auto simp: calm_def)
qed

end
