(* ===== verification/Session_Demo.thy ===== *)
theory Session_Demo
  imports Session_Effects
begin

text \<open>A small run of the session service: one session is created, its token is redeemed, the session is revoked.\<close>

definition demo_env :: session_env where
  "demo_env = \<lparr>sv_mode = Mode_revoke_existing, sv_strongFactor = None, sv_absoluteSeconds = 100, sv_idleSeconds = 50,
     sv_accessSeconds = 10, sv_clock = (\<lambda>_. 0), sv_wall = (\<lambda>_. 0), sv_uuid = (\<lambda>n. replicate (Suc n) CHR ''u''),
     sv_token = (\<lambda>n. replicate (Suc n) CHR ''t''), sv_sha256 = (\<lambda>x. x), sv_lower = (\<lambda>x. x), sv_resolver = None,
     sv_sign = (\<lambda>r now. Inr (''jwt'', toISOString now)), sv_mirror = (\<lambda>_. None), sv_hasRevocations = True\<rparr>"

definition demo_metadata :: create_metadata where
  "demo_metadata = \<lparr>md_membershipId = None, md_permsHash = None, md_claims = None, md_factorClaims = None,
     md_priorSessionId = None\<rparr>"

definition demo_created :: "(session_error + session_bundle) \<times> session_state" where
  "demo_created = create demo_env ''ana'' ''acme'' ''sub'' [] demo_metadata session_init"

definition demo_refreshed :: "(session_error + session_bundle) \<times> session_state" where
  "demo_refreshed = refresh demo_env ''t'' (snd demo_created)"

lemma replicate_inj: "inj (\<lambda>n. replicate (Suc n) x)"
  by (rule injI) (metis length_replicate nat.inject)

lemma demo_draws: "distinct_draws demo_env"
  using replicate_inj [of "CHR ''u''"] replicate_inj [of "CHR ''t''"]
  by (simp add: distinct_draws_def hashRefreshToken_def demo_env_def)

lemma demo_reached: "(session_run demo_env)\<^sup>*\<^sup>* session_init (snd demo_created)"
proof -
  have "session_step demo_env 0 session_init (snd demo_created)"
    unfolding demo_created_def by (rule step_create [OF prod.collapse [symmetric]])
  then show ?thesis
    by (metis r_into_rtranclp session_run_def)
qed

lemma demo_date [simp]: "date_parse (toISOString 0) = Some 0" "date_parse (toISOString 50000) = Some 50000"
  "date_parse (toISOString 100000) = Some 100000"
  by (simp_all add: date_parse_toISOString date_in_range_def)

definition demo_record :: session_record where
  "demo_record = newRecord demo_env ''ana'' ''acme'' ''sub'' [] demo_metadata None None 0 ''u'' ''t'' ''uu''"

lemma demo_record_select [simp]:
  "se_sid demo_record = ''u''" "se_userId demo_record = ''ana''" "se_tenantId demo_record = ''acme''"
  "se_refreshTokenHash demo_record = ''t''" "se_status demo_record = Session_active"
  "se_expiresAt demo_record = toISOString 100000" "se_idleExpiresAt demo_record = toISOString 50000"
  by (simp_all add: demo_record_def demo_env_def newRecord_def Let_def hashRefreshToken_def addSeconds_def minIso_def)

lemma demo_env_select [simp]:
  "sv_mode demo_env = Mode_revoke_existing" "sv_strongFactor demo_env = None" "sv_clock demo_env n = 0"
  "sv_uuid demo_env n = replicate (Suc n) CHR ''u''" "sv_token demo_env n = replicate (Suc n) CHR ''t''"
  "hashRefreshToken demo_env x = x" "sv_resolver demo_env = None" "sv_mirror demo_env e = None"
  "sv_sign demo_env r now = Inr (''jwt'', toISOString now)" "sv_accessSeconds demo_env = 10" "sv_hasRevocations demo_env"
  by (simp_all add: demo_env_def hashRefreshToken_def)

definition demo_after :: session_state where
  "demo_after = \<lparr>sx_store = createSession demo_record (sx_store session_init),
     sx_mirror = [\<lparr>me_sid = ''u'', me_tenantId = ''acme'', me_userId = ''ana'', me_membershipId = None,
       me_status = Session_active, me_expiresAt = toISOString 100000, me_createdAt = se_createdAt demo_record\<rparr>],
     sx_revoked = [], sx_lastRefreshedAt = None, sx_ticks = 1, sx_uuids = 2, sx_tokens = 1\<rparr>"

lemma demo_metadata_select [simp]: "md_claims demo_metadata = None" "md_priorSessionId demo_metadata = None"
  by (simp_all add: demo_metadata_def)

lemma demo_place:
  "ss_sessionsByUser (sx_store s) = [] \<Longrightarrow> placeSession demo_env demo_metadata demo_record 0 s
   = (Inr [], s\<lparr>sx_store := createSession demo_record (sx_store s)\<rparr>)"
  by (simp add: placeSession_def createWithPolicy_def conflictsOf_def hasPrior_def Let_def List.map_filter_def)

lemma demo_announce:
  "announce demo_env demo_record [] 0 s = (Inr (), s\<lparr>sx_mirror := sx_mirror s @ [\<lparr>me_sid = ''u'', me_tenantId = ''acme'',
     me_userId = ''ana'', me_membershipId = None, me_status = Session_active, me_expiresAt = toISOString 100000,
     me_createdAt = se_createdAt demo_record\<rparr>]\<rparr>)"
  by (simp add: announce_def thenR_def returnR_def remdupsKeep_def mirrorR_def)

lemma demo_bundle:
  "bundleOf demo_env r tok 0 s = (Inr \<lparr>sb_sid = se_sid r, sb_revokedSessionIds = None, sb_accessToken = ''jwt'',
     sb_accessTokenExpiresAt = toISOString 0, sb_refreshToken = tok, sb_expiresAt = se_expiresAt r,
     sb_idleExpiresAt = se_idleExpiresAt r\<rparr>, s)"
  by (simp add: bundleOf_def thenR_def liftR_def returnR_def)

lemma demo_rest:
  "createRest demo_env ''ana'' ''acme'' ''sub'' [] demo_metadata None 0 (session_init\<lparr>sx_ticks := 1\<rparr>)
   = (Inr \<lparr>sb_sid = ''u'', sb_revokedSessionIds = None, sb_accessToken = ''jwt'', sb_accessTokenExpiresAt = toISOString 0,
       sb_refreshToken = ''t'', sb_expiresAt = toISOString 100000, sb_idleExpiresAt = toISOString 50000\<rparr>, demo_after)"
  unfolding createRest_def
  by (simp add: thenR_def uuidR_def claimsFor_def claimsR_def createRefreshToken_def session_init_def returnR_def
    demo_place demo_announce demo_bundle demo_record_def [symmetric] Let_def)
    (simp add: demo_after_def session_init_def)

lemma demo_create: "demo_created = (Inr \<lparr>sb_sid = ''u'', sb_revokedSessionIds = None, sb_accessToken = ''jwt'',
       sb_accessTokenExpiresAt = toISOString 0, sb_refreshToken = ''t'', sb_expiresAt = toISOString 100000,
       sb_idleExpiresAt = toISOString 50000\<rparr>, demo_after)"
proof -
  have "demo_created = createRest demo_env ''ana'' ''acme'' ''sub'' [] demo_metadata None 0 (session_init\<lparr>sx_ticks := 1\<rparr>)"
    unfolding demo_created_def create_split priorR_def thenR_now thenR_read
    by (simp add: hasPrior_def checkPrior_def factorVerifiedAt_def throwIf_def thenR_def liftR_def session_init_def)
  with demo_rest show ?thesis by simp
qed

lemma demo_session [simp]:
  "getSession ''u'' (sx_store demo_after) = Some demo_record"
  "lookupRefreshToken ''t'' (sx_store demo_after) = Some (lookupOf demo_record Token_active)"
  "sx_ticks demo_after = 1" "sx_tokens demo_after = 1" "sx_uuids demo_after = 2"
  by (simp_all add: demo_after_def createSession_def session_init_def getSession_def lookupRefreshToken_def)

lemma demo_refresh: "\<exists>b t. demo_refreshed = (Inr b, t) \<and> sb_sid b = ''u''"
proof -
  have active: "assertActive demo_record 0 = Inr ()"
    by (simp add: assertActive_def throwIf_def)
  have "refresh demo_env ''t'' demo_after
      = rotateCurrent demo_env ''t'' demo_record 0 (demo_after\<lparr>sx_ticks := 2\<rparr>)"
    using active by (simp add: refresh_def thenR_now thenR_read lookupOf_def Let_def) (simp add: thenR_def liftR_def numeral_2_eq_2)
  moreover have "\<exists>b t. rotateCurrent demo_env ''t'' demo_record 0 (demo_after\<lparr>sx_ticks := 2\<rparr>) = (Inr b, t) \<and> sb_sid b = ''u''"
    using demo_session(1,2)
    by (simp add: rotateCurrent_def thenR_def claimsR_def createRefreshToken_def storeR_def rotateRefreshToken_def
      getSession_def lookupRefreshToken_def lookupOf_def Let_def demo_bundle mintedRecord_def)
  ultimately show ?thesis
    by (simp add: demo_refreshed_def demo_create)
qed

lemma demo_revoke: "\<exists>t. revoke demo_env ''u'' demo_after = (Inr True, t)"
  by (simp add: revoke_def revokeInternal_def thenR_def revokeRecord_Some Let_def revocationR_def appendMirror_def mirrorR_def
    publishR_def storeR_def returnR_def)

end
