(* ===== verification/Session_Props.thy ===== *)
theory Session_Props
  imports Session_Demo
begin

text \<open>
  The properties of the session service over the in-memory store: a refresh token is redeemed at most once, a revoked
  session never returns and is reported for as long as its access tokens may live, the single-session policy, the
  strong factor, and the invariant that ties sessions to their tokens. The hypothesis \<open>distinct_draws\<close> says that
  \<open>randomUUID\<close> does not repeat and that the digests of the random tokens differ.
\<close>

subsection \<open>Refresh tokens\<close>

lemma used_stays:
  assumes "later s t" "lookupRefreshToken h (sx_store s) = Some l" "lk_state l = Token_used"
  shows "\<exists>k. lookupRefreshToken h (sx_store t) = Some k \<and> lk_state k = Token_used \<and> lk_sid k = lk_sid l"
  using assms unfolding later_def store_later_def lookupRefreshToken_def by metis

text \<open>C22. A refresh token is redeemed at most once. Once \<open>refresh\<close> has answered a token with a new bundle, every
  later \<open>refresh\<close> of the same token, whatever operations ran in between, fails, and afterwards the session the token
  belonged to no longer exists.\<close>

theorem token_redeemed_once:
  assumes "distinct_draws E" "(session_run E)\<^sup>*\<^sup>* session_init s" "refresh E tok s = (Inr b, t)"
    "(session_run E)\<^sup>*\<^sup>* t u" "refresh E tok u = (r, v)"
  shows "isl r \<and> getSession (sb_sid b) (sx_store v) = None"
proof -
  have inv: "session_inv E s"
    by (rule session_reachable [OF assms(1,2)])
  obtain l where l: "lookupRefreshToken (hashRefreshToken E tok) (sx_store t) = Some (l\<lparr>lk_state := Token_used\<rparr>)"
    "lk_sid l = sb_sid b"
    by (rule refresh_Inr [OF assms(1) inv assms(3)]) blast
  have "session_inv E t"
    using leadsD [OF proper_refresh [OF assms(1)] assms(3)] inv by (simp add: proper_def)
  then have "later t u"
    using session_later [OF assms(1,4)] by blast
  then obtain k where "lookupRefreshToken (hashRefreshToken E tok) (sx_store u) = Some k" "lk_state k = Token_used"
    "lk_sid k = sb_sid b"
    using used_stays [OF _ l(1)] l(2) by auto
  then show ?thesis
    using used_refresh [OF _ _ assms(5)] by metis
qed

theorem token_redeemed_once_witness:
  "\<not> isl (fst demo_refreshed) \<and> isl (fst (refresh demo_env ''t'' (snd demo_refreshed)))
   \<and> getSession ''u'' (sx_store (snd (refresh demo_env ''t'' (snd demo_refreshed)))) = None"
proof -
  obtain b t where b: "demo_refreshed = (Inr b, t)" "sb_sid b = ''u''"
    using demo_refresh by blast
  then have "isl (fst (refresh demo_env ''t'' t)) \<and> getSession (sb_sid b) (sx_store (snd (refresh demo_env ''t'' t))) = None"
    by (intro token_redeemed_once [OF demo_draws demo_reached _ rtranclp.rtrancl_refl prod.collapse [symmetric]])
      (simp add: demo_refreshed_def)
  then show ?thesis
    unfolding b by simp
qed

subsection \<open>Ended sessions\<close>

text \<open>C23. A session that \<open>revoke\<close> has ended never returns: in every later state it is not stored, and no refresh
  token that ever led to it is answered with a bundle.\<close>

theorem revoked_session_never_returns:
  assumes "distinct_draws E" "(session_run E)\<^sup>*\<^sup>* session_init s" "revoke E sid s = (Inr True, t)"
    "(session_run E)\<^sup>*\<^sup>* t u"
  shows "getSession sid (sx_store u) = None
    \<and> (\<forall>tok b v. refresh E tok u = (Inr b, v) \<longrightarrow> sb_sid b \<noteq> sid)"
proof -
  have inv: "session_inv E s"
    by (rule session_reachable [OF assms(1,2)])
  obtain r where r: "jget (ss_sessions (sx_store s)) sid = Some r"
    using revoke_True(1) [OF assms(3)] by (auto simp: getSession_def)
  have pr: "session_inv E t" "later s t"
    using leadsD [OF proper_revoke assms(3)] inv by (simp_all add: proper_def)
  obtain l where "jget (ss_refreshLookups (sx_store t)) (se_refreshTokenHash r) = Some l" "lk_sid l = sid"
    using live_drawn [OF inv r] pr(2) unfolding later_def store_later_def by (metis lookupOf_def token_lookup.select_convs(1))
  moreover have run: "later t u" "session_inv E u"
    using session_later [OF assms(1,4) pr(1)] by simp_all
  ultimately have gone: "getSession sid (sx_store u) = None"
    using revoke_True(2) [OF assms(3)] unfolding later_def store_later_def getSession_def by metis
  have "sb_sid b \<noteq> sid" if "refresh E tok u = (Inr b, v)" for tok b v
    by (rule refresh_Inr [OF assms(1) run(2) that]) (use gone in auto)
  with gone show ?thesis by blast
qed

theorem revoked_session_never_returns_witness:
  "fst (revoke demo_env ''u'' (snd demo_created)) = Inr True
   \<and> getSession ''u'' (sx_store (snd (revoke demo_env ''u'' (snd demo_created)))) = None"
proof -
  obtain t where t: "revoke demo_env ''u'' (snd demo_created) = (Inr True, t)"
    using demo_revoke by (auto simp: demo_create)
  then show ?thesis
    using revoked_session_never_returns [OF demo_draws demo_reached t rtranclp.rtrancl_refl] by simp
qed

text \<open>C25. A revoked session is reported. From the revocation on, until the lifetime of access tokens and the retention
  skew have passed since its instant, \<open>isRevoked\<close> answers true, whatever operations of the service and of the
  revocation list, refreshes and prunes included, ran in between.\<close>

theorem revoked_session_reported:
  assumes "distinct_draws E" "(session_run E)\<^sup>*\<^sup>* session_init s" "sv_hasRevocations E"
    "date_in_range (sv_clock E (sx_ticks s))" "revoke E sid s = (Inr True, t)"
    "T = sv_clock E (sx_ticks s) + sv_accessSeconds E * 1000 + RETENTION_SKEW_MS"
    "(\<lambda>a b. \<exists>now<T. session_step E now a b)\<^sup>*\<^sup>* t u" "now < T"
  shows "fst (isRevoked now sid u)"
proof -
  have inv: "session_inv E s"
    by (rule session_reachable [OF assms(1,2)])
  have t: "session_inv E t"
    using leadsD [OF proper_revoke assms(5)] inv by (simp add: proper_def)
  have "listed T sid t"
    by (rule revoke_listed) (use assms in \<open>simp_all add: retentionMs_def\<close>)
  with assms(7) have "session_inv E u \<and> listed T sid u"
  proof (induction rule: rtranclp_induct)
    case base
    with t show ?case by simp
  next
    case (step x y)
    then show ?case
      using step_proper [OF assms(1)] listed_step [OF assms(1)] by blast
  qed
  then show ?thesis
    using assms(8) by (auto simp: listed_def isRevoked_def)
qed

theorem revoked_session_reported_witness:
  "fst (isRevoked 69999 ''u'' (snd (revoke demo_env ''u'' (snd demo_created))))"
proof -
  obtain t where t: "revoke demo_env ''u'' (snd demo_created) = (Inr True, t)"
    using demo_revoke by (auto simp: demo_create)
  have "fst (isRevoked 69999 ''u'' t)"
    by (rule revoked_session_reported [OF demo_draws demo_reached _ _ t refl rtranclp.rtrancl_refl])
      (simp_all add: date_in_range_def RETENTION_SKEW_MS_def)
  with t show ?thesis by simp
qed

subsection \<open>One session per user and tenant\<close>

lemma placed_alone:
  assumes "store_inv (sx_store s)" "sv_mode E \<noteq> Mode_off" "placeSession E md rec now s = (Inr revoked, t)"
    "date_in_range now" "jget (ss_sessions (sx_store t)) sid = Some q" "se_userId q = se_userId rec"
    "se_tenantId q = se_tenantId rec" "isActive q (Some now)"
  shows "sid = se_sid rec"
proof (rule ccontr)
  assume other: "sid \<noteq> se_sid rec"
  let ?a = "sx_store s"
  define options where "options = \<lparr>pl_mode = sv_mode E, pl_now = toISOString now,
    pl_priorSessionId = (if hasPrior (md_priorSessionId md) then md_priorSessionId md else None)\<rparr>"
  obtain b where b: "createWithPolicy rec options ?a = (Inr revoked, b)" "t = s\<lparr>sx_store := b\<rparr>"
    using assms(2,3) by (auto simp: placeSession_def options_def split: prod.splits)
  show False
    using b(1)
  proof (cases rule: createWithPolicy_cases)
    case 2
    have q: "jget (ss_sessions ?a) sid = Some q" "q \<notin> set (endedBy rec options ?a)" "se_sid q = sid"
    proof -
      have "jget (ss_sessions (fold (\<lambda>q. dropSession q (pl_now options)) (endedBy rec options ?a) ?a)) sid = Some q"
        using assms(5) other b(2) 2(2) by (simp add: createSession_def)
      then have "sid \<notin> se_sid ` set (endedBy rec options ?a)" and a: "jget (ss_sessions ?a) sid = Some q"
        by (simp_all add: fold_drop_sessions split: if_splits)
      then show "jget (ss_sessions ?a) sid = Some q" "q \<notin> set (endedBy rec options ?a)" "se_sid q = sid"
        using store_inv_live [OF assms(1) a] by (auto simp: live_ok_def)
    qed
    have "q \<notin> set (conflictsOf rec options ?a)"
      using q(2) 2(3) assms(2) by (cases "sv_mode E") (auto simp: endedBy_def options_def)
    moreover have "isActive q (date_parse (pl_now options))"
      using assms(4,8) by (simp add: options_def date_parse_toISOString)
    moreover have "sid \<in> set (bucket (ss_sessionsByUser ?a) (se_userId rec))"
      using store_inv_live [OF assms(1) q(1)] assms(6) by (simp add: live_ok_def)
    ultimately have prior: "pl_priorSessionId options = Some sid"
      using conflict_in [OF assms(1), of q rec options] q assms(7) by auto
    then have "hasPrior (pl_priorSessionId options)"
      by (auto simp: options_def split: if_splits)
    then have "q \<in> set (endedBy rec options ?a)"
      using prior q(1) by (simp add: endedBy_def priorOf_def)
    with q(2) show False by simp
  qed simp
qed

text \<open>C24. The single-session policy. When the mode is not off and \<open>create\<close> succeeds, the new session is the only
  stored session of its user and tenant that is active at that instant: the others have been ended, or the creation
  was refused.\<close>

theorem single_session_enforced:
  assumes "distinct_draws E" "(session_run E)\<^sup>*\<^sup>* session_init s" "sv_mode E \<noteq> Mode_off"
    "date_in_range (sv_clock E (sx_ticks s))" "create E u t c d md s = (Inr b, s')"
    "getSession sid (sx_store s') = Some q" "se_userId q = u" "se_tenantId q = t"
    "isActive q (Some (sv_clock E (sx_ticks s)))"
  shows "sid = sb_sid b"
proof (rule create_Inr [OF assms(5)])
  fix rec revoked s1 s2
  assume place: "placeSession E md rec (sv_clock E (sx_ticks s)) s1 = (Inr revoked, s2)"
    and calm: "calm s s1" "calm s2 s'" and rec: "se_userId rec = u" "se_tenantId rec = t" "sb_sid b = se_sid rec"
  have "session_inv E s1"
    using session_reachable [OF assms(1,2)] calm_proper [OF calm(1)] by (simp add: proper_def)
  moreover have "jget (ss_sessions (sx_store s2)) sid = Some q"
    using assms(6) calm_sessions [OF calm(2)] by (simp add: getSession_def)
  ultimately show ?thesis
    using placed_alone [OF session_invD(1) assms(3) place assms(4)] assms(7-9) rec by simp
qed

theorem single_session_enforced_witness: "''u'' = sb_sid (projr (fst demo_created))"
proof -
  have "isActive demo_record (Some (sv_clock demo_env (sx_ticks session_init)))"
    by (simp add: isActive_def)
  moreover obtain b where b: "create demo_env ''ana'' ''acme'' ''sub'' [] demo_metadata session_init = (Inr b, demo_after)"
    using demo_create by (simp add: demo_created_def)
  ultimately have "''u'' = sb_sid b"
    by (intro single_session_enforced [OF demo_draws rtranclp.rtrancl_refl _ _ b demo_session(1)])
      (simp_all add: date_in_range_def)
  with b show ?thesis by (simp add: demo_created_def)
qed

subsection \<open>Sessions and their tokens\<close>

text \<open>C26. In every reachable state, the stored sessions and the active refresh tokens correspond one to one: a digest is
  active and leads to a session exactly when that session is stored and the digest is its current one. And every stored
  session is stored under its own identifier, is active, has its idle limit no later than its absolute one and, where a
  strong factor is required, has had it verified.\<close>

theorem sessions_match_tokens:
  assumes "distinct_draws E" "(session_run E)\<^sup>*\<^sup>* session_init s"
  shows "(\<forall>h sid. (\<exists>l. lookupRefreshToken h (sx_store s) = Some l \<and> lk_state l = Token_active \<and> lk_sid l = sid)
      \<longleftrightarrow> (\<exists>r. getSession sid (sx_store s) = Some r \<and> se_refreshTokenHash r = h))
    \<and> (\<forall>sid r. getSession sid (sx_store s) = Some r \<longrightarrow> se_sid r = sid \<and> se_status r = Session_active
        \<and> (sv_strongFactor E \<noteq> None \<longrightarrow> se_strongFactorVerifiedAt r \<noteq> None)
        \<and> \<not> nan_gt (date_parse (se_idleExpiresAt r)) (date_parse (se_expiresAt r)))"
proof -
  have inv: "session_inv E s"
    by (rule session_reachable [OF assms])
  note store = session_invD(1) [OF inv]
  have "\<exists>r. getSession (lk_sid l) (sx_store s) = Some r \<and> se_refreshTokenHash r = h"
    if "lookupRefreshToken h (sx_store s) = Some l" "lk_state l = Token_active" for h l
    using store_inv_token [OF store, of h l] that by (auto simp: token_ok_def lookupRefreshToken_def getSession_def)
  moreover have "\<exists>l. lookupRefreshToken (se_refreshTokenHash r) (sx_store s) = Some l \<and> lk_state l = Token_active
      \<and> lk_sid l = sid" if "getSession sid (sx_store s) = Some r" for sid r
    using live_drawn [OF inv, of sid r] that by (auto simp: getSession_def lookupRefreshToken_def lookupOf_def)
  moreover have "se_sid r = sid \<and> se_status r = Session_active
      \<and> (sv_strongFactor E \<noteq> None \<longrightarrow> se_strongFactorVerifiedAt r \<noteq> None)
      \<and> \<not> nan_gt (date_parse (se_idleExpiresAt r)) (date_parse (se_expiresAt r))"
    if "getSession sid (sx_store s) = Some r" for sid r
    using store_inv_live [OF store, of sid r] session_invD(3) [OF inv, of sid r] that
    by (simp add: getSession_def live_ok_def verified_def)
  ultimately show ?thesis by blast
qed

theorem sessions_match_tokens_witness:
  "(\<exists>l. lookupRefreshToken ''t'' (sx_store (snd demo_created)) = Some l \<and> lk_state l = Token_active \<and> lk_sid l = ''u'')
    \<and> (\<exists>r. getSession ''u'' (sx_store (snd demo_created)) = Some r \<and> se_status r = Session_active)"
proof -
  note both = sessions_match_tokens [OF demo_draws demo_reached]
  have "\<exists>r. getSession ''u'' (sx_store (snd demo_created)) = Some r \<and> se_refreshTokenHash r = ''t''"
    by (simp add: demo_create)
  with both show ?thesis by blast
qed

text \<open>Without the required strong factor no session is created: \<open>create\<close> throws, and nothing but the reading of the
  clock has happened.\<close>

theorem create_requires_factor:
  assumes "sv_strongFactor E = Some (claim, accepted)" "\<not> hasPrior (md_priorSessionId md)"
    "\<not> factorAccepted E accepted (Option.bind (md_factorClaims md) (\<lambda>c. jget c claim))"
  shows "create E u t c d md s = (Inl StrongFactorRequiredError, s\<lparr>sx_ticks := Suc (sx_ticks s)\<rparr>)"
  using assms
  by (simp add: create_split priorR_def thenR_now thenR_read checkPrior_def factorVerifiedAt_def throwIf_def)
    (simp add: thenR_def liftR_def)

theorem create_requires_factor_witness:
  "fst (create (demo_env\<lparr>sv_strongFactor := Some (''amr'', [''mfa''])\<rparr>) ''ana'' ''acme'' ''sub'' []
     (demo_metadata\<lparr>md_factorClaims := Some [(''amr'', JStr ''pwd'')]\<rparr>) session_init) = Inl StrongFactorRequiredError"
proof -
  have "\<not> factorAccepted (demo_env\<lparr>sv_strongFactor := Some (''amr'', [''mfa''])\<rparr>) [''mfa'']
      (Option.bind (md_factorClaims (demo_metadata\<lparr>md_factorClaims := Some [(''amr'', JStr ''pwd'')]\<rparr>)) (\<lambda>c. jget c ''amr''))"
    by code_simp
  then show ?thesis
    using create_requires_factor [of "demo_env\<lparr>sv_strongFactor := Some (''amr'', [''mfa''])\<rparr>" "''amr''" "[''mfa'']"]
    by (simp add: hasPrior_def)
qed

end
