(* ===== verification/Payload_Canon.thy ===== *)
theory Payload_Canon
  imports Offline_Payload Js_Parse
begin

text \<open>
  The canonical text of a payload determines it: two payloads have one canonical text exactly when they are the same
  value up to the order of the members of objects. The text is read from the left; each value is recognised by its
  first character and ends where its syntax says, so no two different values can be printed to texts of which one
  continues the other.
\<close>

subsection \<open>The text after sorting\<close>

text \<open>Printing without sorting.\<close>

primrec plain_encode :: "json \<Rightarrow> string option" where
  "plain_encode JNull = Some ''null''"
| "plain_encode (JBool b) = Some (if b then ''true'' else ''false'')"
| "plain_encode (JNum n) = Some (dec_int n)"
| "plain_encode (JStr s) = canonical_text s"
| "plain_encode (JArr xs) = map_option (\<lambda>ts. ''['' @ join_comma ts @ '']'') (option_all (map plain_encode xs))"
| "plain_encode (JObj es) = map_option (\<lambda>ts. ''{'' @ join_comma ts @ ''}'')
     (option_all (map canonical_member (map (map_prod id plain_encode) es)))"

lemma insort_key_map: "(\<And>x. f (g x) = h x) \<Longrightarrow> insort_key f (g x) (map g xs) = map g (insort_key h x xs)"
  by (induction xs) simp_all

lemma sort_key_map: "(\<And>x. f (g x) = h x) \<Longrightarrow> sort_key f (map g xs) = map g (sort_key h xs)"
  by (induction xs) (simp_all add: insort_key_map)

lemma encode_canon: "canonical_encode v = plain_encode (json_canon v)"
proof (induction v)
  case (JArr xs)
  then have "map canonical_encode xs = map plain_encode (map json_canon xs)"
    by simp
  then show ?case
    by (simp only: canonical_encode.simps json_canon.simps plain_encode.simps)
next
  case (JObj es)
  let ?k = "\<lambda>e. utf16_units (fst e)"
  have "sort_key ?k (map (map_prod id canonical_encode) es) = map (map_prod id canonical_encode) (sort_key ?k es)"
    by (rule sort_key_map) simp
  also have "\<dots> = map (map_prod id plain_encode) (map (map_prod id json_canon) (sort_key ?k es))"
    using JObj by (auto simp: map_prod_def snds.simps split: prod.split) 
  also have "map (map_prod id json_canon) (sort_key ?k es) = sort_key ?k (map (map_prod id json_canon) es)"
    by (rule sort_key_map [symmetric]) simp
  finally show ?case
    by (simp only: canonical_encode.simps json_canon.simps plain_encode.simps)
qed simp_all

subsection \<open>Reading from the left\<close>

definition ends_value :: "string \<Rightarrow> bool" where
  "ends_value x \<longleftrightarrow> x = [] \<or> hd x \<in> {CHR '','', CHR '']'', CHR ''}''}"

text \<open>A printer whose texts end where they are read to end.\<close>

definition unambiguous :: "('a \<Rightarrow> string option) \<Rightarrow> 'a \<Rightarrow> bool" where
  "unambiguous enc a \<longleftrightarrow> (\<forall>b s t x y. enc a = Some s \<longrightarrow> enc b = Some t \<longrightarrow> s @ x = t @ y
     \<longrightarrow> ends_value x \<longrightarrow> ends_value y \<longrightarrow> a = b \<and> x = y)"

lemma unambiguousD:
  "unambiguous enc a \<Longrightarrow> enc a = Some s \<Longrightarrow> enc b = Some t \<Longrightarrow> s @ x = t @ y \<Longrightarrow> ends_value x \<Longrightarrow> ends_value y
   \<Longrightarrow> a = b \<and> x = y"
  unfolding unambiguous_def by blast

text \<open>A printer that never begins with a closing bracket or a comma.\<close>

definition opens :: "('a \<Rightarrow> string option) \<Rightarrow> bool" where
  "opens enc \<longleftrightarrow> (\<forall>a s. enc a = Some s \<longrightarrow> s \<noteq> [] \<and> hd s \<notin> {CHR '','', CHR '']'', CHR ''}''})"

lemma opensD:
  assumes "opens enc" "enc a = Some s"
  obtains c r where "s = c # r" "c \<noteq> CHR '',''" "c \<noteq> CHR '']''" "c \<noteq> CHR ''}''"
proof -
  have "s \<noteq> []" "hd s \<notin> {CHR '','', CHR '']'', CHR ''}''}"
    using assms unfolding opens_def by blast+
  then show thesis
    by (cases s) (auto intro: that)
qed

lemma option_all_Cons: "option_all (x # xs) = Some ts \<longleftrightarrow> (\<exists>t r. x = Some t \<and> option_all xs = Some r \<and> ts = t # r)"
  by (auto simp: option_all_def)

lemma option_all_Nil [simp]: "option_all [] = Some []"
  by (simp add: option_all_def)

lemma join_comma_Cons: "join_comma (t # ts) = t @ (if ts = [] then [] else CHR '','' # join_comma ts)"
  by (cases ts) simp_all

lemma join_unambiguous:
  assumes "opens enc" "z \<in> {CHR '']'', CHR ''}''}" "\<forall>a \<in> set xs. unambiguous enc a"
    "option_all (map enc xs) = Some ts" "option_all (map enc ys) = Some us"
    "join_comma ts @ z # x = join_comma us @ z # y"
  shows "xs = ys \<and> x = y"
  using assms(3-6)
proof (induction xs arbitrary: ys ts us)
  case Nil
  show ?case
  proof (cases ys)
    case (Cons b bs)
    then obtain u r where u: "enc b = Some u" "join_comma us = u @ r"
      using Nil.prems(3) by (auto simp: option_all_Cons join_comma_Cons)
    obtain c v where "u = c # v" "c \<noteq> CHR '']''" "c \<noteq> CHR ''}''"
      by (rule opensD [OF assms(1) u(1)])
    then show ?thesis
      using Nil.prems(2,4) assms(2) u(2) by auto
  qed (use Nil.prems in auto)
next
  case (Cons a as)
  obtain t tr where t: "enc a = Some t" "option_all (map enc as) = Some tr" "ts = t # tr"
    using Cons.prems(2) by (auto simp: option_all_Cons)
  show ?case
  proof (cases ys)
    case Nil
    then have "us = []" using Cons.prems(3) by simp
    moreover obtain c v where "t = c # v" "c \<noteq> CHR '']''" "c \<noteq> CHR ''}''"
      by (rule opensD [OF assms(1) t(1)])
    ultimately show ?thesis
      using Cons.prems(4) t(3) assms(2) by (auto simp: join_comma_Cons)
  next
    case ys: (Cons b bs)
    obtain u ur where u: "enc b = Some u" "option_all (map enc bs) = Some ur" "us = u # ur"
      using Cons.prems(3) ys by (auto simp: option_all_Cons)
    let ?x = "if tr = [] then z # x else CHR '','' # join_comma tr @ z # x"
    let ?y = "if ur = [] then z # y else CHR '','' # join_comma ur @ z # y"
    have "t @ ?x = u @ ?y"
      using Cons.prems(4) t(3) u(3) by (simp add: join_comma_Cons split: if_splits)
    moreover have "ends_value ?x" "ends_value ?y"
      using assms(2) by (auto simp: ends_value_def)
    ultimately have ab: "a = b" "?x = ?y"
      using unambiguousD [of enc a t b u ?x ?y] t(1) u(1) Cons.prems(1) by auto
    have lengths: "tr = [] \<longleftrightarrow> as = []" "ur = [] \<longleftrightarrow> bs = []"
      using t(2) u(2) by (cases as; cases bs; auto simp: option_all_Cons)+
    show ?thesis
    proof (cases "tr = []")
      case True
      then show ?thesis
        using ab assms(2) lengths ys by (auto split: if_splits)
    next
      case False
      then have "join_comma tr @ z # x = join_comma ur @ z # y"
        using ab(2) assms(2) by (auto split: if_splits)
      then show ?thesis
        using Cons.IH [OF _ t(2) u(2)] Cons.prems(1) ab(1) ys by simp
    qed
  qed
qed


subsection \<open>Values\<close>

lemma lossless_successively:
  "utf8_lossless s \<Longrightarrow> successively (\<lambda>a b. \<not> (a = 237 \<and> 160 \<le> b)) (map of_char s :: nat list)"
  by (induction s rule: utf8_lossless.induct) auto

lemma quote_unambiguous:
  assumes "canonical_text s = Some q" "canonical_text t = Some p" "q @ x = p @ y"
  shows "s = t \<and> x = y"
proof -
  have plain: "q = CHR 0x22 # concat (map json_escape_char s) @ [CHR 0x22]"
    "p = CHR 0x22 # concat (map json_escape_char t) @ [CHR 0x22]"
    using assms(1,2) json_escape_plain lossless_successively
    by (auto simp: canonical_text_def json_quote_def split: if_splits)
  have "map of_char (concat (map json_escape_char s)) @ 34 # map of_char x
      = map of_char (concat (map json_escape_char t)) @ (34 :: nat) # map of_char y"
    using arg_cong [OF assms(3), of "\<lambda>z. map of_char (tl z) :: nat list"] by (simp add: plain)
  then have "Some (map of_char s :: nat list, map of_char x :: nat list) = Some (map of_char t, map of_char y)"
    using parse_chars_quoted [of s "map of_char x"] parse_chars_quoted [of t "map of_char y"] by metis
  moreover have "inj (of_char :: char \<Rightarrow> nat)"
    by (simp add: inj_def)
  ultimately show ?thesis
    by (simp add: inj_map_eq_map)
qed

lemma dec_nat_head: "\<exists>c r. dec_nat k = c # r \<and> is_digit c"
proof -
  have "dec_nat k \<noteq> []"
    by (subst dec_nat.simps) simp
  then show ?thesis
    using dec_nat_digits [of k] by (cases "dec_nat k") auto
qed

lemma number_unambiguous:
  assumes "dec_int n @ x = dec_int m @ y" "ends_value x" "ends_value y"
  shows "n = m \<and> x = y"
proof -
  have stop: "takeWhile is_digit (dec_nat k @ z) = dec_nat k" if "ends_value z" for k z
    using that dec_nat_digits [of k] by (cases z) (auto simp: takeWhile_append ends_value_def is_digit_def)
  have nat: "j = k \<and> z = w" if "dec_nat j @ z = dec_nat k @ w" "ends_value z" "ends_value w" for j k z w
  proof -
    have "dec_nat j = dec_nat k"
      using stop [OF that(2), of j] stop [OF that(3), of k] that(1) by simp
    then have "j = k"
      using digits_val_dec_nat by metis
    with that(1) show ?thesis by simp
  qed
  have head: "dec_nat k @ z \<noteq> CHR ''-'' # w" for k z w
    using dec_nat_head [of k] by (auto simp: is_digit_def)
  consider "n < 0" "m < 0" | "0 \<le> n" "0 \<le> m" | "n < 0" "0 \<le> m" | "0 \<le> n" "m < 0"
    by linarith
  then show ?thesis
  proof cases
    case 1
    then have "nat (- n) = nat (- m) \<and> x = y"
      using assms by (intro nat) (simp_all add: dec_int_def)
    with 1 show ?thesis by linarith
  next
    case 2
    then have "nat n = nat m \<and> x = y"
      using assms by (intro nat) (simp_all add: dec_int_def)
    with 2 show ?thesis by linarith
  next
    case 3
    then show ?thesis
      using assms(1) head [of "nat m" y, THEN not_sym] by (simp add: dec_int_def)
  next
    case 4
    then show ?thesis
      using assms(1) head [of "nat n" x] by (simp add: dec_int_def)
  qed
qed

text \<open>The kind of a value shows in the first character of its text.\<close>

fun json_tag :: "json \<Rightarrow> nat" where
  "json_tag JNull = 0"
| "json_tag (JBool b) = 1"
| "json_tag (JNum n) = 2"
| "json_tag (JStr s) = 3"
| "json_tag (JArr xs) = 4"
| "json_tag (JObj es) = 5"

definition char_tag :: "char \<Rightarrow> nat" where
  "char_tag c = (if c = CHR ''n'' then 0 else if c = CHR ''t'' \<or> c = CHR ''f'' then 1
     else if c = CHR ''-'' \<or> is_digit c then 2 else if c = CHR 0x22 then 3 else if c = CHR ''['' then 4
     else if c = CHR ''{'' then 5 else 6)"

lemma dec_int_head: "\<exists>c r. dec_int n = c # r \<and> (c = CHR ''-'' \<or> is_digit c)"
  using dec_nat_head [of "nat n"] by (auto simp: dec_int_def)

lemma char_tag_values [simp]:
  "char_tag CHR ''n'' = 0" "char_tag CHR ''t'' = 1" "char_tag CHR ''f'' = 1" "char_tag CHR ''-'' = 2"
  "char_tag CHR 0x22 = 3" "char_tag CHR ''['' = 4" "char_tag CHR ''{'' = 5"
  by (simp_all add: char_tag_def is_digit_def)

lemma char_tag_digit: "is_digit c \<Longrightarrow> char_tag c = 2"
  by (auto simp: char_tag_def is_digit_def)

lemma char_tag_close: "char_tag c < 6 \<Longrightarrow> c \<notin> {CHR '','', CHR '']'', CHR ''}''}"
  by (auto simp: char_tag_def is_digit_def)

lemma plain_head:
  assumes "plain_encode v = Some s"
  shows "\<exists>c r. s = c # r \<and> char_tag c = json_tag v"
proof (cases v)
  case (JNum n)
  then show ?thesis
    using assms dec_int_head [of n] by (auto simp: char_tag_digit)
next
  case (JStr k)
  then have "canonical_text k = Some s"
    using assms by simp
  then have "s = json_quote k"
    unfolding canonical_text_def by (metis option.distinct(1) option.inject)
  with JStr show ?thesis
    by (simp add: json_quote_def)
next
  case (JArr xs)
  then obtain ts where "s = CHR ''['' # join_comma ts @ '']''"
    using assms by fastforce
  with JArr show ?thesis by simp
next
  case (JObj es)
  then obtain ts where "s = CHR ''{'' # join_comma ts @ ''}''"
    using assms by fastforce
  with JObj show ?thesis by simp
next
  case (JBool b)
  then have "s = (if b then ''true'' else ''false'')"
    using assms by simp
  with JBool show ?thesis
    by simp
next
  case JNull
  then have "s = ''null''"
    using assms by simp
  with JNull show ?thesis
    by simp
qed

lemma plain_opens: "opens plain_encode"
  unfolding opens_def
proof (intro allI impI)
  fix v s assume "plain_encode v = Some s"
  then obtain c r where "s = c # r" "char_tag c = json_tag v"
    using plain_head by blast
  moreover have "json_tag v < 6"
    by (cases v) simp_all
  ultimately show "s \<noteq> [] \<and> hd s \<notin> {CHR '','', CHR '']'', CHR ''}''}"
    using char_tag_close [of c] by simp
qed

lemma same_kind:
  assumes "plain_encode a = Some s" "plain_encode b = Some t" "s @ x = t @ y"
  shows "json_tag a = json_tag b"
  using plain_head [OF assms(1)] plain_head [OF assms(2)] assms(3) by auto

definition member_encode :: "string \<times> json \<Rightarrow> string option" where
  "member_encode e = canonical_member (map_prod id plain_encode e)"

lemma plain_object:
  "plain_encode (JObj es) = map_option (\<lambda>ts. ''{'' @ join_comma ts @ ''}'') (option_all (map member_encode es))"
  by (simp add: member_encode_def [abs_def] comp_def)

lemma member_Some:
  "member_encode (k, v) = Some s \<longleftrightarrow> (\<exists>q t. canonical_text k = Some q \<and> plain_encode v = Some t \<and> s = q @ '':'' @ t)"
  by (auto simp: member_encode_def canonical_member_def split: option.splits)

lemma member_opens: "opens member_encode"
  unfolding opens_def by (auto simp: member_Some canonical_text_def json_quote_def split: if_splits)

lemma member_unambiguous: "unambiguous plain_encode v \<Longrightarrow> unambiguous member_encode (k, v)"
  unfolding unambiguous_def [of member_encode]
proof (intro allI impI)
  fix e s t x y
  assume v: "unambiguous plain_encode v" and s: "member_encode (k, v) = Some s" and t: "member_encode e = Some t"
    and eq: "s @ x = t @ y" and ends: "ends_value x" "ends_value y"
  obtain k' v' where e: "e = (k', v')" by fastforce
  obtain q st p tt where q: "canonical_text k = Some q" "plain_encode v = Some st" "s = q @ '':'' @ st"
    "canonical_text k' = Some p" "plain_encode v' = Some tt" "t = p @ '':'' @ tt"
    using s t e by (auto simp: member_Some)
  have "k = k' \<and> '':'' @ st @ x = '':'' @ tt @ y"
    by (rule quote_unambiguous [OF q(1,4)]) (use eq q(3,6) in simp)
  then show "(k, v) = e \<and> x = y"
    using unambiguousD [OF v q(2,5) _ ends] e by simp
qed

lemma plain_unambiguous: "unambiguous plain_encode v"
proof (induction v)
  case (JArr xs)
  show ?case
    unfolding unambiguous_def
  proof (intro allI impI)
    fix b s t x y
    assume s: "plain_encode (JArr xs) = Some s" and t: "plain_encode b = Some t" and eq: "s @ x = t @ y"
    obtain ys where b: "b = JArr ys"
      using same_kind [OF s t eq] by (cases b) auto
    obtain ts us where "option_all (map plain_encode xs) = Some ts" "option_all (map plain_encode ys) = Some us"
      "join_comma ts @ CHR '']'' # x = join_comma us @ CHR '']'' # y"
      using s t eq b by auto
    from join_unambiguous [OF plain_opens _ _ this] show "JArr xs = b \<and> x = y"
      using JArr b by simp
  qed
next
  case (JObj es)
  have elems: "\<forall>e \<in> set es. unambiguous member_encode e"
    using JObj member_unambiguous by (auto simp: snds.simps)
  show ?case
    unfolding unambiguous_def
  proof (intro allI impI)
    fix b s t x y
    assume s: "plain_encode (JObj es) = Some s" and t: "plain_encode b = Some t" and eq: "s @ x = t @ y"
    obtain fs where b: "b = JObj fs"
      using same_kind [OF s t eq] by (cases b) auto
    obtain ts us where "option_all (map member_encode es) = Some ts" "option_all (map member_encode fs) = Some us"
      "join_comma ts @ CHR ''}'' # x = join_comma us @ CHR ''}'' # y"
      using s t eq b by (auto simp: plain_object simp del: plain_encode.simps)
    from join_unambiguous [OF member_opens _ elems this] show "JObj es = b \<and> x = y"
      using b by simp
  qed
next
  case (JNum n)
  show ?case
    unfolding unambiguous_def
  proof (intro allI impI)
    fix b s t x y
    assume s: "plain_encode (JNum n) = Some s" and t: "plain_encode b = Some t" and eq: "s @ x = t @ y"
      and ends: "ends_value x" "ends_value y"
    then show "JNum n = b \<and> x = y"
      using same_kind [OF s t eq] number_unambiguous [of n x _ y] by (cases b) auto
  qed
next
  case (JStr k)
  show ?case
    unfolding unambiguous_def
  proof (intro allI impI)
    fix b s t x y
    assume s: "plain_encode (JStr k) = Some s" and t: "plain_encode b = Some t" and eq: "s @ x = t @ y"
    then show "JStr k = b \<and> x = y"
      using same_kind [OF s t eq] quote_unambiguous [of k s _ t x y] by (cases b) auto
  qed
next
  case JNull
  show ?case
    unfolding unambiguous_def using same_kind by (metis json_tag.simps plain_encode.simps(1) option.inject same_append_eq
      json.exhaust zero_neq_one zero_neq_numeral)
next
  case (JBool c)
  show ?case
    unfolding unambiguous_def
  proof (intro allI impI)
    fix b s t x y
    assume s: "plain_encode (JBool c) = Some s" and t: "plain_encode b = Some t" and eq: "s @ x = t @ y"
    then show "JBool c = b \<and> x = y"
      using same_kind [OF s t eq] by (cases b) (auto split: if_splits)
  qed
qed

lemma canonical_inject:
  assumes "canonical_encode a = Some t"
  shows "canonical_encode b = Some t \<longleftrightarrow> json_canon b = json_canon a"
proof
  assume "canonical_encode b = Some t"
  then show "json_canon b = json_canon a"
    using unambiguousD [OF plain_unambiguous, of "json_canon b" t "json_canon a" t "[]" "[]"] assms
    by (simp add: encode_canon ends_value_def)
qed (use assms in \<open>simp add: encode_canon\<close>)


text \<open>C15. The canonical text of a payload determines it, and nothing but the order of members is lost: another payload
  has the same canonical text exactly when it is the same value up to the order of the members of its objects.\<close>

theorem canonical_payload_determined:
  assumes "canonicalOfflineSyncPayload a = Inr t"
  shows "canonicalOfflineSyncPayload b = Inr t \<longleftrightarrow> json_canon b = json_canon a"
proof -
  have a: "isObject a" "canonical_encode a = Some t"
    using assms by (auto simp: canonicalOfflineSyncPayload_def require_def split: if_splits option.splits)
  have "isObject b = isObject (json_canon b)" "isObject (json_canon a)"
    using a(1) by (cases b; cases a; simp)+
  then show ?thesis
    using canonical_inject [OF a(2), of b] a(1)
    by (auto simp: canonicalOfflineSyncPayload_def require_def split: option.splits)
qed

theorem canonical_payload_determined_witness:
  "canonicalOfflineSyncPayload (JObj [(''b'', JNum 2), (''a'', JArr [JNull, JBool True])])
   = canonicalOfflineSyncPayload (JObj [(''a'', JArr [JNull, JBool True]), (''b'', JNum 2)])"
proof -
  let ?p = "JObj [(''b'', JNum 2), (''a'', JArr [JNull, JBool True])]"
  let ?q = "JObj [(''a'', JArr [JNull, JBool True]), (''b'', JNum 2)]"
  have "isl (canonicalOfflineSyncPayload ?p) = False"
    by code_simp
  then obtain t where t: "canonicalOfflineSyncPayload ?p = Inr t"
    by (cases "canonicalOfflineSyncPayload ?p") auto
  have "json_canon ?q = json_canon ?p"
    by code_simp
  then have "canonicalOfflineSyncPayload ?q = Inr t"
    unfolding canonical_payload_determined [OF t] .
  then show ?thesis
    unfolding t by (rule sym)
qed

end
