(* ===== verification/Offline_Service.thy ===== *)
theory Offline_Service
  imports Offline_Batch Offline_Listing
begin

text \<open>
  \<open>OfflineSyncService\<close> of \<open>packages/offline-sync/src/offline-sync.service.ts\<close> over the in-memory store: the checks of
  the request, the resolution of policy and agent, and the call of the store. The operations have the name of the
  method with the suffix \<open>_svc\<close>, since the store's operations have the method names.

  The request scope (\<open>context.current()\<close>) and the instant the clock gives (\<open>now()\<close>, read at most once per request) are
  arguments. Policy resolver, agent resolver and the host ports are functions in the configuration; a resolver may throw.
  Durations and limits are integers, and arguments have their declared types, so the checks of \<open>typeof\<close> do not arise.
  The in-memory store has every optional operation, so no request fails for want of one.
\<close>

record service_policy = sync_policy +
  sp_reservationTtlMs :: "int option"
  sp_maxBatchItems :: "int option"

record service_config =
  sf_policyResolver :: "(string \<Rightarrow> string \<Rightarrow> string \<Rightarrow> string \<Rightarrow> offline_error + service_policy) option"
  sf_agentResolver :: "(scope \<Rightarrow> string \<Rightarrow> string option \<Rightarrow> offline_error + string) option"
  sf_reservationTtlMs :: "int option"
  sf_ports :: sync_ports
  sf_conflictResolver :: "resolver_port option"
  sf_resolutionEventPort :: "(string \<Rightarrow> sync_event \<Rightarrow> offline_error + unit) option"

subsection \<open>Checks\<close>

definition assertText :: "string \<Rightarrow> string \<Rightarrow> offline_error + unit" where
  "assertText value field = throwIf (js_blank value) (invalidInput (field @ '' is required.''))"

definition assertEntityType :: "string \<Rightarrow> offline_error + unit" where
  "assertEntityType value = bindE (assertText value ''entityType'') (\<lambda>_.
     throwIf (length (utf16_units value) > 100) (invalidInput ''entityType must not exceed 100 characters.''))"

fun assertFilters :: "(string \<times> string option) list \<Rightarrow> offline_error + unit" where
  "assertFilters [] = Inr ()"
| "assertFilters ((field, value) # rest) = bindE (case value of None \<Rightarrow> Inr () | Some v \<Rightarrow> assertText v field)
     (\<lambda>_. assertFilters rest)"

definition pageLimit :: "int option \<Rightarrow> string option \<Rightarrow> offline_error + int" where
  "pageLimit limit cursor = (let n = (case limit of None \<Rightarrow> listDefaultLimit | Some l \<Rightarrow> l) in
     bindE (throwIf (\<not> isSafeInteger n \<or> n < 1 \<or> n > listMaxLimit)
       (invalidInput (''limit must be an integer between 1 and '' @ dec_int listMaxLimit @ ''.''))) (\<lambda>_.
     bindE (case cursor of None \<Rightarrow> Inr () | Some c \<Rightarrow> assertText c ''cursor'') (\<lambda>_. Inr n)))"

definition pageS :: "'a list_input_scheme \<Rightarrow> offline_error + 'a list_input_scheme" where
  "pageS input = bindE (pageLimit (li_limit input) (li_cursor input)) (\<lambda>n. Inr (input\<lparr>li_limit := Some n\<rparr>))"

text \<open>A read of the store, and an operation of the numbering part that leaves the store as it is when it throws.\<close>

definition askS :: "(offline_store \<Rightarrow> offline_error + 'a) \<Rightarrow> 'a sync" where
  "askS f s = (f s, s)"

definition numberS :: "(offline_store \<Rightarrow> offline_error + 'a \<times> offline_store) \<Rightarrow> 'a sync" where
  "numberS f s = (case f s of Inl e \<Rightarrow> (Inl e, s) | Inr (x, t) \<Rightarrow> (Inr x, t))"

subsection \<open>Ranges\<close>

definition createNumberingRange_svc :: "env \<Rightarrow> scope \<Rightarrow> create_range_input \<Rightarrow> string \<Rightarrow> numbering_range sync" where
  "createNumberingRange_svc E sc input now =
     bindS (liftE (rangeCreation E sc input)) (\<lambda>(request, _). numberS (createNumberingRange E sc request now))"

definition getNumberingRange_svc :: "scope \<Rightarrow> string \<Rightarrow> numbering_range sync" where
  "getNumberingRange_svc sc i =
     bindS (liftE (rangeIdentity i)) (\<lambda>k.
     bindS (askS (getNumberingRange sc k)) (\<lambda>range. liftE (require rangeNotFound range)))"

definition listNumberingRanges_svc ::
  "env \<Rightarrow> scope \<Rightarrow> list_ranges_input \<Rightarrow> (numbering_range list \<times> string option) sync" where
  "listNumberingRanges_svc E sc input =
     bindS (liftE (rangeList input)) (\<lambda>(request, limit).
       askS (listNumberingRanges E sc (request\<lparr>lri_limit := Some limit\<rparr>)))"

definition cancelNumberingRange_svc :: "scope \<Rightarrow> string \<Rightarrow> string option \<Rightarrow> string \<Rightarrow> numbering_range sync" where
  "cancelNumberingRange_svc sc i reason now =
     bindS (liftE (rangeIdentity i)) (\<lambda>k.
     bindS (liftE (rangeCancellation reason)) (\<lambda>request. numberS (cancelNumberingRange sc k request now)))"

subsection \<open>Agents and reservations\<close>

definition businessAgent :: "service_config \<Rightarrow> scope \<Rightarrow> string \<Rightarrow> string option \<Rightarrow> offline_error + string" where
  "businessAgent c sc operation candidate =
     bindE (case candidate of None \<Rightarrow> Inr ()
       | Some a \<Rightarrow> bindE (assertText a ''agentId'') (\<lambda>_.
           bindE (throwIf (length a > 255) (invalidInput ''agentId must not exceed 255 bytes.'')) (\<lambda>_.
           throwIf (sf_agentResolver c = None) (OfflineSyncConfigurationError ''agentResolver'')))) (\<lambda>_.
     bindE (case sf_agentResolver c of None \<Rightarrow> Inr (sc_actorId sc) | Some f \<Rightarrow> f sc operation candidate) (\<lambda>agentId.
     bindE (assertText agentId ''resolved agentId'') (\<lambda>_.
     bindE (throwIf (length agentId > 255) (invalidInput ''resolved agentId must not exceed 255 bytes.'')) (\<lambda>_.
     Inr agentId))))"

definition reservationScope :: "service_config \<Rightarrow> scope \<Rightarrow> string option \<Rightarrow> offline_error + scope" where
  "reservationScope c sc agentId = bindE (businessAgent c sc ''reserve-numbering'' agentId) (\<lambda>resolved.
     Inr (if sf_policyResolver c = None then sc else sc\<lparr>sc_agentId := Some resolved\<rparr>))"

definition sizeError :: offline_error where
  "sizeError = invalidInput ''requestedSize must be an integer between 1 and 100.''"

definition reservedShift :: "string \<Rightarrow> bool" where
  "reservedShift shiftId \<longleftrightarrow> startsWith shiftId ''stynx:'' \<and> shiftId \<noteq> OFFLINE_SYNC_NO_SHIFT"

definition checkReservation :: "reserve_input \<Rightarrow> offline_error + unit" where
  "checkReservation input =
     bindE (assertText (rni_orgUnitId input) ''orgUnitId'') (\<lambda>_.
     bindE (assertText (rni_deviceId input) ''deviceId'') (\<lambda>_.
     bindE (case rni_shiftId input of None \<Rightarrow> Inl (invalidInput ''shiftId is required.'')
       | Some sh \<Rightarrow> bindE (assertText sh ''shiftId'') (\<lambda>_.
           throwIf (reservedShift sh) (invalidInput ''shiftId uses a reserved namespace.''))) (\<lambda>_.
     bindE (assertEntityType (rni_entityType input)) (\<lambda>_.
     bindE (case rni_idempotencyKey input of None \<Rightarrow> Inr ()
       | Some k \<Rightarrow> bindE (assertText k ''idempotencyKey'') (\<lambda>_.
           throwIf (length k > 255) (invalidInput ''idempotencyKey must not exceed 255 bytes.''))) (\<lambda>_.
     throwIf (\<not> isSafeInteger (rni_requestedSize input) \<or> rni_requestedSize input < 1 \<or> rni_requestedSize input > 100)
       sizeError)))))"

definition policyMissing :: offline_error where
  "policyMissing = invalidInput ''reservation policy is missing.''"

definition validUntilPast :: offline_error where
  "validUntilPast = invalidInput ''validUntil must be later than the current time.''"

text \<open>The lifetime of a reservation: the policy's where there is a resolver, else the configured one or a day.\<close>

definition reservationTtl :: "service_config \<Rightarrow> scope \<Rightarrow> string \<Rightarrow> string \<Rightarrow> offline_error + int" where
  "reservationTtl c sc orgUnitId now =
     bindE (case sf_policyResolver c of
         None \<Rightarrow> Inr (Some (case sf_reservationTtlMs c of None \<Rightarrow> 86400000 | Some t \<Rightarrow> t))
       | Some f \<Rightarrow> bindE (f (sc_tenantId sc) orgUnitId ''reserve-numbering'' now) (\<lambda>p. Inr (sp_reservationTtlMs p))) (\<lambda>ttl.
     case ttl of None \<Rightarrow> Inl policyMissing | Some t \<Rightarrow> if t \<le> 0 then Inl policyMissing else Inr t)"

text \<open>\<open>new Date(Date.parse(now) + ttl).toISOString()\<close>, which throws for an instant no \<open>Date\<close> holds.\<close>

definition instantAfter :: "string \<Rightarrow> int \<Rightarrow> offline_error + string" where
  "instantAfter now ttl = (case date_parse now of
     None \<Rightarrow> Inl RangeError
   | Some t \<Rightarrow> if date_in_range (t + ttl) then Inr (toISOString (t + ttl)) else Inl RangeError)"

text \<open>A new reservation, once no earlier one answers the request.\<close>

definition reserveFresh ::
  "env \<Rightarrow> service_config \<Rightarrow> scope \<Rightarrow> reserve_input \<Rightarrow> scope option \<Rightarrow> string \<Rightarrow> reservation sync" where
  "reserveFresh E c sc input keyedScope now =
     bindS (liftE (reservationTtl c sc (rni_orgUnitId input) now)) (\<lambda>ttl.
     bindS (liftE (instantAfter now ttl)) (\<lambda>validUntil.
     bindS (liftE (throwIf (truthy (rni_validUntil input)
         \<and> nan_le (Option.bind (rni_validUntil input) date_parse) (date_parse now)) validUntilPast)) (\<lambda>_.
     bindS (case keyedScope of Some k \<Rightarrow> returnS k | None \<Rightarrow> liftE (reservationScope c sc None)) (\<lambda>scope.
       reserveNumbering E scope input now validUntil))))"

definition reserveNumbering_svc ::
  "env \<Rightarrow> service_config \<Rightarrow> scope \<Rightarrow> reserve_input \<Rightarrow> string \<Rightarrow> reservation sync" where
  "reserveNumbering_svc E c sc input now =
     bindS (liftE (checkReservation input)) (\<lambda>_.
     if rni_idempotencyKey input = None then reserveFresh E c sc input None now
     else
       bindS (liftE (reservationScope c sc None)) (\<lambda>keyedScope.
       bindS (askS (replayNumberingReservation E keyedScope input)) (\<lambda>replay. case replay of
         Some r \<Rightarrow> returnS r
       | None \<Rightarrow> reserveFresh E c sc input (Some keyedScope) now)))"

definition durableText :: "string \<Rightarrow> string \<Rightarrow> nat \<Rightarrow> offline_error + unit" where
  "durableText value field maximum = bindE (assertText value field) (\<lambda>_.
     throwIf (length value > maximum \<or> js_includes_nul value \<or> \<not> utf8_lossless value)
       (invalidInput (field @ '' is invalid.'')))"

definition validateDurableReservationInput :: "reserve_input \<Rightarrow> offline_error + unit" where
  "validateDurableReservationInput input =
     bindE (durableText (rni_orgUnitId input) ''orgUnitId'' 255) (\<lambda>_.
     bindE (durableText (rni_deviceId input) ''deviceId'' 255) (\<lambda>_.
     bindE (case rni_shiftId input of None \<Rightarrow> Inr ()
       | Some sh \<Rightarrow> bindE (durableText sh ''shiftId'' 255) (\<lambda>_.
           throwIf (reservedShift sh) (invalidInput ''shiftId uses a reserved namespace.''))) (\<lambda>_.
     bindE (durableText (rni_entityType input) ''entityType'' 100) (\<lambda>_.
     bindE (case rni_idempotencyKey input of None \<Rightarrow> Inr () | Some k \<Rightarrow> durableText k ''idempotencyKey'' 255) (\<lambda>_.
     bindE (case rni_series input of None \<Rightarrow> Inr () | Some v \<Rightarrow> durableText v ''series'' 80) (\<lambda>_.
     bindE (throwIf (case rni_rangeId input of None \<Rightarrow> False | Some i \<Rightarrow> \<not> uuid_text i)
       (invalidInput ''rangeId must be a UUID.'')) (\<lambda>_.
     throwIf (\<not> isSafeInteger (rni_requestedSize input) \<or> rni_requestedSize input < 1 \<or> rni_requestedSize input > 100)
       sizeError)))))))"

text \<open>The checks of a new durable reservation that depend on the time and on the policy.\<close>

definition durableUntil ::
  "(string \<Rightarrow> string \<Rightarrow> string \<Rightarrow> string \<Rightarrow> offline_error + service_policy) \<Rightarrow> scope \<Rightarrow> reserve_input \<Rightarrow> string
   \<Rightarrow> offline_error + string" where
  "durableUntil resolve scope input now =
     bindE (require (OfflineSyncConfigurationError ''now'') (date_parse now)) (\<lambda>at.
     bindE (resolve (sc_tenantId scope) (rni_orgUnitId input) ''reserve-numbering'' now) (\<lambda>policy.
     bindE (case sp_reservationTtlMs policy of None \<Rightarrow> Inl policyMissing
       | Some ttl \<Rightarrow> if ttl \<le> 0 \<or> \<bar>at + ttl\<bar> > 8640000000000000 then Inl policyMissing else Inr (at + ttl)) (\<lambda>until.
     bindE (throwIf (case rni_validUntil input of None \<Rightarrow> False
         | Some v \<Rightarrow> date_parse v = None \<or> nan_le (date_parse v) (Some at)) validUntilPast) (\<lambda>_.
     Inr (toISOString until)))))"

definition reserveDurableNumbering_svc ::
  "env \<Rightarrow> service_config \<Rightarrow> scope \<Rightarrow> reserve_input \<Rightarrow> string \<Rightarrow> reservation sync" where
  "reserveDurableNumbering_svc E c sc input now = (case sf_policyResolver c of
     None \<Rightarrow> throwS (OfflineSyncConfigurationError ''policyResolver'')
   | Some resolve \<Rightarrow>
       bindS (liftE (validateDurableReservationInput input)) (\<lambda>_.
       bindS (liftE (reservationScope c sc (rni_agentId input))) (\<lambda>scope.
       bindS (if rni_idempotencyKey input = None then returnS None
         else askS (replayDurableNumberingReservation E scope input)) (\<lambda>prior. case prior of
           Some r \<Rightarrow> returnS r
         | None \<Rightarrow> bindS (liftE (durableUntil resolve scope input now)) (\<lambda>until.
             reserveDurableNumbering E scope input now until)))))"

definition replayDurableNumberingReservation_svc ::
  "env \<Rightarrow> service_config \<Rightarrow> scope \<Rightarrow> reserve_input \<Rightarrow> reservation option sync" where
  "replayDurableNumberingReservation_svc E c sc input =
     bindS (liftE (throwIf (sf_policyResolver c = None) (OfflineSyncConfigurationError ''policyResolver''))) (\<lambda>_.
     bindS (liftE (validateDurableReservationInput input)) (\<lambda>_.
     bindS (liftE (reservationScope c sc None)) (\<lambda>scope.
       askS (replayDurableNumberingReservation E scope input))))"

definition cancelDurableNumberingReservation_svc :: "scope \<Rightarrow> string \<Rightarrow> string option \<Rightarrow> reservation sync" where
  "cancelDurableNumberingReservation_svc sc i reason =
     bindS (liftE (assertText i ''reservationId'')) (\<lambda>_.
     bindS (liftE (throwIf (case reason of None \<Rightarrow> False
         | Some r \<Rightarrow> length r > 500 \<or> js_includes_nul r \<or> \<not> utf8_lossless r)
       (invalidInput ''reason must be valid text of at most 500 bytes.''))) (\<lambda>_.
       cancelDurableNumberingReservation sc i))"

definition cancelNumberingReservation_svc ::
  "service_config \<Rightarrow> scope \<Rightarrow> string \<Rightarrow> string option \<Rightarrow> reservation sync" where
  "cancelNumberingReservation_svc c sc i reason =
     bindS (liftE (assertText i ''reservationId'')) (\<lambda>_.
     bindS (liftE (throwIf (case reason of None \<Rightarrow> False | Some r \<Rightarrow> length (utf16_units r) > 500)
       (invalidInput ''reason must not exceed 500 characters.''))) (\<lambda>_.
       cancelNumberingReservation (if sf_policyResolver c = None then sc else sc\<lparr>sc_ctg9 := True\<rparr>) i))"

definition listNumberingReconciliations_svc ::
  "scope \<Rightarrow> list_reconciliations_input \<Rightarrow> reconciliation_record page sync" where
  "listNumberingReconciliations_svc sc input =
     bindS (liftE (assertText (lci_reservationId input) ''reservationId'')) (\<lambda>_.
     bindS (liftE (pageLimit (lci_limit input) (lci_cursor input))) (\<lambda>n.
       askS (listNumberingReconciliations sc (input\<lparr>lci_limit := Some n\<rparr>))))"

definition getNumberingConsumption_svc :: "string \<Rightarrow> scope \<Rightarrow> string \<Rightarrow> string \<Rightarrow> consumption_result sync" where
  "getNumberingConsumption_svc wall sc i now =
     bindS (liftE (consumptionReadInstant wall (Some now))) (\<lambda>_. askS (getNumberingConsumption wall sc i (Some now)))"

subsection \<open>Receipts and listings\<close>

definition getSyncBatchReceipt_svc :: "scope \<Rightarrow> string \<Rightarrow> string \<Rightarrow> batch_receipt sync" where
  "getSyncBatchReceipt_svc sc deviceId deviceBatchId = askS (\<lambda>s.
     require (syncError OFFLINE_SYNC_BATCH_CONFLICT 404 ''Batch receipt was not found.'')
       (getSyncBatchReceipt sc deviceId deviceBatchId s))"

definition getSyncIntegrityRejection_svc :: "scope \<Rightarrow> string \<Rightarrow> string \<Rightarrow> string \<Rightarrow> integrity_rejection sync" where
  "getSyncIntegrityRejection_svc sc deviceId deviceBatchId queueItemId =
     bindS (liftE (assertFilters [(''deviceId'', Some deviceId), (''deviceBatchId'', Some deviceBatchId),
       (''queueItemId'', Some queueItemId)])) (\<lambda>_. askS (\<lambda>s.
     require (syncError OFFLINE_SYNC_INTEGRITY_REJECTION_NOT_FOUND 404 ''Integrity rejection was not found.'')
       (getSyncIntegrityRejection sc deviceId deviceBatchId queueItemId s)))"

definition getSyncItemReceipt_svc :: "scope \<Rightarrow> string \<Rightarrow> item_receipt sync" where
  "getSyncItemReceipt_svc sc idempotencyKey = askS (\<lambda>s.
     require (syncError OFFLINE_SYNC_QUEUE_ITEM_NOT_FOUND 404 ''Item receipt was not found.'')
       (getSyncItemReceipt sc idempotencyKey s))"

definition listSyncBatchReceipts_svc :: "scope \<Rightarrow> list_batches_input \<Rightarrow> batch_summary page sync" where
  "listSyncBatchReceipts_svc sc input =
     bindS (liftE (assertFilters [(''deviceId'', lb_deviceId input)])) (\<lambda>_.
     bindS (liftE (pageS input)) (\<lambda>request. askS (listSyncBatchReceipts sc request)))"

definition listSyncItemReceipts_svc :: "scope \<Rightarrow> list_receipts_input \<Rightarrow> receipt_record page sync" where
  "listSyncItemReceipts_svc sc input =
     bindS (liftE (assertFilters [(''deviceId'', lr_deviceId input), (''deviceBatchId'', lr_deviceBatchId input)])) (\<lambda>_.
     bindS (liftE (pageS input)) (\<lambda>request. askS (listSyncItemReceipts sc request)))"

definition listSyncQueueItems_svc :: "scope \<Rightarrow> list_queue_input \<Rightarrow> queue_record page sync" where
  "listSyncQueueItems_svc sc input =
     bindS (liftE (assertFilters [(''deviceId'', lq_deviceId input), (''entityType'', lq_entityType input)])) (\<lambda>_.
     bindS (liftE (pageS input)) (\<lambda>request. askS (listSyncQueueItems sc request)))"

definition listSyncConflicts_svc :: "scope \<Rightarrow> list_conflicts_input \<Rightarrow> conflict_record page sync" where
  "listSyncConflicts_svc sc input =
     bindS (liftE (assertFilters [(''deviceId'', lf_deviceId input), (''conflictType'', lf_conflictType input),
       (''queueItemId'', lf_queueItemId input)])) (\<lambda>_.
     bindS (liftE (pageS input)) (\<lambda>request. askS (listSyncConflicts sc request)))"

definition listSyncConflictActions_svc :: "scope \<Rightarrow> list_actions_input \<Rightarrow> conflict_action page sync" where
  "listSyncConflictActions_svc sc input =
     bindS (liftE (assertText (lc_conflictId input) ''conflictId'')) (\<lambda>_.
     bindS (liftE (pageS input)) (\<lambda>request. askS (listSyncConflictActions sc request)))"

subsection \<open>Batches\<close>

definition checkHash :: "bool \<Rightarrow> batch_item \<Rightarrow> offline_error + unit" where
  "checkHash ctg9 item = (if ctg9
     then throwIf (bi_payloadHash item = [] \<or> length (bi_payloadHash item) > 255)
       (invalidInput ''payloadHash must be a string of 1 to 255 bytes.'')
     else throwIf (\<not> canonicalPayloadHash (bi_payloadHash item))
       (invalidInput ''payloadHash must be a canonical sha256-prefixed hexadecimal digest.''))"

definition checkIdentifiers :: "bool \<Rightarrow> batch_item \<Rightarrow> offline_error + unit" where
  "checkIdentifiers ctg9 item =
     bindE (assertText (bi_queueItemId item) ''queueItemId'') (\<lambda>_.
     bindE (assertEntityType (bi_entityType item)) (\<lambda>_.
     bindE (assertText (bi_localEntityId item) ''localEntityId'') (\<lambda>_.
     bindE (case bi_idempotencyKey item of
         None \<Rightarrow> throwIf (\<not> ctg9) (invalidInput ''idempotencyKey is required.'')
       | Some k \<Rightarrow> assertText k ''idempotencyKey'') (\<lambda>_.
     bindE (throwIf (case bi_idempotencyKey item of None \<Rightarrow> False | Some k \<Rightarrow> startsWith k ''stynx:legacy:'')
       (invalidInput ''idempotencyKey uses a reserved namespace.'')) (\<lambda>_.
     bindE (throwIf (ctg9 \<and> (case bi_reservationId item of None \<Rightarrow> False | Some i \<Rightarrow> \<not> uuid_text i))
       (invalidInput ''reservationId must be a UUID.'')) (\<lambda>_.
     throwIf (ctg9 \<and> (case bi_reservedNumber item of None \<Rightarrow> False | Some n \<Rightarrow> \<not> isSafeInteger n))
       (invalidInput ''reservedNumber must be a safe integer.'')))))))"

definition checkItem :: "bool \<Rightarrow> batch_item \<Rightarrow> offline_error + unit" where
  "checkItem ctg9 item =
     bindE (checkIdentifiers ctg9 item) (\<lambda>_.
     bindE (checkHash ctg9 item) (\<lambda>_.
     bindE (throwIf (date_parse (bi_createdLocallyAt item) = None)
       (invalidInput ''createdLocallyAt must be an ISO-8601 timestamp.'')) (\<lambda>_.
     throwIf (\<not> isObject (bi_payloadJson item)) (invalidInput ''payloadJson must be an object.''))))"

fun checkItems :: "bool \<Rightarrow> batch_item list \<Rightarrow> string list \<Rightarrow> string list \<Rightarrow> offline_error + unit" where
  "checkItems ctg9 [] queueIds itemKeys = Inr ()"
| "checkItems ctg9 (item # rest) queueIds itemKeys =
     bindE (checkItem ctg9 item) (\<lambda>_.
     bindE (throwIf (bi_queueItemId item \<in> set queueIds)
       (invalidInput (''queueItemId '' @ bi_queueItemId item @ '' appears more than once in the batch.''))) (\<lambda>_.
     if ctg9 \<and> keyed item
     then bindE (throwIf (the (bi_idempotencyKey item) \<in> set itemKeys)
         (invalidInput (''idempotencyKey '' @ the (bi_idempotencyKey item) @ '' appears more than once in the batch.''))) (\<lambda>_.
       checkItems ctg9 rest (bi_queueItemId item # queueIds) (the (bi_idempotencyKey item) # itemKeys))
     else checkItems ctg9 rest (bi_queueItemId item # queueIds) itemKeys))"

definition checkSize :: "int option \<Rightarrow> batch_item list \<Rightarrow> offline_error + unit" where
  "checkSize maximum items =
     throwIf (items = [] \<or> (case maximum of None \<Rightarrow> False | Some m \<Rightarrow> int (length items) > m))
       (invalidInput (case maximum of None \<Rightarrow> ''items must contain at least 1 queue item.''
         | Some m \<Rightarrow> ''items must contain between 1 and '' @ dec_int m @ '' queue items.''))"

text \<open>The transport of a batch that does not come through HTTP.\<close>

definition serviceTransport :: "service_config \<Rightarrow> batch_input \<Rightarrow> batch_options" where
  "serviceTransport c input = \<lparr>op_transportIdempotencyKey = ''service:'' @ ba_deviceId input @ '':'' @ ba_deviceBatchId input,
     op_method = ''POST'', op_path = ''/offline-sync/sync-batches'', op_transportUserId = None, op_requestBody = None,
     op_responseHeaders = [], op_agentId = None,
     op_policy = \<lparr>po_concurrencyWindowMinutes = None, po_concurrencyApplication = None\<rparr>, op_ports = sf_ports c\<rparr>"

definition execution :: "service_config \<Rightarrow> batch_options \<Rightarrow> string \<Rightarrow> service_policy \<Rightarrow> batch_options" where
  "execution c transport agentId policy = transport\<lparr>op_agentId := Some agentId,
     op_policy := sync_policy.truncate policy, op_ports := (sf_ports c)\<lparr>pt_hasPolicyResolver := True\<rparr>\<rparr>"

definition checkBatch :: "service_config \<Rightarrow> scope \<Rightarrow> batch_input \<Rightarrow> string \<Rightarrow> offline_error + service_policy option" where
  "checkBatch c sc input now =
     bindE (assertText (ba_orgUnitId input) ''orgUnitId'') (\<lambda>_.
     bindE (assertText (ba_deviceId input) ''deviceId'') (\<lambda>_.
     bindE (assertText (ba_deviceBatchId input) ''deviceBatchId'') (\<lambda>_.
     bindE (case sf_policyResolver c of None \<Rightarrow> Inr None
       | Some f \<Rightarrow> bindE (f (sc_tenantId sc) (ba_orgUnitId input) ''submit-sync-batch'' now) (\<lambda>p. Inr (Some p))) (\<lambda>policy.
     bindE (checkSize (case policy of None \<Rightarrow> Some 100 | Some p \<Rightarrow> sp_maxBatchItems p) (ba_items input)) (\<lambda>_.
     bindE (checkItems (policy \<noteq> None) (ba_items input) [] []) (\<lambda>_. Inr policy))))))"

definition submitSyncBatch_svc ::
  "env \<Rightarrow> service_config \<Rightarrow> scope \<Rightarrow> batch_input \<Rightarrow> batch_options option \<Rightarrow> string \<Rightarrow> batch_result sync" where
  "submitSyncBatch_svc E c sc input options now =
     bindS (liftE (checkBatch c sc input now)) (\<lambda>policy.
     bindS (liftE (throwIf (pt_classifier (sf_ports c) \<noteq> None \<and> policy = None)
       (OfflineSyncConfigurationError ''domainOutcomeClassifier''))) (\<lambda>_. case policy of
       None \<Rightarrow> submitSyncBatch sc input now
     | Some p \<Rightarrow>
         bindS (liftE (throwIf (pt_itemApplier (sf_ports c) = None
             \<and> list_ex (\<lambda>item. keyed item \<and> bi_reservedNumber item \<noteq> None) (ba_items input))
           (OfflineSyncConfigurationError ''itemApplier''))) (\<lambda>_.
         bindS (liftE (businessAgent c sc ''submit-sync-batch'' (ba_agentId input))) (\<lambda>agentId.
           submitDurableSyncBatch E sc input
             (execution c (case options of None \<Rightarrow> serviceTransport c input | Some o' \<Rightarrow> o') agentId p) now))))"

subsection \<open>Conflicts\<close>

definition openConflict_svc :: "env \<Rightarrow> scope \<Rightarrow> string \<Rightarrow> string \<Rightarrow> string \<Rightarrow> string \<Rightarrow> sync_conflict sync" where
  "openConflict_svc E sc queueItemId conflictType description now =
     bindS (liftE (assertFilters [(''queueItemId'', Some queueItemId), (''conflictType'', Some conflictType),
       (''description'', Some description)])) (\<lambda>_. openConflict E sc queueItemId conflictType description now)"

definition resolveConflict_svc ::
  "env \<Rightarrow> service_config \<Rightarrow> scope \<Rightarrow> string \<Rightarrow> resolve_input \<Rightarrow> string \<Rightarrow> sync_conflict sync" where
  "resolveConflict_svc E c sc conflictId input now =
     bindS (liftE (assertText conflictId ''conflictId'')) (\<lambda>_.
     case sf_conflictResolver c of
       None \<Rightarrow> bindS (liftE (throwIf (ri_resolution input \<notin> {''device-wins'', ''server-wins'', ''manual-review''})
           (invalidInput ''resolution must be device-wins, server-wins or manual-review.''))) (\<lambda>_.
         resolveConflict sc conflictId input now)
     | Some port \<Rightarrow> resolveWithPort E sc conflictId input now port (sf_resolutionEventPort c))"

end
