(* ===== verification/Offline_Service_Props.thy ===== *)
theory Offline_Service_Props
  imports Offline_Service Sync_Demo
begin

text \<open>
  The service over the store. Every operation of the service is at most one operation of the store, on a request that
  meets the preconditions of the store's runs; so what holds in every run of the store holds in every run of the
  service. A batch that is not well formed is refused before the store is reached.
\<close>

subsection \<open>Checks that throw\<close>

text \<open>A check before an operation: it throws and leaves the state, or the operation runs.\<close>

lemma checked_step:
  assumes "bindS (liftE r) f s = (y, t)"
  obtains e where "r = Inl e" "t = s" | x where "r = Inr x" "f x s = (y, t)"
  using assms by (cases r) (auto simp: bindS_def liftE_def)

lemma asked_step:
  assumes "bindS (askS g) f s = (y, t)"
  obtains e where "g s = Inl e" "t = s" | x where "g s = Inr x" "f x s = (y, t)"
  using assms by (cases "g s") (auto simp: bindS_def askS_def)

subsection \<open>The service as a step relation\<close>

inductive service_step :: "env \<Rightarrow> service_config \<Rightarrow> offline_store \<Rightarrow> offline_store \<Rightarrow> bool" for E c where
  svc_createRange: "createNumberingRange_svc E sc cin now s = (r1, t) \<Longrightarrow> tenant_ok (sc_tenantId sc) \<Longrightarrow> service_step E c s t"
| svc_cancelRange: "cancelNumberingRange_svc sc i reason now s = (r1, t) \<Longrightarrow> tenant_ok (sc_tenantId sc) \<Longrightarrow> service_step E c s t"
| svc_reserve: "reserveNumbering_svc E c sc rin now s = (r2, t) \<Longrightarrow> tenant_ok (sc_tenantId sc) \<Longrightarrow> service_step E c s t"
| svc_reserveDurable: "reserveDurableNumbering_svc E c sc rin now s = (r2, t) \<Longrightarrow> tenant_ok (sc_tenantId sc) \<Longrightarrow> service_step E c s t"
| svc_cancel: "cancelNumberingReservation_svc c sc i reason s = (r2, t) \<Longrightarrow> tenant_ok (sc_tenantId sc) \<Longrightarrow> service_step E c s t"
| svc_cancelDurable: "cancelDurableNumberingReservation_svc sc i reason s = (r2, t) \<Longrightarrow> tenant_ok (sc_tenantId sc) \<Longrightarrow> service_step E c s t"
| svc_block: "blockNumberingReservation sc i now s = (r2, t) \<Longrightarrow> tenant_ok (sc_tenantId sc) \<Longrightarrow> service_step E c s t"
| svc_close: "closeNumberingReservation sc i now s = (r2, t) \<Longrightarrow> tenant_ok (sc_tenantId sc) \<Longrightarrow> service_step E c s t"
| svc_settle: "settleNumberingReservation sc i now s = (r2, t) \<Longrightarrow> tenant_ok (sc_tenantId sc) \<Longrightarrow> service_step E c s t"
| svc_reconcile: "reconcileNumberingReservation E sc i kin now s = (r3, t) \<Longrightarrow> tenant_ok (sc_tenantId sc) \<Longrightarrow> service_step E c s t"
| svc_submit: "submitSyncBatch_svc E c sc bin opts now s = (r4, t) \<Longrightarrow> tenant_ok (sc_tenantId sc) \<Longrightarrow> service_step E c s t"
| svc_openConflict: "openConflict_svc E sc i kind desc now s = (r5, t) \<Longrightarrow> tenant_ok (sc_tenantId sc) \<Longrightarrow> service_step E c s t"
| svc_resolveConflict: "resolveConflict_svc E c sc i vin now s = (r5, t) \<Longrightarrow> tenant_ok (sc_tenantId sc) \<Longrightarrow> service_step E c s t"

subsection \<open>One operation of the store at most\<close>

lemma reserve_store:
  assumes "reserveNumbering E sc input now dv s = (r, t)" "tenant_ok (sc_tenantId sc)" "1 \<le> rni_requestedSize input"
  shows "t = s \<or> numbering_step E s t"
  using assms unfolding reserveNumbering_def
  by (auto split: sum.splits intro: numbering_step.reserve)

lemma reserveDurable_store:
  assumes "reserveDurableNumbering E sc input now dv s = (r, t)" "tenant_ok (sc_tenantId sc)" "1 \<le> rni_requestedSize input"
  shows "t = s \<or> numbering_step E s t"
  using assms unfolding reserveDurableNumbering_def
  by (auto split: sum.splits intro: numbering_step.reserve)

lemma reservationScope_tenant: "reservationScope c sc a = Inr sc' \<Longrightarrow> sc_tenantId sc' = sc_tenantId sc"
  by (auto simp: reservationScope_def split: if_splits)

lemma reserveFresh_store:
  assumes "reserveFresh E c sc input ks now s = (r, t)" "tenant_ok (sc_tenantId sc)" "1 \<le> rni_requestedSize input"
    "\<And>k. ks = Some k \<Longrightarrow> sc_tenantId k = sc_tenantId sc"
  shows "t = s \<or> numbering_step E s t"
  using assms(1) unfolding reserveFresh_def
proof (elim checked_step)
  fix ttl validUntil u
  assume last: "bindS (case ks of None \<Rightarrow> liftE (reservationScope c sc None) | Some k \<Rightarrow> returnS k)
      (\<lambda>scope. reserveNumbering E scope input now validUntil) s = (r, t)"
  show ?thesis
  proof (cases ks)
    case None
    from last [unfolded None option.case] show ?thesis
    proof (cases rule: checked_step)
      case (2 sc')
      then show ?thesis
        using reserve_store assms(2,3) reservationScope_tenant by metis
    qed simp
  next
    case (Some k)
    then have "reserveNumbering E k input now validUntil s = (r, t)"
      using last by (simp add: bindS_def returnS_def)
    then show ?thesis
      using reserve_store assms(2,3) assms(4) [OF Some] by metis
  qed
qed simp_all

lemma checkReservation_size: "checkReservation input = Inr u \<Longrightarrow> 1 \<le> rni_requestedSize input"
  by (auto simp: checkReservation_def)

lemma validateDurable_size: "validateDurableReservationInput input = Inr u \<Longrightarrow> 1 \<le> rni_requestedSize input"
  by (auto simp: validateDurableReservationInput_def)

lemma reserve_svc_store:
  assumes "reserveNumbering_svc E c sc input now s = (r, t)" "tenant_ok (sc_tenantId sc)"
  shows "t = s \<or> numbering_step E s t"
  using assms(1) unfolding reserveNumbering_svc_def
proof (cases rule: checked_step)
  case (2 u)
  note size = checkReservation_size [OF 2(1)]
  show ?thesis
  proof (cases "rni_idempotencyKey input = None")
    case True
    then show ?thesis
      using 2(2) reserveFresh_store [OF _ assms(2) size, of E c None now s r t] by simp
  next
    case False
    with 2(2) have "bindS (liftE (reservationScope c sc None)) (\<lambda>k.
        bindS (askS (replayNumberingReservation E k input)) (\<lambda>replay. case replay of
          None \<Rightarrow> reserveFresh E c sc input (Some k) now | Some r \<Rightarrow> returnS r)) s = (r, t)"
      by simp
    then show ?thesis
    proof (cases rule: checked_step)
      case k: (2 k)
      from k(2) show ?thesis
      proof (cases rule: asked_step)
        case (2 replay)
        then show ?thesis
          using reserveFresh_store [OF _ assms(2) size, of E c "Some k" now s r t] reservationScope_tenant [OF k(1)]
          by (cases replay) (auto simp: returnS_def)
      qed simp
    qed simp
  qed
qed simp


lemma reserveDurable_svc_store:
  assumes "reserveDurableNumbering_svc E c sc input now s = (r, t)" "tenant_ok (sc_tenantId sc)"
  shows "t = s \<or> numbering_step E s t"
proof (cases "sf_policyResolver c")
  case None
  then show ?thesis
    using assms(1) by (simp add: reserveDurableNumbering_svc_def throwS_def)
next
  case (Some f)
  from assms(1) [unfolded reserveDurableNumbering_svc_def Some option.case] show ?thesis
  proof (cases rule: checked_step)
    case (2 u)
    note size = validateDurable_size [OF 2(1)]
    from 2(2) show ?thesis
    proof (cases rule: checked_step)
      case k: (2 k)
      have fresh: "t = s \<or> numbering_step E s t"
        if "bindS (liftE (durableUntil f k input now)) (reserveDurableNumbering E k input now) s = (r, t)"
        using that
      proof (cases rule: checked_step)
        case (2 until)
        then show ?thesis
          using reserveDurable_store [OF _ _ size] reservationScope_tenant [OF k(1)] assms(2) by metis
      qed simp
      show ?thesis
      proof (cases "rni_idempotencyKey input = None")
        case True
        then show ?thesis
          using k(2) fresh by (simp add: bindS_def [of "returnS None"] returnS_def)
      next
        case False
        with k(2) have "bindS (askS (replayDurableNumberingReservation E k input)) (\<lambda>prior. case prior of
            None \<Rightarrow> bindS (liftE (durableUntil f k input now)) (reserveDurableNumbering E k input now)
          | Some r \<Rightarrow> returnS r) s = (r, t)"
          by simp
        then show ?thesis
        proof (cases rule: asked_step)
          case (2 prior)
          then show ?thesis
            using fresh by (cases prior) (auto simp: returnS_def)
        qed simp
      qed
    qed simp
  qed simp
qed

lemma submit_svc_store:
  assumes "submitSyncBatch_svc E c sc input options now s = (r, t)" "tenant_ok (sc_tenantId sc)"
  shows "t = s \<or> sync_step E s t"
  using assms(1) unfolding submitSyncBatch_svc_def
proof (cases rule: checked_step)
  case (2 policy)
  from 2(2) show ?thesis
  proof (cases rule: checked_step)
    case inner: (2 u)
    show ?thesis
    proof (cases policy)
      case None
      then have "submitSyncBatch sc input now s = (r, t)"
        using inner(2) by simp
      then show ?thesis
        using sync_step.e6_batch assms(2) by blast
    next
      case (Some p)
      from inner(2) [unfolded Some option.case] show ?thesis
      proof (cases rule: checked_step)
        case (2 v)
        from 2(2) show ?thesis
        proof (cases rule: checked_step)
          case (2 agentId)
          then show ?thesis
            using assms(2) sync_step.durable_batch by blast
        qed simp
      qed simp
    qed
  qed simp
qed simp

lemma resolve_svc_store:
  assumes "resolveConflict_svc E c sc i input now s = (r, t)" "tenant_ok (sc_tenantId sc)"
  shows "t = s \<or> sync_step E s t"
  using assms(1) unfolding resolveConflict_svc_def
proof (cases rule: checked_step)
  case (2 u)
  show ?thesis
  proof (cases "sf_conflictResolver c")
    case None
    from 2(2) [unfolded None option.case] show ?thesis
    proof (cases rule: checked_step)
      case (2 v)
      then show ?thesis
        using assms(2) sync_step.resolve by metis
    qed simp
  next
    case (Some port)
    then have "resolveWithPort E sc i input now port (sf_resolutionEventPort c) s = (r, t)"
      using 2(2) by simp
    then show ?thesis
      using sync_step.resolve_with_port assms(2) by blast
  qed
qed simp

lemma cancel_svc_store:
  assumes "cancelNumberingReservation_svc c sc i reason s = (r, t)" "tenant_ok (sc_tenantId sc)"
  shows "t = s \<or> numbering_step E s t"
proof -
  obtain sc' where sc': "sc' = (if sf_policyResolver c = None then sc else sc\<lparr>sc_ctg9 := True\<rparr>)"
    by blast
  have ok: "tenant_ok (sc_tenantId sc')"
    using assms(2) sc' by simp
  from assms(1) [unfolded cancelNumberingReservation_svc_def, folded sc'] show ?thesis
  proof (cases rule: checked_step)
    case (2 u)
    from 2(2) show ?thesis
    proof (cases rule: checked_step)
      case (2 v)
      then show ?thesis
        using ok by (auto simp: cancelNumberingReservation_def split: prod.splits intro: numbering_step.cancel)
    qed simp
  qed simp
qed

lemma cancelDurable_svc_store:
  assumes "cancelDurableNumberingReservation_svc sc i reason s = (r, t)" "tenant_ok (sc_tenantId sc)"
  shows "t = s \<or> numbering_step E s t"
  using assms(1) unfolding cancelDurableNumberingReservation_svc_def
proof (cases rule: checked_step)
  case (2 u)
  from 2(2) show ?thesis
  proof (cases rule: checked_step)
    case (2 v)
    then show ?thesis
      using assms(2) numbering_step.cancel by (metis cancelDurableNumberingReservation_def)
  qed simp
qed simp

lemma createRange_svc_store:
  assumes "createNumberingRange_svc E sc input now s = (r, t)" "tenant_ok (sc_tenantId sc)"
  shows "t = s \<or> numbering_step E s t"
  using assms(1) unfolding createNumberingRange_svc_def
proof (cases rule: checked_step)
  case (2 x)
  then show ?thesis
    using assms(2) by (auto simp: numberS_def split: prod.splits sum.splits intro: numbering_step.create)
qed simp

lemma cancelRange_svc_store:
  assumes "cancelNumberingRange_svc sc i reason now s = (r, t)" "tenant_ok (sc_tenantId sc)"
  shows "t = s \<or> numbering_step E s t"
  using assms(1) unfolding cancelNumberingRange_svc_def
proof (cases rule: checked_step)
  case (2 k)
  from 2(2) show ?thesis
  proof (cases rule: checked_step)
    case (2 request)
    then show ?thesis
      using assms(2) by (auto simp: numberS_def split: sum.splits intro: numbering_step.cancel_range)
  qed simp
qed simp

lemma openConflict_svc_store:
  assumes "openConflict_svc E sc i kind desc now s = (r, t)" "tenant_ok (sc_tenantId sc)"
  shows "t = s \<or> sync_step E s t"
  using assms(1) unfolding openConflict_svc_def
proof (cases rule: checked_step)
  case (2 u)
  then show ?thesis
    using assms(2) sync_step.open_conflict by metis
qed simp

lemma service_step_store:
  assumes "service_step E c s t"
  shows "t = s \<or> sync_step E s t"
  using assms
proof cases
  case (svc_block sc i now r2)
  then show ?thesis
    using numbering_step.transition [of sc i Blocked now s r2 t] sync_step.number
    by (auto simp: blockNumberingReservation_def)
next
  case (svc_close sc i now r2)
  then show ?thesis
    using numbering_step.transition [of sc i Consumed now s r2 t] sync_step.number
    by (auto simp: closeNumberingReservation_def)
next
  case (svc_settle sc i now r2)
  then show ?thesis
    using numbering_step.transition [of sc i Consumed now s r2 t] sync_step.number
    by (auto simp: settleNumberingReservation_def)
next
  case (svc_reconcile sc i kin now r3)
  then show ?thesis
    using numbering_step.reconcile sync_step.number by blast
next
  case (svc_submit sc bin opts now r4)
  then show ?thesis by (rule submit_svc_store)
next
  case (svc_openConflict sc i kind desc now r5)
  then show ?thesis by (rule openConflict_svc_store)
next
  case (svc_resolveConflict sc i vin now r5)
  then show ?thesis by (rule resolve_svc_store)
next
  case (svc_createRange sc cin now r1)
  then show ?thesis using createRange_svc_store sync_step.number by blast
next
  case (svc_cancelRange sc i reason now r1)
  then show ?thesis using cancelRange_svc_store sync_step.number by blast
next
  case (svc_reserve sc rin now r2)
  then show ?thesis using reserve_svc_store sync_step.number by blast
next
  case (svc_reserveDurable sc rin now r2)
  then show ?thesis using reserveDurable_svc_store sync_step.number by blast
next
  case (svc_cancel sc i reason r2)
  then show ?thesis using cancel_svc_store sync_step.number by blast
next
  case (svc_cancelDurable sc i reason r2)
  then show ?thesis using cancelDurable_svc_store sync_step.number by blast
qed


text \<open>C9. The service refines the store. Every run of operations of the service is a run of operations of the store,
  with requests that meet its preconditions; so what holds of all runs of the store holds behind the service.\<close>

theorem service_refines_store:
  assumes "(service_step E c)\<^sup>*\<^sup>* s t"
  shows "(sync_step E)\<^sup>*\<^sup>* s t"
  using assms
proof (induction rule: rtranclp_induct)
  case (step t u)
  then show ?case
    using service_step_store by (metis rtranclp.rtrancl_into_rtrancl)
qed simp

subsection \<open>Batches\<close>

lemma checkItems_distinct:
  assumes "checkItems ctg9 items queueIds itemKeys = Inr u"
  shows "distinct (map bi_queueItemId items) \<and> bi_queueItemId ` set items \<inter> set queueIds = {}"
  using assms
proof (induction items arbitrary: queueIds itemKeys)
  case (Cons item rest)
  then have new: "bi_queueItemId item \<notin> set queueIds"
    by (auto simp: split: if_splits)
  obtain ks where "checkItems ctg9 rest (bi_queueItemId item # queueIds) ks = Inr u"
    using Cons.prems by (auto simp: split: if_splits)
  from Cons.IH [OF this] new show ?case
    by auto
qed simp

lemma checkBatch_distinct: "checkBatch c sc input now = Inr p \<Longrightarrow> distinct (map bi_queueItemId (ba_items input))"
  using checkItems_distinct by (fastforce simp: checkBatch_def)

lemma itemKeysOf_own:
  assumes "itemKeysOf E sc input opts items declared keys0 = Inr keys" "distinct (map bi_queueItemId items)"
  obtains ks where "map (itemKeyOf E sc input opts) items = map Inr ks" "distinct ks" "set ks \<inter> set declared = {}"
    "\<And>n. n < length items \<Longrightarrow> jget keys (bi_queueItemId (items ! n)) = Some (ks ! n)"
    "\<And>i. i \<notin> bi_queueItemId ` set items \<Longrightarrow> jget keys i = jget keys0 i"
  using assms
proof (induction items arbitrary: declared keys0 thesis)
  case Nil
  then show ?case by simp
next
  case (Cons item rest)
  obtain k where k: "itemKeyOf E sc input opts item = Inr k" "k \<notin> set declared"
    "itemKeysOf E sc input opts rest (k # declared) (jset (bi_queueItemId item) k keys0) = Inr keys"
    using Cons.prems(2) by (auto simp:)
  have "distinct (map bi_queueItemId rest)"
    using Cons.prems(3) by simp
  from Cons.IH [OF _ k(3) this] obtain ks where ks: "map (itemKeyOf E sc input opts) rest = map Inr ks" "distinct ks"
    "set ks \<inter> set (k # declared) = {}" "\<And>n. n < length rest \<Longrightarrow> jget keys (bi_queueItemId (rest ! n)) = Some (ks ! n)"
    "\<And>i. i \<notin> bi_queueItemId ` set rest \<Longrightarrow> jget keys i = jget (jset (bi_queueItemId item) k keys0) i"
    by blast
  show ?case
  proof (rule Cons.prems(1) [of "k # ks"])
    fix n assume "n < length (item # rest)"
    then show "jget keys (bi_queueItemId ((item # rest) ! n)) = Some ((k # ks) ! n)"
      using ks(4) ks(5) [of "bi_queueItemId item"] Cons.prems(3) by (cases n) auto
  qed (use k ks in auto)
qed

text \<open>C13. Every item of a batch that the service accepts is processed under its own key. When the service's checks have
  passed and the store has computed the keys of the items, the key kept under the item's queue identifier is the item's
  own, and no other item of the batch has it.\<close>

theorem accepted_items_have_own_keys:
  assumes "checkBatch c sc input now = Inr p" "itemKeysOf E sc input opts (ba_items input) [] [] = Inr keys"
    "item \<in> set (ba_items input)"
  shows "\<exists>k. itemKeyOf E sc input opts item = Inr k \<and> jget keys (bi_queueItemId item) = Some k
    \<and> (\<forall>other \<in> set (ba_items input). itemKeyOf E sc input opts other = Inr k \<longrightarrow> other = item)"
proof -
  let ?items = "ba_items input"
  obtain ks where ks: "map (itemKeyOf E sc input opts) ?items = map Inr ks" "distinct ks"
    "\<And>n. n < length ?items \<Longrightarrow> jget keys (bi_queueItemId (?items ! n)) = Some (ks ! n)"
    by (rule itemKeysOf_own [OF assms(2) checkBatch_distinct [OF assms(1)]]) blast
  have length: "length ks = length ?items"
    using arg_cong [OF ks(1), of length] by simp
  have nth: "itemKeyOf E sc input opts (?items ! m) = Inr (ks ! m)" if "m < length ?items" for m
    using arg_cong [OF ks(1), of "\<lambda>xs. xs ! m"] that length by simp
  obtain n where n: "n < length ?items" "?items ! n = item"
    using assms(3) by (auto simp: in_set_conv_nth)
  have "other = item" if other: "other \<in> set ?items" "itemKeyOf E sc input opts other = Inr (ks ! n)" for other
  proof -
    obtain m where m: "m < length ?items" "?items ! m = other"
      using other(1) by (auto simp: in_set_conv_nth)
    then have "ks ! m = ks ! n"
      using nth [OF m(1)] other(2) by simp
    then have "m = n"
      using ks(2) m(1) n(1) length by (simp add: nth_eq_iff_index_eq)
    with m n show ?thesis by simp
  qed
  then show ?thesis
    using nth [OF n(1)] ks(3) [OF n(1)] n(2) by auto
qed


definition demo_policy :: service_policy where
  "demo_policy = \<lparr>po_concurrencyWindowMinutes = None, po_concurrencyApplication = None,
     sp_reservationTtlMs = Some 3600000, sp_maxBatchItems = Some 10\<rparr>"

definition demo_config :: service_config where
  "demo_config = \<lparr>sf_policyResolver = Some (\<lambda>t u op at. Inr demo_policy), sf_agentResolver = None,
     sf_reservationTtlMs = None, sf_ports = demo_ports, sf_conflictResolver = None, sf_resolutionEventPort = None\<rparr>"

definition demo_payload :: json where
  "demo_payload = JObj [(''a'', JNum 1)]"

definition demo_accepted :: batch_input where
  "demo_accepted = demo_input ''b9'' (Some 1)
     [(demo_item ''q1'' ''K1'' 7 None)\<lparr>bi_payloadJson := demo_payload\<rparr>,
      (demo_item ''q2'' ''K2'' 8 None)\<lparr>bi_payloadJson := demo_payload\<rparr>]"

theorem service_refines_store_witness:
  "(sync_step sync_env)\<^sup>*\<^sup>* demo_e6
     (snd (openConflict_svc sync_env demo_scope ''q1'' ''domain'' ''two versions'' demo_now demo_e6))
   \<and> \<not> isl (fst (openConflict_svc sync_env demo_scope ''q1'' ''domain'' ''two versions'' demo_now demo_e6))"
proof
  have "service_step sync_env demo_config demo_e6
      (snd (openConflict_svc sync_env demo_scope ''q1'' ''domain'' ''two versions'' demo_now demo_e6))"
    by (rule svc_openConflict [OF prod.collapse [symmetric]]) code_simp
  then show "(sync_step sync_env)\<^sup>*\<^sup>* demo_e6
      (snd (openConflict_svc sync_env demo_scope ''q1'' ''domain'' ''two versions'' demo_now demo_e6))"
    by (intro service_refines_store [of sync_env demo_config]) (rule r_into_rtranclp)
  show "\<not> isl (fst (openConflict_svc sync_env demo_scope ''q1'' ''domain'' ''two versions'' demo_now demo_e6))"
    by code_simp
qed

theorem accepted_items_have_own_keys_witness:
  "\<exists>k. itemKeyOf sync_env demo_scope demo_accepted (demo_options ''h1'') (hd (ba_items demo_accepted)) = Inr k
    \<and> k \<noteq> ''K2''"
proof -
  have check: "isl (checkBatch demo_config demo_scope demo_accepted demo_now) = False"
    by code_simp
  then obtain p where p: "checkBatch demo_config demo_scope demo_accepted demo_now = Inr p"
    by (cases "checkBatch demo_config demo_scope demo_accepted demo_now") auto
  have keys: "itemKeysOf sync_env demo_scope demo_accepted (demo_options ''h1'') (ba_items demo_accepted) [] []
      = Inr [(''q1'', ''K1''), (''q2'', ''K2'')]"
    by code_simp
  have "hd (ba_items demo_accepted) \<in> set (ba_items demo_accepted)"
    by code_simp
  from accepted_items_have_own_keys [OF p keys this] show ?thesis
    by (force simp: demo_accepted_def demo_input_def demo_item_def)
qed


subsection \<open>A reservation for another agent\<close>

text \<open>
  The lookup of a durable reservation does not pass on the agent of the request. After a reservation for the agent
  \<open>other\<close>, the same request is answered when it is repeated as a reservation, but refused when it is looked up.
\<close>

definition demo_agents :: service_config where
  "demo_agents = demo_config\<lparr>sf_agentResolver := Some (\<lambda>sc operation candidate.
     Inr (case candidate of None \<Rightarrow> sc_actorId sc | Some a \<Rightarrow> a))\<rparr>"

definition demo_for_agent :: reserve_input where
  "demo_for_agent = (demo_reserve ''A'')\<lparr>rni_agentId := Some ''other''\<rparr>"

definition demo_agent_scope :: scope where
  "demo_agent_scope = demo_scope\<lparr>sc_agentId := Some ''other''\<rparr>"

definition demo_agent_reserved :: offline_store where
  "demo_agent_reserved = snd (reserveDurableNumbering demo_env demo_agent_scope demo_for_agent demo_now demo_until
     demo_sync_start)"

lemma agent_reservation_repeated:
  "reservationScope demo_agents demo_scope (rni_agentId demo_for_agent) = Inr demo_agent_scope"
  "isl (fst (reserveDurableNumbering_svc demo_env demo_agents demo_scope demo_for_agent demo_now demo_agent_reserved))
   = False"
  by code_simp+

lemma agent_reservation_not_found:
  "fst (replayDurableNumberingReservation_svc demo_env demo_agents demo_scope demo_for_agent demo_agent_reserved)
   = Inl OfflineSyncReservationReplayError"
  by code_simp

end
