(* ===== verification/Mobile_Types.thy ===== *)
theory Mobile_Types
  imports Iso_Time Js_Json
begin

text \<open>
  The data of the offline client, \<open>packages/mobile-runtime/src/types.ts\<close>, and the state it works on: the encrypted
  store of the device, one insertion-ordered map per collection as \<open>InMemoryEncryptedMobileStore\<close> keeps it.

  An operation is a function from the state to its outcome and the next state. Clock and identifiers are ports with a
  state of their own: the n-th reading of the clock and the n-th identifier are functions of \<open>n\<close>, and the state
  counts how many were taken. A location is a JSON value that is only passed on.
\<close>

datatype mobile_error =
    RuntimeError string
  | PortError string

subsection \<open>Data\<close>

datatype draft_status = D_draft | D_finalized | D_queued | D_synced | D_conflict | D_wiped

datatype mobile_queue_status = M_pending | M_sent | M_received | M_applied | M_conflict | M_rejected

datatype resolution_strategy = Device_wins | Server_wins | Manual_review

datatype package_status = Package_published | Package_expired | Package_retired

datatype grant_status = Grant_reserved | Grant_consumed | Grant_expired | Grant_cancelled

record mobile_session =
  ms_tenantId :: string
  ms_orgUnitId :: string
  ms_agentId :: string
  ms_deviceId :: string
  ms_shiftId :: string
  ms_appVersion :: string
  ms_roles :: "string list"

record device_posture =
  dp_homologated :: bool
  dp_remoteWipeVersion :: int
  dp_secureHardwareBacked :: bool
  dp_printerStatus :: string
  dp_networkStatus :: string

record normative_package =
  np_packageId :: string
  np_packageVersion :: string
  np_manifestHash :: string
  np_validUntil :: string
  np_status :: package_status

record numbering_grant =
  ng_reservationId :: string
  ng_rangeId :: string
  ng_entityType :: string
  ng_series :: string
  ng_startNumber :: int
  ng_endNumber :: int
  ng_nextNumber :: int
  ng_validUntil :: string
  ng_status :: grant_status

record evidence_draft =
  ev_localEvidenceId :: string
  ev_hashAlgorithm :: string
  ev_hashValue :: string
  ev_mediaType :: string
  ev_capturedAt :: string
  ev_storageIntentId :: "string option"
  ev_linkedLocalEntityId :: "string option"

record grant_input =
  gi_entityType :: string
  gi_requestedSize :: int
  gi_series :: "string option"

record draft_input =
  dr_entityType :: string
  dr_payload :: "(string \<times> json) list"
  dr_location :: "json option"
  dr_observedAt :: string
  dr_reservedNumber :: "int option"

record entity_draft =
  md_localId :: string
  md_entityType :: string
  md_tenantId :: string
  md_orgUnitId :: string
  md_agentId :: string
  md_deviceId :: string
  md_shiftId :: string
  md_status :: draft_status
  md_reservedNumber :: int
  md_reservationId :: string
  md_idempotencyKey :: string
  md_normativePackageId :: string
  md_normativePackageVersion :: string
  md_localContentHash :: string
  md_payload :: "(string \<times> json) list"
  md_location :: "json option"
  md_evidence :: "evidence_draft list"
  md_createdAt :: string
  md_updatedAt :: string
  md_finalizedAt :: "string option"

record sync_item =
  mq_queueItemId :: string
  mq_entityType :: string
  mq_localEntityId :: string
  mq_status :: mobile_queue_status
  mq_attempts :: int
  mq_idempotencyKey :: string
  mq_payloadHash :: string
  mq_payloadJson :: json
  mq_deviceId :: string
  mq_agentId :: string
  mq_tenantId :: string
  mq_orgUnitId :: string
  mq_normativePackageId :: string
  mq_reservedNumber :: int
  mq_location :: "json option"
  mq_createdLocallyAt :: string
  mq_lastSubmittedAt :: "string option"

record sync_result =
  sy_batchId :: string
  sy_acceptedItems :: int
  sy_conflicts :: "string list"

record conflict_resolution =
  cr_conflictId :: string
  cr_queueItemId :: string
  cr_localEntityId :: string
  cr_resolution :: resolution_strategy
  cr_resolvedAt :: string
  cr_payloadHash :: string

record print_receipt =
  pr_receiptId :: string
  pr_localEntityId :: string
  pr_reservedNumber :: int
  pr_printerAdapter :: string
  pr_status :: string
  pr_printedAt :: string
  pr_contentHash :: string

record wipe_receipt =
  wr_wipeReceiptId :: string
  wr_deviceId :: string
  wr_reason :: string
  wr_wipedAt :: string

record runtime_snapshot =
  sn_activeSession :: "mobile_session option"
  sn_activePackage :: "normative_package option"
  sn_devicePosture :: "device_posture option"
  sn_draftCount :: nat
  sn_queuedCount :: nat
  sn_evidenceCount :: nat
  sn_printReceiptCount :: nat
  sn_conflictResolutionCount :: nat
  sn_pendingWipe :: bool

record mobile_options =
  mo_requiredRoles :: "string list option"
  mo_requireEvidenceToFinalize :: "bool option"
  mo_draftIdPrefix :: "string option"

subsection \<open>Requests to the server\<close>

record grant_request =
  gr_tenantId :: string
  gr_orgUnitId :: string
  gr_agentId :: string
  gr_deviceId :: string
  gr_shiftId :: string
  gr_entityType :: string
  gr_requestedSize :: int
  gr_series :: "string option"

record batch_request =
  br_tenantId :: string
  br_orgUnitId :: string
  br_agentId :: string
  br_deviceId :: string
  br_deviceBatchId :: string
  br_items :: "sync_item list"

record resolve_request =
  rr_tenantId :: string
  rr_orgUnitId :: string
  rr_agentId :: string
  rr_deviceId :: string
  rr_queueItemId :: string
  rr_localEntityId :: string
  rr_resolution :: resolution_strategy
  rr_payloadHash :: string

subsection \<open>Ports and state\<close>

record mobile_runtime =
  mp_now :: "nat \<Rightarrow> string"
  mp_uuid :: "string \<Rightarrow> nat \<Rightarrow> string"
  mp_contentHash :: "json \<Rightarrow> string"
  mp_requiredRoles :: "string list"
  mp_requireEvidence :: bool
  mp_draftIdPrefix :: string

record device =
  dv_session :: "(string, mobile_session) jsmap"
  dv_device :: "(string, device_posture) jsmap"
  dv_package :: "(string, normative_package) jsmap"
  dv_grants :: "(string, numbering_grant) jsmap"
  dv_drafts :: "(string, entity_draft) jsmap"
  dv_evidence :: "(string, evidence_draft) jsmap"
  dv_queue :: "(string, sync_item) jsmap"
  dv_resolutions :: "(string, conflict_resolution) jsmap"
  dv_receipts :: "(string, print_receipt) jsmap"
  dv_wipes :: "(string, wipe_receipt) jsmap"
  dv_reads :: nat
  dv_ids :: nat

type_synonym 'a mobile = "device \<Rightarrow> (mobile_error + 'a) \<times> device"

definition returnM :: "'a \<Rightarrow> 'a mobile" where
  "returnM x d = (Inr x, d)"

definition throwM :: "mobile_error \<Rightarrow> 'a mobile" where
  "throwM e d = (Inl e, d)"

definition bindM :: "'a mobile \<Rightarrow> ('a \<Rightarrow> 'b mobile) \<Rightarrow> 'b mobile" where
  "bindM m f d = (case m d of (Inl e, d') \<Rightarrow> (Inl e, d') | (Inr x, d') \<Rightarrow> f x d')"

definition callM :: "mobile_error + 'a \<Rightarrow> 'a mobile" where
  "callM r d = (r, d)"

definition readM :: "(device \<Rightarrow> 'a) \<Rightarrow> 'a mobile" where
  "readM f d = (Inr (f d), d)"

definition writeM :: "(device \<Rightarrow> device) \<Rightarrow> unit mobile" where
  "writeM f d = (Inr (), f d)"

definition nowM :: "mobile_runtime \<Rightarrow> string mobile" where
  "nowM R d = (Inr (mp_now R (dv_reads d)), d\<lparr>dv_reads := dv_reads d + 1\<rparr>)"

definition uuidM :: "mobile_runtime \<Rightarrow> string \<Rightarrow> string mobile" where
  "uuidM R p d = (Inr (mp_uuid R p (dv_ids d)), d\<lparr>dv_ids := dv_ids d + 1\<rparr>)"

subsection \<open>The in-memory store\<close>

text \<open>\<open>put\<close> of each collection; \<open>get\<close> is \<open>jget\<close>, \<open>list\<close> is \<open>jvalues\<close>, and \<open>clear\<close> forgets every collection.\<close>

definition putGrant :: "numbering_grant \<Rightarrow> unit mobile" where
  "putGrant g = writeM (\<lambda>d. d\<lparr>dv_grants := jset (ng_reservationId g) g (dv_grants d)\<rparr>)"

definition putDraft :: "string \<Rightarrow> entity_draft \<Rightarrow> unit mobile" where
  "putDraft k x = writeM (\<lambda>d. d\<lparr>dv_drafts := jset k x (dv_drafts d)\<rparr>)"

definition putItem :: "sync_item \<Rightarrow> unit mobile" where
  "putItem q = writeM (\<lambda>d. d\<lparr>dv_queue := jset (mq_queueItemId q) q (dv_queue d)\<rparr>)"

definition clearStore :: "unit mobile" where
  "clearStore = writeM (\<lambda>d. d\<lparr>dv_session := [], dv_device := [], dv_package := [], dv_grants := [], dv_drafts := [],
     dv_evidence := [], dv_queue := [], dv_resolutions := [], dv_receipts := [], dv_wipes := []\<rparr>)"

end
