(* ===== verification/Mobile_Runtime.thy ===== *)
theory Mobile_Runtime
  imports Mobile_Types
begin

text \<open>
  \<open>OfflineFirstMobileRuntime\<close> of \<open>packages/mobile-runtime/src/runtime.ts\<close>, one definition per method. The server is an
  argument of the operations that call it, so that it may answer differently each time, and so is the printer. The
  \<open>await\<close>s of one operation run to its end before the next operation starts.
\<close>

definition constructRuntime ::
  "bool \<Rightarrow> (nat \<Rightarrow> string) \<Rightarrow> (string \<Rightarrow> nat \<Rightarrow> string) \<Rightarrow> (json \<Rightarrow> string) \<Rightarrow> mobile_options \<Rightarrow> mobile_error + mobile_runtime" where
  "constructRuntime encrypted now uuid contentHash options =
     bindE (throwIf (\<not> encrypted) (RuntimeError ''stynx mobile runtime requires an encrypted local store port'')) (\<lambda>_.
     Inr \<lparr>mp_now = now, mp_uuid = uuid, mp_contentHash = contentHash,
       mp_requiredRoles = (case mo_requiredRoles options of None \<Rightarrow> [] | Some rs \<Rightarrow> rs),
       mp_requireEvidence = (case mo_requireEvidenceToFinalize options of None \<Rightarrow> True | Some b \<Rightarrow> b),
       mp_draftIdPrefix = (case mo_draftIdPrefix options of None \<Rightarrow> ''entity-local'' | Some p \<Rightarrow> p)\<rparr>)"

subsection \<open>What must be there\<close>

definition requireSession :: "mobile_session mobile" where
  "requireSession d = (require (RuntimeError ''Mobile session has not been bootstrapped'')
     (jget (dv_session d) ''active''), d)"

definition requireNormativePackage :: "normative_package mobile" where
  "requireNormativePackage d = (require (RuntimeError ''No active mobile normative package is installed'')
     (jget (dv_package d) ''active''), d)"

definition requireDraft :: "string \<Rightarrow> entity_draft mobile" where
  "requireDraft localId d = (require (RuntimeError (''Local entity draft '' @ localId @ '' was not found''))
     (jget (dv_drafts d) localId), d)"

text \<open>\<open>updateDraft\<close>: the patch is already in \<open>x\<close>; the time of the update is stamped on it.\<close>

definition updateDraft :: "mobile_runtime \<Rightarrow> entity_draft \<Rightarrow> entity_draft mobile" where
  "updateDraft R x = bindM (nowM R) (\<lambda>now. returnM (x\<lparr>md_updatedAt := now\<rparr>))"

subsection \<open>Session and package\<close>

fun join_roles :: "string list \<Rightarrow> string" where
  "join_roles [] = []"
| "join_roles [x] = x"
| "join_roles (x # y # r) = x @ '', '' @ join_roles (y # r)"

definition bootstrapSession :: "mobile_runtime \<Rightarrow> mobile_session \<Rightarrow> device_posture \<Rightarrow> unit mobile" where
  "bootstrapSession R ctx posture = (let missingRoles = filter (\<lambda>r. r \<notin> set (ms_roles ctx)) (mp_requiredRoles R) in
     bindM (callM (throwIf (missingRoles \<noteq> []) (RuntimeError (''Official mobile runtime requires role(s) ''
       @ join_roles missingRoles @ '' for entity creation'')))) (\<lambda>_.
     bindM (callM (throwIf (\<not> dp_homologated posture \<or> \<not> dp_secureHardwareBacked posture)
       (RuntimeError ''Device posture does not allow official mobile operation''))) (\<lambda>_.
     bindM (writeM (\<lambda>d. d\<lparr>dv_session := jset ''active'' ctx (dv_session d)\<rparr>)) (\<lambda>_.
     writeM (\<lambda>d. d\<lparr>dv_device := jset (ms_deviceId ctx) posture (dv_device d)\<rparr>)))))"

definition bootstrapFromStynxSession ::
  "mobile_runtime \<Rightarrow> mobile_error + mobile_session \<Rightarrow> device_posture \<Rightarrow> mobile_session mobile" where
  "bootstrapFromStynxSession R currentSession posture = bindM (callM currentSession) (\<lambda>ctx.
     bindM (bootstrapSession R ctx posture) (\<lambda>_. returnM ctx))"

definition installPublishedNormativePackage ::
  "mobile_runtime \<Rightarrow> mobile_error + normative_package \<Rightarrow> normative_package mobile" where
  "installPublishedNormativePackage R fetched = bindM (callM fetched) (\<lambda>published.
     bindM (callM (throwIf (np_status published \<noteq> Package_published)
       (RuntimeError (''Normative package '' @ np_packageId published @ '' is not published'')))) (\<lambda>_.
     bindM (nowM R) (\<lambda>now.
     bindM (callM (throwIf (nan_le (date_parse (np_validUntil published)) (date_parse now))
       (RuntimeError (''Normative package '' @ np_packageId published @ '' is expired'')))) (\<lambda>_.
     bindM (writeM (\<lambda>d. d\<lparr>dv_package := jset ''active'' published (dv_package d)\<rparr>)) (\<lambda>_.
     returnM published)))))"

subsection \<open>Numbers\<close>

definition reserveMobileNumbering :: "(grant_request \<Rightarrow> mobile_error + numbering_grant) \<Rightarrow> grant_input \<Rightarrow> numbering_grant mobile" where
  "reserveMobileNumbering backend input = bindM requireSession (\<lambda>session.
     bindM (callM (backend \<lparr>gr_tenantId = ms_tenantId session, gr_orgUnitId = ms_orgUnitId session,
       gr_agentId = ms_agentId session, gr_deviceId = ms_deviceId session, gr_shiftId = ms_shiftId session,
       gr_entityType = gi_entityType input, gr_requestedSize = gi_requestedSize input, gr_series = gi_series input\<rparr>)) (\<lambda>g.
     bindM (callM (throwIf (ng_entityType g \<noteq> gi_entityType input)
       (RuntimeError (''Numbering reservation '' @ ng_reservationId g @ '' is for '' @ ng_entityType g
         @ ''; expected '' @ gi_entityType input)))) (\<lambda>_.
     bindM (putGrant g) (\<lambda>_. returnM g))))"

text \<open>The predicate of \<open>find\<close>, with the clock read once its first two conditions hold.\<close>

definition usableGrant :: "mobile_runtime \<Rightarrow> string \<Rightarrow> int option \<Rightarrow> numbering_grant \<Rightarrow> bool mobile" where
  "usableGrant R entityType requested g =
     (if ng_status g = Grant_reserved \<and> ng_entityType g = entityType
      then bindM (nowM R) (\<lambda>now. returnM (
        nan_gt (date_parse (ng_validUntil g)) (date_parse now) \<and> ng_nextNumber g \<le> ng_endNumber g
        \<and> (case requested of None \<Rightarrow> True | Some n \<Rightarrow> n = 0 \<or> ng_nextNumber g = n)))
      else returnM False)"

fun findGrant :: "mobile_runtime \<Rightarrow> string \<Rightarrow> int option \<Rightarrow> numbering_grant list \<Rightarrow> numbering_grant option mobile" where
  "findGrant R entityType requested [] = returnM None"
| "findGrant R entityType requested (g # gs) = bindM (usableGrant R entityType requested g) (\<lambda>ok.
     if ok then returnM (Some g) else findGrant R entityType requested gs)"

definition consumedGrant :: "numbering_grant \<Rightarrow> numbering_grant" where
  "consumedGrant g = g\<lparr>ng_nextNumber := ng_nextNumber g + 1,
     ng_status := (if ng_nextNumber g \<ge> ng_endNumber g then Grant_consumed else Grant_reserved)\<rparr>"

definition consumeReservationNumber :: "mobile_runtime \<Rightarrow> string \<Rightarrow> int option \<Rightarrow> numbering_grant mobile" where
  "consumeReservationNumber R entityType requested =
     bindM (readM (\<lambda>d. jvalues (dv_grants d))) (\<lambda>grants.
     bindM (findGrant R entityType requested grants) (\<lambda>found. case found of
       None \<Rightarrow> throwM (RuntimeError ''No usable reserved numbering interval is available for offline drafting'')
     | Some g \<Rightarrow> bindM (putGrant (consumedGrant g)) (\<lambda>_. returnM g)))"

subsection \<open>What is hashed\<close>

definition opt_entry :: "string \<Rightarrow> json option \<Rightarrow> (string \<times> json) list" where
  "opt_entry k v = (case v of None \<Rightarrow> [] | Some x \<Rightarrow> [(k, x)])"

definition evidence_json :: "evidence_draft \<Rightarrow> json" where
  "evidence_json e = JObj (
     [(''localEvidenceId'', JStr (ev_localEvidenceId e)), (''hashAlgorithm'', JStr (ev_hashAlgorithm e)),
      (''hashValue'', JStr (ev_hashValue e)), (''mediaType'', JStr (ev_mediaType e)),
      (''capturedAt'', JStr (ev_capturedAt e))]
     @ opt_entry ''storageIntentId'' (map_option JStr (ev_storageIntentId e))
     @ opt_entry ''linkedLocalEntityId'' (map_option JStr (ev_linkedLocalEntityId e)))"

fun status_text :: "draft_status \<Rightarrow> string" where
  "status_text D_draft = ''draft''"
| "status_text D_finalized = ''finalized''"
| "status_text D_queued = ''queued''"
| "status_text D_synced = ''synced''"
| "status_text D_conflict = ''conflict''"
| "status_text D_wiped = ''wiped''"

definition draft_json :: "entity_draft \<Rightarrow> json" where
  "draft_json x = JObj (
     [(''localId'', JStr (md_localId x)), (''entityType'', JStr (md_entityType x)), (''tenantId'', JStr (md_tenantId x)),
      (''orgUnitId'', JStr (md_orgUnitId x)), (''agentId'', JStr (md_agentId x)), (''deviceId'', JStr (md_deviceId x)),
      (''shiftId'', JStr (md_shiftId x)), (''status'', JStr (status_text (md_status x))),
      (''reservedNumber'', JNum (md_reservedNumber x)), (''reservationId'', JStr (md_reservationId x)),
      (''idempotencyKey'', JStr (md_idempotencyKey x)), (''normativePackageId'', JStr (md_normativePackageId x)),
      (''normativePackageVersion'', JStr (md_normativePackageVersion x)),
      (''localContentHash'', JStr (md_localContentHash x)), (''payload'', JObj (md_payload x))]
     @ opt_entry ''location'' (md_location x)
     @ [(''evidence'', JArr (map evidence_json (md_evidence x))), (''createdAt'', JStr (md_createdAt x)),
        (''updatedAt'', JStr (md_updatedAt x))]
     @ opt_entry ''finalizedAt'' (map_option JStr (md_finalizedAt x)))"

definition input_json :: "draft_input \<Rightarrow> json" where
  "input_json i = JObj (
     [(''entityType'', JStr (dr_entityType i)), (''payload'', JObj (dr_payload i))]
     @ opt_entry ''location'' (dr_location i) @ [(''observedAt'', JStr (dr_observedAt i))]
     @ opt_entry ''reservedNumber'' (map_option JNum (dr_reservedNumber i)))"

definition toSyncPayload :: "entity_draft \<Rightarrow> json" where
  "toSyncPayload x = JObj (
     [(''tenant_id'', JStr (md_tenantId x)), (''org_unit_id'', JStr (md_orgUnitId x)), (''agent_id'', JStr (md_agentId x)),
      (''device_id'', JStr (md_deviceId x)), (''shift_id'', JStr (md_shiftId x)), (''entity_type'', JStr (md_entityType x)),
      (''local_entity_id'', JStr (md_localId x)), (''reserved_number'', JNum (md_reservedNumber x)),
      (''idempotency_key'', JStr (md_idempotencyKey x)), (''payload_hash'', JStr (md_localContentHash x)),
      (''normative_package_id'', JStr (md_normativePackageId x)),
      (''normative_package_version'', JStr (md_normativePackageVersion x))]
     @ opt_entry ''location'' (md_location x)
     @ [(''evidence'', JArr (map evidence_json (md_evidence x))), (''payload'', JObj (md_payload x))]
     @ opt_entry ''finalized_at'' (map_option JStr (md_finalizedAt x)))"

subsection \<open>Drafts\<close>

definition newDraft ::
  "mobile_runtime \<Rightarrow> mobile_session \<Rightarrow> normative_package \<Rightarrow> numbering_grant \<Rightarrow> draft_input \<Rightarrow> string \<Rightarrow> string \<Rightarrow> string
   \<Rightarrow> entity_draft" where
  "newDraft R session package g input now localId key =
     (let payload = jset ''observed_at'' (JStr (dr_observedAt input)) (dr_payload input) in
      \<lparr>md_localId = localId, md_entityType = dr_entityType input, md_tenantId = ms_tenantId session,
       md_orgUnitId = ms_orgUnitId session, md_agentId = ms_agentId session, md_deviceId = ms_deviceId session,
       md_shiftId = ms_shiftId session, md_status = D_draft, md_reservedNumber = ng_nextNumber g,
       md_reservationId = ng_reservationId g, md_idempotencyKey = key,
       md_normativePackageId = np_packageId package, md_normativePackageVersion = np_packageVersion package,
       md_localContentHash = mp_contentHash R (JObj [(''payload'', JObj payload), (''input'', input_json input)]),
       md_payload = payload, md_location = dr_location input, md_evidence = [], md_createdAt = now,
       md_updatedAt = now, md_finalizedAt = None\<rparr>)"

definition createDraft :: "mobile_runtime \<Rightarrow> draft_input \<Rightarrow> entity_draft mobile" where
  "createDraft R input = bindM requireSession (\<lambda>session.
     bindM requireNormativePackage (\<lambda>package.
     bindM (consumeReservationNumber R (dr_entityType input) (dr_reservedNumber input)) (\<lambda>g.
     bindM (nowM R) (\<lambda>now.
     bindM (uuidM R (mp_draftIdPrefix R)) (\<lambda>localId.
     bindM (uuidM R ''idem'') (\<lambda>key.
     let draft = newDraft R session package g input now localId key in
     bindM (putDraft localId draft) (\<lambda>_. returnM draft)))))))"

definition attachEvidence :: "mobile_runtime \<Rightarrow> string \<Rightarrow> evidence_draft \<Rightarrow> entity_draft mobile" where
  "attachEvidence R localEntityId evidence =
     bindM (callM (throwIf (ev_hashAlgorithm evidence \<noteq> ''sha256'' \<or> ev_hashValue evidence = []
         \<or> \<not> startsWith (ev_hashValue evidence) ''sha256:'')
       (RuntimeError ''Evidence must carry a sha256 hash before it can be stored locally''))) (\<lambda>_.
     bindM (requireDraft localEntityId) (\<lambda>draft.
     let linked = evidence\<lparr>ev_linkedLocalEntityId := Some localEntityId\<rparr> in
     bindM (writeM (\<lambda>d. d\<lparr>dv_evidence := jset (ev_localEvidenceId linked) linked (dv_evidence d)\<rparr>)) (\<lambda>_.
     bindM (updateDraft R (draft\<lparr>md_evidence := md_evidence draft @ [linked]\<rparr>)) (\<lambda>updated.
     bindM (putDraft localEntityId updated) (\<lambda>_. returnM updated)))))"

definition assertOfflineInvariant :: "mobile_runtime \<Rightarrow> entity_draft \<Rightarrow> mobile_error + unit" where
  "assertOfflineInvariant R x =
     bindE (throwIf (md_idempotencyKey x = [] \<or> md_reservationId x = [] \<or> md_localContentHash x = [])
       (RuntimeError ''Offline entity draft lacks idempotency, reservation or content hash'')) (\<lambda>_.
     bindE (throwIf (md_deviceId x = [] \<or> md_agentId x = [] \<or> md_location x = None \<or> md_normativePackageId x = [])
       (RuntimeError ''Offline entity draft lacks device, agent, location or normative package context'')) (\<lambda>_.
     throwIf (mp_requireEvidence R \<and> md_evidence x = [])
       (RuntimeError ''Offline entity draft must link at least one evidence metadata record before finalization'')))"

definition finalizeOffline :: "mobile_runtime \<Rightarrow> string \<Rightarrow> entity_draft mobile" where
  "finalizeOffline R localEntityId = bindM (requireDraft localEntityId) (\<lambda>draft.
     bindM (callM (throwIf (md_status draft \<noteq> D_draft) (RuntimeError (''Entity draft '' @ localEntityId @ '' is ''
       @ status_text (md_status draft) @ ''; expected draft'')))) (\<lambda>_.
     bindM (callM (assertOfflineInvariant R draft)) (\<lambda>_.
     bindM (nowM R) (\<lambda>finalizedAt.
     let final = draft\<lparr>md_status := D_finalized, md_finalizedAt := Some finalizedAt\<rparr> in
     bindM (updateDraft R (final\<lparr>md_localContentHash := mp_contentHash R (draft_json final)\<rparr>)) (\<lambda>finalized.
     bindM (putDraft localEntityId finalized) (\<lambda>_. returnM finalized))))))"

definition newItem :: "entity_draft \<Rightarrow> string \<Rightarrow> sync_item" where
  "newItem draft queueItemId = \<lparr>mq_queueItemId = queueItemId, mq_entityType = md_entityType draft,
     mq_localEntityId = md_localId draft, mq_status = M_pending, mq_attempts = 0,
     mq_idempotencyKey = md_idempotencyKey draft, mq_payloadHash = md_localContentHash draft,
     mq_payloadJson = toSyncPayload draft, mq_deviceId = md_deviceId draft, mq_agentId = md_agentId draft,
     mq_tenantId = md_tenantId draft, mq_orgUnitId = md_orgUnitId draft,
     mq_normativePackageId = md_normativePackageId draft, mq_reservedNumber = md_reservedNumber draft,
     mq_location = md_location draft, mq_createdLocallyAt = md_createdAt draft, mq_lastSubmittedAt = None\<rparr>"

definition enqueue :: "mobile_runtime \<Rightarrow> string \<Rightarrow> sync_item mobile" where
  "enqueue R localEntityId = bindM (requireDraft localEntityId) (\<lambda>draft.
     bindM (callM (throwIf (md_status draft \<noteq> D_finalized) (RuntimeError (''Entity draft '' @ localEntityId @ '' is ''
       @ status_text (md_status draft) @ ''; expected finalized'')))) (\<lambda>_.
     bindM (uuidM R ''sync-item'') (\<lambda>queueItemId.
     let item = newItem draft queueItemId in
     bindM (putItem item) (\<lambda>_.
     bindM (updateDraft R (draft\<lparr>md_status := D_queued\<rparr>)) (\<lambda>queued.
     bindM (putDraft localEntityId queued) (\<lambda>_. returnM item))))))"

subsection \<open>Submission\<close>

definition markSent :: "string \<Rightarrow> sync_item \<Rightarrow> sync_item" where
  "markSent submittedAt q = q\<lparr>mq_status := M_sent, mq_attempts := mq_attempts q + 1, mq_lastSubmittedAt := Some submittedAt\<rparr>"

fun putItems :: "sync_item list \<Rightarrow> unit mobile" where
  "putItems [] = returnM ()"
| "putItems (q # qs) = bindM (putItem q) (\<lambda>_. putItems qs)"

definition restoreItems :: "sync_item list \<Rightarrow> unit mobile" where
  "restoreItems marked = putItems (map (\<lambda>q. q\<lparr>mq_status := M_pending\<rparr>) marked)"

definition settleItems :: "sync_result \<Rightarrow> sync_item list \<Rightarrow> unit mobile" where
  "settleItems result marked = putItems (map (\<lambda>q. q\<lparr>mq_status :=
     (if mq_queueItemId q \<in> set (sy_conflicts result) then M_conflict else M_received)\<rparr>) marked)"

definition submitPendingQueue :: "mobile_runtime \<Rightarrow> (batch_request \<Rightarrow> mobile_error + sync_result) \<Rightarrow> sync_result mobile" where
  "submitPendingQueue R backend = bindM requireSession (\<lambda>session.
     bindM (readM (\<lambda>d. filter (\<lambda>q. mq_status q = M_pending) (jvalues (dv_queue d)))) (\<lambda>pending.
     if pending = [] then returnM \<lparr>sy_batchId = ''empty'', sy_acceptedItems = 0, sy_conflicts = []\<rparr>
     else
       bindM (nowM R) (\<lambda>submittedAt.
       let marked = map (markSent submittedAt) pending in
       bindM (putItems marked) (\<lambda>_.
       bindM (uuidM R ''device-batch'') (\<lambda>deviceBatchId.
       case backend \<lparr>br_tenantId = ms_tenantId session, br_orgUnitId = ms_orgUnitId session,
           br_agentId = ms_agentId session, br_deviceId = ms_deviceId session, br_deviceBatchId = deviceBatchId,
           br_items = marked\<rparr> of
         Inl e \<Rightarrow> bindM (restoreItems marked) (\<lambda>_. throwM e)
       | Inr result \<Rightarrow> bindM (settleItems result marked) (\<lambda>_. returnM result))))))"

fun queue_status_text :: "mobile_queue_status \<Rightarrow> string" where
  "queue_status_text M_pending = ''pending''"
| "queue_status_text M_sent = ''sent''"
| "queue_status_text M_received = ''received''"
| "queue_status_text M_applied = ''applied''"
| "queue_status_text M_conflict = ''conflict''"
| "queue_status_text M_rejected = ''rejected''"

definition resolveSimpleConflict ::
  "mobile_runtime \<Rightarrow> (resolve_request \<Rightarrow> mobile_error + conflict_resolution) \<Rightarrow> string \<Rightarrow> resolution_strategy
   \<Rightarrow> conflict_resolution mobile" where
  "resolveSimpleConflict R backend queueItemId resolution = bindM requireSession (\<lambda>session.
     bindM (\<lambda>d. (require (RuntimeError (''Sync queue item '' @ queueItemId @ '' was not found''))
       (jget (dv_queue d) queueItemId), d)) (\<lambda>q.
     bindM (callM (throwIf (mq_status q \<noteq> M_conflict) (RuntimeError (''Sync queue item '' @ queueItemId @ '' is ''
       @ queue_status_text (mq_status q) @ ''; expected conflict'')))) (\<lambda>_.
     bindM (callM (backend \<lparr>rr_tenantId = ms_tenantId session, rr_orgUnitId = ms_orgUnitId session,
       rr_agentId = ms_agentId session, rr_deviceId = ms_deviceId session, rr_queueItemId = mq_queueItemId q,
       rr_localEntityId = mq_localEntityId q, rr_resolution = resolution, rr_payloadHash = mq_payloadHash q\<rparr>)) (\<lambda>resolved.
     bindM (writeM (\<lambda>d. d\<lparr>dv_resolutions := jset (cr_conflictId resolved) resolved (dv_resolutions d)\<rparr>)) (\<lambda>_.
     bindM (putItem (q\<lparr>mq_status := M_applied\<rparr>)) (\<lambda>_.
     bindM (readM (\<lambda>d. jget (dv_drafts d) (mq_localEntityId q))) (\<lambda>draft. case draft of
       None \<Rightarrow> returnM resolved
     | Some x \<Rightarrow> bindM (updateDraft R (x\<lparr>md_status := D_synced\<rparr>)) (\<lambda>synced.
         bindM (putDraft (md_localId x) synced) (\<lambda>_. returnM resolved)))))))))"

subsection \<open>Receipts, wipe and snapshot\<close>

definition printReceipt ::
  "mobile_runtime \<Rightarrow> (mobile_session \<Rightarrow> entity_draft \<Rightarrow> string \<Rightarrow> mobile_error + print_receipt) option \<Rightarrow> string
   \<Rightarrow> print_receipt mobile" where
  "printReceipt R printer localEntityId = (case printer of
     None \<Rightarrow> throwM (RuntimeError ''No mobile printer port is configured'')
   | Some print \<Rightarrow> bindM requireSession (\<lambda>session.
       bindM (requireDraft localEntityId) (\<lambda>draft.
       bindM (callM (throwIf (md_status draft \<notin> {D_finalized, D_queued, D_synced})
         (RuntimeError (''Entity draft '' @ localEntityId @ '' is '' @ status_text (md_status draft)
           @ ''; expected finalized, queued or synced for receipt'')))) (\<lambda>_.
       bindM (callM (print session draft (mp_contentHash R (JObj [(''localEntityId'', JStr (md_localId draft)),
         (''reservedNumber'', JNum (md_reservedNumber draft)), (''payloadHash'', JStr (md_localContentHash draft)),
         (''evidence'', JArr (map (\<lambda>e. JStr (ev_hashValue e)) (md_evidence draft)))])))) (\<lambda>receipt.
       bindM (writeM (\<lambda>d. d\<lparr>dv_receipts := jset (pr_receiptId receipt) receipt (dv_receipts d)\<rparr>)) (\<lambda>_.
       returnM receipt))))))"

definition applyRemoteWipe :: "mobile_runtime \<Rightarrow> string \<Rightarrow> wipe_receipt mobile" where
  "applyRemoteWipe R reason = bindM (readM (\<lambda>d. jget (dv_session d) ''active'')) (\<lambda>session.
     bindM (uuidM R ''wipe'') (\<lambda>wipeReceiptId.
     bindM (nowM R) (\<lambda>wipedAt.
     let receipt = \<lparr>wr_wipeReceiptId = wipeReceiptId,
       wr_deviceId = (case session of None \<Rightarrow> ''unknown-device'' | Some s \<Rightarrow> ms_deviceId s),
       wr_reason = reason, wr_wipedAt = wipedAt\<rparr> in
     bindM clearStore (\<lambda>_.
     bindM (writeM (\<lambda>d. d\<lparr>dv_wipes := jset wipeReceiptId receipt (dv_wipes d)\<rparr>)) (\<lambda>_. returnM receipt)))))"

definition deviceSnapshot :: "device \<Rightarrow> runtime_snapshot" where
  "deviceSnapshot d = (let session = jget (dv_session d) ''active'' in
     \<lparr>sn_activeSession = session, sn_activePackage = jget (dv_package d) ''active'',
      sn_devicePosture = Option.bind session (\<lambda>s. jget (dv_device d) (ms_deviceId s)),
      sn_draftCount = length (filter (\<lambda>x. md_status x = D_draft) (jvalues (dv_drafts d))),
      sn_queuedCount = length (filter (\<lambda>q. mq_status q \<in> {M_pending, M_sent, M_received, M_conflict}) (jvalues (dv_queue d))),
      sn_evidenceCount = length (jvalues (dv_evidence d)), sn_printReceiptCount = length (jvalues (dv_receipts d)),
      sn_conflictResolutionCount = length (jvalues (dv_resolutions d)), sn_pendingWipe = (jvalues (dv_wipes d) \<noteq> [])\<rparr>)"

end
