(* ===== verification/Mobile_Inv.thy ===== *)
theory Mobile_Inv
  imports Mobile_Runtime
begin

text \<open>
  The invariant of the device store: which grant a draft took its number from, and which draft a queue item stands
  for. It is stated over the three maps it ties together, read as partial functions, and the number of identifiers
  drawn (\<open>minv\<close>), with one rule for each kind of change; the operations make only such changes. What it says of
  numbers is limited to a set of reservations, the first argument: any other reservation may be granted anew while the
  device holds it.
\<close>

named_theorems mobile_defs \<open>the combinators of device operations\<close>

lemmas [mobile_defs] = returnM_def throwM_def bindM_def callM_def readM_def writeM_def nowM_def uuidM_def
  putGrant_def putDraft_def putItem_def requireSession_def requireNormativePackage_def requireDraft_def
  updateDraft_def

subsection \<open>The invariant\<close>

definition distinct_ids :: "mobile_runtime \<Rightarrow> bool" where
  "distinct_ids R \<longleftrightarrow> (\<forall>p q m n. mp_uuid R p m = mp_uuid R q n \<longrightarrow> m = n)"

definition drawnId :: "mobile_runtime \<Rightarrow> nat \<Rightarrow> string \<Rightarrow> bool" where
  "drawnId R n i \<longleftrightarrow> (\<exists>p m. m < n \<and> i = mp_uuid R p m)"

definition grants_ok :: "(string \<rightharpoonup> numbering_grant) \<Rightarrow> bool" where
  "grants_ok G \<longleftrightarrow> (\<forall>k g. G k = Some g \<longrightarrow> ng_reservationId g = k)"

definition drafts_ok ::
  "string set \<Rightarrow> mobile_runtime \<Rightarrow> nat \<Rightarrow> (string \<rightharpoonup> numbering_grant) \<Rightarrow> (string \<rightharpoonup> entity_draft) \<Rightarrow> bool" where
  "drafts_ok B R n G D \<longleftrightarrow>
     (\<forall>k x. D k = Some x \<longrightarrow> md_localId x = k \<and> drawnId R n k
       \<and> (md_reservationId x \<in> B \<longrightarrow> (\<exists>g. G (md_reservationId x) = Some g \<and> md_reservedNumber x < ng_nextNumber g)))"

definition numbers_ok :: "string set \<Rightarrow> (string \<rightharpoonup> entity_draft) \<Rightarrow> bool" where
  "numbers_ok B D \<longleftrightarrow> (\<forall>k k' x y. D k = Some x \<longrightarrow> D k' = Some y \<longrightarrow> md_reservationId x \<in> B
     \<longrightarrow> md_reservationId x = md_reservationId y \<longrightarrow> md_reservedNumber x = md_reservedNumber y \<longrightarrow> k = k')"

definition inQueue :: "entity_draft \<Rightarrow> bool" where
  "inQueue x \<longleftrightarrow> md_status x \<in> {D_queued, D_synced}"

definition standsFor :: "sync_item \<Rightarrow> entity_draft \<Rightarrow> bool" where
  "standsFor q x \<longleftrightarrow> mq_localEntityId q = md_localId x \<and> inQueue x \<and> mq_idempotencyKey q = md_idempotencyKey x
     \<and> mq_reservedNumber q = md_reservedNumber x \<and> mq_payloadHash q = md_localContentHash x"

definition items_ok ::
  "mobile_runtime \<Rightarrow> nat \<Rightarrow> (string \<rightharpoonup> entity_draft) \<Rightarrow> (string \<rightharpoonup> sync_item) \<Rightarrow> bool" where
  "items_ok R n D Q \<longleftrightarrow>
     (\<forall>k q. Q k = Some q \<longrightarrow> mq_queueItemId q = k \<and> drawnId R n k \<and> mq_status q \<noteq> M_sent
       \<and> (\<exists>x. D (mq_localEntityId q) = Some x \<and> standsFor q x))"

definition once_ok :: "(string \<rightharpoonup> entity_draft) \<Rightarrow> (string \<rightharpoonup> sync_item) \<Rightarrow> bool" where
  "once_ok D Q \<longleftrightarrow>
     (\<forall>k k' q r. Q k = Some q \<longrightarrow> Q k' = Some r \<longrightarrow> mq_localEntityId q = mq_localEntityId r \<longrightarrow> k = k') \<and>
     (\<forall>k x. D k = Some x \<longrightarrow> inQueue x \<longrightarrow> (\<exists>i q. Q i = Some q \<and> mq_localEntityId q = k))"

definition minv :: "string set \<Rightarrow> mobile_runtime \<Rightarrow> nat \<Rightarrow> (string \<rightharpoonup> numbering_grant) \<Rightarrow> (string \<rightharpoonup> entity_draft)
    \<Rightarrow> (string \<rightharpoonup> sync_item) \<Rightarrow> bool" where
  "minv B R n G D Q \<longleftrightarrow> grants_ok G \<and> drafts_ok B R n G D \<and> numbers_ok B D \<and> items_ok R n D Q \<and> once_ok D Q"

abbreviation mobile_inv :: "string set \<Rightarrow> mobile_runtime \<Rightarrow> device \<Rightarrow> bool" where
  "mobile_inv B R d \<equiv> jwf (dv_grants d) \<and> jwf (dv_queue d)
     \<and> minv B R (dv_ids d) (jget (dv_grants d)) (jget (dv_drafts d)) (jget (dv_queue d))"

lemma mobile_inv_minv:
  "mobile_inv B R d \<Longrightarrow> minv B R (dv_ids d) (jget (dv_grants d)) (jget (dv_drafts d)) (jget (dv_queue d))"
  by blast

lemmas minv_parts = minv_def grants_ok_def drafts_ok_def numbers_ok_def items_ok_def once_ok_def

lemma minvD:
  assumes "minv B R n G D Q"
  shows "grants_ok G" "drafts_ok B R n G D" "numbers_ok B D" "items_ok R n D Q" "once_ok D Q"
  using assms by (simp_all add: minv_def)

lemma drafts_okD:
  assumes "drafts_ok B R n G D" "D k = Some x"
  shows "md_localId x = k" "drawnId R n k" "md_reservationId x \<in> B \<Longrightarrow> \<exists>g. G (md_reservationId x) = Some g \<and> md_reservedNumber x < ng_nextNumber g"
  using assms by (simp_all add: drafts_ok_def)

lemma items_okD:
  assumes "items_ok R n D Q" "Q k = Some q"
  shows "mq_queueItemId q = k" "drawnId R n k" "mq_status q \<noteq> M_sent"
    "\<exists>x. D (mq_localEntityId q) = Some x \<and> standsFor q x"
  using assms by (simp_all add: items_ok_def)

subsection \<open>Changes that keep it\<close>

lemma drawnId_mono: "drawnId R n i \<Longrightarrow> n \<le> m \<Longrightarrow> drawnId R m i"
  using less_le_trans unfolding drawnId_def by blast

lemma drawnId_new: "drawnId R (Suc n) (mp_uuid R p n)"
  by (auto simp: drawnId_def)

lemma not_drawnId: "distinct_ids R \<Longrightarrow> n \<le> m \<Longrightarrow> \<not> drawnId R n (mp_uuid R p m)"
  by (force simp: drawnId_def distinct_ids_def)

lemma minv_empty: "minv B R n Map.empty Map.empty Map.empty"
  by (simp add: minv_parts)

lemma minv_mono:
  assumes "minv B R n G D Q" "n \<le> m"
  shows "minv B R m G D Q"
proof -
  have "drafts_ok B R m G D" "items_ok R m D Q"
    using minvD(2,4) [OF assms(1)] drawnId_mono [OF _ assms(2)] by (simp_all add: drafts_ok_def items_ok_def)
  then show ?thesis
    using assms(1) by (simp add: minv_def)
qed

lemma minv_grant:
  assumes "minv B R n G D Q" "ng_reservationId g \<in> B \<Longrightarrow> G (ng_reservationId g) = None"
  shows "minv B R n (G(ng_reservationId g \<mapsto> g)) D Q"
proof -
  have "md_reservationId x \<noteq> ng_reservationId g" if "D k = Some x" "md_reservationId x \<in> B" for k x
    using drafts_okD(3) [OF minvD(2) [OF assms(1)] that] assms(2) that(2) by auto
  then show ?thesis
    using assms by (simp add: minv_def grants_ok_def drafts_ok_def)
qed

text \<open>A number is taken from a grant and a draft is made with it.\<close>

lemma minv_consume:
  assumes inv: "minv B R n G D Q" and g: "G (ng_reservationId g) = Some g" and ids: "distinct_ids R" "n \<le> m"
    and g': "ng_reservationId g' = ng_reservationId g" "ng_nextNumber g' = ng_nextNumber g + 1"
    and x: "md_localId x = mp_uuid R p m" "md_status x = D_draft" "md_reservedNumber x = ng_nextNumber g"
      "md_reservationId x = ng_reservationId g"
    and m': "m < m'"
  shows "minv B R m' (G(ng_reservationId g \<mapsto> g')) (D(mp_uuid R p m \<mapsto> x)) Q"
proof -
  let ?i = "mp_uuid R p m"
  have new: "D ?i = None"
    using drafts_okD(2) [OF minvD(2) [OF inv], of ?i] not_drawnId [OF ids, of p] by (cases "D ?i") auto
  have unqueued: "mq_localEntityId q \<noteq> ?i" if "Q k = Some q" for k q
    using items_okD(4) [OF minvD(4) [OF inv] that] new by auto
  have below: "md_reservedNumber z < ng_nextNumber g" if "D k = Some z" "md_reservationId z = ng_reservationId g" "md_reservationId z \<in> B" for k z
    using drafts_okD(3) [OF minvD(2) [OF inv] that(1,3)] g that(2) by auto
  note inv' = minvD [OF minv_mono [OF inv ids(2)]]
  have drawn: "drawnId R m' k" if "drawnId R m k" for k
    using drawnId_mono [OF that] m' by simp
  have "drawnId R m' ?i"
    using drawnId_mono [OF drawnId_new [of R m p]] m' by simp
  have "\<exists>h. (G(ng_reservationId g \<mapsto> g')) (md_reservationId z) = Some h \<and> md_reservedNumber z < ng_nextNumber h"
    if "D k = Some z" "md_reservationId z \<in> B" for k z
    using drafts_okD(3) [OF inv'(2) that] below [OF that(1) _ that(2)] g' by fastforce
  with \<open>drawnId R m' ?i\<close> have "drafts_ok B R m' (G(ng_reservationId g \<mapsto> g')) (D(?i \<mapsto> x))"
    using drafts_okD(1,2) [OF inv'(2)] drawn g' x by (simp add: drafts_ok_def)
  moreover have "grants_ok (G(ng_reservationId g \<mapsto> g'))"
    using inv'(1) g' by (simp add: grants_ok_def)
  moreover have "numbers_ok B (D(?i \<mapsto> x))"
    using inv'(3) below x by (fastforce simp: numbers_ok_def)
  moreover have "items_ok R m' (D(?i \<mapsto> x)) Q"
    using items_okD [OF inv'(4)] unqueued drawn by (simp add: items_ok_def)
  moreover have "once_ok (D(?i \<mapsto> x)) Q"
    using inv'(5) x by (simp add: once_ok_def inQueue_def)
  ultimately show ?thesis
    by (simp add: minv_def)
qed

lemma numbers_ok_rewrite:
  assumes "numbers_ok B D" "D k = Some x" "md_reservationId y = md_reservationId x" "md_reservedNumber y = md_reservedNumber x"
  shows "numbers_ok B (D(k \<mapsto> y))"
  unfolding numbers_ok_def
proof (intro allI impI)
  fix i j u v
  assume u: "(D(k \<mapsto> y)) i = Some u" and v: "(D(k \<mapsto> y)) j = Some v"
    and same: "md_reservationId u \<in> B" "md_reservationId u = md_reservationId v" "md_reservedNumber u = md_reservedNumber v"
  have old: "\<exists>w'. D c = Some w' \<and> md_reservationId w' = md_reservationId w \<and> md_reservedNumber w' = md_reservedNumber w"
    if "(D(k \<mapsto> y)) c = Some w" for c w
    using that assms(2-4) by (cases "c = k") auto
  show "i = j"
    using old [OF u] old [OF v] same assms(1) unfolding numbers_ok_def by force
qed

text \<open>A draft is rewritten: its identity, number and key stay, and once it is in the queue so does its hash.\<close>

lemma minv_rewrite:
  assumes inv: "minv B R n G D Q" and x: "D k = Some x"
    and y: "md_localId y = md_localId x" "md_reservationId y = md_reservationId x"
      "md_reservedNumber y = md_reservedNumber x" "md_idempotencyKey y = md_idempotencyKey x"
      "inQueue y = inQueue x" "inQueue x \<Longrightarrow> md_localContentHash y = md_localContentHash x"
  shows "minv B R n G (D(k \<mapsto> y)) Q"
proof -
  note inv' = minvD [OF inv]
  have "drafts_ok B R n G (D(k \<mapsto> y))"
    using drafts_okD [OF inv'(2)] x y(1-3) by (simp add: drafts_ok_def)
  moreover have "numbers_ok B (D(k \<mapsto> y))"
    using numbers_ok_rewrite [OF inv'(3) x y(2,3)] .
  moreover have "items_ok R n (D(k \<mapsto> y)) Q"
    using items_okD [OF inv'(4)] x y by (fastforce simp: items_ok_def standsFor_def)
  moreover have "once_ok (D(k \<mapsto> y)) Q"
    using inv'(5) x y(5) by (simp add: once_ok_def)
  ultimately show ?thesis
    using inv' by (simp add: minv_def)
qed

lemma once_okD:
  assumes "once_ok D Q"
  shows "Q i = Some q \<Longrightarrow> Q j = Some r \<Longrightarrow> mq_localEntityId q = mq_localEntityId r \<Longrightarrow> i = j"
    "D k = Some x \<Longrightarrow> inQueue x \<Longrightarrow> \<exists>i q. Q i = Some q \<and> mq_localEntityId q = k"
  using assms unfolding once_ok_def by blast+

lemma once_ok_enqueue:
  assumes once: "once_ok D Q" and new: "Q i = None" and q: "mq_localEntityId q = k"
    and unqueued: "\<And>j r. Q j = Some r \<Longrightarrow> mq_localEntityId r \<noteq> k"
  shows "once_ok (D(k \<mapsto> y)) (Q(i \<mapsto> q))"
  unfolding once_ok_def
proof (intro conjI allI impI)
  fix a b u v
  assume "(Q(i \<mapsto> q)) a = Some u" "(Q(i \<mapsto> q)) b = Some v" "mq_localEntityId u = mq_localEntityId v"
  then show "a = b"
    using unqueued [of a u] unqueued [of b v] once_okD(1) [OF once, of a u b v] q by (auto split: if_splits)
next
  fix c x
  assume c: "(D(k \<mapsto> y)) c = Some x" "inQueue x"
  show "\<exists>j r. (Q(i \<mapsto> q)) j = Some r \<and> mq_localEntityId r = c"
  proof (cases "c = k")
    case False
    then obtain j r where "Q j = Some r" "mq_localEntityId r = c"
      using once_okD(2) [OF once, of c x] c by auto
    then show ?thesis
      using new by (intro exI [of _ j] exI [of _ r]) auto
  qed (use q in auto)
qed

text \<open>A draft enters the queue.\<close>

lemma minv_enqueue:
  assumes inv: "minv B R n G D Q" and x: "D k = Some x" "\<not> inQueue x" and ids: "distinct_ids R" "n \<le> m"
    and y: "md_localId y = md_localId x" "md_reservationId y = md_reservationId x"
      "md_reservedNumber y = md_reservedNumber x" "inQueue y" "standsFor q y"
    and q: "mq_queueItemId q = mp_uuid R p m" "mq_status q \<noteq> M_sent"
    and m': "m < m'"
  shows "minv B R m' G (D(k \<mapsto> y)) (Q(mp_uuid R p m \<mapsto> q))"
proof -
  let ?i = "mp_uuid R p m"
  note inv' = minvD [OF minv_mono [OF inv ids(2)]]
  have k: "md_localId y = k"
    using drafts_okD(1) [OF inv'(2) x(1)] y(1) by simp
  have new: "Q ?i = None"
    using items_okD(2) [OF minvD(4) [OF inv], of ?i] not_drawnId [OF ids, of p] by (cases "Q ?i") auto
  have unqueued: "mq_localEntityId r \<noteq> k" if "Q i = Some r" for i r
    using items_okD(4) [OF inv'(4) that] x by (auto simp: standsFor_def)
  have drawn: "drawnId R m' i" if "drawnId R m i" for i
    using drawnId_mono [OF that] m' by simp
  have "drawnId R m' ?i"
    using drawnId_mono [OF drawnId_new [of R m p]] m' by simp
  then have "items_ok R m' (D(k \<mapsto> y)) (Q(?i \<mapsto> q))"
    using items_okD [OF inv'(4)] unqueued drawn k y q by (auto simp: items_ok_def standsFor_def)
  moreover have "drafts_ok B R m' G (D(k \<mapsto> y))"
    using drafts_okD [OF inv'(2)] drawn x(1) y(1-3) by (simp add: drafts_ok_def)
  moreover have "numbers_ok B (D(k \<mapsto> y))"
    using numbers_ok_rewrite [OF inv'(3) x(1) y(2,3)] .
  moreover have "once_ok (D(k \<mapsto> y)) (Q(?i \<mapsto> q))"
    by (rule once_ok_enqueue [OF inv'(5) new]) (use unqueued y(5) k in \<open>auto simp: standsFor_def\<close>)
  ultimately show ?thesis
    using inv' by (simp add: minv_def)
qed

text \<open>Items are rewritten: what they stand for stays, and none is left as sent.\<close>

lemma minv_items:
  assumes inv: "minv B R n G D Q" and new: "\<And>k. Q' k = map_option f (Q k)"
    and f: "\<And>k q. Q k = Some q \<Longrightarrow> mq_queueItemId (f q) = mq_queueItemId q \<and> mq_localEntityId (f q) = mq_localEntityId q
      \<and> mq_idempotencyKey (f q) = mq_idempotencyKey q \<and> mq_reservedNumber (f q) = mq_reservedNumber q
      \<and> mq_payloadHash (f q) = mq_payloadHash q \<and> mq_status (f q) \<noteq> M_sent"
  shows "minv B R n G D Q'"
proof -
  note inv' = minvD [OF inv]
  have "items_ok R n D Q'"
    using items_okD [OF inv'(4)] f by (fastforce simp: new items_ok_def standsFor_def)
  moreover have "once_ok D Q'"
    unfolding once_ok_def
  proof (intro conjI allI impI)
    fix k k' q r assume "Q' k = Some q" "Q' k' = Some r" "mq_localEntityId q = mq_localEntityId r"
    then show "k = k'"
      using once_okD(1) [OF inv'(5)] f by (auto simp: new)
  next
    fix k x assume "D k = Some x" "inQueue x"
    then obtain i q where "Q i = Some q" "mq_localEntityId q = k"
      using once_okD(2) [OF inv'(5)] by blast
    then show "\<exists>i q. Q' i = Some q \<and> mq_localEntityId q = k"
      using f [of i q] by (intro exI [of _ i] exI [of _ "f q"]) (simp add: new)
  qed
  ultimately show ?thesis
    using inv' by (simp add: minv_def)
qed

end
