(* ===== verification/Mobile_Runs.thy ===== *)
theory Mobile_Runs
  imports Mobile_Inv Transition_System
begin

text \<open>
  Runs of the offline client: \<open>mobile_step\<close> has one rule per operation, with any answer of the server and the printer.
  Every operation keeps the invariant; what it says of numbers is kept by every step that is not a \<open>regrant\<close> of one
  of the reservations it is about.
\<close>

declare map_of_eq_Some_iff [simp del]

lemma jget_jset_map: "jget (jset k v m) = (jget m)(k \<mapsto> v)"
  by (rule AList.update_conv')

subsection \<open>Writing items\<close>

lemma putItems_eq: "putItems qs d = (Inr (), d\<lparr>dv_queue := fold (\<lambda>q. jset (mq_queueItemId q) q) qs (dv_queue d)\<rparr>)"
  by (induction qs arbitrary: d) (simp_all add: mobile_defs)

lemma jwf_fold_jset: "jwf m \<Longrightarrow> jwf (fold (\<lambda>q. jset (mq_queueItemId q) q) qs m)"
  by (induction qs arbitrary: m) simp_all

lemma jget_fold_jset_other:
  "k \<notin> mq_queueItemId ` set qs \<Longrightarrow> jget (fold (\<lambda>q. jset (mq_queueItemId q) q) qs m) k = jget m k"
  by (induction qs arbitrary: m) auto

lemma jget_fold_jset:
  "distinct (map mq_queueItemId qs) \<Longrightarrow> q \<in> set qs \<Longrightarrow>
     jget (fold (\<lambda>q. jset (mq_queueItemId q) q) qs m) (mq_queueItemId q) = Some q"
proof (induction qs arbitrary: m)
  case (Cons r qs)
  then show ?case
    by (cases "q = r") (auto simp: jget_fold_jset_other)
qed simp

text \<open>The items of a queue that meet a condition, each under its own identifier, are rewritten.\<close>

definition keyed_items :: "(string, sync_item) jsmap \<Rightarrow> bool" where
  "keyed_items Q \<longleftrightarrow> jwf Q \<and> (\<forall>k q. jget Q k = Some q \<longrightarrow> mq_queueItemId q = k)"

lemma keyed_jvalues:
  assumes "keyed_items Q"
  shows "map mq_queueItemId (jvalues Q) = map fst Q"
proof -
  have "mq_queueItemId q = k" if "(k, q) \<in> set Q" for k q
    using assms iffD1 [OF in_set_jget that] unfolding keyed_items_def by blast
  then show ?thesis
    unfolding jvalues_def map_map by (intro map_cong) auto
qed

lemma jget_rewrite:
  assumes Q: "keyed_items Q" and h: "\<And>q. mq_queueItemId (h q) = mq_queueItemId q"
    and other: "\<And>k. (\<And>q. jget Q k = Some q \<Longrightarrow> \<not> P q) \<Longrightarrow> jget Q' k = jget Q k"
  shows "jget (fold (\<lambda>q. jset (mq_queueItemId q) q) (map h (filter P (jvalues Q))) Q') k
    = map_option (\<lambda>q. if P q then h q else q) (jget Q k)"
proof (cases "\<exists>q. jget Q k = Some q \<and> P q")
  case True
  then obtain q where q: "jget Q k = Some q" "P q" by blast
  have "mq_queueItemId q = k"
    using Q q by (simp add: keyed_items_def)
  moreover have "q \<in> set (jvalues Q)"
    using Q q(1) by (auto simp: keyed_items_def in_jvalues)
  moreover have "distinct (map mq_queueItemId (map h (filter P (jvalues Q))))"
  proof -
    have "distinct (map mq_queueItemId (jvalues Q))"
      using Q by (simp add: keyed_jvalues) (simp add: keyed_items_def)
    then show ?thesis
      by (simp add: comp_def h distinct_map_filter)
  qed
  ultimately show ?thesis
    using jget_fold_jset [of "map h (filter P (jvalues Q))" "h q" Q'] q by (simp add: h)
next
  case False
  have "k \<notin> mq_queueItemId ` set (map h (filter P (jvalues Q)))"
  proof
    assume "k \<in> mq_queueItemId ` set (map h (filter P (jvalues Q)))"
    then obtain q where q: "q \<in> set (jvalues Q)" "P q" "mq_queueItemId q = k"
      by (auto simp: h)
    then obtain i where "jget Q i = Some q"
      using Q by (auto simp: keyed_items_def in_jvalues)
    with q Q False show False
      by (auto simp: keyed_items_def)
  qed
  then show ?thesis
    using False other [of k] by (simp add: jget_fold_jset_other) (cases "jget Q k"; auto)
qed

lemma mobile_inv_keyed: "mobile_inv B R d \<Longrightarrow> keyed_items (dv_queue d)"
  using items_okD(1) [OF minvD(4)] unfolding keyed_items_def by blast

subsection \<open>A submission\<close>

text \<open>What an item of the queue becomes: a pending one is sent and then as \<open>f\<close> says.\<close>

definition afterSubmission :: "string \<Rightarrow> (sync_item \<Rightarrow> mobile_queue_status) \<Rightarrow> sync_item \<Rightarrow> sync_item" where
  "afterSubmission t f q = (if mq_status q = M_pending then (markSent t q)\<lparr>mq_status := f q\<rparr> else q)"

lemma queue_resubmitted:
  assumes Q: "keyed_items Q" and id: "\<And>q. mq_queueItemId (h q) = mq_queueItemId q"
    and h: "\<And>q. mq_status q = M_pending \<Longrightarrow> h (markSent t q) = (markSent t q)\<lparr>mq_status := f q\<rparr>"
  defines "marked \<equiv> map (markSent t) (filter (\<lambda>q. mq_status q = M_pending) (jvalues Q))"
  defines "put \<equiv> fold (\<lambda>q. jset (mq_queueItemId q) q)"
  shows "jget (put (map h marked) (put marked Q)) k = map_option (afterSubmission t f) (jget Q k)"
    and "jwf (put (map h marked) (put marked Q))"
proof -
  let ?P = "\<lambda>q. mq_status q = M_pending"
  have mark: "mq_queueItemId (markSent t q) = mq_queueItemId q" for q
    by (simp add: markSent_def)
  have first: "jget (put marked Q) k = map_option (\<lambda>q. if ?P q then markSent t q else q) (jget Q k)" for k
    unfolding put_def marked_def by (rule jget_rewrite [OF Q mark]) simp
  have "jget (put (map (h \<circ> markSent t) (filter ?P (jvalues Q))) (put marked Q)) k
      = map_option (\<lambda>q. if ?P q then (h \<circ> markSent t) q else q) (jget Q k)"
    unfolding put_def
  proof (rule jget_rewrite [OF Q])
    show "jget (fold (\<lambda>q. jset (mq_queueItemId q) q) marked Q) k = jget Q k"
      if "\<And>q. jget Q k = Some q \<Longrightarrow> \<not> ?P q" for k
      using first [of k] that unfolding put_def by (cases "jget Q k") auto
  qed (simp add: id mark)
  then show "jget (put (map h marked) (put marked Q)) k = map_option (afterSubmission t f) (jget Q k)"
    using h by (cases "jget Q k") (simp_all add: marked_def afterSubmission_def)
  show "jwf (put (map h marked) (put marked Q))"
    using Q by (simp add: put_def jwf_fold_jset keyed_items_def)
qed


text \<open>The outcome of a submission, on every branch.\<close>

definition submittedQueue :: "string \<Rightarrow> (sync_item \<Rightarrow> mobile_queue_status) \<Rightarrow> device \<Rightarrow> device \<Rightarrow> bool" where
  "submittedQueue t f d e \<longleftrightarrow> jwf (dv_queue e)
     \<and> (\<forall>k. jget (dv_queue e) k = map_option (afterSubmission t f) (jget (dv_queue d) k))
     \<and> dv_drafts e = dv_drafts d \<and> dv_grants e = dv_grants d \<and> dv_ids d \<le> dv_ids e"

definition pendingItems :: "device \<Rightarrow> sync_item list" where
  "pendingItems d = filter (\<lambda>q. mq_status q = M_pending) (jvalues (dv_queue d))"

lemma submit_cases:
  assumes "submitPendingQueue R backend d = (r, e)" "keyed_items (dv_queue d)"
  obtains "e = d" "jget (dv_session d) ''active'' = None \<or> pendingItems d = []"
    | err q where "r = Inl err" "backend q = Inl err"
      "br_items q = map (markSent (mp_now R (dv_reads d))) (pendingItems d)"
      "submittedQueue (mp_now R (dv_reads d)) (\<lambda>_. M_pending) d e"
    | res q where "r = Inr res" "backend q = Inr res"
      "br_items q = map (markSent (mp_now R (dv_reads d))) (pendingItems d)"
      "submittedQueue (mp_now R (dv_reads d))
        (\<lambda>i. if mq_queueItemId i \<in> set (sy_conflicts res) then M_conflict else M_received) d e"
proof -
  let ?t = "mp_now R (dv_reads d)" and ?put = "fold (\<lambda>q. jset (mq_queueItemId q) q)"
  define pending where "pending = filter (\<lambda>q. mq_status q = M_pending) (jvalues (dv_queue d))"
  define marked where "marked = map (markSent ?t) pending"
  show thesis
  proof (cases "jget (dv_session d) ''active'' = None \<or> pending = []")
    case True
    then have "e = d"
      using assms(1)
      by (cases "jget (dv_session d) ''active''") (auto simp: submitPendingQueue_def mobile_defs pending_def)
    with True show thesis by (intro that(1)) (auto simp: pending_def pendingItems_def)
  next
    case False
    then obtain session where session: "jget (dv_session d) ''active'' = Some session" and some: "pending \<noteq> []"
      by auto
    define q where "q = \<lparr>br_tenantId = ms_tenantId session, br_orgUnitId = ms_orgUnitId session,
      br_agentId = ms_agentId session, br_deviceId = ms_deviceId session,
      br_deviceBatchId = mp_uuid R ''device-batch'' (dv_ids d), br_items = marked\<rparr>"
    let ?d = "d\<lparr>dv_reads := dv_reads d + 1, dv_queue := ?put marked (dv_queue d), dv_ids := dv_ids d + 1\<rparr>"
    have run: "(r, e) = (case backend q of Inl err \<Rightarrow> bindM (restoreItems marked) (\<lambda>_. throwM err) ?d
        | Inr result \<Rightarrow> bindM (settleItems result marked) (\<lambda>_. returnM result) ?d)"
      using assms(1) session some unfolding submitPendingQueue_def
      by (simp add: bindM_def requireSession_def readM_def nowM_def uuidM_def putItems_eq Let_def pending_def [symmetric]
          marked_def [symmetric] q_def split: sum.splits)
    have items: "br_items q = map (markSent ?t) (pendingItems d)"
      by (simp add: q_def marked_def pending_def pendingItems_def)
    have queue: "submittedQueue ?t f d e"
      if "dv_queue e = ?put (map h marked) (?put marked (dv_queue d))" "dv_drafts e = dv_drafts d"
        "dv_grants e = dv_grants d" "dv_ids d \<le> dv_ids e"
        "\<And>q. mq_queueItemId (h q) = mq_queueItemId q"
        "\<And>q. mq_status q = M_pending \<Longrightarrow> h (markSent ?t q) = (markSent ?t q)\<lparr>mq_status := f q\<rparr>" for f h
      using queue_resubmitted [OF assms(2) that(5,6)] that(1-4)
      by (simp add: submittedQueue_def marked_def pending_def)
    show thesis
    proof (cases "backend q")
      case (Inl err)
      then have "r = Inl err" "e = ?d\<lparr>dv_queue := ?put (map (\<lambda>q. q\<lparr>mq_status := M_pending\<rparr>) marked) (dv_queue ?d)\<rparr>"
        using run by (simp_all add: restoreItems_def putItems_eq bindM_def throwM_def)
      then have "submittedQueue ?t (\<lambda>_. M_pending) d e"
        by (intro queue [of "\<lambda>q. q\<lparr>mq_status := M_pending\<rparr>"]) simp_all
      then show thesis
        by (rule that(2) [OF \<open>r = Inl err\<close> Inl items])
    next
      case (Inr res)
      let ?h = "\<lambda>q. q\<lparr>mq_status := (if mq_queueItemId q \<in> set (sy_conflicts res) then M_conflict else M_received)\<rparr>"
      let ?f = "\<lambda>i. if mq_queueItemId i \<in> set (sy_conflicts res) then M_conflict else M_received"
      have "r = Inr res" "e = ?d\<lparr>dv_queue := ?put (map ?h marked) (dv_queue ?d)\<rparr>"
        using run Inr by (simp_all add: settleItems_def putItems_eq bindM_def returnM_def)
      then have "submittedQueue ?t ?f d e"
        by (intro queue [of ?h]) (simp_all add: markSent_def)
      then show thesis
        by (rule that(3) [OF \<open>r = Inr res\<close> Inr items])
    qed
  qed
qed

lemma submittedQueue_inv:
  assumes "mobile_inv B R d" "submittedQueue t f d e" "\<And>q. f q \<noteq> M_sent"
  shows "mobile_inv B R e"
proof -
  note inv = assms(1)
  have "minv B R (dv_ids d) (jget (dv_grants d)) (jget (dv_drafts d)) (jget (dv_queue e))"
  proof (rule minv_items)
    show "jget (dv_queue e) k = map_option (afterSubmission t f) (jget (dv_queue d) k)" for k
      using assms(2) by (simp add: submittedQueue_def)
    show "mq_queueItemId (afterSubmission t f q) = mq_queueItemId q
      \<and> mq_localEntityId (afterSubmission t f q) = mq_localEntityId q
      \<and> mq_idempotencyKey (afterSubmission t f q) = mq_idempotencyKey q
      \<and> mq_reservedNumber (afterSubmission t f q) = mq_reservedNumber q
      \<and> mq_payloadHash (afterSubmission t f q) = mq_payloadHash q \<and> mq_status (afterSubmission t f q) \<noteq> M_sent"
      if "jget (dv_queue d) k = Some q" for k q
      using assms(3) items_okD(3) [OF minvD(4) [OF mobile_inv_minv [OF inv]] that]
      by (simp add: afterSubmission_def markSent_def)
  qed (use inv in blast)
  then show ?thesis
    using assms(2) inv minv_mono by (auto simp: submittedQueue_def)
qed


subsection \<open>The operations\<close>

inductive mobile_step :: "mobile_runtime \<Rightarrow> device \<Rightarrow> device \<Rightarrow> bool" for R where
  step_bootstrap: "bootstrapSession R ctx posture d = (r0, e) \<Longrightarrow> mobile_step R d e"
| step_session: "bootstrapFromStynxSession R cur posture d = (r1, e) \<Longrightarrow> mobile_step R d e"
| step_install: "installPublishedNormativePackage R fetched d = (r2, e) \<Longrightarrow> mobile_step R d e"
| step_reserve: "reserveMobileNumbering backend ginput d = (r3, e) \<Longrightarrow> mobile_step R d e"
| step_create: "createDraft R dinput d = (r4, e) \<Longrightarrow> mobile_step R d e"
| step_attach: "attachEvidence R i evidence d = (r4, e) \<Longrightarrow> mobile_step R d e"
| step_finalize: "finalizeOffline R i d = (r4, e) \<Longrightarrow> mobile_step R d e"
| step_enqueue: "enqueue R i d = (r5, e) \<Longrightarrow> mobile_step R d e"
| step_submit: "submitPendingQueue R sbackend d = (r6, e) \<Longrightarrow> mobile_step R d e"
| step_resolve: "resolveSimpleConflict R rbackend i resolution d = (r7, e) \<Longrightarrow> mobile_step R d e"
| step_print: "printReceipt R printer i d = (r8, e) \<Longrightarrow> mobile_step R d e"
| step_wipe: "applyRemoteWipe R reason d = (r9, e) \<Longrightarrow> mobile_step R d e"

text \<open>The server grants a reservation under the identifier of one that the device holds; it replaces that one.\<close>

definition regrant :: "string \<Rightarrow> device \<Rightarrow> device \<Rightarrow> bool" where
  "regrant i d e \<longleftrightarrow> (\<exists>backend ginput g. reserveMobileNumbering backend ginput d = (Inr g, e)
     \<and> ng_reservationId g = i \<and> jget (dv_grants d) i \<noteq> None)"

text \<open>Operations that touch none of the three maps.\<close>

definition sameWork :: "device \<Rightarrow> device \<Rightarrow> bool" where
  "sameWork d e \<longleftrightarrow> dv_grants e = dv_grants d \<and> dv_drafts e = dv_drafts d \<and> dv_queue e = dv_queue d
     \<and> dv_ids d \<le> dv_ids e"

lemma sameWork_inv: "mobile_inv B R d \<Longrightarrow> sameWork d e \<Longrightarrow> mobile_inv B R e"
  using minv_mono by (auto simp: sameWork_def)

lemma bootstrap_work: "bootstrapSession R ctx posture d = (r, e) \<Longrightarrow> sameWork d e"
  by (auto simp: bootstrapSession_def mobile_defs Let_def throwIf_def sameWork_def split: if_splits)

lemma bootstrap_session_work: "bootstrapFromStynxSession R cur posture d = (r, e) \<Longrightarrow> sameWork d e"
  using bootstrap_work
  by (cases cur) (auto simp: bootstrapFromStynxSession_def bindM_def callM_def returnM_def sameWork_def
      split: prod.splits sum.splits)

lemma install_work: "installPublishedNormativePackage R fetched d = (r, e) \<Longrightarrow> sameWork d e"
  by (cases fetched) (auto simp: installPublishedNormativePackage_def mobile_defs throwIf_def sameWork_def split: if_splits)

lemma print_work: "printReceipt R printer i d = (r, e) \<Longrightarrow> sameWork d e"
  by (cases "jget (dv_session d) ''active''"; cases "jget (dv_drafts d) i")
    (auto simp: printReceipt_def mobile_defs throwIf_def sameWork_def split: if_splits option.splits sum.splits)

lemma reserve_cases:
  assumes "reserveMobileNumbering backend ginput d = (r, e)"
  obtains "e = d" | g where "r = Inr g" "e = d\<lparr>dv_grants := jset (ng_reservationId g) g (dv_grants d)\<rparr>"
proof (cases "jget (dv_session d) ''active''")
  case None
  then show thesis
    using assms that(1) by (simp add: reserveMobileNumbering_def mobile_defs)
next
  case (Some session)
  define q where "q = \<lparr>gr_tenantId = ms_tenantId session, gr_orgUnitId = ms_orgUnitId session,
     gr_agentId = ms_agentId session, gr_deviceId = ms_deviceId session, gr_shiftId = ms_shiftId session,
     gr_entityType = gi_entityType ginput, gr_requestedSize = gi_requestedSize ginput, gr_series = gi_series ginput\<rparr>"
  note unfold = reserveMobileNumbering_def mobile_defs throwIf_def q_def [symmetric] Some
  show thesis
  proof (cases "\<exists>g. backend q = Inr g \<and> ng_entityType g = gi_entityType ginput")
    case True
    then obtain g where "backend q = Inr g" "ng_entityType g = gi_entityType ginput" by blast
    then show thesis
      using assms by (intro that(2) [of g]) (simp_all add: unfold)
  next
    case False
    then have "e = d"
      using assms by (cases "backend q") (auto simp: unfold)
    then show thesis by (rule that(1))
  qed
qed

lemma reserve_inv:
  assumes "mobile_inv B R d" "reserveMobileNumbering backend ginput d = (r, e)" "\<And>i. i \<in> B \<Longrightarrow> \<not> regrant i d e"
  shows "mobile_inv B R e"
  using assms(2)
proof (cases rule: reserve_cases)
  case (2 g)
  have "jget (dv_grants d) (ng_reservationId g) = None" if "ng_reservationId g \<in> B"
    using assms(2,3) that 2(1) unfolding regrant_def by blast
  from minv_grant [OF mobile_inv_minv [OF assms(1)] this] show ?thesis
    using assms(1) 2(2) by (simp add: jget_jset_map del: jget_jset fun_upd_apply)
qed (use assms(1) in simp)

lemma usableGrant_cases:
  obtains b n where "usableGrant R entityType requested g d = (Inr b, d\<lparr>dv_reads := n\<rparr>)"
proof (cases "ng_status g = Grant_reserved \<and> ng_entityType g = entityType")
  case True
  then show thesis
    using that [of _ "dv_reads d + 1"] by (simp add: usableGrant_def bindM_def nowM_def returnM_def)
next
  case False
  then have "usableGrant R entityType requested g d = (Inr False, d\<lparr>dv_reads := dv_reads d\<rparr>)"
    by (auto simp: usableGrant_def returnM_def)
  then show thesis by (rule that)
qed

lemma findGrant_cases:
  "\<exists>x n. findGrant R entityType requested gs d = (Inr x, d\<lparr>dv_reads := n\<rparr>) \<and> (\<forall>g. x = Some g \<longrightarrow> g \<in> set gs)"
proof (induction gs arbitrary: d)
  case Nil
  show ?case
    by (intro exI [of _ None] exI [of _ "dv_reads d"]) (simp add: returnM_def)
next
  case (Cons g gs)
  obtain b n where u: "usableGrant R entityType requested g d = (Inr b, d\<lparr>dv_reads := n\<rparr>)"
    by (rule usableGrant_cases)
  obtain x m where rest: "findGrant R entityType requested gs (d\<lparr>dv_reads := n\<rparr>) = (Inr x, d\<lparr>dv_reads := n\<rparr>\<lparr>dv_reads := m\<rparr>)"
    "\<And>g. x = Some g \<Longrightarrow> g \<in> set gs"
    using Cons.IH by blast
  show ?case
  proof (cases b)
    case True
    then show ?thesis
      using u by (intro exI [of _ "Some g"] exI [of _ n]) (simp add: bindM_def returnM_def)
  next
    case False
    then show ?thesis
      using u rest by (intro exI [of _ x] exI [of _ m]) (simp add: bindM_def)
  qed
qed

text \<open>A state in which only the clock was read.\<close>

lemma reads_only_inv: "mobile_inv B R d \<Longrightarrow> e = d\<lparr>dv_reads := n\<rparr> \<Longrightarrow> mobile_inv B R e"
  by simp

lemma consume_cases:
  obtains err n where "consumeReservationNumber R t requested d = (Inl err, d\<lparr>dv_reads := n\<rparr>)"
    | g n where "g \<in> set (jvalues (dv_grants d))" "consumeReservationNumber R t requested d
      = (Inr g, d\<lparr>dv_reads := n, dv_grants := jset (ng_reservationId g) (consumedGrant g) (dv_grants d)\<rparr>)"
proof -
  obtain x n where x: "findGrant R t requested (jvalues (dv_grants d)) d = (Inr x, d\<lparr>dv_reads := n\<rparr>)"
    "\<And>g. x = Some g \<Longrightarrow> g \<in> set (jvalues (dv_grants d))"
    using findGrant_cases by blast
  show thesis
  proof (cases x)
    case None
    then have "consumeReservationNumber R t requested d
        = (Inl (RuntimeError ''No usable reserved numbering interval is available for offline drafting''), d\<lparr>dv_reads := n\<rparr>)"
      using x by (simp add: consumeReservationNumber_def bindM_def readM_def throwM_def)
    then show thesis by (rule that(1))
  next
    case (Some g)
    then show thesis
      using x by (intro that(2) [of g n])
        (simp_all add: consumeReservationNumber_def mobile_defs consumedGrant_def)
  qed
qed

lemma create_inv:
  assumes inv: "mobile_inv B R d" and run: "createDraft R dinput d = (r, e)" and ids: "distinct_ids R"
  shows "mobile_inv B R e"
proof (cases "jget (dv_session d) ''active'' = None \<or> jget (dv_package d) ''active'' = None")
  case True
  then have "e = d"
    using run by (cases "jget (dv_session d) ''active''") (auto simp: createDraft_def mobile_defs)
  with inv show ?thesis by simp
next
  case False
  then obtain session package where found: "jget (dv_session d) ''active'' = Some session"
      "jget (dv_package d) ''active'' = Some package"
    by auto
  show ?thesis
  proof (cases rule: consume_cases [of R "dr_entityType dinput" "dr_reservedNumber dinput" d])
    case (1 err n)
    then have "e = d\<lparr>dv_reads := n\<rparr>"
      using run found by (simp add: createDraft_def bindM_def requireSession_def requireNormativePackage_def)
    with inv show ?thesis by simp
  next
    case (2 g n)
    define i where "i = mp_uuid R (mp_draftIdPrefix R) (dv_ids d)"
    define x where "x = newDraft R session package g dinput (mp_now R n) i (mp_uuid R ''idem'' (Suc (dv_ids d)))"
    have "e = d\<lparr>dv_reads := n + 1, dv_ids := dv_ids d + 2, dv_drafts := jset i x (dv_drafts d),
        dv_grants := jset (ng_reservationId g) (consumedGrant g) (dv_grants d)\<rparr>"
      using run found 2(2) unfolding createDraft_def
      by (auto simp: bindM_def requireSession_def requireNormativePackage_def nowM_def uuidM_def putDraft_def writeM_def
          returnM_def Let_def i_def x_def)
    then have e: "dv_grants e = jset (ng_reservationId g) (consumedGrant g) (dv_grants d)"
        "dv_drafts e = jset i x (dv_drafts d)" "dv_queue e = dv_queue d" "dv_ids e = dv_ids d + 2"
      by simp_all
    have m: "minv B R (dv_ids d) (jget (dv_grants d)) (jget (dv_drafts d)) (jget (dv_queue d))"
      using inv by blast
    obtain k where "jget (dv_grants d) k = Some g"
      using inv 2(1) by (auto simp: in_jvalues)
    then have g: "jget (dv_grants d) (ng_reservationId g) = Some g"
      using minvD(1) [OF m] by (auto simp: grants_ok_def)
    have "minv B R (dv_ids d + 2) ((jget (dv_grants d))(ng_reservationId g \<mapsto> consumedGrant g))
        ((jget (dv_drafts d))(i \<mapsto> x)) (jget (dv_queue d))"
      unfolding i_def by (rule minv_consume [OF m g ids order_refl]) (simp_all add: consumedGrant_def x_def newDraft_def i_def Let_def)
    then show ?thesis
      using inv by (simp add: e jget_jset_map del: jget_jset fun_upd_apply)
  qed
qed


text \<open>A rewritten draft.\<close>

definition rewritesDraft :: "string \<Rightarrow> entity_draft \<Rightarrow> device \<Rightarrow> device \<Rightarrow> bool" where
  "rewritesDraft k y d e \<longleftrightarrow> dv_drafts e = jset k y (dv_drafts d) \<and> dv_grants e = dv_grants d \<and> dv_queue e = dv_queue d
     \<and> dv_ids e = dv_ids d"

lemma rewritesDraft_inv:
  assumes "mobile_inv B R d" "rewritesDraft k y d e" "jget (dv_drafts d) k = Some x"
    "md_localId y = md_localId x" "md_reservationId y = md_reservationId x" "md_reservedNumber y = md_reservedNumber x"
    "md_idempotencyKey y = md_idempotencyKey x" "inQueue y = inQueue x"
    "inQueue x \<Longrightarrow> md_localContentHash y = md_localContentHash x"
  shows "mobile_inv B R e"
  using assms(1,2) minv_rewrite [OF mobile_inv_minv [OF assms(1)] assms(3-9)]
  by (simp add: rewritesDraft_def jget_jset_map del: jget_jset fun_upd_apply)

lemma attach_cases:
  assumes "attachEvidence R i evidence d = (r, e)"
  obtains "e = d" | x linked t where "jget (dv_drafts d) i = Some x"
    "rewritesDraft i (x\<lparr>md_evidence := md_evidence x @ [linked], md_updatedAt := t\<rparr>) d e"
proof (cases "(ev_hashAlgorithm evidence \<noteq> ''sha256'' \<or> ev_hashValue evidence = []
    \<or> \<not> startsWith (ev_hashValue evidence) ''sha256:'') \<or> jget (dv_drafts d) i = None")
  case True
  then have "e = d"
    using assms by (auto simp: attachEvidence_def bindM_def callM_def throwIf_def requireDraft_def split: if_splits)
  then show thesis by (rule that(1))
next
  case False
  then obtain x where x: "jget (dv_drafts d) i = Some x" by auto
  let ?linked = "evidence\<lparr>ev_linkedLocalEntityId := Some i\<rparr>"
  have "rewritesDraft i (x\<lparr>md_evidence := md_evidence x @ [?linked], md_updatedAt := mp_now R (dv_reads d)\<rparr>) d e"
    using assms False x by (auto simp: attachEvidence_def mobile_defs Let_def rewritesDraft_def)
  with x show thesis by (rule that(2))
qed

lemma attach_inv:
  assumes "mobile_inv B R d" "attachEvidence R i evidence d = (r, e)"
  shows "mobile_inv B R e"
  using assms(2)
proof (cases rule: attach_cases)
  case (2 x linked t)
  show ?thesis
    by (rule rewritesDraft_inv [OF assms(1) 2(2,1)]) (simp_all add: inQueue_def)
qed (use assms(1) in simp)

lemma finalize_cases:
  assumes "finalizeOffline R i d = (r, e)"
  obtains "e = d" | x h t u where "jget (dv_drafts d) i = Some x" "md_status x = D_draft"
    "rewritesDraft i (x\<lparr>md_status := D_finalized, md_finalizedAt := Some t, md_localContentHash := h, md_updatedAt := u\<rparr>) d e"
proof (cases "jget (dv_drafts d) i")
  case None
  then show thesis
    using assms that(1) by (simp add: finalizeOffline_def mobile_defs)
next
  case (Some x)
  show thesis
  proof (cases "md_status x = D_draft \<and> assertOfflineInvariant R x = Inr ()")
    case True
    then show thesis
      using assms Some by (intro that(2) [OF Some]) (auto simp: finalizeOffline_def mobile_defs Let_def rewritesDraft_def)
  next
    case False
    then have "e = d"
      using assms Some
      by (cases "assertOfflineInvariant R x") (auto simp: finalizeOffline_def mobile_defs throwIf_def split: if_splits)
    then show thesis by (rule that(1))
  qed
qed

lemma finalize_inv:
  assumes "mobile_inv B R d" "finalizeOffline R i d = (r, e)"
  shows "mobile_inv B R e"
  using assms(2)
proof (cases rule: finalize_cases)
  case (2 x h t u)
  show ?thesis
    by (rule rewritesDraft_inv [OF assms(1) 2(3,1)]) (simp_all add: inQueue_def 2(2))
qed (use assms(1) in simp)

lemma enqueue_inv:
  assumes inv: "mobile_inv B R d" and run: "enqueue R i d = (r, e)" and ids: "distinct_ids R"
  shows "mobile_inv B R e"
proof (cases "\<exists>x. jget (dv_drafts d) i = Some x \<and> md_status x = D_finalized")
  case False
  then have "e = d"
    using run by (cases "jget (dv_drafts d) i") (auto simp: enqueue_def mobile_defs)
  with inv show ?thesis by simp
next
  case True
  then obtain x where x: "jget (dv_drafts d) i = Some x" "md_status x = D_finalized" by blast
  define k where "k = mp_uuid R ''sync-item'' (dv_ids d)"
  define y where "y = x\<lparr>md_status := D_queued, md_updatedAt := mp_now R (dv_reads d)\<rparr>"
  have e: "dv_grants e = dv_grants d" "dv_drafts e = jset i y (dv_drafts d)" "dv_queue e = jset k (newItem x k) (dv_queue d)"
      "dv_ids e = dv_ids d + 1"
    using run x by (auto simp: enqueue_def mobile_defs Let_def k_def y_def newItem_def)
  have "minv B R (dv_ids d + 1) (jget (dv_grants d)) ((jget (dv_drafts d))(i \<mapsto> y)) ((jget (dv_queue d))(k \<mapsto> newItem x k))"
    unfolding k_def
    by (rule minv_enqueue [OF mobile_inv_minv [OF inv] x(1) _ ids order_refl])
      (simp_all add: x(2) inQueue_def y_def newItem_def standsFor_def)
  then show ?thesis
    using inv by (simp add: e jget_jset_map del: jget_jset fun_upd_apply)
qed

lemma resolve_inv:
  assumes inv: "mobile_inv B R d" and run: "resolveSimpleConflict R backend i resolution d = (r, e)"
  shows "mobile_inv B R e"
proof -
  note m = mobile_inv_minv [OF inv]
  have "e = d \<or> (\<exists>q x t. jget (dv_queue d) i = Some q \<and> jget (dv_drafts d) (mq_localEntityId q) = Some x
      \<and> dv_queue e = jset (mq_queueItemId q) (q\<lparr>mq_status := M_applied\<rparr>) (dv_queue d)
      \<and> dv_drafts e = jset (md_localId x) (x\<lparr>md_status := D_synced, md_updatedAt := t\<rparr>) (dv_drafts d)
      \<and> dv_grants e = dv_grants d \<and> dv_ids e = dv_ids d)"
  proof (cases "jget (dv_session d) ''active'' = None \<or> jget (dv_queue d) i = None")
    case True
    then have "e = d"
      using run by (cases "jget (dv_session d) ''active''") (auto simp: resolveSimpleConflict_def mobile_defs)
    then show ?thesis ..
  next
    case False
    then obtain session q where found: "jget (dv_session d) ''active'' = Some session" "jget (dv_queue d) i = Some q"
      by auto
    obtain x where x: "jget (dv_drafts d) (mq_localEntityId q) = Some x"
      using items_okD(4) [OF minvD(4) [OF m] found(2)] by blast
    show ?thesis
      using run found x
      by (auto simp: resolveSimpleConflict_def mobile_defs throwIf_def split: if_splits sum.splits)
  qed
  then show ?thesis
  proof (elim disjE exE conjE)
    fix q x t
    assume q: "jget (dv_queue d) i = Some q" and x: "jget (dv_drafts d) (mq_localEntityId q) = Some x"
      and e: "dv_queue e = jset (mq_queueItemId q) (q\<lparr>mq_status := M_applied\<rparr>) (dv_queue d)"
        "dv_drafts e = jset (md_localId x) (x\<lparr>md_status := D_synced, md_updatedAt := t\<rparr>) (dv_drafts d)"
        "dv_grants e = dv_grants d" "dv_ids e = dv_ids d"
    have keys: "mq_queueItemId q = i" "inQueue x" "md_localId x = mq_localEntityId q"
      using items_okD [OF minvD(4) [OF m] q] x by (auto simp: standsFor_def)
    have "minv B R (dv_ids d) (jget (dv_grants d)) ((jget (dv_drafts d))(md_localId x \<mapsto> x\<lparr>md_status := D_synced, md_updatedAt := t\<rparr>))
        (jget (dv_queue d))"
      by (rule minv_rewrite [OF m]) (use x keys in \<open>simp_all add: inQueue_def\<close>)
    from minv_items [OF this, of "(jget (dv_queue d))(i \<mapsto> q\<lparr>mq_status := M_applied\<rparr>)"
        "\<lambda>p. if mq_queueItemId p = i then p\<lparr>mq_status := M_applied\<rparr> else p"]
    have "minv B R (dv_ids d) (jget (dv_grants d)) ((jget (dv_drafts d))(md_localId x \<mapsto> x\<lparr>md_status := D_synced, md_updatedAt := t\<rparr>))
        ((jget (dv_queue d))(i \<mapsto> q\<lparr>mq_status := M_applied\<rparr>))"
      using items_okD(1,3) [OF minvD(4) [OF m]] q keys by (auto simp: map_option_case split: option.splits)
    then show ?thesis
      using inv by (simp add: e keys jget_jset_map del: jget_jset fun_upd_apply)
  qed (use inv in simp)
qed

lemma wipe_inv: "applyRemoteWipe R reason d = (r, e) \<Longrightarrow> mobile_inv B R e"
  using minv_empty by (auto simp: applyRemoteWipe_def mobile_defs clearStore_def Let_def)

lemma submit_inv:
  assumes "mobile_inv B R d" "submitPendingQueue R backend d = (r, e)"
  shows "mobile_inv B R e"
  using assms(2) mobile_inv_keyed [OF assms(1)]
proof (cases rule: submit_cases)
  case 1
  with assms(1) show ?thesis by simp
next
  case (2 err q)
  then show ?thesis
    using submittedQueue_inv [OF assms(1)] by blast
next
  case (3 res q)
  then show ?thesis
    using submittedQueue_inv [OF assms(1) 3(4)] by simp
qed

lemma mobile_step_inv:
  assumes "mobile_inv B R d" "distinct_ids R" "mobile_step R d e" "\<And>i. i \<in> B \<Longrightarrow> \<not> regrant i d e"
  shows "mobile_inv B R e"
  using assms(3)
proof cases
  case step_bootstrap
  then show ?thesis by (rule sameWork_inv [OF assms(1) bootstrap_work])
next
  case step_session
  then show ?thesis by (rule sameWork_inv [OF assms(1) bootstrap_session_work])
next
  case step_install
  then show ?thesis by (rule sameWork_inv [OF assms(1) install_work])
next
  case step_reserve
  then show ?thesis using assms(4) by (rule reserve_inv [OF assms(1)])
next
  case step_create
  then show ?thesis by (rule create_inv [OF assms(1) _ assms(2)])
next
  case step_attach
  then show ?thesis by (rule attach_inv [OF assms(1)])
next
  case step_finalize
  then show ?thesis by (rule finalize_inv [OF assms(1)])
next
  case step_enqueue
  then show ?thesis by (rule enqueue_inv [OF assms(1) _ assms(2)])
next
  case step_submit
  then show ?thesis by (rule submit_inv [OF assms(1)])
next
  case step_resolve
  then show ?thesis by (rule resolve_inv [OF assms(1)])
next
  case step_print
  then show ?thesis by (rule sameWork_inv [OF assms(1) print_work])
next
  case step_wipe
  then show ?thesis by (rule wipe_inv)
qed

end
