(* ===== verification/Mobile_Props.thy ===== *)
theory Mobile_Props
  imports Mobile_Runs
begin

text \<open>
  The properties of the offline client: a number is issued once unless the server grants its reservation again, a draft
  is queued once, a submission settles every pending item or puts it back; and what the content hash of a queued draft
  covers. The hypothesis \<open>distinct_ids\<close> says that the identifier port never gives an identifier twice; the answers of the
  server are not restricted.
\<close>

subsection \<open>Runs\<close>

definition mobile_empty :: "device \<Rightarrow> bool" where
  "mobile_empty d \<longleftrightarrow> dv_grants d = [] \<and> dv_drafts d = [] \<and> dv_queue d = []"

text \<open>Steps of a device of which no reservation of a set is granted anew.\<close>

definition runtime_step :: "string set \<Rightarrow> mobile_runtime \<Rightarrow> device \<Rightarrow> device \<Rightarrow> bool" where
  "runtime_step B R d e \<longleftrightarrow> distinct_ids R \<and> mobile_step R d e \<and> (\<forall>i\<in>B. \<not> regrant i d e)"

interpretation runtime: transition_system mobile_empty "runtime_step B R" "mobile_inv B R" for B R
proof
  show "mobile_inv B R d" if "mobile_empty d" for d
    using that minv_empty by (simp add: mobile_empty_def)
  show "mobile_inv B R e" if "mobile_inv B R d" "runtime_step B R d e" for d e
    using that(2) unfolding runtime_step_def by (intro mobile_step_inv [OF that(1)]) blast+
qed


lemma mobile_reachable:
  assumes "mobile_empty d0" "(mobile_step R)\<^sup>*\<^sup>* d0 d" "distinct_ids R"
  shows "mobile_inv {} R d"
proof -
  have "runtime_step {} R = mobile_step R"
    using assms(3) by (intro ext) (simp add: runtime_step_def)
  then show ?thesis
    using runtime.reachable_inv [OF assms(1), of "{}" R d] assms(2) by simp
qed

subsection \<open>Numbers and queue\<close>


text \<open>C11. A draft is queued once. In every reachable state an item of the queue stands for a stored draft that is
  queued or synced, with the draft's key, number and content hash; no other item stands for the same draft; and no item
  is left marked as sent, so none is lost to later submissions.\<close>

theorem draft_enqueued_once:
  assumes "mobile_empty d0" "(mobile_step R)\<^sup>*\<^sup>* d0 d" "distinct_ids R" "jget (dv_queue d) k = Some q"
  shows "mq_status q \<noteq> M_sent
    \<and> (\<exists>x. jget (dv_drafts d) (mq_localEntityId q) = Some x \<and> md_status x \<in> {D_queued, D_synced}
        \<and> mq_idempotencyKey q = md_idempotencyKey x \<and> mq_reservedNumber q = md_reservedNumber x
        \<and> mq_payloadHash q = md_localContentHash x)
    \<and> (\<forall>j r. jget (dv_queue d) j = Some r \<longrightarrow> mq_localEntityId r = mq_localEntityId q \<longrightarrow> j = k)"
proof -
  note m = mobile_inv_minv [OF mobile_reachable [OF assms(1-3)]]
  from items_okD(3,4) [OF minvD(4) [OF m] assms(4)] show ?thesis
    using once_okD(1) [OF minvD(5) [OF m] _ assms(4)] unfolding standsFor_def inQueue_def by blast
qed

subsection \<open>Submission\<close>

lemma pendingItems_in:
  assumes "keyed_items (dv_queue d)" "jget (dv_queue d) k = Some q" "mq_status q = M_pending"
  shows "q \<in> set (pendingItems d)" "mq_queueItemId q = k"
  using assms by (auto simp: pendingItems_def keyed_items_def in_jvalues)

text \<open>C12. A submission settles every pending item or puts it back. Each pending item is part of the request; if the
  server throws, the error is passed on and the item is pending again, with one more attempt on record; if it answers,
  the item is in conflict or received as the answer says. Items that were not pending stay as they are.\<close>

theorem submission_settles_or_restores:
  assumes "mobile_empty d0" "(mobile_step R)\<^sup>*\<^sup>* d0 d" "distinct_ids R" "submitPendingQueue R backend d = (r, e)"
    "jget (dv_session d) ''active'' = Some session" "jget (dv_queue d) k = Some q"
  shows "if mq_status q = M_pending then
      (\<exists>q' request t. jget (dv_queue e) k = Some q' \<and> markSent t q \<in> set (br_items request)
        \<and> mq_attempts q' = mq_attempts q + 1 \<and> mq_payloadHash q' = mq_payloadHash q
        \<and> (case backend request of
            Inl err \<Rightarrow> r = Inl err \<and> mq_status q' = M_pending
          | Inr res \<Rightarrow> r = Inr res \<and> mq_status q' = (if k \<in> set (sy_conflicts res) then M_conflict else M_received)))
    else jget (dv_queue e) k = Some q"
proof -
  let ?t = "mp_now R (dv_reads d)"
  have keyed: "keyed_items (dv_queue d)"
    by (rule mobile_inv_keyed [OF mobile_reachable [OF assms(1-3)]])
  from assms(4) keyed show ?thesis
  proof (cases rule: submit_cases)
    case 1
    then show ?thesis
      using pendingItems_in [OF keyed assms(6)] assms(5,6) by auto
  next
    case (2 err request)
    have "jget (dv_queue e) k = Some (afterSubmission ?t (\<lambda>_. M_pending) q)"
      using 2(4) assms(6) by (simp add: submittedQueue_def)
    moreover have "markSent ?t q \<in> set (br_items request)" if "mq_status q = M_pending"
      using pendingItems_in(1) [OF keyed assms(6) that] 2(3) by simp
    ultimately show ?thesis
      using 2(1,2) by (auto simp: afterSubmission_def markSent_def intro!: exI [of _ request] exI [of _ ?t])
  next
    case (3 res request)
    let ?f = "\<lambda>i. if mq_queueItemId i \<in> set (sy_conflicts res) then M_conflict else M_received"
    have "jget (dv_queue e) k = Some (afterSubmission ?t ?f q)"
      using 3(4) assms(6) by (simp add: submittedQueue_def)
    moreover have "markSent ?t q \<in> set (br_items request)" "mq_queueItemId q = k" if "mq_status q = M_pending"
      using pendingItems_in [OF keyed assms(6) that] 3(3) by simp_all
    ultimately show ?thesis
      using 3(1,2) by (auto simp: afterSubmission_def markSent_def intro!: exI [of _ request] exI [of _ ?t])
  qed
qed

subsection \<open>What the hash covers\<close>

text \<open>Evidence attached after finalization is submitted but not hashed. The runtime does not refuse evidence for a
  finalized draft; the item then queued carries that evidence in its payload, under the hash the draft had before.\<close>

theorem later_evidence_not_hashed:
  assumes "finalizeOffline R i d = (Inr x, d1)" "ev_hashAlgorithm evidence = ''sha256''"
    "startsWith (ev_hashValue evidence) ''sha256:''"
  shows "\<exists>y d2 q d3. attachEvidence R i evidence d1 = (Inr y, d2) \<and> enqueue R i d2 = (Inr q, d3)
    \<and> md_evidence y = md_evidence x @ [evidence\<lparr>ev_linkedLocalEntityId := Some i\<rparr>]
    \<and> mq_payloadJson q = toSyncPayload y \<and> mq_payloadHash q = md_localContentHash x"
proof -
  have x: "jget (dv_drafts d1) i = Some x" "md_status x = D_finalized"
    using assms(1) by (cases "jget (dv_drafts d) i"; auto simp: finalizeOffline_def mobile_defs throwIf_def Let_def
        split: if_splits sum.splits)+
  define y where "y = x\<lparr>md_evidence := md_evidence x @ [evidence\<lparr>ev_linkedLocalEntityId := Some i\<rparr>],
    md_updatedAt := mp_now R (dv_reads d1)\<rparr>"
  define d2 where "d2 = snd (attachEvidence R i evidence d1)"
  have "ev_hashValue evidence \<noteq> []"
    using assms(3) by auto
  then have "fst (attachEvidence R i evidence d1) = Inr y" "jget (dv_drafts d2) i = Some y"
    using assms(2,3) x by (simp_all add: attachEvidence_def mobile_defs Let_def y_def d2_def)
  moreover from this(2) have "fst (enqueue R i d2) = Inr (newItem y (mp_uuid R ''sync-item'' (dv_ids d2)))"
    using x(2) by (simp add: enqueue_def mobile_defs Let_def y_def)
  ultimately show ?thesis
    by (intro exI [of _ y] exI [of _ d2]) (auto simp: y_def newItem_def d2_def prod_eq_iff)
qed


subsection \<open>A small run\<close>

definition demo_runtime :: mobile_runtime where
  "demo_runtime = \<lparr>mp_now = (\<lambda>n. toISOString 0), mp_uuid = (\<lambda>p n. CHR ''i'' # replicate n CHR ''1''),
     mp_contentHash = (\<lambda>v. ''sha256:h''), mp_requiredRoles = [''agent''], mp_requireEvidence = False,
     mp_draftIdPrefix = ''entity-local''\<rparr>"

definition demo_device :: device where
  "demo_device = \<lparr>dv_session = [], dv_device = [], dv_package = [], dv_grants = [], dv_drafts = [], dv_evidence = [],
     dv_queue = [], dv_resolutions = [], dv_receipts = [], dv_wipes = [], dv_reads = 0, dv_ids = 0\<rparr>"

definition demo_session :: mobile_session where
  "demo_session = \<lparr>ms_tenantId = ''t1'', ms_orgUnitId = ''ou'', ms_agentId = ''agent-1'', ms_deviceId = ''device-1'',
     ms_shiftId = ''shift-1'', ms_appVersion = ''1'', ms_roles = [''agent'']\<rparr>"

definition demo_posture :: device_posture where
  "demo_posture = \<lparr>dp_homologated = True, dp_remoteWipeVersion = 1, dp_secureHardwareBacked = True,
     dp_printerStatus = ''missing'', dp_networkStatus = ''offline''\<rparr>"

definition demo_package :: normative_package where
  "demo_package = \<lparr>np_packageId = ''pkg'', np_packageVersion = ''1'', np_manifestHash = ''sha256:m'',
     np_validUntil = toISOString 5000, np_status = Package_published\<rparr>"

definition demo_grant :: numbering_grant where
  "demo_grant = \<lparr>ng_reservationId = ''r1'', ng_rangeId = ''range'', ng_entityType = ''doc'', ng_series = ''A'',
     ng_startNumber = 10, ng_endNumber = 12, ng_nextNumber = 10, ng_validUntil = toISOString 1000,
     ng_status = Grant_reserved\<rparr>"

definition demo_new :: draft_input where
  "demo_new = \<lparr>dr_entityType = ''doc'', dr_payload = [(''a'', JNum 1)], dr_location = Some (JObj []),
     dr_observedAt = toISOString (- 1000), dr_reservedNumber = None\<rparr>"

definition demo_evidence :: evidence_draft where
  "demo_evidence = \<lparr>ev_localEvidenceId = ''e1'', ev_hashAlgorithm = ''sha256'', ev_hashValue = ''sha256:e'',
     ev_mediaType = ''image/jpeg'', ev_capturedAt = toISOString 0, ev_storageIntentId = None,
     ev_linkedLocalEntityId = None\<rparr>"

definition demo_started :: device where
  "demo_started = snd (bootstrapSession demo_runtime demo_session demo_posture demo_device)"

definition demo_installed :: device where
  "demo_installed = snd (installPublishedNormativePackage demo_runtime (Inr demo_package) demo_started)"

definition demo_server :: "grant_request \<Rightarrow> mobile_error + numbering_grant" where
  "demo_server request = Inr demo_grant"

definition demo_grant_input :: grant_input where
  "demo_grant_input = \<lparr>gi_entityType = ''doc'', gi_requestedSize = 3, gi_series = None\<rparr>"

definition demo_granted :: device where
  "demo_granted = snd (reserveMobileNumbering demo_server demo_grant_input demo_installed)"

definition demo_drafted :: device where
  "demo_drafted = snd (createDraft demo_runtime demo_new demo_granted)"

definition demo_drafted2 :: device where
  "demo_drafted2 = snd (createDraft demo_runtime demo_new demo_drafted)"

definition demo_finalized :: device where
  "demo_finalized = snd (finalizeOffline demo_runtime ''i'' demo_drafted2)"

definition demo_queued :: device where
  "demo_queued = snd (enqueue demo_runtime ''i'' demo_finalized)"

lemma demo_distinct: "distinct_ids demo_runtime"
  by (simp add: distinct_ids_def demo_runtime_def)

lemma demo_mobile_empty: "mobile_empty demo_device"
  by (simp add: mobile_empty_def demo_device_def)

text \<open>The states of the run, one after the other.\<close>

lemma demo_instants:
  "date_parse (toISOString 0) = Some 0" "date_parse (toISOString 1000) = Some 1000"
  "date_parse (toISOString 5000) = Some 5000"
  by (rule date_parse_toISOString, simp add: date_in_range_def)+

lemma demo_ids:
  "replicate 2 CHR ''1'' = ''11''" "replicate 4 CHR ''1'' = ''1111''"
  by code_simp+

lemma demo_started_eq: "demo_started = demo_device\<lparr>dv_session := [(''active'', demo_session)],
    dv_device := [(''device-1'', demo_posture)]\<rparr>"
  by (simp add: demo_started_def bootstrapSession_def mobile_defs demo_runtime_def demo_session_def demo_posture_def
      demo_device_def)

lemma demo_installed_eq: "demo_installed = demo_started\<lparr>dv_package := [(''active'', demo_package)], dv_reads := 1\<rparr>"
  by (simp add: demo_installed_def installPublishedNormativePackage_def mobile_defs demo_runtime_def demo_package_def
      demo_instants demo_started_eq demo_device_def)

lemma demo_granted_eq: "demo_granted = demo_installed\<lparr>dv_grants := [(''r1'', demo_grant)]\<rparr>"
  by (simp add: demo_granted_def reserveMobileNumbering_def mobile_defs demo_server_def demo_grant_def
      demo_grant_input_def demo_installed_eq demo_started_eq demo_device_def)

definition demo_draft :: "int \<Rightarrow> string \<Rightarrow> string \<Rightarrow> entity_draft" where
  "demo_draft n i key = newDraft demo_runtime demo_session demo_package (demo_grant\<lparr>ng_nextNumber := n\<rparr>) demo_new
     (toISOString 0) i key"

lemmas demo_states = demo_granted_eq demo_installed_eq demo_started_eq demo_device_def

lemmas demo_parts = demo_ids demo_runtime_def demo_grant_def demo_new_def demo_instants consumedGrant_def

lemma demo_drafted_eq: "demo_drafted = demo_granted\<lparr>dv_reads := 3, dv_ids := 2,
    dv_grants := [(''r1'', demo_grant\<lparr>ng_nextNumber := 11\<rparr>)], dv_drafts := [(''i'', demo_draft 10 ''i'' ''i1'')]\<rparr>"
  by (simp add: demo_drafted_def createDraft_def consumeReservationNumber_def usableGrant_def mobile_defs demo_states
      demo_parts jvalues_def demo_draft_def Let_def numeral_2_eq_2 numeral_3_eq_3)

lemma demo_drafted2_eq: "demo_drafted2 = demo_drafted\<lparr>dv_reads := 5, dv_ids := 4,
    dv_grants := [(''r1'', demo_grant\<lparr>ng_nextNumber := 12\<rparr>)],
    dv_drafts := [(''i'', demo_draft 10 ''i'' ''i1''), (''i11'', demo_draft 11 ''i11'' ''i111'')]\<rparr>"
  by (simp add: demo_drafted2_def createDraft_def consumeReservationNumber_def usableGrant_def mobile_defs demo_states
      demo_parts jvalues_def demo_draft_def demo_drafted_eq Let_def)


definition demo_final :: entity_draft where
  "demo_final = (demo_draft 10 ''i'' ''i1'')\<lparr>md_status := D_finalized, md_finalizedAt := Some (toISOString 0),
     md_localContentHash := ''sha256:h''\<rparr>"

lemmas demo_drafts = demo_draft_def newDraft_def demo_session_def demo_package_def

lemma demo_finalize_eq: "finalizeOffline demo_runtime ''i'' demo_drafted2 = (Inr demo_final, demo_drafted2\<lparr>dv_reads := 7,
    dv_drafts := [(''i'', demo_final), (''i11'', demo_draft 11 ''i11'' ''i111'')]\<rparr>)"
  by (simp add: finalizeOffline_def assertOfflineInvariant_def mobile_defs demo_states demo_parts demo_drafted_eq
      demo_drafted2_eq demo_final_def demo_drafts Let_def)

lemma demo_finalized_eq: "demo_finalized = demo_drafted2\<lparr>dv_reads := 7,
    dv_drafts := [(''i'', demo_final), (''i11'', demo_draft 11 ''i11'' ''i111'')]\<rparr>"
  by (simp add: demo_finalized_def demo_finalize_eq)

lemma demo_queued_eq: "demo_queued = demo_finalized\<lparr>dv_reads := 8, dv_ids := 5,
    dv_queue := [(''i1111'', newItem demo_final ''i1111'')],
    dv_drafts := [(''i'', demo_final\<lparr>md_status := D_queued\<rparr>), (''i11'', demo_draft 11 ''i11'' ''i111'')]\<rparr>"
  by (simp add: demo_queued_def enqueue_def mobile_defs demo_states demo_parts demo_drafted_eq demo_drafted2_eq
      demo_finalized_eq demo_final_def newItem_def demo_drafts Let_def)

lemma demo_mobile_steps:
  "mobile_step demo_runtime demo_device demo_started" "mobile_step demo_runtime demo_started demo_installed"
  "mobile_step demo_runtime demo_installed demo_granted" "mobile_step demo_runtime demo_granted demo_drafted"
  "mobile_step demo_runtime demo_drafted demo_drafted2" "mobile_step demo_runtime demo_drafted2 demo_finalized"
  "mobile_step demo_runtime demo_finalized demo_queued"
proof -
  show "mobile_step demo_runtime demo_device demo_started"
    unfolding demo_started_def by (rule step_bootstrap [OF prod.collapse [symmetric]])
  show "mobile_step demo_runtime demo_started demo_installed"
    unfolding demo_installed_def by (rule step_install [OF prod.collapse [symmetric]])
  show "mobile_step demo_runtime demo_granted demo_drafted"
    unfolding demo_drafted_def by (rule step_create [OF prod.collapse [symmetric]])
  show "mobile_step demo_runtime demo_drafted demo_drafted2"
    unfolding demo_drafted2_def by (rule step_create [OF prod.collapse [symmetric]])
  show "mobile_step demo_runtime demo_drafted2 demo_finalized"
    unfolding demo_finalized_def by (rule step_finalize [OF prod.collapse [symmetric]])
  show "mobile_step demo_runtime demo_finalized demo_queued"
    unfolding demo_queued_def by (rule step_enqueue [OF prod.collapse [symmetric]])
  show "mobile_step demo_runtime demo_installed demo_granted"
    unfolding demo_granted_def by (rule step_reserve [OF prod.collapse [symmetric]])
qed

lemma mobile_demo_runs:
  "(mobile_step demo_runtime)\<^sup>*\<^sup>* demo_device demo_drafted" "(mobile_step demo_runtime)\<^sup>*\<^sup>* demo_device demo_queued"
  using demo_mobile_steps by (meson rtranclp.rtrancl_into_rtrancl rtranclp.rtrancl_refl)+







theorem draft_enqueued_once_witness:
  "mq_payloadHash (newItem demo_final ''i1111'') = md_localContentHash (demo_final\<lparr>md_status := D_queued\<rparr>)"
proof -
  have "jget (dv_queue demo_queued) ''i1111'' = Some (newItem demo_final ''i1111'')"
    "jget (dv_drafts demo_queued) (mq_localEntityId (newItem demo_final ''i1111'')) = Some (demo_final\<lparr>md_status := D_queued\<rparr>)"
    by (simp_all add: demo_queued_eq newItem_def demo_final_def demo_draft_def newDraft_def Let_def)
  with draft_enqueued_once [OF demo_mobile_empty mobile_demo_runs(2) demo_distinct this(1)] show ?thesis
    by simp
qed

definition demo_offline :: "batch_request \<Rightarrow> mobile_error + sync_result" where
  "demo_offline request = Inl (PortError ''offline'')"

theorem submission_settles_or_restores_witness:
  "\<exists>q. jget (dv_queue (snd (submitPendingQueue demo_runtime demo_offline demo_queued))) ''i1111'' = Some q
    \<and> mq_status q = M_pending \<and> mq_attempts q = 1"
proof -
  let ?q = "newItem demo_final ''i1111''"
  have q: "jget (dv_queue demo_queued) ''i1111'' = Some ?q" "mq_status ?q = M_pending" "mq_attempts ?q = 0"
    by (simp_all add: demo_queued_eq newItem_def)
  have "jget (dv_session demo_queued) ''active'' = Some demo_session"
    by (simp add: demo_queued_eq demo_finalized_eq demo_drafted2_eq demo_drafted_eq demo_states)
  from submission_settles_or_restores [OF demo_mobile_empty mobile_demo_runs(2) demo_distinct prod.collapse [symmetric] this q(1),
      of demo_offline] q(2,3)
  show ?thesis
    by (auto simp: demo_offline_def)
qed

theorem later_evidence_not_hashed_witness:
  "\<exists>d2 q d3. enqueue demo_runtime ''i'' d2 = (Inr q, d3) \<and> mq_payloadHash q = md_localContentHash demo_final"
proof -
  have "ev_hashAlgorithm demo_evidence = ''sha256''" "startsWith (ev_hashValue demo_evidence) ''sha256:''"
    by code_simp+
  from later_evidence_not_hashed [OF demo_finalize_eq this] show ?thesis
    by blast
qed

end
