(* ===== verification/Sequential_Signing.thy ===== *)
theory Sequential_Signing
  imports Js_Buffer Iso_Time
begin

text \<open>
  \<open>packages/signature/src/sequential.ts\<close> and the canonical JSON of \<open>digest.ts\<close>: an envelope that several signers sign
  one after the other. Each signature carries the digest of its own data and of the digest before it. Bytes are a list
  of numbers below 256, a text is its UTF-8 bytes; \<open>H\<close> is the hexadecimal SHA-256 of bytes. A signer without a role has
  no \<open>role\<close> member.
\<close>

subsection \<open>Base64 with padding\<close>

definition base64_char :: "nat \<Rightarrow> char" where
  "base64_char n = (if n = 62 then CHR ''+'' else if n = 63 then CHR ''/'' else sextet_char n)"

definition base64_encode :: "nat list \<Rightarrow> string" where
  "base64_encode bs = map base64_char (base64_sextets bs) @ replicate ((3 - length bs mod 3) mod 3) CHR ''=''"

subsection \<open>Canonical JSON\<close>

primrec canonicalJson :: "json \<Rightarrow> string" where
  "canonicalJson JNull = ''null''"
| "canonicalJson (JBool b) = (if b then ''true'' else ''false'')"
| "canonicalJson (JNum n) = dec_int n"
| "canonicalJson (JStr s) = json_quote s"
| "canonicalJson (JArr xs) = ''['' @ join_comma (map canonicalJson xs) @ '']''"
| "canonicalJson (JObj es) = ''{'' @ join_comma (map (\<lambda>(k, t). json_quote k @ '':'' @ t)
     (sort_key (\<lambda>e. utf16_units (fst e)) (map (map_prod id canonicalJson) es))) @ ''}''"

subsection \<open>Envelopes\<close>

record signer_ref =
  sg_id :: string
  sg_subject :: string
  sg_serial :: string
  sg_role :: "string option"

record signature_entry =
  se_order :: int
  se_signer :: signer_ref
  se_digest :: string
  se_signedAt :: string

record envelope =
  sq_payloadBase64 :: string
  sq_payloadSha256 :: string
  sq_signatures :: "signature_entry list"
  sq_expectedSignerIds :: "string list"
  sq_allowedReaderRoles :: "string list"
  sq_published :: bool

record signing_options =
  so_expectedSignerIds :: "string list"
  so_allowedReaderRoles :: "string list option"
  so_now :: "int option"

datatype signing_error = SigningError string

definition payloadBytes :: "envelope \<Rightarrow> nat list" where
  "payloadBytes e = base64url_decode (sq_payloadBase64 e)"

definition sha256Bytes :: "(string \<Rightarrow> string) \<Rightarrow> nat list \<Rightarrow> string" where
  "sha256Bytes H bs = H (map char_of bs)"

definition createEnvelope :: "(string \<Rightarrow> string) \<Rightarrow> signing_options \<Rightarrow> nat list \<Rightarrow> envelope" where
  "createEnvelope H opts payload = \<lparr>sq_payloadBase64 = base64_encode payload, sq_payloadSha256 = sha256Bytes H payload,
     sq_signatures = [], sq_expectedSignerIds = so_expectedSignerIds opts,
     sq_allowedReaderRoles = (case so_allowedReaderRoles opts of None \<Rightarrow> [] | Some rs \<Rightarrow> rs), sq_published = False\<rparr>"

definition signer_json :: "signer_ref \<Rightarrow> json" where
  "signer_json s = JObj ([(''id'', JStr (sg_id s)), (''subject'', JStr (sg_subject s)), (''serial'', JStr (sg_serial s))]
     @ (case sg_role s of None \<Rightarrow> [] | Some r \<Rightarrow> [(''role'', JStr r)]))"

definition digested :: "envelope \<Rightarrow> signer_ref \<Rightarrow> int \<Rightarrow> string \<Rightarrow> json" where
  "digested e signer order signedAt = JObj [(''order'', JNum order), (''payloadSha256'', JStr (sq_payloadSha256 e)),
     (''previousDigest'', if sq_signatures e = [] then JNull else JStr (se_digest (last (sq_signatures e)))),
     (''signedAt'', JStr signedAt), (''signer'', signer_json signer)]"

definition sequentialSignatureDigest :: "(string \<Rightarrow> string) \<Rightarrow> envelope \<Rightarrow> signer_ref \<Rightarrow> int \<Rightarrow> string \<Rightarrow> string" where
  "sequentialSignatureDigest H e signer order signedAt = H (canonicalJson (digested e signer order signedAt))"

text \<open>\<open>expectedSignerIds[index]\<close> where it is there and not empty.\<close>

definition expectedAt :: "envelope \<Rightarrow> nat \<Rightarrow> string option" where
  "expectedAt e i = (if i < length (sq_expectedSignerIds e) \<and> sq_expectedSignerIds e ! i \<noteq> []
     then Some (sq_expectedSignerIds e ! i) else None)"

definition appendSignature ::
  "(string \<Rightarrow> string) \<Rightarrow> signing_options \<Rightarrow> envelope \<Rightarrow> signer_ref \<Rightarrow> signing_error + envelope" where
  "appendSignature H opts e signer = (let n = length (sq_signatures e); nextOrder = int n + 1 in
     bindE (throwIf (case expectedAt e n of None \<Rightarrow> False | Some i \<Rightarrow> i \<noteq> sg_id signer)
       (SigningError (''Signer '' @ sg_id signer @ '' cannot sign at order '' @ dec_int nextOrder))) (\<lambda>_.
     let signedAt = toISOString (case so_now opts of None \<Rightarrow> 0 | Some t \<Rightarrow> t) in
     Inr (e\<lparr>sq_signatures := sq_signatures e @ [\<lparr>se_order = nextOrder, se_signer = signer,
       se_digest = sequentialSignatureDigest H e signer nextOrder signedAt, se_signedAt = signedAt\<rparr>]\<rparr>)))"

definition publishEnvelope :: "envelope \<Rightarrow> signing_error + envelope" where
  "publishEnvelope e = bindE (throwIf (length (sq_signatures e) \<noteq> length (sq_expectedSignerIds e))
     (SigningError ''Cannot publish before all expected signers have signed'')) (\<lambda>_. Inr (e\<lparr>sq_published := True\<rparr>))"

subsection \<open>Verification\<close>

definition reasonIf :: "bool \<Rightarrow> string \<Rightarrow> string list" where
  "reasonIf c text = (if c then [text] else [])"

definition signatureReasons :: "(string \<Rightarrow> string) \<Rightarrow> envelope \<Rightarrow> nat \<Rightarrow> signature_entry \<Rightarrow> string list" where
  "signatureReasons H e i s = (let n = dec_int (int i + 1); prior = e\<lparr>sq_signatures := take i (sq_signatures e)\<rparr> in
     reasonIf (se_order s \<noteq> int i + 1) (''signature order mismatch at '' @ n)
     @ reasonIf (case expectedAt e i of None \<Rightarrow> False | Some k \<Rightarrow> sg_id (se_signer s) \<noteq> k)
         (''unexpected signer '' @ sg_id (se_signer s) @ '' at order '' @ n)
     @ reasonIf (se_digest s \<noteq> sequentialSignatureDigest H prior (se_signer s) (se_order s) (se_signedAt s))
         (''signature digest mismatch at order '' @ n))"

record verify_result =
  vr_ok :: bool
  vr_order :: "string list"
  vr_tampered :: bool
  vr_reasons :: "string list"

definition verifySequentialEnvelope :: "(string \<Rightarrow> string) \<Rightarrow> envelope \<Rightarrow> verify_result" where
  "verifySequentialEnvelope H e = (let reasons =
       reasonIf (sha256Bytes H (payloadBytes e) \<noteq> sq_payloadSha256 e) ''payload hash mismatch''
       @ concat (map (\<lambda>i. signatureReasons H e i (sq_signatures e ! i)) [0..<length (sq_signatures e)]) in
     \<lparr>vr_ok = (reasons = []), vr_order = map (\<lambda>s. sg_id (se_signer s)) (sq_signatures e),
      vr_tampered = (reasons \<noteq> []), vr_reasons = reasons\<rparr>)"

record read_result =
  re_allowed :: bool
  re_payload :: "nat list option"
  re_reasons :: "string list"

definition readSequentialEnvelope :: "(string \<Rightarrow> string) \<Rightarrow> envelope \<Rightarrow> string \<Rightarrow> read_result" where
  "readSequentialEnvelope H e role = (let verified = verifySequentialEnvelope H e in
     if \<not> vr_ok verified then \<lparr>re_allowed = False, re_payload = None, re_reasons = vr_reasons verified\<rparr>
     else if \<not> sq_published e
     then \<lparr>re_allowed = False, re_payload = None, re_reasons = [''envelope is not published'']\<rparr>
     else if sq_allowedReaderRoles e \<noteq> [] \<and> role \<notin> set (sq_allowedReaderRoles e)
     then \<lparr>re_allowed = False, re_payload = None, re_reasons = [''role '' @ role @ '' cannot read envelope'']\<rparr>
     else \<lparr>re_allowed = True, re_payload = Some (payloadBytes e), re_reasons = []\<rparr>)"

end
