(* ===== verification/Sequential_Props.thy ===== *)
theory Sequential_Props
  imports Sequential_Signing Payload_Canon
begin

text \<open>
  The properties of sequential envelopes: what is signed through the operations verifies and is read back; the last
  digest of a verified envelope determines its payload and every signature before it.
\<close>

subsection \<open>Base64\<close>

lemma base64_char_sextet: "n < 64 \<Longrightarrow> char_sextet (base64_char n) = Some n \<and> base64_char n \<noteq> CHR ''=''"
  using char_sextet_char [of n] by (auto simp: base64_char_def char_sextet_def)

lemma base64_roundtrip:
  assumes "\<forall>a \<in> set bs. a < 256"
  shows "base64url_decode (base64_encode bs) = bs"
proof -
  have chars: "List.map_filter char_sextet (takeWhile (\<lambda>c. c \<noteq> CHR ''='') (map base64_char ns @ replicate k CHR ''='')) = ns"
    if "\<forall>n \<in> set ns. n < 64" for ns k
    using that by (induction ns) (cases k, auto simp: map_filter_simps base64_char_sextet)
  show ?thesis
    using chars [OF sextets_bound [OF assms]] base64_bytes_sextets [OF assms]
    by (simp only: base64url_decode_def base64_encode_def)
qed

subsection \<open>Verification as a condition\<close>

definition entry_ok :: "(string \<Rightarrow> string) \<Rightarrow> envelope \<Rightarrow> nat \<Rightarrow> signature_entry \<Rightarrow> bool" where
  "entry_ok H e i s \<longleftrightarrow> se_order s = int i + 1 \<and> (\<forall>k. expectedAt e i = Some k \<longrightarrow> sg_id (se_signer s) = k)
     \<and> se_digest s = sequentialSignatureDigest H (e\<lparr>sq_signatures := take i (sq_signatures e)\<rparr>) (se_signer s) (se_order s)
         (se_signedAt s)"

lemma reasonIf_Nil [simp]: "reasonIf c t = [] \<longleftrightarrow> \<not> c"
  by (simp add: reasonIf_def)

lemma verify_ok:
  "vr_ok (verifySequentialEnvelope H e) \<longleftrightarrow> sha256Bytes H (payloadBytes e) = sq_payloadSha256 e
     \<and> (\<forall>i < length (sq_signatures e). entry_ok H e i (sq_signatures e ! i))"
  by (auto simp: verifySequentialEnvelope_def signatureReasons_def entry_ok_def Let_def split: option.splits)

lemma digest_prior:
  "sequentialSignatureDigest H (e\<lparr>sq_signatures := ss\<rparr>) g n t = sequentialSignatureDigest H (f\<lparr>sq_signatures := ss\<rparr>) g n t"
  if "sq_payloadSha256 e = sq_payloadSha256 f"
  using that by (simp add: sequentialSignatureDigest_def digested_def)

lemma entry_ok_cong:
  assumes "sq_payloadSha256 f = sq_payloadSha256 e" "sq_expectedSignerIds f = sq_expectedSignerIds e"
    "take i (sq_signatures f) = take i (sq_signatures e)"
  shows "entry_ok H f i s = entry_ok H e i s"
  using assms digest_prior [OF assms(1)] by (simp add: entry_ok_def expectedAt_def)

subsection \<open>What the operations make\<close>

inductive signed :: "(string \<Rightarrow> string) \<Rightarrow> signing_options \<Rightarrow> nat list \<Rightarrow> envelope \<Rightarrow> bool" for H opts payload where
  signed_create: "signed H opts payload (createEnvelope H opts payload)"
| signed_append: "signed H opts payload e \<Longrightarrow> appendSignature H opts' e signer = Inr e' \<Longrightarrow> signed H opts payload e'"
| signed_publish: "signed H opts payload e \<Longrightarrow> publishEnvelope e = Inr e' \<Longrightarrow> signed H opts payload e'"

lemma append_ok:
  assumes "appendSignature H opts e signer = Inr e'" "vr_ok (verifySequentialEnvelope H e)"
  shows "vr_ok (verifySequentialEnvelope H e') \<and> payloadBytes e' = payloadBytes e"
proof -
  obtain s where e': "e' = e\<lparr>sq_signatures := sq_signatures e @ [s]\<rparr>" and s: "entry_ok H e (length (sq_signatures e)) s"
    using assms(1) by (auto simp: appendSignature_def Let_def entry_ok_def split: option.splits)
  have "entry_ok H e' i (sq_signatures e' ! i)" if "i < length (sq_signatures e')" for i
  proof -
    have "entry_ok H e' i (sq_signatures e' ! i) = entry_ok H e i (sq_signatures e' ! i)"
      using that by (intro entry_ok_cong) (simp_all add: e')
    then show ?thesis
      using that s assms(2) by (auto simp: e' verify_ok nth_append less_Suc_eq)
  qed
  then show ?thesis
    using assms(2) by (auto simp: verify_ok e' payloadBytes_def)
qed

lemma publish_ok:
  assumes "publishEnvelope e = Inr e'"
  shows "e' = e\<lparr>sq_published := True\<rparr>" "length (sq_signatures e) = length (sq_expectedSignerIds e)"
    "vr_ok (verifySequentialEnvelope H e') = vr_ok (verifySequentialEnvelope H e)" "payloadBytes e' = payloadBytes e"
proof -
  show e': "e' = e\<lparr>sq_published := True\<rparr>" "length (sq_signatures e) = length (sq_expectedSignerIds e)"
    using assms by (auto simp: publishEnvelope_def)
  show "vr_ok (verifySequentialEnvelope H e') = vr_ok (verifySequentialEnvelope H e)"
    using entry_ok_cong [of e' e] by (simp add: verify_ok e' payloadBytes_def)
  show "payloadBytes e' = payloadBytes e"
    by (simp add: e' payloadBytes_def)
qed

text \<open>C17. What is signed through the operations verifies and is read back. An envelope made by creation, signatures in the
  expected order and publication verifies and holds the payload; it is read exactly when it is published and the role
  is allowed, and then all expected signers have signed it.\<close>

theorem signed_envelope_verifies:
  assumes "signed H opts payload e" "\<forall>b \<in> set payload. b < 256"
  shows "vr_ok (verifySequentialEnvelope H e)
    \<and> re_allowed (readSequentialEnvelope H e role)
      = (sq_published e \<and> (sq_allowedReaderRoles e = [] \<or> role \<in> set (sq_allowedReaderRoles e)))
    \<and> (re_allowed (readSequentialEnvelope H e role) \<longrightarrow> re_payload (readSequentialEnvelope H e role) = Some payload
        \<and> length (sq_expectedSignerIds e) \<le> length (sq_signatures e))"
proof -
  have "vr_ok (verifySequentialEnvelope H e) \<and> payloadBytes e = payload
      \<and> (sq_published e \<longrightarrow> length (sq_expectedSignerIds e) \<le> length (sq_signatures e))"
    using assms(1)
  proof induction
    case signed_create
    then show ?case
      using base64_roundtrip [OF assms(2)]
      by (simp add: verify_ok createEnvelope_def payloadBytes_def)
  next
    case (signed_append e opts' signer e')
    then show ?case
      using append_ok [OF signed_append(2)] by (auto simp: appendSignature_def Let_def split: option.splits)
  next
    case (signed_publish e e')
    then show ?case
      using publish_ok [OF signed_publish(2)] by simp
  qed
  then show ?thesis
    by (auto simp: readSequentialEnvelope_def Let_def)
qed


subsection \<open>What a digest determines\<close>

text \<open>Texts that JSON prints as they are.\<close>

definition lossless_entry :: "signature_entry \<Rightarrow> bool" where
  "lossless_entry s \<longleftrightarrow> utf8_lossless (se_signedAt s) \<and> utf8_lossless (se_digest s) \<and> utf8_lossless (sg_id (se_signer s))
     \<and> utf8_lossless (sg_subject (se_signer s)) \<and> utf8_lossless (sg_serial (se_signer s))
     \<and> (\<forall>r. sg_role (se_signer s) = Some r \<longrightarrow> utf8_lossless r)"

definition lossless_envelope :: "envelope \<Rightarrow> bool" where
  "lossless_envelope e \<longleftrightarrow> utf8_lossless (sq_payloadSha256 e) \<and> (\<forall>s \<in> set (sq_signatures e). lossless_entry s)"

text \<open>On such texts the canonical JSON is the one of the offline payloads.\<close>

lemma option_all_map: "option_all (map f xs) = Some ts \<Longrightarrow> \<forall>x \<in> set xs. f x \<noteq> None"
proof (intro ballI notI)
  fix x assume "option_all (map f xs) = Some ts" "x \<in> set xs" "f x = None"
  then show False
    by (force simp: option_all_def split: if_splits)
qed

lemma option_all_Some: "option_all (map (\<lambda>x. Some (f x)) xs) = Some (map f xs)"
  by (auto simp: option_all_def comp_def)

lemma canonical_texts: "canonical_encode v = Some t \<Longrightarrow> canonicalJson v = t"
proof (induction v arbitrary: t)
  case (JStr s)
  then show ?case by (simp add: canonical_text_def split: if_splits)
next
  case (JArr xs)
  then obtain ts where ts: "option_all (map canonical_encode xs) = Some ts" "t = ''['' @ join_comma ts @ '']''"
    by auto
  have "canonical_encode x = Some (canonicalJson x)" if "x \<in> set xs" for x
    using option_all_map [OF ts(1)] JArr.IH that by auto
  then have "map canonical_encode xs = map (\<lambda>x. Some (canonicalJson x)) xs"
    by simp
  then have "ts = map canonicalJson xs"
    using ts(1) option_all_Some [of canonicalJson xs] by (simp only:) simp
  then show ?case
    using ts(2) by simp
next
  case (JObj es)
  let ?k = "\<lambda>e. utf16_units (fst e)" and ?p = "\<lambda>(k, t). json_quote k @ '':'' @ t"
  define ms where "ms = sort_key ?k (map (map_prod id canonical_encode) es)"
  obtain ts where ts: "option_all (map canonical_member ms) = Some ts" "t = ''{'' @ join_comma ts @ ''}''"
    using JObj.prems by (auto simp: ms_def)
  have some: "canonical_member m \<noteq> None" if "m \<in> set ms" for m
    using option_all_map [OF ts(1)] that by blast
  have enc: "utf8_lossless (fst e)" "canonical_encode (snd e) = Some (canonicalJson (snd e))" if "e \<in> set es" for e
  proof -
    have "canonical_member (map_prod id canonical_encode e) \<noteq> None"
      by (rule some) (use that in \<open>auto simp: ms_def\<close>)
    then have "utf8_lossless (fst e) \<and> (\<exists>t. canonical_encode (snd e) = Some t)"
      by (cases e) (auto simp: canonical_member_def canonical_text_def split: if_splits option.splits)
    then show "utf8_lossless (fst e)" "canonical_encode (snd e) = Some (canonicalJson (snd e))"
      using JObj.IH [of e "snd e"] that by (auto simp: snds.simps)
  qed
  let ?cs = "sort_key ?k (map (map_prod id canonicalJson) es)"
  have "map (map_prod id canonical_encode) es = map (map_prod id Some) (map (map_prod id canonicalJson) es)"
    using enc(2) by (auto simp: map_prod_def split: prod.split)
  then have "ms = map (map_prod id Some) ?cs"
    unfolding ms_def by (simp only:) (rule sort_key_map, simp)
  moreover have "canonical_member (map_prod id Some c) = Some (?p c)" if "c \<in> set ?cs" for c
    using that enc(1) by (auto simp: canonical_member_def canonical_text_def)
  ultimately have "map canonical_member ms = map (\<lambda>c. Some (?p c)) ?cs"
    by simp
  then have "ts = map ?p ?cs"
    using ts(1) option_all_Some [of ?p ?cs] by (simp only:) simp
  then show ?case
    using ts(2) by simp
qed auto

lemma canon_members:
  assumes "json_canon (JObj es) = json_canon (JObj fs)"
  shows "set (map (map_prod id json_canon) es) = set (map (map_prod id json_canon) fs)"
proof -
  have "sort_key (\<lambda>e. utf16_units (fst e)) (map (map_prod id json_canon) es)
      = sort_key (\<lambda>e. utf16_units (fst e)) (map (map_prod id json_canon) fs)"
    using assms by simp
  from arg_cong [OF this, of set] show ?thesis
    by simp
qed


lemma canon_member:
  assumes "json_canon (JObj es) = json_canon (JObj fs)" "(k, v) \<in> set es"
  obtains w where "(k, w) \<in> set fs" "json_canon w = json_canon v"
proof -
  have "(k, json_canon v) \<in> set (map (map_prod id json_canon) es)"
    using assms(2) by force
  then have "(k, json_canon v) \<in> set (map (map_prod id json_canon) fs)"
    by (simp only: canon_members [OF assms(1)])
  then show thesis
    using that by auto
qed

lemma json_canon_leaf [simp]:
  "json_canon w = JNum n \<longleftrightarrow> w = JNum n" "json_canon w = JStr t \<longleftrightarrow> w = JStr t" "json_canon w = JNull \<longleftrightarrow> w = JNull"
  by (cases w; simp)+

lemma signer_canon:
  assumes "json_canon (signer_json g) = json_canon (signer_json h)"
  shows "g = h"
proof -
  note same = assms [unfolded signer_json_def]
  have "sg_id g = sg_id h"
    by (rule canon_member [OF same, of "''id''" "JStr (sg_id g)"]) (auto split: option.splits)
  moreover have "sg_subject g = sg_subject h"
    by (rule canon_member [OF same, of "''subject''" "JStr (sg_subject g)"]) (auto split: option.splits)
  moreover have "sg_serial g = sg_serial h"
    by (rule canon_member [OF same, of "''serial''" "JStr (sg_serial g)"]) (auto split: option.splits)
  moreover have "sg_role h = Some r" if "sg_role g = Some r" for r
    by (rule canon_member [OF same, of "''role''" "JStr r"]) (use that in \<open>auto split: option.splits\<close>)
  moreover have "sg_role g = Some r" if "sg_role h = Some r" for r
    by (rule canon_member [OF same [symmetric], of "''role''" "JStr r"]) (use that in \<open>auto split: option.splits\<close>)
  ultimately have "sg_role g = sg_role h"
    by (metis option.exhaust)
  with \<open>sg_id g = sg_id h\<close> \<open>sg_subject g = sg_subject h\<close> \<open>sg_serial g = sg_serial h\<close> show ?thesis
    by simp
qed

definition previous_json :: "envelope \<Rightarrow> json" where
  "previous_json e = (if sq_signatures e = [] then JNull else JStr (se_digest (last (sq_signatures e))))"

lemma digested_canon:
  assumes "json_canon (digested e g n t) = json_canon (digested f h m u)"
  shows "n = m" "sq_payloadSha256 e = sq_payloadSha256 f" "t = u" "g = h" "previous_json e = previous_json f"
proof -
  note same = assms [unfolded digested_def previous_json_def [symmetric]]
  show "n = m"
    by (rule canon_member [OF same, of "''order''" "JNum n"]) auto
  show "sq_payloadSha256 e = sq_payloadSha256 f"
    by (rule canon_member [OF same, of "''payloadSha256''" "JStr (sq_payloadSha256 e)"]) auto
  show "t = u"
    by (rule canon_member [OF same, of "''signedAt''" "JStr t"]) auto
  have "json_canon (signer_json g) = json_canon (signer_json h)"
    by (rule canon_member [OF same, of "''signer''" "signer_json g"]) auto
  then show "g = h" by (rule signer_canon)
  have "json_canon (previous_json e) = json_canon (previous_json f)"
    by (rule canon_member [OF same, of "''previousDigest''" "previous_json e"]) auto
  then show "previous_json e = previous_json f"
    by (auto simp: previous_json_def split: if_splits)
qed


lemma canonical_object:
  assumes "\<And>k v. (k, v) \<in> set es \<Longrightarrow> utf8_lossless k \<and> canonical_encode v \<noteq> None"
  shows "canonical_encode (JObj es) \<noteq> None"
proof -
  have "canonical_member (map_prod id canonical_encode m) \<noteq> None" if "m \<in> set es" for m
    using assms [of "fst m" "snd m"] that by (cases m) (auto simp: canonical_member_def canonical_text_def)
  then have "None \<notin> canonical_member ` map_prod id canonical_encode ` set es"
    by (metis (no_types, lifting) image_iff)
  then show ?thesis
    by (simp add: option_all_def)
qed

lemma signer_text: "lossless_entry s \<Longrightarrow> canonical_encode (signer_json (se_signer s)) \<noteq> None"
  unfolding signer_json_def
  by (rule canonical_object) (auto simp: lossless_entry_def canonical_text_def split: option.splits)

definition signedText :: "envelope \<Rightarrow> nat \<Rightarrow> string" where
  "signedText e i = (let s = sq_signatures e ! i in
     canonicalJson (digested (e\<lparr>sq_signatures := take i (sq_signatures e)\<rparr>) (se_signer s) (se_order s) (se_signedAt s)))"

definition hashedTexts :: "envelope \<Rightarrow> string set" where
  "hashedTexts e = insert (map char_of (payloadBytes e)) (signedText e ` {..< length (sq_signatures e)})"

lemma signedText_encode:
  assumes "lossless_envelope e" "i < length (sq_signatures e)"
  shows "canonical_encode (digested (e\<lparr>sq_signatures := take i (sq_signatures e)\<rparr>) (se_signer (sq_signatures e ! i))
    (se_order (sq_signatures e ! i)) (se_signedAt (sq_signatures e ! i))) = Some (signedText e i)"
proof -
  let ?s = "sq_signatures e ! i"
  have s: "lossless_entry ?s" "utf8_lossless (sq_payloadSha256 e)"
    using assms by (auto simp: lossless_envelope_def)
  have "se_digest (last (take i (sq_signatures e))) \<in> se_digest ` set (sq_signatures e)" if "take i (sq_signatures e) \<noteq> []"
    using last_in_set [OF that] set_take_subset by fast
  then have prev: "utf8_lossless (se_digest (last (take i (sq_signatures e))))" if "take i (sq_signatures e) \<noteq> []"
    using that assms(1) by (auto simp: lossless_envelope_def lossless_entry_def)
  have "canonical_encode (digested (e\<lparr>sq_signatures := take i (sq_signatures e)\<rparr>) (se_signer ?s) (se_order ?s) (se_signedAt ?s)) \<noteq> None"
    unfolding digested_def
    by (rule canonical_object)
      (use s prev signer_text [OF s(1)] in \<open>auto simp: lossless_entry_def canonical_text_def\<close>)
  then show ?thesis
    using canonical_texts by (auto simp: signedText_def Let_def)
qed

lemma base64_bytes_bound: "\<forall>n \<in> set ns. n < 64 \<Longrightarrow> \<forall>b \<in> set (base64_bytes ns). b < 256"
  by (induction ns rule: base64_bytes.induct) auto

lemma payloadBytes_bound: "\<forall>b \<in> set (payloadBytes e). b < 256"
proof -
  have "n < 64" if "char_sextet c = Some n" for c n
    using that by (auto simp: char_sextet_def Let_def split: if_splits)
  then have "\<forall>n \<in> set (List.map_filter char_sextet cs). n < 64" for cs
    by (auto simp: List.map_filter_def)
  then show ?thesis
    unfolding payloadBytes_def base64url_decode_def by (rule base64_bytes_bound)
qed

lemma bytes_inject:
  fixes xs ys :: "nat list"
  assumes "map char_of xs = (map char_of ys :: string)" "\<forall>a \<in> set xs. a < 256" "\<forall>b \<in> set ys. b < 256"
  shows "xs = ys"
proof -
  have "map of_char (map char_of zs :: string) = zs" if "\<forall>a \<in> set zs. a < 256" for zs :: "nat list"
    using that by (simp add: map_idI)
  then show ?thesis
    using assms by metis
qed

lemma entry_determined:
  assumes "vr_ok (verifySequentialEnvelope H e)" "vr_ok (verifySequentialEnvelope H f)"
    "lossless_envelope e" "lossless_envelope f" "inj_on H (hashedTexts e \<union> hashedTexts f)"
    "i < length (sq_signatures e)" "j < length (sq_signatures f)"
    "se_digest (sq_signatures e ! i) = se_digest (sq_signatures f ! j)"
  shows "i = j" "sq_signatures e ! i = sq_signatures f ! j" "sq_payloadSha256 e = sq_payloadSha256 f"
    "0 < i \<Longrightarrow> se_digest (sq_signatures e ! (i - 1)) = se_digest (sq_signatures f ! (i - 1))"
proof -
  let ?s = "sq_signatures e ! i" and ?r = "sq_signatures f ! j"
  have ok: "entry_ok H e i ?s" "entry_ok H f j ?r"
    using assms(1,2,6,7) by (auto simp: verify_ok)
  then have "H (signedText e i) = H (signedText f j)"
    using assms(8) by (simp add: entry_ok_def signedText_def sequentialSignatureDigest_def Let_def)
  then have texts: "signedText e i = signedText f j"
    by (rule inj_onD [OF assms(5)]) (use assms(6,7) in \<open>simp_all add: hashedTexts_def\<close>)
  note same = digested_canon [OF canonical_inject [OF signedText_encode [OF assms(3,6)], THEN iffD1,
        OF signedText_encode [OF assms(4,7), folded texts], symmetric]]
  show "i = j"
    using same(1) ok by (simp add: entry_ok_def)
  show "?s = ?r"
    using same(1,3,4) assms(8) by simp
  show "sq_payloadSha256 e = sq_payloadSha256 f"
    using same(2) by simp
  show "se_digest (sq_signatures e ! (i - 1)) = se_digest (sq_signatures f ! (i - 1))" if "0 < i"
    using same(5) that assms(6,7) \<open>i = j\<close>
    by (auto simp: previous_json_def last_conv_nth min_absorb2 split: if_splits)
qed

lemma entries_determined:
  assumes "vr_ok (verifySequentialEnvelope H e)" "vr_ok (verifySequentialEnvelope H f)"
    "lossless_envelope e" "lossless_envelope f" "inj_on H (hashedTexts e \<union> hashedTexts f)"
    "i < length (sq_signatures e)" "i < length (sq_signatures f)"
    "se_digest (sq_signatures e ! i) = se_digest (sq_signatures f ! i)" "k \<le> i"
  shows "sq_signatures e ! k = sq_signatures f ! k"
  using assms(6-9)
proof (induction i)
  case 0
  then show ?case
    using entry_determined(2) [OF assms(1-5)] by simp
next
  case (Suc i)
  then show ?case
    using entry_determined(2,4) [OF assms(1-5) Suc.prems(1-3)] Suc.IH
    by (cases "k = Suc i") auto
qed

text \<open>C16. The last digest binds everything before it. When two envelopes verify and their last signatures have the same
  digest, they hold the same payload and the same signatures, in number, order, signers, times and digests, as long
  as the hash has no collision among the texts the two envelopes hash.\<close>

theorem last_digest_binds:
  assumes "vr_ok (verifySequentialEnvelope H e)" "vr_ok (verifySequentialEnvelope H f)"
    "lossless_envelope e" "lossless_envelope f" "inj_on H (hashedTexts e \<union> hashedTexts f)"
    "sq_signatures e \<noteq> []" "sq_signatures f \<noteq> []"
    "se_digest (last (sq_signatures e)) = se_digest (last (sq_signatures f))"
  shows "sq_signatures e = sq_signatures f \<and> payloadBytes e = payloadBytes f"
proof -
  let ?i = "length (sq_signatures e) - 1" and ?j = "length (sq_signatures f) - 1"
  have bounds: "?i < length (sq_signatures e)" "?j < length (sq_signatures f)"
    using assms(6,7) by simp_all
  have digest: "se_digest (sq_signatures e ! ?i) = se_digest (sq_signatures f ! ?j)"
    using assms(6-8) by (simp add: last_conv_nth)
  note last = entry_determined [OF assms(1-5) bounds digest]
  have length: "length (sq_signatures e) = length (sq_signatures f)"
    using last(1) assms(6,7) by (metis One_nat_def Suc_pred length_greater_0_conv)
  have "sq_signatures e ! k = sq_signatures f ! k" if "k < length (sq_signatures e)" for k
    by (rule entries_determined [OF assms(1-5) bounds(1)]) (use bounds digest length that in simp_all)
  then have "sq_signatures e = sq_signatures f"
    using length by (intro nth_equalityI)
  moreover have "H (map char_of (payloadBytes e)) = H (map char_of (payloadBytes f))"
    using assms(1,2) last(3) by (simp add: verify_ok sha256Bytes_def)
  then have "map char_of (payloadBytes e) = (map char_of (payloadBytes f) :: string)"
    by (rule inj_onD [OF assms(5)]) (simp_all add: hashedTexts_def)
  then have "payloadBytes e = payloadBytes f"
    by (rule bytes_inject [OF _ payloadBytes_bound payloadBytes_bound])
  ultimately show ?thesis ..
qed


subsection \<open>What is not bound\<close>

text \<open>
  The digests do not cover the expected signers, the readers and the publication mark, and verification does not ask
  whether all expected signers have signed. So an envelope from which the last signatures were taken still verifies,
  and a published one is still read.
\<close>

lemma shortened_verifies:
  assumes "vr_ok (verifySequentialEnvelope H e)"
  shows "vr_ok (verifySequentialEnvelope H (e\<lparr>sq_signatures := take n (sq_signatures e)\<rparr>))"
proof -
  let ?f = "e\<lparr>sq_signatures := take n (sq_signatures e)\<rparr>"
  have "entry_ok H ?f i (sq_signatures ?f ! i)" if "i < length (sq_signatures ?f)" for i
  proof -
    have "entry_ok H ?f i (sq_signatures e ! i) = entry_ok H e i (sq_signatures e ! i)"
      using that by (intro entry_ok_cong) (simp_all add: min_absorb1)
    then show ?thesis
      using that assms by (simp add: verify_ok)
  qed
  then show ?thesis
    using assms by (simp add: verify_ok payloadBytes_def)
qed

lemma shortened_read:
  assumes "re_allowed (readSequentialEnvelope H e role)"
  shows "re_allowed (readSequentialEnvelope H (e\<lparr>sq_signatures := take n (sq_signatures e)\<rparr>) role)"
  using assms shortened_verifies [of H e n]
  by (auto simp: readSequentialEnvelope_def Let_def split: if_splits)

subsection \<open>A small envelope\<close>

definition demo_signers :: signing_options where
  "demo_signers = \<lparr>so_expectedSignerIds = [''a''], so_allowedReaderRoles = Some [''judge''], so_now = None\<rparr>"

definition demo_signer :: signer_ref where
  "demo_signer = \<lparr>sg_id = ''a'', sg_subject = ''A'', sg_serial = ''1'', sg_role = None\<rparr>"

theorem signed_envelope_verifies_witness:
  "\<exists>e. re_payload (readSequentialEnvelope (\<lambda>t. t) e ''judge'') = Some [1, 2]
    \<and> \<not> re_allowed (readSequentialEnvelope (\<lambda>t. t) e ''guest'')"
proof -
  let ?H = "\<lambda>t :: string. t"
  let ?c = "createEnvelope ?H demo_signers [1, 2]"
  obtain s where s: "appendSignature ?H demo_signers ?c demo_signer = Inr (?c\<lparr>sq_signatures := [s]\<rparr>)"
    by (simp add: appendSignature_def createEnvelope_def demo_signers_def demo_signer_def expectedAt_def Let_def)
  let ?p = "?c\<lparr>sq_signatures := [s], sq_published := True\<rparr>"
  have "publishEnvelope (?c\<lparr>sq_signatures := [s]\<rparr>) = Inr ?p"
    by (simp add: publishEnvelope_def createEnvelope_def demo_signers_def)
  then have "signed ?H demo_signers [1, 2] ?p"
    by (rule signed_publish [OF signed_append [OF signed_create s]])
  note read = signed_envelope_verifies [OF this, of "''judge''"] signed_envelope_verifies [OF this, of "''guest''"]
  have "sq_published ?p" "sq_allowedReaderRoles ?p = [''judge'']"
    by (simp_all add: createEnvelope_def demo_signers_def)
  with read show ?thesis
    by (intro exI [of _ ?p]) auto
qed

definition demo_digest :: "string \<Rightarrow> string" where
  "demo_digest t = (if t = map char_of [1, 2 :: nat] then ''p'' else ''s'')"

definition demo_envelope :: envelope where
  "demo_envelope = \<lparr>sq_payloadBase64 = ''AQI='', sq_payloadSha256 = ''p'',
     sq_signatures = [\<lparr>se_order = 1, se_signer = demo_signer, se_digest = ''s'', se_signedAt = ''2026-01-01''\<rparr>],
     sq_expectedSignerIds = [''a''], sq_allowedReaderRoles = [], sq_published = True\<rparr>"

definition demo_unpadded :: envelope where
  "demo_unpadded = demo_envelope\<lparr>sq_payloadBase64 := ''AQI''\<rparr>"

lemma demo_bytes: "payloadBytes demo_envelope = [1, 2]" "payloadBytes demo_unpadded = [1, 2]"
  by code_simp+

lemma demo_object: "canonicalJson (digested e g n t) \<noteq> map char_of [1, 2 :: nat]"
proof
  assume eq: "canonicalJson (digested e g n t) = map char_of [1, 2 :: nat]"
  have "hd (canonicalJson (JObj es)) = CHR ''{''" for es
    by (simp only: canonicalJson.simps append_Cons list.sel(1))
  then have "hd (map char_of [1, 2 :: nat]) = CHR ''{''"
    unfolding eq [symmetric] digested_def by blast
  moreover have "hd (map char_of [1, 2 :: nat]) \<noteq> CHR ''{''"
    by code_simp
  ultimately show False by contradiction
qed

lemma demo_verified:
  "vr_ok (verifySequentialEnvelope demo_digest demo_envelope)" "vr_ok (verifySequentialEnvelope demo_digest demo_unpadded)"
  "lossless_envelope demo_envelope" "lossless_envelope demo_unpadded"
  using demo_bytes demo_object
  by (simp_all add: verify_ok sha256Bytes_def entry_ok_def sequentialSignatureDigest_def demo_digest_def expectedAt_def
      lossless_envelope_def lossless_entry_def demo_unpadded_def demo_envelope_def demo_signer_def)

lemma demo_texts: "inj_on demo_digest (hashedTexts demo_envelope \<union> hashedTexts demo_unpadded)"
proof -
  have "hashedTexts demo_unpadded = hashedTexts demo_envelope"
    using demo_bytes
    by (simp add: hashedTexts_def signedText_def digested_def demo_unpadded_def demo_envelope_def Let_def)
  moreover have "hashedTexts demo_envelope = {map char_of [1, 2 :: nat], signedText demo_envelope 0}"
    using demo_bytes(1) by (auto simp: hashedTexts_def demo_envelope_def lessThan_Suc)
  moreover have "signedText demo_envelope 0 \<noteq> map char_of [1, 2 :: nat]"
    using demo_object by (simp add: signedText_def Let_def)
  ultimately show ?thesis
    by (auto simp: inj_on_def demo_digest_def)
qed

theorem last_digest_binds_witness:
  "payloadBytes demo_envelope = payloadBytes demo_unpadded \<and> sq_payloadBase64 demo_envelope \<noteq> sq_payloadBase64 demo_unpadded"
proof -
  have "sq_signatures demo_envelope \<noteq> []" "sq_signatures demo_unpadded = sq_signatures demo_envelope"
    "sq_payloadBase64 demo_envelope \<noteq> sq_payloadBase64 demo_unpadded"
    by (simp_all add: demo_unpadded_def demo_envelope_def)
  then show ?thesis
    using last_digest_binds [OF demo_verified demo_texts] by simp
qed

end
