(* ===== verification/Business_Calendar.thy ===== *)
theory Business_Calendar
  imports Iso_Time
begin

text \<open>
  \<open>packages/worklist/src/tenant-business-calendar.ts\<close>: the due date that lies a number of business days after an
  instant, in the time zone of a tenant. The loop over civil dates is bounded by the code; the search for the start of
  a local date is a recursive function.

  \<open>Intl.DateTimeFormat\<close> is a parameter: for a zone it gives nothing (it throws) or the local year, month and day of an
  instant and the name it resolved the zone to. The zone of the tenant and the holidays of a year come from the host;
  they are asked for once per year, so a function of the year says what was answered. The instants of the search are
  within the range of \<open>Date\<close>, that is the start is more than three years away from its ends.
\<close>

datatype worklist_error = WorklistInputError string

type_synonym date_format = "int \<Rightarrow> int \<times> int \<times> int"

definition DAY_MS_calendar :: int where
  "DAY_MS_calendar = 86400000"

definition MAX_CIVIL_DATES :: nat where
  "MAX_CIVIL_DATES = 1098"

text \<open>\<open>/^[+-]\d{2}(?::?\d{2})?$/\<close>.\<close>

definition offsetTimezone :: "string \<Rightarrow> bool" where
  "offsetTimezone z = (case z of
     s # a # b # r \<Rightarrow> s \<in> {CHR ''+'', CHR ''-''} \<and> is_digit a \<and> is_digit b
       \<and> (let q = (if r \<noteq> [] \<and> hd r = CHR '':'' then tl r else r) in
          r = [] \<or> (length q = 2 \<and> list_all is_digit q))
   | _ \<Rightarrow> False)"

text \<open>\<open>setUTCFullYear(year, month - 1, day)\<close> carries months over into years and days over into months.\<close>

definition civilDay :: "int \<Rightarrow> int \<Rightarrow> int \<Rightarrow> int" where
  "civilDay year month day = make_day (year + (month - 1) div 12) ((month - 1) mod 12) day"

definition validHoliday :: "string \<Rightarrow> bool" where
  "validHoliday v \<longleftrightarrow> length v = 10 \<and> list_all is_digit (take 4 v) \<and> v ! 4 = CHR ''-'' \<and> list_all is_digit (take 2 (drop 5 v))
     \<and> v ! 7 = CHR ''-'' \<and> list_all is_digit (drop 8 v)
     \<and> (let year = int (digits_val (take 4 v)); month = int (digits_val (take 2 (drop 5 v))); day = int (digits_val (drop 8 v))
        in civil_of_day (civilDay year month day) = (year, month - 1, day))"

definition padStart :: "nat \<Rightarrow> string \<Rightarrow> string" where
  "padStart w s = replicate (w - length s) CHR ''0'' @ s"

definition civilParts :: "int \<Rightarrow> int \<times> string" where
  "civilParts ordinal = (case civil_of_day ordinal of (year, month, day) \<Rightarrow>
     (year, padStart 4 (dec_int year) @ ''-'' @ padStart 2 (dec_int (month + 1)) @ ''-'' @ padStart 2 (dec_int day)))"

definition localOrdinal :: "date_format \<Rightarrow> int \<Rightarrow> int" where
  "localOrdinal fmt instant = (case fmt instant of (year, month, day) \<Rightarrow> civilDay year month day)"

function searchStart :: "date_format \<Rightarrow> int \<Rightarrow> int \<Rightarrow> int \<Rightarrow> int" where
  "searchStart fmt ordinal lower upper =
     (if lower < upper then
        (let middle = lower + (upper - lower) div 2 in
         if localOrdinal fmt middle < ordinal then searchStart fmt ordinal (middle + 1) upper
         else searchStart fmt ordinal lower middle)
      else lower)"
  by pat_completeness auto
termination
  by (relation "measure (\<lambda>(fmt, ordinal, lower, upper). nat (upper - lower))") (auto simp: Let_def)

declare searchStart.simps [simp del]

definition startOfLocalDate :: "date_format \<Rightarrow> int \<Rightarrow> worklist_error + int" where
  "startOfLocalDate fmt ordinal =
     (let lower = searchStart fmt ordinal (ordinal * DAY_MS_calendar - 2 * DAY_MS_calendar) (ordinal * DAY_MS_calendar + 2 * DAY_MS_calendar) in
      bindE (throwIf (localOrdinal fmt lower \<noteq> ordinal)
        (WorklistInputError ''Due date does not exist in the tenant timezone'')) (\<lambda>_. Inr lower))"

text \<open>The holidays of a year, checked.\<close>

definition holidaysForYear :: "(int \<Rightarrow> string list) \<Rightarrow> int \<Rightarrow> worklist_error + string list" where
  "holidaysForYear holidaysFor year = bindE (throwIf (\<not> list_all validHoliday (holidaysFor year))
     (WorklistInputError ''Tenant holiday must be a valid YYYY-MM-DD date'')) (\<lambda>_. Inr (holidaysFor year))"

text \<open>The loop over the civil dates after \<open>ordinal\<close>; the first argument is how many are still examined.\<close>

fun searchDue :: "nat \<Rightarrow> date_format \<Rightarrow> (int \<Rightarrow> string list) \<Rightarrow> int \<Rightarrow> int \<Rightarrow> worklist_error + int" where
  "searchDue 0 fmt holidaysFor ordinal remaining = Inl (WorklistInputError ''Business calendar exhausted'')"
| "searchDue (Suc examine) fmt holidaysFor ordinal remaining =
     (let today = ordinal + 1; dayOfWeek = week_day today; (year, key) = civilParts today in
      bindE (holidaysForYear holidaysFor year) (\<lambda>holidays.
        if dayOfWeek \<noteq> 0 \<and> dayOfWeek \<noteq> 6 \<and> key \<notin> set holidays
        then (if remaining - 1 = 0 then startOfLocalDate fmt (today + 1)
              else searchDue examine fmt holidaysFor today (remaining - 1))
        else searchDue examine fmt holidaysFor today remaining))"

definition addBusinessDays ::
  "(string \<Rightarrow> (date_format \<times> string) option) \<Rightarrow> string \<Rightarrow> (int \<Rightarrow> string list) \<Rightarrow> int option \<Rightarrow> int \<Rightarrow> worklist_error + int" where
  "addBusinessDays format timezone holidaysFor startAt businessDays =
     bindE (throwIf (\<not> isSafeInteger businessDays \<or> businessDays < 0 \<or> businessDays > 366)
       (WorklistInputError ''businessDays must be an integer from 0 through 366'')) (\<lambda>_.
     bindE (require (WorklistInputError ''startAt must be a valid date'') startAt) (\<lambda>start.
     let invalidZone = WorklistInputError ''Tenant timezone must be a valid IANA timezone'' in
     bindE (throwIf (timezone = [] \<or> offsetTimezone timezone) invalidZone) (\<lambda>_.
     bindE (require invalidZone (format timezone)) (\<lambda>(fmt, resolved).
     bindE (throwIf (offsetTimezone resolved) invalidZone) (\<lambda>_.
     if businessDays = 0 then Inr start
     else searchDue MAX_CIVIL_DATES fmt holidaysFor (localOrdinal fmt start) businessDays)))))"

end
