(* ===== verification/Business_Calendar_Props.thy ===== *)
theory Business_Calendar_Props
  imports Business_Calendar
begin

text \<open>
  The due date is an instant at which the day after the last of the counted business days begins, the first such instant
  unless local dates go back. A zone whose clock is put back over midnight is the exception, evaluated at the end.
\<close>

text \<open>A day on which work is done.\<close>

definition businessDay :: "(int \<Rightarrow> string list) \<Rightarrow> int \<Rightarrow> bool" where
  "businessDay holidaysFor d \<longleftrightarrow> week_day d \<notin> {0, 6} \<and> snd (civilParts d) \<notin> set (holidaysFor (fst (civilParts d)))"

definition businessDaysIn :: "(int \<Rightarrow> string list) \<Rightarrow> int \<Rightarrow> int \<Rightarrow> nat" where
  "businessDaysIn holidaysFor s t = card {d. s < d \<and> d \<le> t \<and> businessDay holidaysFor d}"

text \<open>
  Between two instants, local dates are at most one day away from the date in UTC; and they never go back.
\<close>

definition zone_close :: "date_format \<Rightarrow> int \<Rightarrow> int \<Rightarrow> bool" where
  "zone_close fmt a b \<longleftrightarrow> (\<forall>t. a \<le> t \<longrightarrow> t \<le> b \<longrightarrow> \<bar>localOrdinal fmt t - t div DAY_MS_calendar\<bar> \<le> 1)"

definition dates_forward :: "date_format \<Rightarrow> int \<Rightarrow> int \<Rightarrow> bool" where
  "dates_forward fmt a b \<longleftrightarrow> (\<forall>t u. a \<le> t \<longrightarrow> t \<le> u \<longrightarrow> u \<le> b \<longrightarrow> localOrdinal fmt t \<le> localOrdinal fmt u)"

definition day_begins :: "date_format \<Rightarrow> int \<Rightarrow> int \<Rightarrow> bool" where
  "day_begins fmt d t \<longleftrightarrow> localOrdinal fmt t = d \<and> localOrdinal fmt (t - 1) < d"

text \<open>The local date goes from before a day to after it from one millisecond to the next.\<close>

definition day_skipped :: "date_format \<Rightarrow> int \<Rightarrow> bool" where
  "day_skipped fmt d \<longleftrightarrow> (\<exists>t. localOrdinal fmt (t - 1) < d \<and> d < localOrdinal fmt t)"

text \<open>The instants that matter for a due date: those that the searches after a start may look at.\<close>

definition windowFrom :: "int \<Rightarrow> int" where
  "windowFrom start = start - 3 * DAY_MS_calendar"

definition windowTo :: "int \<Rightarrow> int" where
  "windowTo start = start + 1103 * DAY_MS_calendar"

subsection \<open>The start of a local date\<close>

lemma searchStart_between:
  assumes "lower \<le> upper" "localOrdinal fmt (lower - 1) < d" "d \<le> localOrdinal fmt upper"
  shows "localOrdinal fmt (searchStart fmt d lower upper - 1) < d \<and> d \<le> localOrdinal fmt (searchStart fmt d lower upper)"
  using assms
proof (induction fmt d lower upper rule: searchStart.induct)
  case (1 fmt d lower upper)
  show ?case
  proof (cases "lower < upper")
    case True
    define middle where "middle = lower + (upper - lower) div 2"
    have m: "lower \<le> middle" "middle < upper"
      using True by (simp_all add: middle_def)
    have "searchStart fmt d lower upper = (if localOrdinal fmt middle < d then searchStart fmt d (middle + 1) upper
        else searchStart fmt d lower middle)"
      using True by (subst searchStart.simps) (simp add: middle_def Let_def)
    then show ?thesis
      using "1.IH"(1) [OF True middle_def] "1.IH"(2) [OF True middle_def] "1.prems" m by auto
  next
    case False
    then show ?thesis
      using "1.prems" by (subst (1 2) searchStart.simps) simp
  qed
qed

lemma searchStart_upper: "lower \<le> upper \<Longrightarrow> searchStart fmt d lower upper \<le> upper"
proof (induction fmt d lower upper rule: searchStart.induct)
  case (1 fmt d lower upper)
  show ?case
  proof (cases "lower < upper")
    case True
    define middle where "middle = lower + (upper - lower) div 2"
    have m: "lower \<le> middle" "middle < upper"
      using True by (simp_all add: middle_def)
    have "searchStart fmt d lower upper = (if localOrdinal fmt middle < d then searchStart fmt d (middle + 1) upper
        else searchStart fmt d lower middle)"
      using True by (subst searchStart.simps) (simp add: middle_def Let_def)
    then show ?thesis
      using "1.IH"(1) [OF True middle_def] "1.IH"(2) [OF True middle_def] m by auto
  qed (use "1.prems" in \<open>subst searchStart.simps, simp\<close>)
qed

lemma startOfLocalDate_found:
  assumes "zone_close fmt ((d - 3) * DAY_MS_calendar) ((d + 2) * DAY_MS_calendar)"
  shows "case startOfLocalDate fmt d of Inr t \<Rightarrow> day_begins fmt d t \<and> t \<le> (d + 2) * DAY_MS_calendar
    | Inl e \<Rightarrow> day_skipped fmt d"
proof -
  let ?lower = "d * DAY_MS_calendar - 2 * DAY_MS_calendar" and ?upper = "d * DAY_MS_calendar + 2 * DAY_MS_calendar"
  define t where "t = searchStart fmt d ?lower ?upper"
  have near: "\<bar>localOrdinal fmt u - u div DAY_MS_calendar\<bar> \<le> 1"
    if "(d - 3) * DAY_MS_calendar \<le> u" "u \<le> (d + 2) * DAY_MS_calendar" for u
    using assms that by (simp add: zone_close_def)
  have "(?lower - 1) div DAY_MS_calendar = d - 3" "?upper div DAY_MS_calendar = d + 2"
    by (simp_all add: DAY_MS_calendar_def)
  then have "localOrdinal fmt (?lower - 1) < d" "d \<le> localOrdinal fmt ?upper"
    using near [of "?lower - 1"] near [of ?upper] by (simp_all add: DAY_MS_calendar_def)
  then have "localOrdinal fmt (t - 1) < d \<and> d \<le> localOrdinal fmt t"
    unfolding t_def by (intro searchStart_between) (simp add: DAY_MS_calendar_def)
  moreover have "t \<le> (d + 2) * DAY_MS_calendar"
    using searchStart_upper [of ?lower ?upper fmt d] by (simp add: t_def DAY_MS_calendar_def)
  ultimately show ?thesis
    by (auto simp: startOfLocalDate_def t_def [symmetric] day_begins_def day_skipped_def throwIf_def Let_def)
qed

text \<open>Where dates do not go back, the day has no earlier instant.\<close>

lemma day_begins_first:
  assumes "day_begins fmt d t" "dates_forward fmt a b" "a \<le> u" "localOrdinal fmt u = d" "t \<le> b"
  shows "t \<le> u"
proof (rule ccontr)
  assume "\<not> t \<le> u"
  then have "localOrdinal fmt u \<le> localOrdinal fmt (t - 1)"
    using assms(2,3,5) by (simp add: dates_forward_def)
  then show False
    using assms(1,4) by (simp add: day_begins_def)
qed

text \<open>The search for the start of a day lies in the window of the instant it is counted from.\<close>

lemma window_around:
  assumes "zone_close fmt (windowFrom start) (windowTo start)" "localOrdinal fmt start < d" "d \<le> localOrdinal fmt start + 1098"
  shows "zone_close fmt ((d + 1 - 3) * DAY_MS_calendar) ((d + 1 + 2) * DAY_MS_calendar)"
    and "(d + 1 + 2) * DAY_MS_calendar \<le> windowTo start"
proof -
  let ?D = "start div DAY_MS_calendar"
  have "\<bar>localOrdinal fmt start - ?D\<bar> \<le> 1"
    using assms(1) by (simp add: zone_close_def windowFrom_def windowTo_def DAY_MS_calendar_def)
  then have d: "?D \<le> d" "d \<le> ?D + 1099"
    using assms(2,3) by linarith+
  have D: "?D * DAY_MS_calendar \<le> start" "start < (?D + 1) * DAY_MS_calendar"
    by (simp_all add: DAY_MS_calendar_def)
  have "windowFrom start \<le> (d + 1 - 3) * DAY_MS_calendar" and up: "(d + 1 + 2) * DAY_MS_calendar \<le> windowTo start"
    using d D by (simp_all add: windowFrom_def windowTo_def DAY_MS_calendar_def)
  then show "zone_close fmt ((d + 1 - 3) * DAY_MS_calendar) ((d + 1 + 2) * DAY_MS_calendar)"
    using assms(1) by (simp add: zone_close_def)
  show "(d + 1 + 2) * DAY_MS_calendar \<le> windowTo start"
    by (rule up)
qed

subsection \<open>Counting\<close>

lemma businessDaysIn_self [simp]: "businessDaysIn h s s = 0"
proof -
  have "{d. s < d \<and> d \<le> s \<and> businessDay h d} = {}" by auto
  then show ?thesis unfolding businessDaysIn_def by (simp only: card.empty)
qed

lemma businessDaysIn_step:
  assumes "s + 1 \<le> t"
  shows "businessDaysIn h s t = (if businessDay h (s + 1) then 1 else 0) + businessDaysIn h (s + 1) t"
proof -
  have fin: "finite {d. s + 1 < d \<and> d \<le> t \<and> businessDay h d}"
    by (rule finite_subset [of _ "{s + 1<..t}"]) auto
  have succ: "s < d \<longleftrightarrow> d = s + 1 \<or> s + 1 < d" for d
    by arith
  have "{d. s < d \<and> d \<le> t \<and> businessDay h d} = (if businessDay h (s + 1) then {s + 1} else {})
      \<union> {d. s + 1 < d \<and> d \<le> t \<and> businessDay h d}"
    unfolding succ using assms by auto
  then show ?thesis
    using fin by (simp add: businessDaysIn_def)
qed

lemma searchDue_step:
  assumes "\<forall>y. list_all validHoliday (h y)"
  shows "searchDue (Suc n) fmt h s k = (if businessDay h (s + 1)
     then if k = 1 then startOfLocalDate fmt (s + 2) else searchDue n fmt h (s + 1) (k - 1)
     else searchDue n fmt h (s + 1) k)"
  using assms
  by (cases "civilParts (s + 1)") (auto simp: holidaysForYear_def businessDay_def Let_def add.commute)

declare searchDue.simps(2) [simp del]

text \<open>The loop ends on the day on which the count is reached, or no such day is among those examined.\<close>

lemma searchDue_counts:
  assumes "\<forall>y. list_all validHoliday (h y)" "1 \<le> k"
  shows "(\<exists>d. s < d \<and> d \<le> s + int n \<and> businessDay h d \<and> int (businessDaysIn h s d) = k
      \<and> searchDue n fmt h s k = startOfLocalDate fmt (d + 1))
    \<or> (int (businessDaysIn h s (s + int n)) < k
      \<and> searchDue n fmt h s k = Inl (WorklistInputError ''Business calendar exhausted''))"
  using assms(2)
proof (induction n arbitrary: s k)
  case 0
  then show ?case by simp
next
  case (Suc n)
  let ?j = "if businessDay h (s + 1) then k - 1 else k"
  show ?case
  proof (cases "businessDay h (s + 1) \<and> k = 1")
    case True
    then have "businessDaysIn h s (s + 1) = 1"
      by (simp add: businessDaysIn_step)
    then show ?thesis
      using True searchDue_step [OF assms(1), of n fmt s k] by (intro disjI1 exI [of _ "s + 1"]) (simp add: add.commute)
  next
    case False
    then have j: "1 \<le> ?j" "searchDue (Suc n) fmt h s k = searchDue n fmt h (s + 1) ?j"
      using Suc.prems searchDue_step [OF assms(1), of n fmt s k] by auto
    have count: "int (businessDaysIn h s t) = k - ?j + int (businessDaysIn h (s + 1) t)" if "s + 1 \<le> t" for t
      using businessDaysIn_step [OF that, of h] by simp
    have last: "s + 1 + int n = s + int (Suc n)"
      by simp
    show ?thesis
      using Suc.IH [OF j(1), of "s + 1", unfolded last]
    proof (elim disjE exE conjE)
      fix d
      assume d: "s + 1 < d" "d \<le> s + int (Suc n)" "businessDay h d" "int (businessDaysIn h (s + 1) d) = ?j"
        "searchDue n fmt h (s + 1) ?j = startOfLocalDate fmt (d + 1)"
      then show ?thesis
        using count [of d] by (intro disjI1 exI [of _ d]) (simp add: j(2))
    next
      assume "int (businessDaysIn h (s + 1) (s + int (Suc n))) < ?j"
        "searchDue n fmt h (s + 1) ?j = Inl (WorklistInputError ''Business calendar exhausted'')"
      then show ?thesis
        using count [of "s + int (Suc n)"] by (intro disjI2) (simp add: j(2))
    qed
  qed
qed

text \<open>C40. Business days are counted exactly. When the input and the holidays are well formed, the due date is an instant at
  which the day begins that follows the n-th business day after the local date of the start, and where the local dates
  of the zone do not go back it is the first instant of that day. There is no due date only where fewer than n business
  days lie in the 1098 days examined, or where the zone skips that day.\<close>

theorem business_days_counted:
  assumes "format timezone = Some (fmt, resolved)" "timezone \<noteq> []" "\<not> offsetTimezone timezone" "\<not> offsetTimezone resolved"
    "1 \<le> n" "n \<le> 366" "\<forall>y. list_all validHoliday (h y)" "zone_close fmt (windowFrom start) (windowTo start)"
  shows "case addBusinessDays format timezone h (Some start) n of
      Inr due \<Rightarrow> (\<exists>d. businessDay h d \<and> int (businessDaysIn h (localOrdinal fmt start) d) = n \<and> day_begins fmt (d + 1) due
        \<and> (dates_forward fmt (windowFrom start) (windowTo start) \<longrightarrow>
             (\<forall>u. windowFrom start \<le> u \<longrightarrow> localOrdinal fmt u = d + 1 \<longrightarrow> due \<le> u)))
    | Inl e \<Rightarrow> int (businessDaysIn h (localOrdinal fmt start) (localOrdinal fmt start + 1098)) < n
        \<or> (\<exists>d. businessDay h d \<and> int (businessDaysIn h (localOrdinal fmt start) d) = n \<and> day_skipped fmt (d + 1))"
proof -
  let ?s = "localOrdinal fmt start"
  have run: "addBusinessDays format timezone h (Some start) n = searchDue MAX_CIVIL_DATES fmt h ?s n"
    using assms(1-6) by (simp add: addBusinessDays_def isSafeInteger_def)
  from searchDue_counts [OF assms(7,5), of ?s MAX_CIVIL_DATES fmt] show ?thesis
  proof (elim disjE exE conjE)
    fix d
    assume d: "?s < d" "d \<le> ?s + int MAX_CIVIL_DATES" "businessDay h d" "int (businessDaysIn h ?s d) = n"
      "searchDue MAX_CIVIL_DATES fmt h ?s n = startOfLocalDate fmt (d + 1)"
    note around = window_around [OF assms(8) d(1) d(2) [unfolded MAX_CIVIL_DATES_def of_nat_numeral]]
    show ?thesis
    proof (cases "startOfLocalDate fmt (d + 1)")
      case (Inl e)
      then show ?thesis
        using startOfLocalDate_found [OF around(1)] d run by auto
    next
      case (Inr due)
      then have due: "day_begins fmt (d + 1) due" "due \<le> windowTo start"
        using startOfLocalDate_found [OF around(1)] around(2) by auto
      then have "\<forall>u. windowFrom start \<le> u \<longrightarrow> localOrdinal fmt u = d + 1 \<longrightarrow> due \<le> u"
        if "dates_forward fmt (windowFrom start) (windowTo start)"
        using day_begins_first [OF due(1) that] due(2) by blast
      with due(1) show ?thesis
        using Inr d(3-5) run by auto
    qed
  qed (simp add: run MAX_CIVIL_DATES_def)
qed

definition utc_format :: date_format where
  "utc_format t = (case civil_of_day (t div DAY_MS_calendar) of (y, m, d) \<Rightarrow> (y, m + 1, d))"

lemma utc_ordinal: "localOrdinal utc_format t = t div DAY_MS_calendar"
proof -
  obtain y m d where c: "civil_of_day (t div DAY_MS_calendar) = (y, m, d)"
    by (metis prod_cases3)
  note civil = make_day_of_civil [OF c]
  then have "0 \<le> m" "m \<le> 11"
    by (simp_all add: valid_civil_def)
  then show ?thesis
    using civil(2) c by (simp add: localOrdinal_def utc_format_def civilDay_def)
qed

text \<open>One business day after Thursday, 1 January 1970: the first instant of Saturday.\<close>

theorem business_days_counted_witness:
  "\<exists>d. int (businessDaysIn (\<lambda>y. []) 0 d) = 1 \<and> day_begins utc_format (d + 1) (2 * DAY_MS_calendar)
    \<and> localOrdinal utc_format (2 * DAY_MS_calendar - 1) \<noteq> d + 1"
proof -
  let ?format = "\<lambda>z :: string. Some (utc_format, z)"
  have zone: "zone_close utc_format a b" "dates_forward utc_format a b" for a b
    by (simp_all add: zone_close_def dates_forward_def utc_ordinal zdiv_mono1 DAY_MS_calendar_def)
  have "\<not> offsetTimezone ''UTC''"
    by code_simp
  then have due: "case addBusinessDays ?format ''UTC'' (\<lambda>y. []) (Some 0) 1 of
      Inr due \<Rightarrow> (\<exists>d. businessDay (\<lambda>y. []) d \<and> int (businessDaysIn (\<lambda>y. []) (localOrdinal utc_format 0) d) = 1
        \<and> day_begins utc_format (d + 1) due \<and> (dates_forward utc_format (windowFrom 0) (windowTo 0) \<longrightarrow>
             (\<forall>u. windowFrom 0 \<le> u \<longrightarrow> localOrdinal utc_format u = d + 1 \<longrightarrow> due \<le> u)))
    | Inl e \<Rightarrow> int (businessDaysIn (\<lambda>y. []) (localOrdinal utc_format 0) (localOrdinal utc_format 0 + 1098)) < 1
        \<or> (\<exists>d. businessDay (\<lambda>y. []) d \<and> int (businessDaysIn (\<lambda>y. []) (localOrdinal utc_format 0) d) = 1 \<and> day_skipped utc_format (d + 1))"
    using zone(1) by (intro business_days_counted) simp_all
  have "addBusinessDays ?format ''UTC'' (\<lambda>y. []) (Some 0) 1 = Inr (2 * DAY_MS_calendar)"
    by code_simp
  then obtain d where d: "int (businessDaysIn (\<lambda>y. []) 0 d) = 1" "day_begins utc_format (d + 1) (2 * DAY_MS_calendar)"
      "\<And>u. windowFrom 0 \<le> u \<Longrightarrow> localOrdinal utc_format u = d + 1 \<Longrightarrow> 2 * DAY_MS_calendar \<le> u"
    using due zone(2) by (auto simp: utc_ordinal)
  moreover have "localOrdinal utc_format (2 * DAY_MS_calendar - 1) \<noteq> d + 1"
    using d(3) [of "2 * DAY_MS_calendar - 1"] by (auto simp: windowFrom_def DAY_MS_calendar_def)
  ultimately show ?thesis by blast
qed

subsection \<open>A midnight that comes twice\<close>

text \<open>
  On 5 March 2010 the clocks of the zone Antarctica/Casey were put back from 02:00 to 23:00 of the day before, so that
  day began twice, at 13:00 and at 16:00 UTC. The search by halving looks at the instant of the change, finds the day
  before there, and ends at the second beginning.
\<close>

definition casey_format :: date_format where
  "casey_format t = utc_format (t + (if t < 14673 * DAY_MS_calendar - 9 * 3600000 then 11 * 3600000 else 8 * 3600000))"

lemma second_midnight_taken:
  "civilParts 14673 = (2010, ''2010-03-05'')"
  "startOfLocalDate casey_format 14673 = Inr (14673 * DAY_MS_calendar - 8 * 3600000)"
  "localOrdinal casey_format (14673 * DAY_MS_calendar - 11 * 3600000) = 14673"
  by code_simp+

end
