(* ===== verification/Control_Types.thy ===== *)
theory Control_Types
  imports Iso_Time Js_Json
begin

text \<open>
  The data of session control, \<open>packages/sessions/src/control/types.ts\<close> and \<open>errors.ts\<close>, and the state of
  \<open>InMemorySessionRegistry\<close> with the operations of \<open>in-memory-registry.ts\<close>.

  An operation of the service takes the state to its outcome and the next state; what was written before a throw stays.
  The state counts the readings of the clock and holds the audit events that the sink accepted and the requests that the
  provider received, so that their order is visible. Numbers are integers, instants lie within the range of \<open>Date\<close>.
\<close>

datatype session_scope = Tenant_scope | Identity_scope

datatype session_action =
    Logout_current | Revoke_one | Revoke_others | Revoke_all | Revoke_subject | Revoke_tenant

datatype registration_state =
    Reg_active | Reg_revocation_pending | Reg_revoked | Reg_failed | Reg_unsupported | Reg_expired | Reg_retired

datatype mutation_status = Mut_pending | Mut_revoked | Mut_unsupported | Mut_failed

datatype invalidation_guarantee =
    Immediate_local | Bounded_local | Refresh_revoked_access_expires | Provider_confirmed | No_guarantee

datatype session_authority = Sessions_self | Sessions_tenant_manage | Sessions_identity_manage

datatype local_enforcement = Enforce_immediate | Enforce_bounded | Enforce_none

fun scopeText :: "session_scope \<Rightarrow> string" where
  "scopeText Tenant_scope = ''tenant''"
| "scopeText Identity_scope = ''identity''"

fun actionText :: "session_action \<Rightarrow> string" where
  "actionText Logout_current = ''logout-current''"
| "actionText Revoke_one = ''revoke-one''"
| "actionText Revoke_others = ''revoke-others''"
| "actionText Revoke_all = ''revoke-all''"
| "actionText Revoke_subject = ''revoke-subject''"
| "actionText Revoke_tenant = ''revoke-tenant''"

record control_capabilities =
  cap_stableSessionIdentity :: bool
  cap_listScopes :: "session_scope list"
  cap_controlScopes :: "session_scope list"
  cap_revokeOne :: bool
  cap_revokeOthers :: bool
  cap_revokeAll :: bool
  cap_localEnforcement :: local_enforcement
  cap_providerConfirmation :: bool
  cap_retryReconciliation :: bool
  cap_identityGlobalAuthority :: bool
  cap_sharedAnchorBlastRadius :: bool

record session_guarantee =
  gu_kind :: invalidation_guarantee
  gu_effectiveBy :: "string option"
  gu_propagationBoundSeconds :: "int option"
  gu_accessTokenExpiresAt :: "string option"

record trusted_context =
  tc_actorId :: string
  tc_subjectId :: string
  tc_tenantId :: string
  tc_currentSessionId :: string
  tc_authorities :: "session_authority set"
  tc_requestId :: string

record display_metadata =
  dm_deviceLabel :: "string option"
  dm_client :: "string option"
  dm_providerLabel :: "string option"
  dm_userAgentFamily :: "string option"
  dm_deviceClass :: "string option"
  dm_country :: "string option"
  dm_region :: "string option"

record session_registration =
  reg_sid :: string
  reg_anchorId :: string
  reg_tenantId :: string
  reg_subjectId :: string
  reg_state :: registration_state
  reg_provider :: string
  reg_capabilities :: control_capabilities
  reg_guarantee :: session_guarantee
  reg_metadata :: display_metadata
  reg_createdAt :: string
  reg_lastSeenAt :: "string option"
  reg_expiresAt :: "string option"
  reg_terminalAt :: "string option"
  reg_sharedAnchor :: bool

text \<open>The members of a view: the \<open>sessionId\<close> beside \<open>sid\<close> is the same, and the guarantee lacks its last member.\<close>

record session_view =
  sv_sid :: string
  sv_tenantId :: string
  sv_state :: registration_state
  sv_provider :: string
  sv_capabilities :: control_capabilities
  sv_guarantee :: "invalidation_guarantee \<times> string option \<times> int option"
  sv_createdAt :: string
  sv_lastSeenAt :: "string option"
  sv_expiresAt :: "string option"
  sv_terminalAt :: "string option"
  sv_current :: bool
  sv_deviceLabel :: "string option"
  sv_client :: "string option"
  sv_userAgent :: "string option"
  sv_location :: "(string option \<times> string option) option"

record control_command =
  cmd_action :: session_action
  cmd_operationId :: string
  cmd_scope :: "session_scope option"
  cmd_targetSessionId :: "string option"
  cmd_targetSubjectId :: "string option"

record revocation_result =
  pr_status :: mutation_status
  pr_guarantee :: session_guarantee
  pr_errorCode :: "string option"

record item_result =
  ir_sid :: string
  ir_status :: mutation_status
  ir_guarantee :: session_guarantee
  ir_errorCode :: "string option"

record mutation_result =
  mr_operationId :: string
  mr_action :: session_action
  mr_scope :: session_scope
  mr_status :: mutation_status
  mr_guarantee :: session_guarantee
  mr_effectiveBy :: "string option"
  mr_results :: "item_result list"
  mr_errorCode :: "string option"

record revocation_request =
  pq_operationId :: string
  pq_action :: session_action
  pq_registration :: session_registration

record control_operation =
  op_key :: string
  op_requestHash :: string
  op_result :: mutation_result
  op_attempts :: nat
  op_nextAttemptAt :: "string option"
  op_leaseUntil :: "string option"

datatype audit_type = Control_request | Provider_attempt | Audit_pending | Audit_result | Audit_failure | Privileged_list

record control_event =
  ev_type :: audit_type
  ev_operationId :: "string option"
  ev_sessionId :: "string option"
  ev_tenantId :: string
  ev_actorId :: string
  ev_action :: "session_action option"
  ev_state :: "mutation_status option"
  ev_at :: string

text \<open>\<open>SessionControlError\<close> with its code and status, and the throw of the audit sink.\<close>

datatype control_error = SessionControlError string int | AuditSinkError

subsection \<open>State and ports\<close>

record control_state =
  cs_registrations :: "(string, session_registration) jsmap"
  cs_operations :: "(string, control_operation) jsmap"
  cs_audit :: "control_event list"
  cs_calls :: "revocation_request list"
  cs_ticks :: nat

text \<open>
  The n-th reading of the clock; whether a text is a UUID (package \<open>uuid\<close>); the digest; the provider, whose answer may
  depend on how often it was called and is nothing where it throws; and whether the audit sink takes an event.
\<close>

record control_env =
  ce_now :: "nat \<Rightarrow> int"
  ce_validUuid :: "string \<Rightarrow> bool"
  ce_hash :: "string \<Rightarrow> string"
  ce_provider :: "nat \<Rightarrow> revocation_request \<Rightarrow> revocation_result option"
  ce_audit :: "nat \<Rightarrow> control_event \<Rightarrow> bool"

type_synonym 'a control = "control_state \<Rightarrow> (control_error + 'a) \<times> control_state"

definition returnC :: "'a \<Rightarrow> 'a control" where
  "returnC x s = (Inr x, s)"

definition bindC :: "'a control \<Rightarrow> ('a \<Rightarrow> 'b control) \<Rightarrow> 'b control" where
  "bindC m f s = (case m s of (Inl e, s') \<Rightarrow> (Inl e, s') | (Inr x, s') \<Rightarrow> f x s')"

definition callC :: "control_error + 'a \<Rightarrow> 'a control" where
  "callC r s = (r, s)"

definition readC :: "(control_state \<Rightarrow> 'a) \<Rightarrow> 'a control" where
  "readC f s = (Inr (f s), s)"

definition writeC :: "(control_state \<Rightarrow> control_state) \<Rightarrow> unit control" where
  "writeC f s = (Inr (), f s)"

definition nowC :: "control_env \<Rightarrow> int control" where
  "nowC E s = (Inr (ce_now E (cs_ticks s)), s\<lparr>cs_ticks := cs_ticks s + 1\<rparr>)"

lemma bindC_eq_Inr: "bindC m f s = (Inr y, t) \<longleftrightarrow> (\<exists>x u. m s = (Inr x, u) \<and> f x u = (Inr y, t))"
  by (auto simp: bindC_def split: prod.splits sum.splits)

lemma bindC_eq_Inl: "bindC m f s = (Inl e, t) \<longleftrightarrow> m s = (Inl e, t) \<or> (\<exists>x u. m s = (Inr x, u) \<and> f x u = (Inl e, t))"
  by (auto simp: bindC_def split: prod.splits sum.splits)

lemma primC [simp]: "returnC x s = (Inr x, s)" "callC r s = (r, s)" "readC f s = (Inr (f s), s)" "writeC g s = (Inr (), g s)"
    "nowC E s = (Inr (ce_now E (cs_ticks s)), s\<lparr>cs_ticks := cs_ticks s + 1\<rparr>)"
  by (simp_all add: returnC_def callC_def readC_def writeC_def nowC_def)

subsection \<open>The in-memory registry\<close>

text \<open>\<open>!query.subjectId\<close> holds for no subject and for the empty text.\<close>

definition truthyText :: "string option \<Rightarrow> string option" where
  "truthyText v = (if v = Some [] then None else v)"

definition listRegistrations ::
  "trusted_context \<Rightarrow> session_scope option \<Rightarrow> string option \<Rightarrow> control_state \<Rightarrow> session_registration list" where
  "listRegistrations ctx scope subject s = filter (\<lambda>item.
     (scope = Some Identity_scope \<or> reg_tenantId item = tc_tenantId ctx)
     \<and> (case truthyText subject of None \<Rightarrow> True | Some x \<Rightarrow> reg_subjectId item = x)) (jvalues (cs_registrations s))"

definition registerSession :: "session_registration \<Rightarrow> unit control" where
  "registerSession r = writeC (\<lambda>s. s\<lparr>cs_registrations := jset (reg_sid r) r (cs_registrations s)\<rparr>)"

definition updateRegistration :: "session_registration \<Rightarrow> unit control" where
  "updateRegistration r = registerSession r"

definition saveOperation :: "control_operation \<Rightarrow> unit control" where
  "saveOperation o' = writeC (\<lambda>s. s\<lparr>cs_operations := jset (op_key o') o' (cs_operations s)\<rparr>)"

text \<open>\<open>x <= now\<close> on texts, where \<open>x\<close> is set.\<close>

definition dueText :: "string \<Rightarrow> string option \<Rightarrow> bool" where
  "dueText now x = (case truthyText x of None \<Rightarrow> True | Some y \<Rightarrow> \<not> js_less now y)"

definition claimable :: "string \<Rightarrow> control_operation \<Rightarrow> bool" where
  "claimable now o' \<longleftrightarrow> mr_status (op_result o') = Mut_pending \<and> dueText now (op_nextAttemptAt o') \<and> dueText now (op_leaseUntil o')"

definition claimPending :: "string \<Rightarrow> string \<Rightarrow> nat \<Rightarrow> control_operation list control" where
  "claimPending now lease limit s =
     (let found = map (\<lambda>o'. o'\<lparr>op_leaseUntil := Some lease\<rparr>) (take limit (filter (claimable now) (jvalues (cs_operations s)))) in
      (Inr found, s\<lparr>cs_operations := fold (\<lambda>o'. jset (op_key o') o') found (cs_operations s)\<rparr>))"

text \<open>\<open>purgeTerminal\<close> and \<open>eraseSubject\<close> delete from the map while they go through it and count.\<close>

definition dropRegistrations :: "(session_registration \<Rightarrow> bool) \<Rightarrow> nat control" where
  "dropRegistrations gone s =
     (Inr (length (filter (\<lambda>(k, r). gone r) (cs_registrations s))),
      s\<lparr>cs_registrations := filter (\<lambda>(k, r). \<not> gone r) (cs_registrations s)\<rparr>)"

definition purgeTerminal :: "string \<Rightarrow> nat control" where
  "purgeTerminal before = dropRegistrations (\<lambda>r. case truthyText (reg_terminalAt r) of None \<Rightarrow> False | Some t \<Rightarrow> js_less t before)"

definition eraseSubject :: "string \<Rightarrow> string \<Rightarrow> nat control" where
  "eraseSubject tenantId subjectId = dropRegistrations (\<lambda>r. reg_tenantId r = tenantId \<and> reg_subjectId r = subjectId)"

end
