(* ===== verification/Control_Service.thy ===== *)
theory Control_Service
  imports Control_Types
begin

text \<open>
  \<open>session-control.service.ts\<close> of \<open>packages/sessions/src/control\<close> over the in-memory registry, and the provider double
  of \<open>provider-fake.ts\<close>. Operations run one after the other, so no operation meets another one in flight
  (\<open>inFlight\<close> is empty when an operation starts).
\<close>

subsection \<open>Checks\<close>

definition validateCommand :: "control_env \<Rightarrow> control_command \<Rightarrow> control_error + unit" where
  "validateCommand E command =
     (let target = truthyText (cmd_targetSessionId command); invalid = SessionControlError ''SESSION_INVALID'' 400 in
      bindE (throwIf (\<not> ce_validUuid E (cmd_operationId command)
          \<or> (case target of None \<Rightarrow> False | Some t \<Rightarrow> \<not> ce_validUuid E t)) invalid) (\<lambda>_.
      throwIf (cmd_action command = Revoke_one \<and> target = None) invalid))"

definition authorize :: "trusted_context \<Rightarrow> session_scope \<Rightarrow> string \<Rightarrow> control_error + unit" where
  "authorize ctx scope subject =
     (let forbidden = SessionControlError ''SESSION_FORBIDDEN'' 403; held = tc_authorities ctx in
      bindE (throwIf (tc_actorId ctx = []) (SessionControlError ''SESSION_UNAUTHENTICATED'' 401)) (\<lambda>_.
      bindE (throwIf (scope = Identity_scope \<and> Sessions_identity_manage \<notin> held) forbidden) (\<lambda>_.
      bindE (throwIf (scope = Tenant_scope \<and> subject \<noteq> tc_actorId ctx \<and> Sessions_tenant_manage \<notin> held) forbidden) (\<lambda>_.
      throwIf (subject = tc_actorId ctx \<and> Sessions_self \<notin> held \<and> Sessions_tenant_manage \<notin> held) forbidden))))"

definition validateGuarantee :: "session_guarantee \<Rightarrow> control_error + unit" where
  "validateGuarantee g = throwIf (gu_kind g = Bounded_local
     \<and> ((case gu_propagationBoundSeconds g of None \<Rightarrow> True | Some n \<Rightarrow> n < 1 \<or> n > 30) \<or> truthyText (gu_effectiveBy g) = None))
     (SessionControlError ''SESSION_INVALID'' 400)"

definition noGuarantee :: session_guarantee where
  "noGuarantee = \<lparr>gu_kind = No_guarantee, gu_effectiveBy = None, gu_propagationBoundSeconds = None, gu_accessTokenExpiresAt = None\<rparr>"

definition supportsAction :: "control_capabilities \<Rightarrow> session_action \<Rightarrow> session_scope \<Rightarrow> bool" where
  "supportsAction c action scope \<longleftrightarrow> scope \<in> set (cap_controlScopes c)
     \<and> (if action \<in> {Revoke_one, Logout_current} then cap_revokeOne c
        else if action = Revoke_others then cap_revokeOthers c else cap_revokeAll c)"

definition targetsOf :: "session_registration list \<Rightarrow> string \<Rightarrow> control_command \<Rightarrow> session_registration list" where
  "targetsOf all current command = (case cmd_action command of
       Logout_current \<Rightarrow> filter (\<lambda>item. reg_sid item = current) all
     | Revoke_one \<Rightarrow> filter (\<lambda>item. Some (reg_sid item) = cmd_targetSessionId command) all
     | Revoke_others \<Rightarrow> filter (\<lambda>item. reg_sid item \<noteq> current \<and> reg_state item = Reg_active) all
     | _ \<Rightarrow> filter (\<lambda>item. reg_state item = Reg_active) all)"

subsection \<open>Audit and provider\<close>

definition auditC :: "control_env \<Rightarrow> trusted_context \<Rightarrow> control_event \<Rightarrow> unit control" where
  "auditC E ctx event = bindC (readC cs_ticks) (\<lambda>tick. bindC (nowC E) (\<lambda>now.
     let written = event\<lparr>ev_tenantId := tc_tenantId ctx, ev_actorId := tc_actorId ctx, ev_at := toISOString now\<rparr> in
     bindC (callC (throwIf (\<not> ce_audit E tick written) AuditSinkError)) (\<lambda>_.
     writeC (\<lambda>s. s\<lparr>cs_audit := cs_audit s @ [written]\<rparr>))))"

definition eventOf :: "audit_type \<Rightarrow> control_command \<Rightarrow> string option \<Rightarrow> mutation_status option \<Rightarrow> control_event" where
  "eventOf kind command sid status = \<lparr>ev_type = kind, ev_operationId = Some (cmd_operationId command), ev_sessionId = sid,
     ev_tenantId = [], ev_actorId = [], ev_action = Some (cmd_action command), ev_state = status, ev_at = []\<rparr>"

definition privilegedList :: control_event where
  "privilegedList = \<lparr>ev_type = Privileged_list, ev_operationId = None, ev_sessionId = None, ev_tenantId = [], ev_actorId = [],
     ev_action = None, ev_state = None, ev_at = []\<rparr>"

definition callProvider :: "control_env \<Rightarrow> revocation_request \<Rightarrow> revocation_result option control" where
  "callProvider E request s = (Inr (ce_provider E (length (cs_calls s)) request), s\<lparr>cs_calls := cs_calls s @ [request]\<rparr>)"

subsection \<open>The inventory\<close>

definition viewOf :: "trusted_context \<Rightarrow> session_registration \<Rightarrow> session_view" where
  "viewOf ctx row = (let md = reg_metadata row; g = reg_guarantee row; country = truthyText (dm_country md); region = truthyText (dm_region md) in
     \<lparr>sv_sid = reg_sid row, sv_tenantId = reg_tenantId row, sv_state = reg_state row, sv_provider = reg_provider row,
      sv_capabilities = reg_capabilities row, sv_guarantee = (gu_kind g, gu_effectiveBy g, gu_propagationBoundSeconds g),
      sv_createdAt = reg_createdAt row, sv_lastSeenAt = reg_lastSeenAt row, sv_expiresAt = reg_expiresAt row,
      sv_terminalAt = reg_terminalAt row, sv_current = (reg_sid row = tc_currentSessionId ctx),
      sv_deviceLabel = truthyText (dm_deviceLabel md), sv_client = truthyText (dm_client md),
      sv_userAgent = truthyText (dm_userAgentFamily md),
      sv_location = (if country = None \<and> region = None then None else Some (country, region))\<rparr>)"

definition orSubject :: "string option \<Rightarrow> trusted_context \<Rightarrow> string" where
  "orSubject subject ctx = (case subject of None \<Rightarrow> tc_subjectId ctx | Some x \<Rightarrow> x)"

definition listSessions :: "control_env \<Rightarrow> trusted_context \<Rightarrow> session_scope option \<Rightarrow> string option \<Rightarrow> session_view list control" where
  "listSessions E ctx scope subject =
     bindC (callC (authorize ctx (case scope of None \<Rightarrow> Tenant_scope | Some x \<Rightarrow> x) (orSubject subject ctx))) (\<lambda>_.
     bindC (if scope = Some Identity_scope \<or> (subject \<noteq> None \<and> subject \<noteq> Some (tc_actorId ctx))
            then auditC E ctx privilegedList else returnC ()) (\<lambda>_.
     readC (\<lambda>s. map (viewOf ctx) (listRegistrations ctx scope (Some (orSubject subject ctx)) s))))"

subsection \<open>Execution of a command\<close>

text \<open>
  \<open>JSON.stringify({ ...command, scope })\<close>, with the members in the order in which the controller writes them; a member
  that is absent is left out.
\<close>

definition commandJson :: "control_command \<Rightarrow> session_scope \<Rightarrow> json" where
  "commandJson command scope = JObj (
     [(''action'', JStr (actionText (cmd_action command))), (''operationId'', JStr (cmd_operationId command))]
     @ (case cmd_targetSessionId command of None \<Rightarrow> [] | Some t \<Rightarrow> [(''targetSessionId'', JStr t)])
     @ (case cmd_targetSubjectId command of None \<Rightarrow> [] | Some t \<Rightarrow> [(''targetSubjectId'', JStr t)])
     @ [(''scope'', JStr (scopeText scope))])"

definition commandScope :: "control_command \<Rightarrow> session_scope" where
  "commandScope command = (case cmd_scope command of None \<Rightarrow> Tenant_scope | Some x \<Rightarrow> x)"

definition requestHash :: "control_env \<Rightarrow> control_command \<Rightarrow> string" where
  "requestHash E command = ce_hash E (JSON_stringify (commandJson command (commandScope command)))"

definition operationKey :: "session_scope \<Rightarrow> string \<Rightarrow> session_action \<Rightarrow> string \<Rightarrow> string" where
  "operationKey scope actorId action operationId = scopeText scope @ '':'' @ actorId @ '':'' @ actionText action @ '':'' @ operationId"

definition RETRY_SECONDS :: "int list" where
  "RETRY_SECONDS = [5, 30, 120, 600, 1800, 7200]"

fun stateFor :: "mutation_status \<Rightarrow> registration_state" where
  "stateFor Mut_pending = Reg_revocation_pending"
| "stateFor Mut_revoked = Reg_revoked"
| "stateFor Mut_unsupported = Reg_unsupported"
| "stateFor Mut_failed = Reg_failed"

definition itemFor :: "string \<Rightarrow> revocation_result \<Rightarrow> item_result" where
  "itemFor sid p = \<lparr>ir_sid = sid, ir_status = pr_status p, ir_guarantee = pr_guarantee p, ir_errorCode = pr_errorCode p\<rparr>"

text \<open>One target: not supported, or sent to the provider; a provider that throws leaves it pending.\<close>

definition refuseTarget :: "control_env \<Rightarrow> session_registration \<Rightarrow> item_result control" where
  "refuseTarget E target = bindC (nowC E) (\<lambda>now.
     bindC (updateRegistration (target\<lparr>reg_state := Reg_unsupported, reg_terminalAt := Some (toISOString now)\<rparr>)) (\<lambda>_.
     returnC (itemFor (reg_sid target) \<lparr>pr_status = Mut_unsupported, pr_guarantee = noGuarantee,
       pr_errorCode = Some ''SESSION_CAPABILITY_UNSUPPORTED''\<rparr>)))"

definition answerOf :: "revocation_result option \<Rightarrow> revocation_result" where
  "answerOf r = (case r of Some p \<Rightarrow> p | None \<Rightarrow>
     \<lparr>pr_status = Mut_pending, pr_guarantee = noGuarantee, pr_errorCode = Some ''SESSION_OPERATION_PENDING''\<rparr>)"

definition recordAnswer :: "control_env \<Rightarrow> session_registration \<Rightarrow> revocation_result \<Rightarrow> item_result control" where
  "recordAnswer E target p =
     bindC (if pr_status p \<in> {Mut_pending, Mut_failed} then returnC None
            else bindC (nowC E) (\<lambda>now. returnC (Some (toISOString now)))) (\<lambda>terminalAt.
     bindC (updateRegistration (target\<lparr>reg_state := stateFor (pr_status p), reg_guarantee := pr_guarantee p,
       reg_terminalAt := terminalAt\<rparr>)) (\<lambda>_. returnC (itemFor (reg_sid target) p)))"

definition revokeTarget ::
  "control_env \<Rightarrow> trusted_context \<Rightarrow> control_command \<Rightarrow> session_registration \<Rightarrow> item_result control" where
  "revokeTarget E ctx command target =
     (if \<not> supportsAction (reg_capabilities target) (cmd_action command) (commandScope command) then refuseTarget E target
      else bindC (auditC E ctx (eventOf Provider_attempt command (Some (reg_sid target)) None)) (\<lambda>_.
        bindC (callProvider E \<lparr>pq_operationId = cmd_operationId command, pq_action = cmd_action command, pq_registration = target\<rparr>) (\<lambda>r.
        bindC (callC (validateGuarantee (pr_guarantee (answerOf r)))) (\<lambda>_. recordAnswer E target (answerOf r)))))"

fun revokeTargets ::
  "control_env \<Rightarrow> trusted_context \<Rightarrow> control_command \<Rightarrow> session_registration list \<Rightarrow> item_result list control" where
  "revokeTargets E ctx command [] = returnC []"
| "revokeTargets E ctx command (target # targets) = bindC (revokeTarget E ctx command target) (\<lambda>item.
     bindC (revokeTargets E ctx command targets) (\<lambda>items. returnC (item # items)))"

definition aggregateStatus :: "item_result list \<Rightarrow> mutation_status" where
  "aggregateStatus items =
     (if \<exists>i\<in>set items. ir_status i = Mut_pending then Mut_pending
      else if \<exists>i\<in>set items. ir_status i = Mut_failed then Mut_failed
      else if \<exists>i\<in>set items. ir_status i = Mut_unsupported then Mut_unsupported
      else Mut_revoked)"

definition mutationResult :: "control_command \<Rightarrow> item_result list \<Rightarrow> mutation_result" where
  "mutationResult command results = (let guarantee = ir_guarantee (hd results) in
     \<lparr>mr_operationId = cmd_operationId command, mr_action = cmd_action command, mr_scope = commandScope command,
      mr_status = aggregateStatus results, mr_guarantee = guarantee, mr_effectiveBy = gu_effectiveBy guarantee,
      mr_results = results, mr_errorCode = None\<rparr>)"

definition retryAt :: "int \<Rightarrow> nat \<Rightarrow> string" where
  "retryAt now attempts = toISOString (now + RETRY_SECONDS ! (attempts - 1) * 1000)"

definition newOperation ::
  "control_env \<Rightarrow> trusted_context \<Rightarrow> control_command \<Rightarrow> item_result list \<Rightarrow> string option \<Rightarrow> control_operation" where
  "newOperation E ctx command results nextAttemptAt =
     \<lparr>op_key = operationKey (commandScope command) (tc_actorId ctx) (cmd_action command) (cmd_operationId command),
      op_requestHash = requestHash E command, op_result = mutationResult command results, op_attempts = 1,
      op_nextAttemptAt = nextAttemptAt, op_leaseUntil = None\<rparr>"

definition firstRetry :: "control_env \<Rightarrow> mutation_status \<Rightarrow> string option control" where
  "firstRetry E status = (if status = Mut_pending then bindC (nowC E) (\<lambda>now. returnC (Some (retryAt now 1))) else returnC None)"

definition outcomeEvent :: "control_command \<Rightarrow> mutation_status \<Rightarrow> control_event" where
  "outcomeEvent command status = eventOf (if status = Mut_failed then Audit_failure
     else if status = Mut_pending then Audit_pending else Audit_result) command None (Some status)"

definition finishOperation ::
  "control_env \<Rightarrow> trusted_context \<Rightarrow> control_command \<Rightarrow> item_result list \<Rightarrow> mutation_result control" where
  "finishOperation E ctx command results =
     bindC (firstRetry E (aggregateStatus results)) (\<lambda>nextAttemptAt.
     bindC (saveOperation (newOperation E ctx command results nextAttemptAt)) (\<lambda>_.
     bindC (auditC E ctx (outcomeEvent command (aggregateStatus results))) (\<lambda>_.
     returnC (mutationResult command results))))"

definition executeFresh :: "control_env \<Rightarrow> trusted_context \<Rightarrow> control_command \<Rightarrow> mutation_result control" where
  "executeFresh E ctx command =
     bindC (readC (listRegistrations ctx (Some (commandScope command)) (Some (orSubject (cmd_targetSubjectId command) ctx)))) (\<lambda>all.
     let targets = targetsOf all (tc_currentSessionId ctx) command in
     bindC (callC (throwIf (targets = []) (SessionControlError ''SESSION_NOT_FOUND'' 404))) (\<lambda>_.
     bindC (callC (throwIf ((\<exists>item\<in>set targets. reg_sharedAnchor item) \<and> Sessions_identity_manage \<notin> tc_authorities ctx)
       (SessionControlError ''SESSION_FORBIDDEN'' 403))) (\<lambda>_.
     bindC (auditC E ctx (eventOf Control_request command None None)) (\<lambda>_.
     bindC (revokeTargets E ctx command targets) (finishOperation E ctx command)))))"

definition executeCommand :: "control_env \<Rightarrow> trusted_context \<Rightarrow> control_command \<Rightarrow> mutation_result control" where
  "executeCommand E ctx command =
     bindC (callC (validateCommand E command)) (\<lambda>_.
     bindC (callC (authorize ctx (commandScope command) (orSubject (cmd_targetSubjectId command) ctx))) (\<lambda>_.
     bindC (readC (\<lambda>s. jget (cs_operations s)
       (operationKey (commandScope command) (tc_actorId ctx) (cmd_action command) (cmd_operationId command)))) (\<lambda>existing.
     case existing of
       Some o' \<Rightarrow> bindC (callC (throwIf (op_requestHash o' \<noteq> requestHash E command)
         (SessionControlError ''SESSION_IDEMPOTENCY_CONFLICT'' 409))) (\<lambda>_. returnC (op_result o'))
     | None \<Rightarrow> executeFresh E ctx command)))"

subsection \<open>Reading an operation\<close>

definition operationSearch :: "string \<Rightarrow> string \<Rightarrow> string list" where
  "operationSearch actorId operationId = [operationKey scope actorId action operationId.
     scope \<leftarrow> [Tenant_scope, Identity_scope],
     action \<leftarrow> [Logout_current, Revoke_one, Revoke_others, Revoke_all, Revoke_subject, Revoke_tenant]]"

definition getOperation :: "control_env \<Rightarrow> trusted_context \<Rightarrow> string \<Rightarrow> mutation_result control" where
  "getOperation E ctx operationId =
     bindC (callC (throwIf (\<not> ce_validUuid E operationId) (SessionControlError ''SESSION_INVALID'' 400))) (\<lambda>_.
     bindC (readC (\<lambda>s. List.map_filter (jget (cs_operations s)) (operationSearch (tc_actorId ctx) operationId))) (\<lambda>found.
     callC (case found of [] \<Rightarrow> Inl (SessionControlError ''SESSION_NOT_FOUND'' 404) | o' # _ \<Rightarrow> Inr (op_result o'))))"

subsection \<open>Reconciliation\<close>

text \<open>
  The registrations listed before the retries of an operation are the stored objects; each retry changes the one it
  concerns and stores it again, so looking it up in the store gives the same.
\<close>

definition findRegistration :: "trusted_context \<Rightarrow> session_scope \<Rightarrow> string \<Rightarrow> control_state \<Rightarrow> session_registration option" where
  "findRegistration ctx scope sid s = List.find (\<lambda>r. reg_sid r = sid) (listRegistrations ctx (Some scope) None s)"

definition isTerminal :: "registration_state \<Rightarrow> bool" where
  "isTerminal st \<longleftrightarrow> st \<in> {Reg_revoked, Reg_unsupported, Reg_expired, Reg_retired}"

definition retryItem :: "control_env \<Rightarrow> trusted_context \<Rightarrow> mutation_result \<Rightarrow> item_result \<Rightarrow> item_result control" where
  "retryItem E ctx result item =
     (if ir_status item \<noteq> Mut_pending then returnC item
      else bindC (readC (findRegistration ctx (mr_scope result) (ir_sid item))) (\<lambda>found. case found of
        None \<Rightarrow> returnC item
      | Some registration \<Rightarrow>
          bindC (callProvider E \<lparr>pq_operationId = mr_operationId result, pq_action = mr_action result, pq_registration = registration\<rparr>) (\<lambda>r.
          case r of None \<Rightarrow> returnC item
          | Some outcome \<Rightarrow>
              if validateGuarantee (pr_guarantee outcome) \<noteq> Inr () then returnC item
              else bindC (if isTerminal (stateFor (pr_status outcome)) then bindC (nowC E) (\<lambda>now. returnC (Some (toISOString now)))
                          else returnC (reg_terminalAt registration)) (\<lambda>terminalAt.
                bindC (updateRegistration (registration\<lparr>reg_state := stateFor (pr_status outcome),
                  reg_guarantee := pr_guarantee outcome, reg_terminalAt := terminalAt\<rparr>)) (\<lambda>_.
                returnC (itemFor (ir_sid item) (outcome\<lparr>pr_errorCode := truthyText (pr_errorCode outcome)\<rparr>)))))))"

fun eachItem :: "(item_result \<Rightarrow> item_result control) \<Rightarrow> item_result list \<Rightarrow> item_result list control" where
  "eachItem f [] = returnC []"
| "eachItem f (i # items) = bindC (f i) (\<lambda>j. bindC (eachItem f items) (\<lambda>js. returnC (j # js)))"

definition failItem :: "control_env \<Rightarrow> trusted_context \<Rightarrow> mutation_result \<Rightarrow> item_result \<Rightarrow> item_result control" where
  "failItem E ctx result item =
     (if ir_status item \<noteq> Mut_pending then returnC item
      else bindC (readC (findRegistration ctx (mr_scope result) (ir_sid item))) (\<lambda>found.
        bindC (case found of None \<Rightarrow> returnC ()
          | Some registration \<Rightarrow> bindC (nowC E) (\<lambda>now.
              updateRegistration (registration\<lparr>reg_state := Reg_failed, reg_terminalAt := Some (toISOString now)\<rparr>))) (\<lambda>_.
        returnC (item\<lparr>ir_status := Mut_failed, ir_errorCode := Some ''SESSION_PROVIDER_FAILED''\<rparr>))))"

definition anyPending :: "item_result list \<Rightarrow> bool" where
  "anyPending items \<longleftrightarrow> (\<exists>i\<in>set items. ir_status i = Mut_pending)"

text \<open>The operation with one more attempt: closed with a status, or to be tried again.\<close>

definition closedOperation :: "control_operation \<Rightarrow> mutation_status \<Rightarrow> item_result list \<Rightarrow> string option \<Rightarrow> control_operation" where
  "closedOperation o' status items code = o'\<lparr>op_attempts := op_attempts o' + 1, op_nextAttemptAt := None, op_leaseUntil := None,
     op_result := (op_result o')\<lparr>mr_status := status, mr_results := items, mr_errorCode := code\<rparr>\<rparr>"

definition delayedOperation :: "control_operation \<Rightarrow> item_result list \<Rightarrow> string \<Rightarrow> control_operation" where
  "delayedOperation o' items nextAttemptAt = o'\<lparr>op_attempts := op_attempts o' + 1, op_nextAttemptAt := Some nextAttemptAt,
     op_leaseUntil := None, op_result := (op_result o')\<lparr>mr_results := items\<rparr>\<rparr>"

definition settleOperation :: "control_env \<Rightarrow> trusted_context \<Rightarrow> control_operation \<Rightarrow> item_result list \<Rightarrow> control_operation control" where
  "settleOperation E ctx o' items =
     (if anyPending items \<and> op_attempts o' + 1 > length RETRY_SECONDS then
        bindC (eachItem (failItem E ctx (op_result o')) items) (\<lambda>failed.
        returnC (closedOperation o' Mut_failed failed (Some ''SESSION_PROVIDER_FAILED'')))
      else if anyPending items then
        bindC (nowC E) (\<lambda>now. returnC (delayedOperation o' items (retryAt now (op_attempts o' + 1))))
      else returnC (closedOperation o' (if \<forall>i\<in>set items. ir_status i = Mut_revoked then Mut_revoked else Mut_unsupported) items
        (mr_errorCode (op_result o'))))"

definition reconcileOperation :: "control_env \<Rightarrow> trusted_context \<Rightarrow> control_operation \<Rightarrow> unit control" where
  "reconcileOperation E ctx o' = bindC (eachItem (retryItem E ctx (op_result o')) (mr_results (op_result o'))) (\<lambda>items.
     bindC (settleOperation E ctx o' items) saveOperation)"

fun reconcileOperations :: "control_env \<Rightarrow> trusted_context \<Rightarrow> control_operation list \<Rightarrow> unit control" where
  "reconcileOperations E ctx [] = returnC ()"
| "reconcileOperations E ctx (o' # os) = bindC (reconcileOperation E ctx o') (\<lambda>_. reconcileOperations E ctx os)"

definition reconcileSessions :: "control_env \<Rightarrow> trusted_context \<Rightarrow> nat \<Rightarrow> nat control" where
  "reconcileSessions E ctx limit = bindC (nowC E) (\<lambda>now.
     bindC (claimPending (toISOString now) (toISOString (now + 60000)) limit) (\<lambda>claimed.
     bindC (reconcileOperations E ctx claimed) (\<lambda>_. returnC (length claimed))))"

subsection \<open>The provider double\<close>

definition COGNITO_COMPATIBLE_CAPABILITIES :: control_capabilities where
  "COGNITO_COMPATIBLE_CAPABILITIES = \<lparr>cap_stableSessionIdentity = False, cap_listScopes = [Tenant_scope],
     cap_controlScopes = [Tenant_scope], cap_revokeOne = True, cap_revokeOthers = True, cap_revokeAll = True,
     cap_localEnforcement = Enforce_none, cap_providerConfirmation = True, cap_retryReconciliation = True,
     cap_identityGlobalAuthority = False, cap_sharedAnchorBlastRadius = True\<rparr>"

text \<open>\<open>revoke\<close> answers with the next prepared outcome, and with a confirmation at the time of the call when none is left.\<close>

definition fakeRevoke :: "revocation_result list \<Rightarrow> (nat \<Rightarrow> int) \<Rightarrow> nat \<Rightarrow> revocation_request \<Rightarrow> revocation_result option" where
  "fakeRevoke outcomes clock n request = Some (if n < length outcomes then outcomes ! n
     else \<lparr>pr_status = Mut_revoked, pr_guarantee = \<lparr>gu_kind = Provider_confirmed, gu_effectiveBy = Some (toISOString (clock n)),
       gu_propagationBoundSeconds = None, gu_accessTokenExpiresAt = None\<rparr>, pr_errorCode = None\<rparr>)"

end
