(* ===== verification/Control_Runs.thy ===== *)
theory Control_Runs
  imports Control_Service Transition_System
begin

text \<open>
  What an operation of session control may change, as a relation between the state before and the state after.
  The locale \<open>control_order\<close> is the interface of such a relation, its rules follow the structure of an operation.
  \<open>confined\<close> says which registrations may change and about which the provider may be asked; \<open>registry_kept\<close>
  keeps the registry well formed and the operations as they are; \<open>grows\<close> keeps what a reconciliation relies on. Then the effect of a reconciliation, the step
  relation with its invariant, and the preorder that an operation on record follows.
\<close>

definition leadsC :: "(control_state \<Rightarrow> control_state \<Rightarrow> bool) \<Rightarrow> 'a control \<Rightarrow> control_state \<Rightarrow> bool" where
  "leadsC R m s \<longleftrightarrow> R s (snd (m s))"

lemma leadsC_D: "leadsC R m s \<Longrightarrow> m s = (r, t) \<Longrightarrow> R s t"
  by (simp add: leadsC_def)

locale control_order =
  fixes R :: "control_state \<Rightarrow> control_state \<Rightarrow> bool"
  assumes quiet: "cs_registrations t = cs_registrations s \<Longrightarrow> cs_operations t = cs_operations s \<Longrightarrow> cs_calls t = cs_calls s
      \<Longrightarrow> cs_ticks s \<le> cs_ticks t \<Longrightarrow> R s t"
    and trans: "R s t \<Longrightarrow> R t u \<Longrightarrow> R s u"
begin

lemma leads_basic: "leadsC R (returnC x) s" "leadsC R (callC r) s" "leadsC R (readC f) s" "leadsC R (nowC E) s"
  by (simp_all add: leadsC_def quiet)

lemma leads_bind:
  assumes "leadsC R m s" and "\<And>x t. m s = (Inr x, t) \<Longrightarrow> leadsC R (f x) t"
  shows "leadsC R (bindC m f) s"
proof (cases "m s")
  case (Pair r t)
  then have "R s t"
    using assms(1) by (simp add: leadsC_def)
  show ?thesis
  proof (cases r)
    case (Inr x)
    then show ?thesis
      using Pair \<open>R s t\<close> assms(2) [of x t] by (auto simp: leadsC_def bindC_def intro: trans)
  qed (use Pair \<open>R s t\<close> in \<open>auto simp: leadsC_def bindC_def\<close>)
qed

lemma leads_audit: "leadsC R (auditC E ctx event) s"
  unfolding auditC_def Let_def
  by (intro leads_bind leads_basic) (simp add: leadsC_def quiet)

lemmas leads_rules = leads_basic leads_bind leads_audit

end

subsection \<open>What execution may touch\<close>

text \<open>
  Only registrations of \<open>T\<close> change, and the provider is asked only about them.
\<close>

definition confined :: "session_registration set \<Rightarrow> control_state \<Rightarrow> control_state \<Rightarrow> bool" where
  "confined T s t \<longleftrightarrow> (\<forall>k. k \<notin> reg_sid ` T \<longrightarrow> jget (cs_registrations t) k = jget (cs_registrations s) k)
     \<and> (\<exists>calls. cs_calls t = cs_calls s @ calls \<and> (\<forall>q\<in>set calls. pq_registration q \<in> T))"

interpretation cf: control_order "confined T" for T
proof unfold_locales
  show "confined T s u" if "confined T s t" "confined T t u" for s t u
  proof -
    obtain c d where "cs_calls t = cs_calls s @ c" "\<forall>q\<in>set c. pq_registration q \<in> T"
      "cs_calls u = cs_calls t @ d" "\<forall>q\<in>set d. pq_registration q \<in> T"
      using \<open>confined T s t\<close> \<open>confined T t u\<close> unfolding confined_def by blast
    then show ?thesis
      using \<open>confined T s t\<close> \<open>confined T t u\<close> unfolding confined_def
      by (intro conjI exI [of _ "c @ d"]) auto
  qed
qed (auto simp: confined_def)

lemma confined_update: "reg_sid r \<in> reg_sid ` T \<Longrightarrow> leadsC (confined T) (updateRegistration r) s"
  by (auto simp: leadsC_def updateRegistration_def registerSession_def confined_def)

lemma confined_call: "pq_registration q \<in> T \<Longrightarrow> leadsC (confined T) (callProvider E q) s"
  by (simp add: leadsC_def callProvider_def confined_def)

lemma confined_save: "leadsC (confined T) (saveOperation o') s"
  by (simp add: leadsC_def saveOperation_def confined_def)

lemma confined_revokeTarget: "target \<in> T \<Longrightarrow> leadsC (confined T) (revokeTarget E ctx command target) s"
  by (auto simp: revokeTarget_def refuseTarget_def recordAnswer_def Let_def
      intro!: cf.leads_rules confined_update confined_call)

lemma confined_revokeTargets: "set targets \<subseteq> T \<Longrightarrow> leadsC (confined T) (revokeTargets E ctx command targets) s"
  by (induction targets arbitrary: s) (auto intro!: cf.leads_rules confined_revokeTarget)

definition commandTargets :: "trusted_context \<Rightarrow> control_command \<Rightarrow> control_state \<Rightarrow> session_registration list" where
  "commandTargets ctx command s = targetsOf (listRegistrations ctx (Some (commandScope command))
     (Some (orSubject (cmd_targetSubjectId command) ctx)) s) (tc_currentSessionId ctx) command"

lemma confined_executeFresh: "leadsC (confined (set (commandTargets ctx command s))) (executeFresh E ctx command) s"
  unfolding executeFresh_def finishOperation_def firstRetry_def Let_def
  by (intro cf.leads_rules confined_revokeTargets confined_save)
    (auto simp: commandTargets_def intro!: cf.leads_rules)

lemma confined_executeCommand: "leadsC (confined (set (commandTargets ctx command s))) (executeCommand E ctx command) s"
  unfolding executeCommand_def
  by (intro cf.leads_rules) (auto split: option.split intro!: cf.leads_rules confined_executeFresh)

subsection \<open>The registry\<close>

definition registry_ok :: "control_state \<Rightarrow> bool" where
  "registry_ok s \<longleftrightarrow> jwf (cs_registrations s) \<and> (\<forall>p\<in>set (cs_registrations s). reg_sid (snd p) = fst p)"

lemma registry_sid: "registry_ok s \<Longrightarrow> jget (cs_registrations s) k = Some r \<Longrightarrow> reg_sid r = k"
proof -
  assume ok: "registry_ok s" and found: "jget (cs_registrations s) k = Some r"
  have "\<forall>p\<in>set (cs_registrations s). reg_sid (snd p) = fst p"
    using ok unfolding registry_ok_def by (rule conjunct2)
  then have "reg_sid (snd (k, r)) = fst (k, r)"
    using jget_in_set [OF found] by (rule bspec)
  then show ?thesis by (simp only: fst_conv snd_conv)
qed

definition registry_kept :: "control_state \<Rightarrow> control_state \<Rightarrow> bool" where
  "registry_kept s t \<longleftrightarrow> cs_operations t = cs_operations s \<and> (registry_ok s \<longrightarrow> registry_ok t)"

interpretation rk: control_order registry_kept
proof unfold_locales
  show "registry_kept s t" if "cs_registrations t = cs_registrations s" "cs_operations t = cs_operations s" for s t
    unfolding registry_kept_def registry_ok_def by (simp only: that simp_thms)
  show "registry_kept s u" if "registry_kept s t" "registry_kept t u" for s t u
    using that unfolding registry_kept_def by metis
qed

lemma registry_ok_update: "registry_ok s \<Longrightarrow> registry_ok (s\<lparr>cs_registrations := jset (reg_sid r) r (cs_registrations s)\<rparr>)"
  by (simp add: registry_ok_def set_jset)

lemma kept_update: "leadsC registry_kept (updateRegistration r) s"
  by (simp add: leadsC_def updateRegistration_def registerSession_def registry_kept_def registry_ok_update)

lemma kept_call: "leadsC registry_kept (callProvider E q) s"
  by (simp add: leadsC_def callProvider_def registry_kept_def registry_ok_def)

lemma kept_revokeTarget: "leadsC registry_kept (revokeTarget E ctx command target) s"
  by (auto simp: revokeTarget_def refuseTarget_def recordAnswer_def Let_def intro!: rk.leads_rules kept_update kept_call)

lemma kept_revokeTargets: "leadsC registry_kept (revokeTargets E ctx command targets) s"
  by (induction targets arbitrary: s) (auto intro!: rk.leads_rules kept_revokeTarget)

lemma kept_retryItem: "leadsC registry_kept (retryItem E ctx result item) s"
  by (auto simp: retryItem_def split: option.split intro!: rk.leads_rules kept_update kept_call)

lemma kept_failItem: "leadsC registry_kept (failItem E ctx result item) s"
  by (auto simp: failItem_def split: option.split intro!: rk.leads_rules kept_update)

lemma kept_eachItem: "(\<And>i s. leadsC registry_kept (f i) s) \<Longrightarrow> leadsC registry_kept (eachItem f items) s"
  by (induction items arbitrary: s) (auto intro!: rk.leads_rules)

lemma kept_settleOperation: "leadsC registry_kept (settleOperation E ctx o' items) s"
  by (auto simp: settleOperation_def Let_def intro!: rk.leads_rules kept_eachItem kept_failItem)

lemma registry_listed:
  assumes "registry_ok s"
  shows "r \<in> set (listRegistrations ctx scope subject s) \<longleftrightarrow> jget (cs_registrations s) (reg_sid r) = Some r
    \<and> (scope = Some Identity_scope \<or> reg_tenantId r = tc_tenantId ctx)
    \<and> (case truthyText subject of None \<Rightarrow> True | Some x \<Rightarrow> reg_subjectId r = x)"
proof -
  have "r \<in> set (jvalues (cs_registrations s)) \<longleftrightarrow> jget (cs_registrations s) (reg_sid r) = Some r"
    using assms in_jvalues [of "cs_registrations s" r] registry_sid [OF assms] unfolding registry_ok_def by blast
  then show ?thesis
    by (auto simp: listRegistrations_def)
qed

lemma distinct_listed: "registry_ok s \<Longrightarrow> distinct (map reg_sid (listRegistrations ctx scope subject s))"
proof -
  assume ok: "registry_ok s"
  have "map reg_sid (jvalues (cs_registrations s)) = map fst (cs_registrations s)"
    using ok by (simp add: jvalues_def registry_ok_def)
  then have "distinct (map reg_sid (jvalues (cs_registrations s)))"
    using ok by (simp add: registry_ok_def)
  then show ?thesis
    unfolding listRegistrations_def by (rule distinct_map_filter)
qed

text \<open>
  What a reconciliation does to the rest of the state: the clock and the trail of the provider's calls only go on, and no
  registration appears, vanishes or changes its tenant.
\<close>

definition grows :: "control_state \<Rightarrow> control_state \<Rightarrow> bool" where
  "grows s t \<longleftrightarrow> cs_ticks s \<le> cs_ticks t \<and> (\<exists>calls. cs_calls t = cs_calls s @ calls)
     \<and> (registry_ok s \<longrightarrow> registry_ok t \<and>
          (\<forall>k. map_option reg_tenantId (jget (cs_registrations t) k) = map_option reg_tenantId (jget (cs_registrations s) k)))"

lemma registry_ok_cong: "cs_registrations t = cs_registrations s \<Longrightarrow> registry_ok t = registry_ok s"
  unfolding registry_ok_def by (simp only:)

interpretation gr: control_order grows
proof unfold_locales
  show "grows s t" if "cs_registrations t = cs_registrations s" "cs_calls t = cs_calls s" "cs_ticks s \<le> cs_ticks t" for s t
    using that registry_ok_cong [OF that(1)] unfolding grows_def by simp
  show "grows s u" if "grows s t" "grows t u" for s t u
  proof -
    obtain c d where "cs_calls t = cs_calls s @ c" "cs_calls u = cs_calls t @ d"
      using \<open>grows s t\<close> \<open>grows t u\<close> unfolding grows_def by blast
    then show ?thesis
      using \<open>grows s t\<close> \<open>grows t u\<close> unfolding grows_def by (intro conjI exI [of _ "c @ d"]) auto
  qed
qed

lemma grows_calls:
  assumes "grows s t" "n < length (cs_calls s)"
  shows "cs_calls t ! n = cs_calls s ! n" "n < length (cs_calls t)"
  using assms by (auto simp: grows_def nth_append)

lemma grows_length: "grows s t \<Longrightarrow> length (cs_calls s) \<le> length (cs_calls t)"
  by (auto simp: grows_def)

lemma grows_update:
  assumes "jget (cs_registrations s) (reg_sid r) = Some r0" "reg_tenantId r = reg_tenantId r0"
    "cs_registrations t = jset (reg_sid r) r (cs_registrations s)" "cs_calls t = cs_calls s @ calls" "cs_ticks s \<le> cs_ticks t"
  shows "grows s t"
proof -
  have "registry_ok t" if "registry_ok s"
    using registry_ok_update [OF that, of r] registry_ok_cong [of t "s\<lparr>cs_registrations := jset (reg_sid r) r (cs_registrations s)\<rparr>"]
      assms(3) by simp
  then show ?thesis
    using assms by (auto simp: grows_def simp del: map_of_eq_Some_iff)
qed

text \<open>The registrations that a context sees.\<close>

definition seesSession :: "trusted_context \<Rightarrow> session_scope \<Rightarrow> control_state \<Rightarrow> string \<Rightarrow> bool" where
  "seesSession ctx scope s sid \<longleftrightarrow> (case jget (cs_registrations s) sid of None \<Rightarrow> False
     | Some r \<Rightarrow> scope = Identity_scope \<or> reg_tenantId r = tc_tenantId ctx)"

lemma seesSession_grows: "grows s t \<Longrightarrow> registry_ok s \<Longrightarrow> seesSession ctx scope t sid = seesSession ctx scope s sid"
proof -
  assume "grows s t" "registry_ok s"
  then have "map_option reg_tenantId (jget (cs_registrations t) sid) = map_option reg_tenantId (jget (cs_registrations s) sid)"
    by (simp add: grows_def)
  then show ?thesis
    unfolding seesSession_def by (cases "jget (cs_registrations t) sid"; cases "jget (cs_registrations s) sid") (simp_all del: map_of_eq_Some_iff)
qed

lemma findRegistration_found:
  assumes "registry_ok s"
  shows "findRegistration ctx scope sid s = (if seesSession ctx scope s sid then jget (cs_registrations s) sid else None)"
proof (cases "findRegistration ctx scope sid s")
  case None
  then have none: "\<And>r. r \<in> set (listRegistrations ctx (Some scope) None s) \<Longrightarrow> reg_sid r \<noteq> sid"
    by (auto simp: findRegistration_def find_None_iff)
  have "\<not> seesSession ctx scope s sid"
  proof
    assume "seesSession ctx scope s sid"
    then obtain r where r: "jget (cs_registrations s) sid = Some r" "scope = Identity_scope \<or> reg_tenantId r = tc_tenantId ctx"
      by (auto simp: seesSession_def simp del: map_of_eq_Some_iff split: option.splits)
    have "reg_sid r = sid"
      by (rule registry_sid [OF assms r(1)])
    with r none [of r] show False
      unfolding registry_listed [OF assms] by (simp add: truthyText_def del: map_of_eq_Some_iff)
  qed
  with None show ?thesis by simp
next
  case (Some r)
  then have "r \<in> set (listRegistrations ctx (Some scope) None s)" "reg_sid r = sid"
    by (auto simp: findRegistration_def find_Some_iff)
  then have "jget (cs_registrations s) sid = Some r" "scope = Identity_scope \<or> reg_tenantId r = tc_tenantId ctx"
    unfolding registry_listed [OF assms] by auto
  with Some show ?thesis
    by (simp add: seesSession_def del: map_of_eq_Some_iff)
qed

lemma targetsOf_filter: "\<exists>P. targetsOf all current command = filter P all"
  by (cases "cmd_action command") (auto simp: targetsOf_def)

lemma distinct_targets: "registry_ok s \<Longrightarrow> distinct (map reg_sid (commandTargets ctx command s))"
  unfolding commandTargets_def
  by (metis distinct_listed distinct_map_filter targetsOf_filter)

end
