(* ===== verification/Control_Inv.thy ===== *)
theory Control_Inv
  imports Control_Runs
begin

text \<open>
  The operations on record. A stored operation has the status of its items, and while it is pending it has been tried at
  most six times and a next attempt is due (\<open>op_ok\<close>). A command adds one operation under its own key;
  a reconciliation advances the operations it claims and leaves the others alone.
\<close>

definition op_ok :: "control_operation \<Rightarrow> bool" where
  "op_ok o' \<longleftrightarrow> op_leaseUntil o' = None \<and> 1 \<le> op_attempts o'
     \<and> (mr_status (op_result o') = Mut_pending \<longleftrightarrow> anyPending (mr_results (op_result o')))
     \<and> (if mr_status (op_result o') = Mut_pending then op_attempts o' \<le> 6 \<and> op_nextAttemptAt o' \<noteq> None
        else op_nextAttemptAt o' = None)"

definition stored_ok :: "string \<Rightarrow> control_operation \<Rightarrow> bool" where
  "stored_ok k o' \<longleftrightarrow> op_key o' = k \<and> op_ok o'"

definition ops_ok :: "control_state \<Rightarrow> bool" where
  "ops_ok s \<longleftrightarrow> jwf (cs_operations s) \<and> (\<forall>k o'. jget (cs_operations s) k = Some o' \<longrightarrow> stored_ok k o')"

lemma ops_okD: "ops_ok s \<Longrightarrow> jget (cs_operations s) k = Some o' \<Longrightarrow> op_key o' = k \<and> op_ok o'"
  unfolding ops_ok_def stored_ok_def by blast

definition same_command :: "control_operation \<Rightarrow> control_operation \<Rightarrow> bool" where
  "same_command a b \<longleftrightarrow> op_key b = op_key a \<and> op_requestHash b = op_requestHash a
     \<and> mr_operationId (op_result b) = mr_operationId (op_result a) \<and> mr_action (op_result b) = mr_action (op_result a)
     \<and> mr_scope (op_result b) = mr_scope (op_result a)
     \<and> map ir_sid (mr_results (op_result b)) = map ir_sid (mr_results (op_result a))"

lemma same_command_refl: "same_command a a"
  by (simp add: same_command_def)

lemma same_command_trans: "same_command a b \<Longrightarrow> same_command b c \<Longrightarrow> same_command a c"
  by (simp add: same_command_def)

subsection \<open>A command\<close>

definition commandKey :: "trusted_context \<Rightarrow> control_command \<Rightarrow> string" where
  "commandKey ctx command = operationKey (commandScope command) (tc_actorId ctx) (cmd_action command) (cmd_operationId command)"

definition recorded :: "control_env \<Rightarrow> trusted_context \<Rightarrow> control_command \<Rightarrow> item_result list \<Rightarrow> control_operation \<Rightarrow> bool" where
  "recorded E ctx command items o' \<longleftrightarrow> stored_ok (commandKey ctx command) o' \<and> op_requestHash o' = requestHash E command
     \<and> op_result o' = mutationResult command items \<and> op_attempts o' = 1"

lemma aggregate_pending: "aggregateStatus items = Mut_pending \<longleftrightarrow> anyPending items"
  by (simp add: aggregateStatus_def anyPending_def)

lemma aggregate_revoked: "aggregateStatus items = Mut_revoked \<longleftrightarrow> (\<forall>i\<in>set items. ir_status i = Mut_revoked)"
proof -
  have "x = Mut_revoked \<longleftrightarrow> x \<noteq> Mut_pending \<and> x \<noteq> Mut_failed \<and> x \<noteq> Mut_unsupported" for x
    by (cases x) simp_all
  then show ?thesis
    by (auto simp: aggregateStatus_def)
qed

lemma auditC_kept: "auditC E ctx event s = (r, t) \<Longrightarrow>
    cs_operations t = cs_operations s \<and> cs_registrations t = cs_registrations s \<and> cs_calls t = cs_calls s"
  by (auto simp: auditC_def Let_def bindC_def split: sum.splits)

lemma finishOperation_effect:
  assumes "finishOperation E ctx command items s = (r, t)"
  shows "\<exists>o'. recorded E ctx command items o' \<and> cs_operations t = jset (commandKey ctx command) o' (cs_operations s)
    \<and> cs_registrations t = cs_registrations s \<and> (\<forall>x. r = Inr x \<longrightarrow> x = op_result o')"
proof -
  obtain n u where first: "firstRetry E (aggregateStatus items) s = (Inr n, u)" "cs_operations u = cs_operations s"
      "cs_registrations u = cs_registrations s" "n \<noteq> None \<longleftrightarrow> aggregateStatus items = Mut_pending"
    by (cases "aggregateStatus items = Mut_pending") (simp_all add: firstRetry_def bindC_def)
  let ?op = "newOperation E ctx command items n"
  have "recorded E ctx command items ?op"
    using first(4) by (auto simp: recorded_def stored_ok_def op_ok_def newOperation_def commandKey_def mutationResult_def
      aggregate_pending [symmetric] Let_def)
  moreover have "cs_operations t = jset (commandKey ctx command) ?op (cs_operations s) \<and> cs_registrations t = cs_registrations s
      \<and> (\<forall>x. r = Inr x \<longrightarrow> x = mutationResult command items)"
    using assms first by (auto simp: finishOperation_def saveOperation_def bindC_def newOperation_def commandKey_def
        split: prod.splits sum.splits dest!: auditC_kept)
  ultimately show ?thesis
    by (intro exI [of _ ?op]) (simp add: newOperation_def)
qed

lemma executeFresh_effect:
  assumes "executeFresh E ctx command s = (r, t)"
  shows "cs_operations t = cs_operations s \<and> (\<exists>e. r = Inl e) \<and> (registry_ok s \<longrightarrow> registry_ok t)
    \<or> (\<exists>items u v o'. revokeTargets E ctx command (commandTargets ctx command s) u = (Inr items, v)
        \<and> cs_registrations u = cs_registrations s \<and> cs_registrations t = cs_registrations v
        \<and> cs_operations v = cs_operations s \<and> (registry_ok s \<longrightarrow> registry_ok v)
        \<and> recorded E ctx command items o' \<and> cs_operations t = jset (commandKey ctx command) o' (cs_operations s)
        \<and> (\<forall>x. r = Inr x \<longrightarrow> x = op_result o'))"
proof -
  let ?request = "auditC E ctx (eventOf Control_request command None None)"
  let ?targets = "commandTargets ctx command s"
  consider (same) e where "r = Inl e" "t = s"
    | (audit) e where "r = Inl e" "?request s = (Inl e, t)"
    | (targets) u e where "?request s = (Inr (), u)" "revokeTargets E ctx command ?targets u = (Inl e, t)" "r = Inl e"
    | (finish) u items v where "?request s = (Inr (), u)" "revokeTargets E ctx command ?targets u = (Inr items, v)"
        "finishOperation E ctx command items v = (r, t)"
    using assms
    by (auto simp: executeFresh_def commandTargets_def Let_def bindC_def split: prod.splits sum.splits)
  then show ?thesis
  proof cases
    case same
    then show ?thesis by simp
  next
    case audit
    then show ?thesis
      using leadsC_D [OF rk.leads_audit audit(2)] by (auto simp: registry_kept_def)
  next
    case targets
    then show ?thesis
      using leadsC_D [OF rk.leads_audit targets(1)] leadsC_D [OF kept_revokeTargets targets(2)] by (auto simp: registry_kept_def)
  next
    case finish
    have kept: "registry_kept s u" "registry_kept u v"
      using leadsC_D [OF rk.leads_audit finish(1)] leadsC_D [OF kept_revokeTargets finish(2)] by simp_all
    then have "registry_kept s v"
      by (rule rk.trans)
    then show ?thesis
      using finish auditC_kept [OF finish(1)] finishOperation_effect [OF finish(3)] kept
      unfolding registry_kept_def by metis
  qed
qed

subsection \<open>A reconciliation\<close>

text \<open>
  What an item becomes by a retry. One that is not pending, or whose session the context does not see, stays as it is. For
  any other the provider is asked, by a call between the states \<open>s\<close> and \<open>t\<close>, and its answer is taken over, unless it throws or
  gives a guarantee that is not valid.
\<close>

definition answeredItem :: "item_result \<Rightarrow> revocation_result option \<Rightarrow> item_result" where
  "answeredItem i r = (case r of None \<Rightarrow> i | Some outcome \<Rightarrow>
     if validateGuarantee (pr_guarantee outcome) = Inr ()
     then itemFor (ir_sid i) (outcome\<lparr>pr_errorCode := truthyText (pr_errorCode outcome)\<rparr>) else i)"

definition retriedItem ::
  "control_env \<Rightarrow> trusted_context \<Rightarrow> mutation_result \<Rightarrow> control_state \<Rightarrow> control_state \<Rightarrow> item_result \<Rightarrow> item_result \<Rightarrow> bool" where
  "retriedItem E ctx result s t i j \<longleftrightarrow>
     (if ir_status i = Mut_pending \<and> seesSession ctx (mr_scope result) s (ir_sid i)
      then \<exists>n r. length (cs_calls s) \<le> n \<and> n < length (cs_calls t) \<and> reg_sid r = ir_sid i
        \<and> cs_calls t ! n = \<lparr>pq_operationId = mr_operationId result, pq_action = mr_action result, pq_registration = r\<rparr>
        \<and> j = answeredItem i (ce_provider E n (cs_calls t ! n))
      else j = i)"

lemma retriedItem_sid: "retriedItem E ctx result s t i j \<Longrightarrow> ir_sid j = ir_sid i"
  by (auto simp: retriedItem_def answeredItem_def itemFor_def split: if_splits option.splits)

lemma retriedItem_widen:
  assumes "retriedItem E ctx result s' t' i j" "grows s s'" "grows t' t" "registry_ok s"
  shows "retriedItem E ctx result s t i j"
proof (cases "ir_status i = Mut_pending \<and> seesSession ctx (mr_scope result) s (ir_sid i)")
  case True
  then obtain n r where n: "length (cs_calls s') \<le> n" "n < length (cs_calls t')" "reg_sid r = ir_sid i"
      "cs_calls t' ! n = \<lparr>pq_operationId = mr_operationId result, pq_action = mr_action result, pq_registration = r\<rparr>"
      "j = answeredItem i (ce_provider E n (cs_calls t' ! n))"
    using assms(1) seesSession_grows [OF assms(2,4)] unfolding retriedItem_def by auto
  then show ?thesis
    using True grows_length [OF assms(2)] grows_calls [OF assms(3), of n] unfolding retriedItem_def
    by (simp, intro exI [of _ n] exI [of _ r]) simp
qed (use assms(1) seesSession_grows [OF assms(2,4)] in \<open>auto simp: retriedItem_def\<close>)

lemma retryItem_run:
  assumes "registry_ok s"
  shows "\<exists>j t. retryItem E ctx result item s = (Inr j, t) \<and> grows s t \<and> retriedItem E ctx result s t item j"
proof (cases "ir_status item = Mut_pending \<and> seesSession ctx (mr_scope result) s (ir_sid item)")
  case False
  then have "retryItem E ctx result item s = (Inr item, s)"
    using findRegistration_found [OF assms] by (auto simp: retryItem_def bindC_def)
  moreover have "grows s s"
    by (rule gr.quiet) simp_all
  ultimately show ?thesis
    using False by (intro exI [of _ item] exI [of _ s]) (auto simp: retriedItem_def)
next
  case True
  then obtain r where r: "jget (cs_registrations s) (ir_sid item) = Some r"
    by (auto simp: seesSession_def simp del: map_of_eq_Some_iff split: option.splits)
  have sid: "reg_sid r = ir_sid item"
    by (rule registry_sid [OF assms r])
  have found: "findRegistration ctx (mr_scope result) (ir_sid item) s = Some r"
    using findRegistration_found [OF assms] True r by (simp del: map_of_eq_Some_iff)
  let ?n = "length (cs_calls s)"
  let ?q = "\<lparr>pq_operationId = mr_operationId result, pq_action = mr_action result, pq_registration = r\<rparr>"
  let ?j = "answeredItem item (ce_provider E ?n ?q)"
  define t where "t = snd (retryItem E ctx result item s)"
  note run = retryItem_def bindC_def callProvider_def True found updateRegistration_def registerSession_def t_def answeredItem_def
  have "retryItem E ctx result item s = (Inr ?j, t) \<and> cs_calls t = cs_calls s @ [?q] \<and> cs_ticks s \<le> cs_ticks t
    \<and> (cs_registrations t = cs_registrations s \<or> (\<exists>x g w. cs_registrations t
        = jset (reg_sid r) (r\<lparr>reg_state := x, reg_guarantee := g, reg_terminalAt := w\<rparr>) (cs_registrations s)))"
  proof (cases "ce_provider E ?n ?q")
    case None
    then show ?thesis by (simp add: run)
  next
    case (Some outcome)
    then have "cs_registrations t = jset (reg_sid r) (r\<lparr>reg_state := stateFor (pr_status outcome),
        reg_guarantee := pr_guarantee outcome, reg_terminalAt := (if isTerminal (stateFor (pr_status outcome))
          then Some (toISOString (ce_now E (cs_ticks s))) else reg_terminalAt r)\<rparr>) (cs_registrations s)"
      if "validateGuarantee (pr_guarantee outcome) = Inr ()"
      using that by (simp add: run)
    moreover have "cs_registrations t = cs_registrations s" if "validateGuarantee (pr_guarantee outcome) \<noteq> Inr ()"
      using that Some by (simp add: run)
    ultimately have "cs_registrations t = cs_registrations s \<or> (\<exists>x g w. cs_registrations t
        = jset (reg_sid r) (r\<lparr>reg_state := x, reg_guarantee := g, reg_terminalAt := w\<rparr>) (cs_registrations s))"
      by blast
    moreover have "retryItem E ctx result item s = (Inr ?j, t) \<and> cs_calls t = cs_calls s @ [?q] \<and> cs_ticks s \<le> cs_ticks t"
      using Some by (simp add: run)
    ultimately show ?thesis by blast
  qed
  moreover from this have "grows s t"
  proof (elim conjE disjE exE)
    assume "cs_calls t = cs_calls s @ [?q]" "cs_ticks s \<le> cs_ticks t" "cs_registrations t = cs_registrations s"
    then show ?thesis
      using registry_ok_cong [of t s] by (simp add: grows_def)
  next
    fix x g w assume "cs_calls t = cs_calls s @ [?q]" "cs_ticks s \<le> cs_ticks t"
      "cs_registrations t = jset (reg_sid r) (r\<lparr>reg_state := x, reg_guarantee := g, reg_terminalAt := w\<rparr>) (cs_registrations s)"
    then show ?thesis
      using r sid by (intro grows_update [of s "r\<lparr>reg_state := x, reg_guarantee := g, reg_terminalAt := w\<rparr>" r])
        (simp_all del: map_of_eq_Some_iff)
  qed
  ultimately have "retryItem E ctx result item s = (Inr ?j, t) \<and> grows s t \<and> retriedItem E ctx result s t item ?j"
    using True sid unfolding retriedItem_def by (auto intro!: exI [of _ ?n] exI [of _ r])
  then show ?thesis by blast
qed

lemma retryItems_run:
  assumes "registry_ok s"
  shows "\<exists>js t. eachItem (retryItem E ctx result) items s = (Inr js, t) \<and> grows s t
    \<and> list_all2 (retriedItem E ctx result s t) items js"
  using assms
proof (induction items arbitrary: s)
  case (Cons i items)
  obtain j u where j: "retryItem E ctx result i s = (Inr j, u)" "grows s u" "retriedItem E ctx result s u i j"
    using retryItem_run [OF Cons.prems] by blast
  have "registry_ok u"
    using j(2) Cons.prems by (simp add: grows_def)
  then obtain js t where js: "eachItem (retryItem E ctx result) items u = (Inr js, t)" "grows u t"
      "list_all2 (retriedItem E ctx result u t) items js"
    using Cons.IH by blast
  have "grows t t" by (rule gr.quiet) simp_all
  then have "list_all2 (retriedItem E ctx result s t) items js"
    using js(3) retriedItem_widen [OF _ j(2) _ Cons.prems] by (auto elim: list_all2_mono)
  moreover have "retriedItem E ctx result s t i j"
    by (rule retriedItem_widen [OF j(3) gr.quiet js(2) Cons.prems]) simp_all
  ultimately show ?case
    using j(1) js(1) gr.trans [OF j(2) js(2)] by (auto simp: bindC_def)
qed (simp add: gr.quiet)

text \<open>An item that is given up.\<close>

definition failedItem :: "item_result \<Rightarrow> item_result" where
  "failedItem i = (if ir_status i = Mut_pending then i\<lparr>ir_status := Mut_failed, ir_errorCode := Some ''SESSION_PROVIDER_FAILED''\<rparr> else i)"

lemma failItem_run:
  assumes "registry_ok s"
  shows "\<exists>t. failItem E ctx result item s = (Inr (failedItem item), t) \<and> grows s t"
proof (cases "ir_status item = Mut_pending \<and> seesSession ctx (mr_scope result) s (ir_sid item)")
  case False
  then have "failItem E ctx result item s = (Inr (failedItem item), s)"
    using findRegistration_found [OF assms] by (auto simp: failItem_def failedItem_def bindC_def)
  then show ?thesis
    by (simp add: gr.quiet)
next
  case True
  then obtain r where r: "jget (cs_registrations s) (ir_sid item) = Some r"
    by (auto simp: seesSession_def simp del: map_of_eq_Some_iff split: option.splits)
  have "findRegistration ctx (mr_scope result) (ir_sid item) s = Some r"
    using findRegistration_found [OF assms] True r by (simp del: map_of_eq_Some_iff)
  moreover have sid: "reg_sid r = ir_sid item"
    by (rule registry_sid [OF assms r])
  let ?r = "r\<lparr>reg_state := Reg_failed, reg_terminalAt := Some (toISOString (ce_now E (cs_ticks s)))\<rparr>"
  let ?t = "s\<lparr>cs_ticks := cs_ticks s + 1, cs_registrations := jset (reg_sid ?r) ?r (cs_registrations s)\<rparr>"
  have "failItem E ctx result item s = (Inr (failedItem item), ?t)"
    using True calculation by (simp add: failItem_def failedItem_def bindC_def updateRegistration_def registerSession_def)
  moreover have "grows s ?t"
    using r sid by (intro grows_update [of s ?r r]) (simp_all del: map_of_eq_Some_iff)
  ultimately show ?thesis by blast
qed

lemma failItems_run:
  assumes "registry_ok s"
  shows "\<exists>t. eachItem (failItem E ctx result) items s = (Inr (map failedItem items), t) \<and> grows s t"
  using assms
proof (induction items arbitrary: s)
  case (Cons i items)
  obtain u where u: "failItem E ctx result i s = (Inr (failedItem i), u)" "grows s u"
    using failItem_run [OF Cons.prems] by blast
  then have "registry_ok u"
    using Cons.prems by (simp add: grows_def)
  then obtain t where "eachItem (failItem E ctx result) items u = (Inr (map failedItem items), t)" "grows u t"
    using Cons.IH by blast
  with u gr.trans show ?case
    by (auto simp: bindC_def)
qed (simp add: gr.quiet)

lemma failed_not_pending: "\<not> anyPending (map failedItem items)"
  by (auto simp: anyPending_def failedItem_def)

text \<open>What happens to an operation that is claimed, between the states \<open>s\<close> and \<open>t\<close>.\<close>

definition retryOutcome ::
  "control_env \<Rightarrow> trusted_context \<Rightarrow> control_state \<Rightarrow> control_state \<Rightarrow> control_operation \<Rightarrow> control_operation \<Rightarrow> bool" where
  "retryOutcome E ctx s t a b \<longleftrightarrow>
     (\<exists>js. list_all2 (retriedItem E ctx (op_result a) s t) (mr_results (op_result a)) js
        \<and> mr_results (op_result b) = (if op_attempts b = 7 then map failedItem js else js)
        \<and> mr_status (op_result b) = (if anyPending js then (if op_attempts b = 7 then Mut_failed else Mut_pending)
            else if \<forall>j\<in>set js. ir_status j = Mut_revoked then Mut_revoked else Mut_unsupported))
     \<and> (mr_status (op_result b) = Mut_pending \<longrightarrow> (\<exists>m. cs_ticks s \<le> m \<and> m < cs_ticks t
        \<and> op_nextAttemptAt b = Some (retryAt (ce_now E m) (op_attempts b))))"

definition advanced ::
  "control_env \<Rightarrow> trusted_context \<Rightarrow> control_state \<Rightarrow> control_state \<Rightarrow> control_operation \<Rightarrow> control_operation \<Rightarrow> bool" where
  "advanced E ctx s t a b \<longleftrightarrow> same_command a b \<and> op_ok b \<and> op_attempts b = op_attempts a + 1 \<and> retryOutcome E ctx s t a b"

lemma advanced_widen:
  assumes "advanced E ctx s' t' a b" "grows s s'" "grows t' t" "registry_ok s"
  shows "advanced E ctx s t a b"
proof -
  obtain js where js: "list_all2 (retriedItem E ctx (op_result a) s' t') (mr_results (op_result a)) js"
        "mr_results (op_result b) = (if op_attempts b = 7 then map failedItem js else js)"
        "mr_status (op_result b) = (if anyPending js then (if op_attempts b = 7 then Mut_failed else Mut_pending)
            else if \<forall>j\<in>set js. ir_status j = Mut_revoked then Mut_revoked else Mut_unsupported)"
    using assms(1) unfolding advanced_def retryOutcome_def by blast
  from js(1) have "list_all2 (retriedItem E ctx (op_result a) s t) (mr_results (op_result a)) js"
    by (rule list_all2_mono) (rule retriedItem_widen [OF _ assms(2-4)])
  moreover have "\<exists>m. cs_ticks s \<le> m \<and> m < cs_ticks t \<and> op_nextAttemptAt b = Some (retryAt (ce_now E m) (op_attempts b))"
    if pending: "mr_status (op_result b) = Mut_pending"
  proof -
    obtain m where "cs_ticks s' \<le> m" "m < cs_ticks t'" "op_nextAttemptAt b = Some (retryAt (ce_now E m) (op_attempts b))"
      using assms(1) pending unfolding advanced_def retryOutcome_def by blast
    moreover have "cs_ticks s \<le> cs_ticks s'" "cs_ticks t' \<le> cs_ticks t"
      using assms(2,3) by (simp_all add: grows_def)
    ultimately show ?thesis
      by (intro exI [of _ m]) simp
  qed
  ultimately show ?thesis
    using assms(1) js(2,3) unfolding advanced_def retryOutcome_def by blast
qed

lemma same_sids: "list_all2 (retriedItem E ctx result s t) items js \<Longrightarrow> map ir_sid js = map ir_sid items"
  by (induction rule: list_all2_induct) (auto dest: retriedItem_sid)

lemma failed_sids: "map ir_sid (map failedItem items) = map ir_sid items"
  by (simp add: failedItem_def)

lemma no_pending_failed: "\<not> anyPending items \<Longrightarrow> map failedItem items = items"
  by (auto simp: anyPending_def failedItem_def intro: map_idI)

lemma settleOperation_run:
  assumes "mr_status (op_result o') = Mut_pending" "op_attempts o' \<le> 6" "registry_ok u" "grows s u"
    "list_all2 (retriedItem E ctx (op_result o') s u) (mr_results (op_result o')) items" "registry_ok s"
  shows "\<exists>o'' t. settleOperation E ctx o' items u = (Inr o'', t) \<and> grows u t \<and> advanced E ctx s t o' o''"
proof -
  note sids = same_sids [OF assms(5)]
  have same: "grows s s"
    by (rule gr.quiet) simp_all
  have items: "list_all2 (retriedItem E ctx (op_result o') s t) (mr_results (op_result o')) items" if "grows u t" for t
    using assms(5) by (rule list_all2_mono) (rule retriedItem_widen [OF _ same that assms(6)])
  note parts = advanced_def same_command_def op_ok_def retryOutcome_def
  consider (give_up) "anyPending items" "op_attempts o' = 6" | (again) "anyPending items" "op_attempts o' < 6" | (over) "\<not> anyPending items"
    using assms(2) by fastforce
  then show ?thesis
  proof cases
    case give_up
    obtain t where t: "eachItem (failItem E ctx (op_result o')) items u = (Inr (map failedItem items), t)" "grows u t"
      using failItems_run [OF assms(3)] by blast
    let ?b = "closedOperation o' Mut_failed (map failedItem items) (Some ''SESSION_PROVIDER_FAILED'')"
    have "advanced E ctx s t o' ?b"
      using give_up items [OF t(2)] sids failed_sids failed_not_pending unfolding parts
      by (intro conjI exI [of _ items]) (simp_all add: closedOperation_def del: map_map)
    then show ?thesis
      using give_up t by (simp add: settleOperation_def RETRY_SECONDS_def bindC_def)
  next
    case again
    let ?t = "u\<lparr>cs_ticks := cs_ticks u + 1\<rparr>"
    let ?b = "delayedOperation o' items (retryAt (ce_now E (cs_ticks u)) (op_attempts o' + 1))"
    have grown: "grows u ?t"
      by (rule gr.quiet) simp_all
    have "advanced E ctx s ?t o' ?b"
      using again assms(1,4) items [OF grown] sids unfolding parts
      by (intro conjI exI [of _ items]) (auto simp: delayedOperation_def grows_def intro!: exI [of _ "cs_ticks u"])
    then show ?thesis
      using again grown by (simp add: settleOperation_def RETRY_SECONDS_def bindC_def)
  next
    case over
    have same: "grows u u" by (rule gr.quiet) simp_all
    let ?status = "if \<forall>i\<in>set items. ir_status i = Mut_revoked then Mut_revoked else Mut_unsupported"
    let ?b = "closedOperation o' ?status items (mr_errorCode (op_result o'))"
    have "advanced E ctx s u o' ?b"
      using over items [OF same] sids no_pending_failed [OF over] unfolding parts
      by (intro conjI exI [of _ items]) (simp_all add: closedOperation_def)
    then show ?thesis
      using over same by (simp add: settleOperation_def)
  qed
qed

lemma grows_save: "grows s (s\<lparr>cs_operations := x\<rparr>)"
  using registry_ok_cong [of "s\<lparr>cs_operations := x\<rparr>" s] by (simp add: grows_def)

lemma reconcileOperation_run:
  assumes "mr_status (op_result o') = Mut_pending" "op_attempts o' \<le> 6" "registry_ok s"
  shows "\<exists>o'' t. reconcileOperation E ctx o' s = (Inr (), t) \<and> grows s t \<and> advanced E ctx s t o' o''
    \<and> cs_operations t = jset (op_key o') o'' (cs_operations s)"
proof -
  let ?result = "op_result o'"
  obtain items u where retried: "eachItem (retryItem E ctx ?result) (mr_results ?result) s = (Inr items, u)" "grows s u"
      "list_all2 (retriedItem E ctx ?result s u) (mr_results ?result) items"
    using retryItems_run [OF assms(3)] by blast
  have "registry_ok u"
    using retried(2) assms(3) by (simp add: grows_def)
  then obtain o'' v where settled: "settleOperation E ctx o' items u = (Inr o'', v)" "grows u v" "advanced E ctx s v o' o''"
    using settleOperation_run [OF assms(1,2) _ retried(2,3) assms(3)] by blast
  let ?t = "v\<lparr>cs_operations := jset (op_key o'') o'' (cs_operations v)\<rparr>"
  have "cs_operations v = cs_operations s"
    using rk.trans [OF leadsC_D [OF kept_eachItem [OF kept_retryItem] retried(1)] leadsC_D [OF kept_settleOperation settled(1)]]
    by (simp add: registry_kept_def)
  moreover have "op_key o'' = op_key o'"
    using settled(3) by (simp add: advanced_def same_command_def)
  moreover have "grows s ?t"
    using gr.trans [OF gr.trans [OF retried(2) settled(2)] grows_save] .
  moreover have "advanced E ctx s ?t o' o''"
    by (rule advanced_widen [OF settled(3) gr.quiet grows_save assms(3)]) simp_all
  ultimately show ?thesis
    using retried(1) settled(1) by (intro exI [of _ o''] exI [of _ ?t]) (simp add: reconcileOperation_def bindC_def saveOperation_def)
qed

lemma reconcileOperations_run:
  assumes "\<forall>o'\<in>set os. mr_status (op_result o') = Mut_pending \<and> op_attempts o' \<le> 6" "distinct (map op_key os)"
    "jwf (cs_operations s)" "registry_ok s"
  shows "\<exists>t. reconcileOperations E ctx os s = (Inr (), t) \<and> grows s t \<and> jwf (cs_operations t)
    \<and> (\<forall>k. k \<notin> op_key ` set os \<longrightarrow> jget (cs_operations t) k = jget (cs_operations s) k)
    \<and> (\<forall>o'\<in>set os. \<exists>o''. jget (cs_operations t) (op_key o') = Some o'' \<and> advanced E ctx s t o' o'')"
  using assms
proof (induction os arbitrary: s)
  case (Cons o' os)
  obtain o'' u where first: "reconcileOperation E ctx o' s = (Inr (), u)" "grows s u" "advanced E ctx s u o' o''"
      "cs_operations u = jset (op_key o') o'' (cs_operations s)"
    using reconcileOperation_run [of o' s E ctx] Cons.prems(1,4) by auto
  have "jwf (cs_operations u)" "registry_ok u"
    using Cons.prems(3,4) first(2,4) by (simp_all add: grows_def)
  then obtain t where rest: "reconcileOperations E ctx os u = (Inr (), t)" "grows u t" "jwf (cs_operations t)"
      "\<And>k. k \<notin> op_key ` set os \<Longrightarrow> jget (cs_operations t) k = jget (cs_operations u) k"
      "\<And>p. p \<in> set os \<Longrightarrow> \<exists>q. jget (cs_operations t) (op_key p) = Some q \<and> advanced E ctx u t p q"
    using Cons.IH [of u] Cons.prems(1,2) by auto
  have same: "grows s s" "grows t t"
    by (rule gr.quiet; simp)+
  have "jget (cs_operations t) (op_key o') = Some o''"
    using rest(4) [of "op_key o'"] Cons.prems(2) first(4) by (simp del: map_of_eq_Some_iff)
  moreover have "advanced E ctx s t o' o''"
    by (rule advanced_widen [OF first(3) same(1) rest(2) Cons.prems(4)])
  moreover have "\<exists>q. jget (cs_operations t) (op_key p) = Some q \<and> advanced E ctx s t p q" if "p \<in> set os" for p
    using rest(5) [OF that] advanced_widen [OF _ first(2) same(2) Cons.prems(4)] by blast
  moreover have "jget (cs_operations t) k = jget (cs_operations s) k" if "k \<notin> op_key ` set (o' # os)" for k
    using rest(4) [of k] that first(4) by (simp del: map_of_eq_Some_iff)
  ultimately show ?case
    using first(1) rest(1,3) gr.trans [OF first(2) rest(2)]
    by (intro exI [of _ t]) (simp add: bindC_def del: map_of_eq_Some_iff)
qed (simp add: gr.quiet)

definition claimedAt :: "string \<Rightarrow> nat \<Rightarrow> control_state \<Rightarrow> control_operation list" where
  "claimedAt now limit s = take limit (filter (claimable now) (jvalues (cs_operations s)))"

lemma fold_jset_other: "k \<notin> op_key ` set os \<Longrightarrow> jget (fold (\<lambda>o'. jset (op_key o') o') os m) k = jget m k"
  by (induction os arbitrary: m) auto

lemma fold_jset_wf: "jwf m \<Longrightarrow> jwf (fold (\<lambda>o'. jset (op_key o') o') os m)"
  by (induction os arbitrary: m) auto

lemma claimed_stored:
  assumes "ops_ok s" "o' \<in> set (claimedAt now limit s)"
  shows "jget (cs_operations s) (op_key o') = Some o'" "op_ok o'" "claimable now o'"
proof -
  have "o' \<in> set (jvalues (cs_operations s))" and c: "claimable now o'"
    using assms(2) by (auto simp: claimedAt_def dest: in_set_takeD)
  moreover have "jwf (cs_operations s)"
    using assms(1) unfolding ops_ok_def by (rule conjunct1)
  ultimately obtain k where "jget (cs_operations s) k = Some o'"
    by (auto simp: in_jvalues)
  with ops_okD [OF assms(1) this] show "jget (cs_operations s) (op_key o') = Some o'" "op_ok o'"
    by simp_all
  show "claimable now o'" by (rule c)
qed

lemma distinct_claimed: "ops_ok s \<Longrightarrow> distinct (map op_key (claimedAt now limit s))"
proof -
  assume ok: "ops_ok s"
  have wf: "jwf (cs_operations s)"
    using ok unfolding ops_ok_def by (rule conjunct1)
  have "op_key (snd p) = fst p" if "p \<in> set (cs_operations s)" for p
    using that wf ops_okD [OF ok, of "fst p" "snd p"] by (simp add: in_set_jget [symmetric])
  then have "map op_key (jvalues (cs_operations s)) = map fst (cs_operations s)"
    by (simp add: jvalues_def)
  then have "distinct (map op_key (jvalues (cs_operations s)))"
    using wf by simp
  then show ?thesis
    unfolding claimedAt_def by (simp add: take_map [symmetric] distinct_map_filter distinct_take)
qed

lemma reconcileSessions_run:
  assumes "ops_ok s" "registry_ok s" and claimed_def: "claimed = claimedAt (toISOString (ce_now E (cs_ticks s))) limit s"
  shows "\<exists>t. reconcileSessions E ctx limit s = (Inr (length claimed), t) \<and> jwf (cs_operations t) \<and> registry_ok t
    \<and> (\<forall>k. k \<notin> op_key ` set claimed \<longrightarrow> jget (cs_operations t) k = jget (cs_operations s) k)
    \<and> (\<forall>o'\<in>set claimed. \<exists>o''. jget (cs_operations t) (op_key o') = Some o'' \<and> advanced E ctx s t o' o'')"
proof -
  let ?now = "ce_now E (cs_ticks s)" and ?lease = "\<lambda>o'. o'\<lparr>op_leaseUntil := Some (toISOString (ce_now E (cs_ticks s) + 60000))\<rparr>"
  define leased where "leased = map ?lease claimed"
  define u where "u = s\<lparr>cs_ticks := cs_ticks s + 1, cs_operations := fold (\<lambda>o'. jset (op_key o') o') leased (cs_operations s)\<rparr>"
  have keys: "map op_key leased = map op_key claimed" "op_key ` set leased = op_key ` set claimed"
    by (auto simp: leased_def image_image)
  have wf: "jwf (cs_operations u)"
    using assms(1) fold_jset_wf [of "cs_operations s" leased] by (simp add: u_def ops_ok_def)
  have others: "jget (cs_operations u) k = jget (cs_operations s) k" if "k \<notin> op_key ` set claimed" for k
    using fold_jset_other [of k leased "cs_operations s"] that unfolding u_def keys(2) by simp
  have grown: "grows s u" "registry_ok u"
    using assms(2) registry_ok_cong [of u s] by (simp_all add: u_def grows_def)
  have "\<forall>o'\<in>set leased. mr_status (op_result o') = Mut_pending \<and> op_attempts o' \<le> 6"
    using claimed_stored(2,3) [OF assms(1)] unfolding leased_def claimed_def by (auto simp: op_ok_def claimable_def)
  moreover have "distinct (map op_key leased)"
    unfolding keys(1) claimed_def by (rule distinct_claimed [OF assms(1)])
  ultimately obtain t where t: "reconcileOperations E ctx leased u = (Inr (), t)" "grows u t" "jwf (cs_operations t)"
      "\<And>k. k \<notin> op_key ` set leased \<Longrightarrow> jget (cs_operations t) k = jget (cs_operations u) k"
      "\<And>o'. o' \<in> set leased \<Longrightarrow> \<exists>o''. jget (cs_operations t) (op_key o') = Some o'' \<and> advanced E ctx u t o' o''"
    using reconcileOperations_run [of leased u E ctx] wf grown(2) by blast
  have "grows t t" by (rule gr.quiet) simp_all
  have "\<exists>o''. jget (cs_operations t) (op_key o') = Some o'' \<and> advanced E ctx s t o' o''" if "o' \<in> set claimed" for o'
  proof -
    have "?lease o' \<in> set leased"
      using that by (simp add: leased_def)
    then obtain o'' where "jget (cs_operations t) (op_key o') = Some o''" "advanced E ctx u t (?lease o') o''"
      using t(5) [of "?lease o'"] by auto
    moreover from this(2) have "advanced E ctx s t (?lease o') o''"
      by (rule advanced_widen [OF _ grown(1) \<open>grows t t\<close> assms(2)])
    ultimately show ?thesis
      by (auto simp: advanced_def same_command_def retryOutcome_def)
  qed
  moreover have "reconcileSessions E ctx limit s = (Inr (length claimed), t)"
    using t(1) by (simp add: reconcileSessions_def bindC_def claimPending_def Let_def leased_def claimed_def claimedAt_def u_def)
  moreover have "registry_ok t"
    using t(2) grown(2) by (simp add: grows_def)
  ultimately show ?thesis
    using t(3,4) others unfolding keys(2) by (intro exI [of _ t]) auto
qed

subsection \<open>The service as a step relation\<close>

text \<open>
  One rule per operation that may change the state; the host registers and retires sessions as it likes.
\<close>

inductive control_step :: "control_env \<Rightarrow> control_state \<Rightarrow> control_state \<Rightarrow> bool" for E where
  step_execute: "executeCommand E ctx command s = (r, t) \<Longrightarrow> control_step E s t"
| step_reconcile: "reconcileSessions E ctx limit s = (n, t) \<Longrightarrow> control_step E s t"
| step_list: "listSessions E ctx scope subject s = (v, t) \<Longrightarrow> control_step E s t"
| step_register: "registerSession reg s = (u, t) \<Longrightarrow> control_step E s t"
| step_purge: "purgeTerminal before s = (n, t) \<Longrightarrow> control_step E s t"
| step_erase: "eraseSubject tenantId subjectId s = (n, t) \<Longrightarrow> control_step E s t"

definition control_init :: control_state where
  "control_init = \<lparr>cs_registrations = [], cs_operations = [], cs_audit = [], cs_calls = [], cs_ticks = 0\<rparr>"

definition control_inv :: "control_state \<Rightarrow> bool" where
  "control_inv s \<longleftrightarrow> registry_ok s \<and> ops_ok s"

text \<open>An operation on record stays: its command does not change, nor does its result once it is settled.\<close>

definition op_later :: "control_operation \<Rightarrow> control_operation \<Rightarrow> bool" where
  "op_later a b \<longleftrightarrow> same_command a b \<and> op_attempts a \<le> op_attempts b
     \<and> (mr_status (op_result a) \<noteq> Mut_pending \<longrightarrow> b = a)"

definition ops_later :: "control_state \<Rightarrow> control_state \<Rightarrow> bool" where
  "ops_later s t \<longleftrightarrow> (\<forall>k a. jget (cs_operations s) k = Some a \<longrightarrow> (\<exists>b. jget (cs_operations t) k = Some b \<and> op_later a b))"

lemma op_later_refl: "op_later a a"
  by (simp add: op_later_def same_command_refl)

lemma op_later_trans: "op_later a b \<Longrightarrow> op_later b c \<Longrightarrow> op_later a c"
  unfolding op_later_def by (metis same_command_trans order_trans)

lemma ops_later_same: "cs_operations t = cs_operations s \<Longrightarrow> ops_later s t"
  unfolding ops_later_def by (metis op_later_refl)

lemma ops_later_trans: "ops_later s t \<Longrightarrow> ops_later t u \<Longrightarrow> ops_later s u"
  unfolding ops_later_def by (meson op_later_trans)

lemma ops_ok_same: "cs_operations t = cs_operations s \<Longrightarrow> ops_ok s \<Longrightarrow> ops_ok t"
  unfolding ops_ok_def by (erule ssubst)

lemma ops_ok_set: "ops_ok s \<Longrightarrow> stored_ok k o' \<Longrightarrow> cs_operations t = jset k o' (cs_operations s) \<Longrightarrow> ops_ok t"
  unfolding ops_ok_def by simp

lemma executeCommand_cases:
  assumes "executeCommand E ctx command s = (r, t)"
  obtains (refused) e where "r = Inl e" "t = s"
    | (known) o' where "jget (cs_operations s) (commandKey ctx command) = Some o'" "t = s" "op_requestHash o' = requestHash E command"
        "r = Inr (op_result o')"
    | (fresh) "jget (cs_operations s) (commandKey ctx command) = None" "executeFresh E ctx command s = (r, t)"
        "authorize ctx (commandScope command) (orSubject (cmd_targetSubjectId command) ctx) = Inr ()"
proof -
  let ?stored = "jget (cs_operations s) (commandKey ctx command)"
  let ?auth = "authorize ctx (commandScope command) (orSubject (cmd_targetSubjectId command) ctx)"
  have run: "executeCommand E ctx command s = (case validateCommand E command of Inl e \<Rightarrow> (Inl e, s) | Inr _ \<Rightarrow>
      (case ?auth of Inl e \<Rightarrow> (Inl e, s) | Inr _ \<Rightarrow>
      (case ?stored of None \<Rightarrow> executeFresh E ctx command s | Some o' \<Rightarrow>
        (if op_requestHash o' \<noteq> requestHash E command then (Inl (SessionControlError ''SESSION_IDEMPOTENCY_CONFLICT'' 409), s)
         else (Inr (op_result o'), s)))))"
    by (simp add: executeCommand_def commandKey_def [symmetric] bindC_def throwIf_def split: sum.split option.split)
  show ?thesis
  proof (cases "validateCommand E command")
    case (Inl e)
    then show ?thesis using run assms refused [of e] by simp
  next
    case valid: (Inr x)
    show ?thesis
    proof (cases ?auth)
      case (Inl e)
      then show ?thesis using run valid assms refused [of e] by simp
    next
      case (Inr y)
      then show ?thesis
        using run valid assms fresh known refused by (cases ?stored) (auto simp del: map_of_eq_Some_iff split: if_splits)
    qed
  qed
qed

lemma execute_step:
  assumes "executeCommand E ctx command s = (r, t)" "control_inv s"
  shows "control_inv t \<and> ops_later s t"
  using assms(1)
proof (cases rule: executeCommand_cases)
  case fresh
  show ?thesis
    using executeFresh_effect [OF fresh(2)]
  proof (elim disjE exE conjE)
    assume "cs_operations t = cs_operations s" "registry_ok s \<longrightarrow> registry_ok t"
    then show ?thesis
      using assms(2) ops_ok_same ops_later_same unfolding control_inv_def by metis
  next
    fix items u v o'
    assume e: "registry_ok s \<longrightarrow> registry_ok v" "cs_registrations t = cs_registrations v" "recorded E ctx command items o'"
      "cs_operations t = jset (commandKey ctx command) o' (cs_operations s)"
    then have "registry_ok t"
      using assms(2) unfolding control_inv_def registry_ok_def by metis
    moreover have "ops_ok t"
      using ops_ok_set [of s "commandKey ctx command" o' t] e(3,4) assms(2) by (simp add: control_inv_def recorded_def)
    moreover have "ops_later s t"
      using e(4) fresh(1) by (auto simp: ops_later_def op_later_refl simp del: map_of_eq_Some_iff)
    ultimately show ?thesis by (simp add: control_inv_def)
  qed
qed (use assms(2) ops_later_same in auto)

lemma reconcile_step:
  assumes "reconcileSessions E ctx limit s = (n, t)" "control_inv s"
  shows "control_inv t \<and> ops_later s t"
proof -
  have ok: "ops_ok s" "registry_ok s"
    using assms(2) by (simp_all add: control_inv_def)
  let ?claimed = "claimedAt (toISOString (ce_now E (cs_ticks s))) limit s"
  have claimed: "jwf (cs_operations t)" "registry_ok t"
    "\<forall>k. k \<notin> op_key ` set ?claimed \<longrightarrow> jget (cs_operations t) k = jget (cs_operations s) k"
    "\<forall>o'\<in>set ?claimed. \<exists>o''. jget (cs_operations t) (op_key o') = Some o'' \<and> advanced E ctx s t o' o''"
    using reconcileSessions_run [OF ok refl, of E ctx limit] assms(1) by auto
  have claim: "\<exists>o''. jget (cs_operations t) k = Some o'' \<and> stored_ok k o'' \<and>
      (\<exists>o'. jget (cs_operations s) k = Some o' \<and> op_later o' o'')" if k: "k \<in> op_key ` set ?claimed" for k
  proof -
    obtain o' where o': "o' \<in> set ?claimed" "k = op_key o'"
      using k by blast
    obtain o'' where o'': "jget (cs_operations t) k = Some o''" "advanced E ctx s t o' o''"
      using claimed(4) o' by blast
    have "jget (cs_operations s) k = Some o'" "mr_status (op_result o') = Mut_pending"
      using claimed_stored [OF ok(1)] o' by (simp_all add: claimable_def)
    moreover have "op_later o' o''" "stored_ok k o''"
      using o''(2) o'(2) calculation(2) by (simp_all add: advanced_def op_later_def stored_ok_def same_command_def)
    ultimately show ?thesis
      using o''(1) by blast
  qed
  have "stored_ok k o'" if "jget (cs_operations t) k = Some o'" for k o'
    using that claim [of k] claimed(3) ok(1) unfolding ops_ok_def by (cases "k \<in> op_key ` set ?claimed") auto
  moreover have "\<exists>b. jget (cs_operations t) k = Some b \<and> op_later a b" if "jget (cs_operations s) k = Some a" for k a
    using that claim [of k] claimed(3) op_later_refl by (cases "k \<in> op_key ` set ?claimed") fastforce+
  ultimately show ?thesis
    using claimed(1,2) unfolding control_inv_def ops_ok_def ops_later_def by blast
qed

lemma registry_ok_drop: "registry_ok s \<Longrightarrow> registry_ok (snd (dropRegistrations gone s))"
  by (auto simp: registry_ok_def dropRegistrations_def distinct_map_filter)

lemma dropRegistrations_step: "dropRegistrations gone s = (n, t) \<Longrightarrow> control_inv s \<Longrightarrow> control_inv t \<and> ops_later s t"
  using registry_ok_drop [of s gone] ops_ok_same [of t s] ops_later_same [of t s]
  by (auto simp: control_inv_def dropRegistrations_def)

lemma quiet_step: "registry_kept s t \<Longrightarrow> control_inv s \<Longrightarrow> control_inv t \<and> ops_later s t"
  using ops_ok_same [of t s] ops_later_same [of t s] by (simp add: control_inv_def registry_kept_def)

lemma listSessions_kept: "leadsC registry_kept (listSessions E ctx scope subject) s"
  unfolding listSessions_def by (intro rk.leads_rules) (auto intro: rk.leads_rules)

lemma control_step_inv: "control_step E s t \<Longrightarrow> control_inv s \<Longrightarrow> control_inv t \<and> ops_later s t"
proof (induction rule: control_step.induct)
  case (step_list ctx scope subject s v t)
  then show ?case using leadsC_D [OF listSessions_kept step_list(1)] quiet_step by blast
next
  case (step_register reg s u t)
  then show ?case using leadsC_D [OF kept_update [unfolded updateRegistration_def] step_register(1)] quiet_step by blast
qed (auto simp: purgeTerminal_def eraseSubject_def dest: execute_step reconcile_step dropRegistrations_step)

interpretation control_runs: monotone_system "\<lambda>s. s = control_init" "control_step E" control_inv ops_later for E
proof unfold_locales
  show "s = control_init \<Longrightarrow> control_inv s" for s
    by (simp add: control_inv_def control_init_def registry_ok_def ops_ok_def)
  show "ops_later s s" for s
    by (simp add: ops_later_same)
  show "ops_later s t \<Longrightarrow> ops_later t u \<Longrightarrow> ops_later s u" for s t u
    by (rule ops_later_trans)
qed (simp_all add: control_step_inv)

end
