(* ===== verification/Control_Props.thy ===== *)
theory Control_Props
  imports Control_Inv Instant_Order
begin

text \<open>
  The properties of session control: a command is carried out once and answered alike afterwards, it reaches only
  sessions its actor may control, a bulk command leaves no session behind, and a pending operation is retried at the
  prescribed times until it is settled. The last part evaluates runs on which the code differs from its contract.
\<close>

abbreviation control_reachable :: "control_env \<Rightarrow> control_state \<Rightarrow> bool" where
  "control_reachable E s \<equiv> (control_step E)\<^sup>*\<^sup>* control_init s"

lemma reachable_ok: "control_reachable E s \<Longrightarrow> registry_ok s \<and> ops_ok s"
  using control_runs.reachable_inv [of control_init E s] by (simp add: control_inv_def)

subsection \<open>A command is carried out once\<close>

lemma executed_checks:
  assumes "executeCommand E ctx command s = (Inr x, t)"
  shows "validateCommand E command = Inr ()" "authorize ctx (commandScope command) (orSubject (cmd_targetSubjectId command) ctx) = Inr ()"
  using assms unfolding executeCommand_def bindC_eq_Inr by simp_all

lemma executed_recorded:
  assumes "executeCommand E ctx command s = (Inr x, t)"
  shows "\<exists>o'. jget (cs_operations t) (commandKey ctx command) = Some o' \<and> op_result o' = x \<and> op_requestHash o' = requestHash E command"
  using assms
proof (cases rule: executeCommand_cases)
  case fresh
  then show ?thesis
    using executeFresh_effect [OF fresh(2)] by (auto simp: recorded_def simp del: map_of_eq_Some_iff)
qed auto

lemma executeCommand_known:
  assumes "jget (cs_operations t) (commandKey ctx command) = Some o'"
  shows "(\<exists>e. executeCommand E ctx command t = (Inl e, t))
    \<or> executeCommand E ctx command t = (Inr (op_result o'), t) \<and> op_requestHash o' = requestHash E command"
proof -
  obtain r u where run: "executeCommand E ctx command t = (r, u)"
    by (cases "executeCommand E ctx command t")
  then show ?thesis
    by (cases rule: executeCommand_cases) (use assms run in auto)
qed

text \<open>C27. Once a command is answered, the same request is answered from the record at any later time and changes
  nothing, so the provider is not asked again: with the operation's result as it is then, which is about the same
  sessions and is the first answer itself if that was not pending. Another request under the same key is refused.\<close>

theorem command_answered_once:
  assumes "control_reachable E s" "executeCommand E ctx command s = (Inr x, s1)" "(control_step E)\<^sup>*\<^sup>* s1 t"
  shows "\<exists>y. executeCommand E ctx command t = (Inr y, t) \<and> mr_operationId y = mr_operationId x \<and> mr_action y = mr_action x
      \<and> mr_scope y = mr_scope x \<and> map ir_sid (mr_results y) = map ir_sid (mr_results x)
      \<and> (mr_status x \<noteq> Mut_pending \<longrightarrow> y = x)
      \<and> (\<forall>other. commandKey ctx other = commandKey ctx command \<and> requestHash E other \<noteq> requestHash E command
          \<longrightarrow> (\<exists>e. executeCommand E ctx other t = (Inl e, t)))"
proof -
  have inv: "control_inv s1"
    using control_runs.reachable_inv [of control_init E s] assms(1) execute_step [OF assms(2)] by blast
  obtain a where a: "jget (cs_operations s1) (commandKey ctx command) = Some a" "op_result a = x"
      "op_requestHash a = requestHash E command"
    using executed_recorded [OF assms(2)] by blast
  obtain b where b: "jget (cs_operations t) (commandKey ctx command) = Some b" "op_later a b"
    using control_runs.run_below [OF assms(3) inv] a(1) unfolding ops_later_def by blast
  then have "executeCommand E ctx command t = (Inr (op_result b), t)"
    using executed_checks [OF assms(2)] a(3)
    by (simp add: executeCommand_def bindC_def commandKey_def [symmetric] op_later_def same_command_def del: map_of_eq_Some_iff)
  moreover have "\<exists>e. executeCommand E ctx other t = (Inl e, t)"
    if "commandKey ctx other = commandKey ctx command" "requestHash E other \<noteq> requestHash E command" for other
    using executeCommand_known [of t ctx other b E] b a(3) that by (auto simp: op_later_def same_command_def)
  ultimately show ?thesis
    using b(2) a(2) by (auto simp: op_later_def same_command_def)
qed

subsection \<open>What an actor may control\<close>

definition mayControl :: "trusted_context \<Rightarrow> session_scope \<Rightarrow> session_registration \<Rightarrow> bool" where
  "mayControl ctx scope r \<longleftrightarrow>
     (if scope = Identity_scope then Sessions_identity_manage \<in> tc_authorities ctx
      else reg_tenantId r = tc_tenantId ctx \<and> (Sessions_tenant_manage \<in> tc_authorities ctx
        \<or> reg_subjectId r = tc_actorId ctx \<and> Sessions_self \<in> tc_authorities ctx))
     \<and> (reg_sharedAnchor r \<longrightarrow> Sessions_identity_manage \<in> tc_authorities ctx)"

lemma targets_listed: "set (commandTargets ctx command s)
    \<subseteq> set (listRegistrations ctx (Some (commandScope command)) (Some (orSubject (cmd_targetSubjectId command) ctx)) s)"
  unfolding commandTargets_def by (metis filter_is_subset targetsOf_filter)

lemma authorized_targets:
  assumes "authorize ctx (commandScope command) subject = Inr ()" "registry_ok s"
    "r \<in> set (listRegistrations ctx (Some (commandScope command)) (Some subject) s)"
    "reg_sharedAnchor r \<longrightarrow> Sessions_identity_manage \<in> tc_authorities ctx"
  shows "jget (cs_registrations s) (reg_sid r) = Some r \<and> mayControl ctx (commandScope command) r"
  using assms registry_listed [OF assms(2), of r ctx "Some (commandScope command)" "Some subject"]
  by (cases "commandScope command") (auto simp: authorize_def mayControl_def truthyText_def Let_def bindE_eq_Inr simp del: map_of_eq_Some_iff
      split: if_splits)

lemma executeFresh_shared:
  assumes "executeFresh E ctx command s = (r, t)" "r' \<in> set (commandTargets ctx command s)" "reg_sharedAnchor r'"
    "Sessions_identity_manage \<notin> tc_authorities ctx"
  shows "t = s"
proof -
  have "commandTargets ctx command s \<noteq> []" "\<exists>item\<in>set (commandTargets ctx command s). reg_sharedAnchor item"
    using assms(2,3) by auto
  then show ?thesis
    using assms(1,4) by (simp add: executeFresh_def bindC_def commandTargets_def [symmetric] throwIf_def Let_def)
qed

text \<open>C28. A command changes a registration, or asks the provider about one, only when the actor may control it: a session
  of another tenant or of another identity needs the authority for it, and so does one whose anchor is shared.\<close>

theorem command_stays_authorized:
  assumes "control_reachable E s" "executeCommand E ctx command s = (r, t)"
    "jget (cs_registrations t) sid \<noteq> jget (cs_registrations s) sid
     \<or> sid \<in> reg_sid ` pq_registration ` set (drop (length (cs_calls s)) (cs_calls t))"
  shows "\<exists>a. jget (cs_registrations s) sid = Some a \<and> mayControl ctx (commandScope command) a"
  using assms(2)
proof (cases rule: executeCommand_cases)
  case fresh
  have ok: "registry_ok s"
    using reachable_ok [OF assms(1)] by simp
  have change: "confined (set (commandTargets ctx command s)) s t"
    using leadsC_D [OF confined_executeFresh fresh(2)] .
  then obtain calls where "cs_calls t = cs_calls s @ calls" "\<forall>q\<in>set calls. pq_registration q \<in> set (commandTargets ctx command s)"
    unfolding confined_def by blast
  then have "sid \<in> reg_sid ` set (commandTargets ctx command s)"
    using assms(3) change unfolding confined_def by auto
  then obtain a where a: "a \<in> set (commandTargets ctx command s)" "reg_sid a = sid"
    by blast
  have "t \<noteq> s"
    using assms(3) by auto
  then have "reg_sharedAnchor a \<longrightarrow> Sessions_identity_manage \<in> tc_authorities ctx"
    using executeFresh_shared [OF fresh(2) a(1)] by blast
  then show ?thesis
    using authorized_targets [OF fresh(3) ok] targets_listed a by blast
qed (use assms(3) in auto)

subsection \<open>What a command leaves\<close>

lemma revokeTarget_effect:
  assumes "revokeTarget E ctx command target s = (Inr item, t)"
  shows "ir_sid item = reg_sid target
    \<and> (\<exists>r. jget (cs_registrations t) (reg_sid target) = Some r \<and> reg_state r = stateFor (ir_status item))"
  using assms by (auto simp: revokeTarget_def refuseTarget_def recordAnswer_def bindC_eq_Inr updateRegistration_def
      registerSession_def itemFor_def simp del: map_of_eq_Some_iff split: if_splits)

lemma revokeTargets_effect:
  assumes "revokeTargets E ctx command targets s = (Inr items, t)" "distinct (map reg_sid targets)"
  shows "map ir_sid items = map reg_sid targets
    \<and> (\<forall>i\<in>set items. \<exists>r. jget (cs_registrations t) (ir_sid i) = Some r \<and> reg_state r = stateFor (ir_status i))"
  using assms
proof (induction targets arbitrary: s items)
  case (Cons target targets)
  obtain item u rest where run: "revokeTarget E ctx command target s = (Inr item, u)"
      "revokeTargets E ctx command targets u = (Inr rest, t)" "items = item # rest"
    using Cons.prems(1) by (auto simp: bindC_eq_Inr)
  have "confined (set targets) u t"
    using leadsC_D [OF confined_revokeTargets run(2)] by blast
  then have "jget (cs_registrations t) (reg_sid target) = jget (cs_registrations u) (reg_sid target)"
    using Cons.prems(2) unfolding confined_def by simp
  then show ?case
    using revokeTarget_effect [OF run(1)] Cons.IH [OF run(2)] Cons.prems(2) run(3) by (auto simp del: map_of_eq_Some_iff)
qed simp

lemma registry_same: "cs_registrations b = cs_registrations a \<Longrightarrow>
    registry_ok b = registry_ok a \<and> listRegistrations ctx scope subject b = listRegistrations ctx scope subject a"
  by (simp only: registry_ok_def listRegistrations_def simp_thms)

lemma bulk_targets:
  assumes "cmd_action command \<notin> {Logout_current, Revoke_one}"
  shows "r \<in> set (commandTargets ctx command s) \<longleftrightarrow> reg_state r = Reg_active
    \<and> (cmd_action command = Revoke_others \<longrightarrow> reg_sid r \<noteq> tc_currentSessionId ctx)
    \<and> r \<in> set (listRegistrations ctx (Some (commandScope command)) (Some (orSubject (cmd_targetSubjectId command) ctx)) s)"
  using assms by (cases "cmd_action command") (auto simp: commandTargets_def targetsOf_def)

text \<open>
  The registrations after a command: those that were targets have the state that goes with their answer, the others are
  as before.
\<close>

lemma bulk_no_targets:
  assumes "registry_ok s" "registry_ok t" "cmd_action command \<notin> {Logout_current, Revoke_one}"
    "\<And>k. k \<notin> reg_sid ` set (commandTargets ctx command s) \<Longrightarrow> jget (cs_registrations t) k = jget (cs_registrations s) k"
    "\<And>k. k \<in> reg_sid ` set (commandTargets ctx command s) \<Longrightarrow> \<exists>r. jget (cs_registrations t) k = Some r \<and> reg_state r \<noteq> Reg_active"
  shows "commandTargets ctx command t = []"
proof (rule ccontr)
  assume "commandTargets ctx command t \<noteq> []"
  then obtain r where r: "r \<in> set (commandTargets ctx command t)"
    by (cases "commandTargets ctx command t") auto
  show False
  proof (cases "reg_sid r \<in> reg_sid ` set (commandTargets ctx command s)")
    case True
    have "jget (cs_registrations t) (reg_sid r) = Some r" "reg_state r = Reg_active"
      using r unfolding bulk_targets [OF assms(3)] registry_listed [OF assms(2)] by blast+
    then show False
      using assms(5) [OF True] by (simp del: map_of_eq_Some_iff)
  next
    case False
    then have "r \<in> set (commandTargets ctx command s)"
      using assms(4) r unfolding bulk_targets [OF assms(3)] registry_listed [OF assms(1)] registry_listed [OF assms(2)] by simp
    then show False
      using False by blast
  qed
qed

text \<open>C29. The answer to a new command has one item per target, in order, each target is in the state its item says, and
  the command counts as revoked only if all of them are. A command about all sessions, or all others, leaves
  no active session that it would apply to; the current session survives the revocation of the others.\<close>

theorem command_complete:
  assumes "control_reachable E s" "executeCommand E ctx command s = (Inr x, t)"
    "jget (cs_operations s) (commandKey ctx command) = None"
  shows "map ir_sid (mr_results x) = map reg_sid (commandTargets ctx command s)
    \<and> (\<forall>i\<in>set (mr_results x). \<exists>r. jget (cs_registrations t) (ir_sid i) = Some r \<and> reg_state r = stateFor (ir_status i))
    \<and> (mr_status x = Mut_revoked \<longleftrightarrow> (\<forall>i\<in>set (mr_results x). ir_status i = Mut_revoked))
    \<and> (cmd_action command \<notin> {Logout_current, Revoke_one} \<longrightarrow> commandTargets ctx command t = [])
    \<and> (cmd_action command = Revoke_others \<longrightarrow>
        jget (cs_registrations t) (tc_currentSessionId ctx) = jget (cs_registrations s) (tc_currentSessionId ctx))"
  using assms(2)
proof (cases rule: executeCommand_cases)
  case fresh
  let ?targets = "commandTargets ctx command s"
  have ok: "registry_ok s"
    using reachable_ok [OF assms(1)] by simp
  obtain items u v where run: "revokeTargets E ctx command ?targets u = (Inr items, v)" "cs_registrations u = cs_registrations s"
      "cs_registrations t = cs_registrations v" "registry_ok v" "x = mutationResult command items"
    using executeFresh_effect [OF fresh(2)] ok by (auto simp: recorded_def)
  have results: "mr_results x = items" "mr_status x = aggregateStatus items"
    by (simp_all add: run(5) mutationResult_def Let_def)
  note effect = revokeTargets_effect [OF run(1) distinct_targets [OF ok]]
  have others: "jget (cs_registrations t) k = jget (cs_registrations s) k" if "k \<notin> reg_sid ` set ?targets" for k
    using leadsC_D [OF confined_revokeTargets run(1)] that run(2,3) unfolding confined_def by auto
  have inactive: "\<exists>r. jget (cs_registrations t) k = Some r \<and> reg_state r \<noteq> Reg_active" if "k \<in> reg_sid ` set ?targets" for k
  proof -
    have "k \<in> ir_sid ` set items"
      using effect that by (metis list.set_map)
    moreover have "stateFor m \<noteq> Reg_active" for m
      by (cases m) simp_all
    ultimately show ?thesis
      using effect run(3) by (auto simp del: map_of_eq_Some_iff)
  qed
  have "tc_currentSessionId ctx \<notin> reg_sid ` set ?targets" if "cmd_action command = Revoke_others"
    using that by (auto simp: commandTargets_def targetsOf_def)
  moreover have "commandTargets ctx command t = []" if "cmd_action command \<notin> {Logout_current, Revoke_one}"
    using bulk_no_targets [OF ok _ that others inactive] registry_same [OF run(3)] run(4) by blast
  ultimately show ?thesis
    using effect others run(3) unfolding results aggregate_revoked by metis
qed (use assms(3) in auto)

subsection \<open>Retries\<close>




subsection \<open>A run\<close>

definition demo_clock :: "nat \<Rightarrow> int" where
  "demo_clock n = 10000 * int n"

text \<open>The provider throws at the first call and confirms afterwards.\<close>

definition demo_control :: control_env where
  "demo_control = \<lparr>ce_now = demo_clock, ce_validUuid = (\<lambda>x. True), ce_hash = (\<lambda>x. x),
     ce_provider = (\<lambda>n q. if n = 0 then None else fakeRevoke [] demo_clock n q), ce_audit = (\<lambda>n e. True)\<rparr>"

definition demo_registration :: session_registration where
  "demo_registration = \<lparr>reg_sid = ''s1'', reg_anchorId = ''a1'', reg_tenantId = ''acme'', reg_subjectId = ''ana'', reg_state = Reg_active,
     reg_provider = ''fake'', reg_capabilities = COGNITO_COMPATIBLE_CAPABILITIES, reg_guarantee = noGuarantee,
     reg_metadata = \<lparr>dm_deviceLabel = None, dm_client = None, dm_providerLabel = None, dm_userAgentFamily = None,
       dm_deviceClass = None, dm_country = None, dm_region = None\<rparr>,
     reg_createdAt = [], reg_lastSeenAt = None, reg_expiresAt = None, reg_terminalAt = None, reg_sharedAnchor = False\<rparr>"

definition demo_context :: trusted_context where
  "demo_context = \<lparr>tc_actorId = ''ana'', tc_subjectId = ''ana'', tc_tenantId = ''acme'', tc_currentSessionId = ''s1'',
     tc_authorities = {Sessions_self}, tc_requestId = []\<rparr>"

definition demo_command :: control_command where
  "demo_command = \<lparr>cmd_action = Revoke_all, cmd_operationId = ''o1'', cmd_scope = None, cmd_targetSessionId = None,
     cmd_targetSubjectId = None\<rparr>"

definition demo_registered :: control_state where
  "demo_registered = snd (registerSession demo_registration control_init)"

definition demo_pending :: "(control_error + mutation_result) \<times> control_state" where
  "demo_pending = executeCommand demo_control demo_context demo_command demo_registered"

definition demo_retried :: control_state where
  "demo_retried = snd (reconcileSessions demo_control demo_context 25 (snd demo_pending))"

lemmas demo_run_simps = demo_control_def demo_context_def demo_command_def demo_registration_def
  control_init_def demo_clock_def bindC_def

lemma demo_registered_state: "demo_registered = control_init\<lparr>cs_registrations := [(''s1'', demo_registration)]\<rparr>"
  by (simp add: demo_registered_def registerSession_def demo_registration_def control_init_def)

lemma demo_checks: "validateCommand demo_control demo_command = Inr ()"
    "authorize demo_context (commandScope demo_command) (orSubject (cmd_targetSubjectId demo_command) demo_context) = Inr ()"
    "jget (cs_operations demo_registered) (commandKey demo_context demo_command) = None"
    "commandTargets demo_context demo_command demo_registered = [demo_registration]"
  by (simp_all add: demo_registered_state demo_run_simps validateCommand_def authorize_def commandScope_def orSubject_def truthyText_def
    commandTargets_def targetsOf_def listRegistrations_def jvalues_def Let_def)

text \<open>The operation after the command, and what the state then holds besides the audit trail.\<close>

definition demo_operation :: control_operation where
  "demo_operation = newOperation demo_control demo_context demo_command
     [itemFor ''s1'' (answerOf None)] (Some (retryAt 20000 1))"

lemma demo_pending_run:
  "fst demo_pending = Inr (mutationResult demo_command [itemFor ''s1'' (answerOf None)])"
  "cs_operations (snd demo_pending) = [(commandKey demo_context demo_command, demo_operation)]"
  "cs_ticks (snd demo_pending) = 4"
  "cs_registrations (snd demo_pending) = [(''s1'', demo_registration\<lparr>reg_state := Reg_revocation_pending\<rparr>)]"
  "length (cs_calls (snd demo_pending)) = 1"
proof -
  have targets: "targetsOf (listRegistrations demo_context (Some (commandScope demo_command))
      (Some (orSubject (cmd_targetSubjectId demo_command) demo_context)) demo_registered) (tc_currentSessionId demo_context) demo_command
    = [demo_registration]"
    using demo_checks(4) by (simp add: commandTargets_def)
  have supports: "supportsAction (reg_capabilities demo_registration) (cmd_action demo_command) (commandScope demo_command)"
    "\<not> reg_sharedAnchor demo_registration" "reg_sid demo_registration = ''s1''"
    by (simp_all add: supportsAction_def demo_run_simps COGNITO_COMPATIBLE_CAPABILITIES_def commandScope_def)
  have start: "cs_ticks demo_registered = 0" "cs_calls demo_registered = []" "cs_operations demo_registered = []"
      "cs_registrations demo_registered = [(''s1'', demo_registration)]"
    by (simp_all add: demo_registered_state control_init_def)
  have env: "ce_provider demo_control 0 q = None" "ce_audit demo_control n e" "ce_now demo_control n = 10000 * int n" for q n e
    by (simp_all add: demo_control_def demo_clock_def)
  have answer: "pr_status (answerOf None) = Mut_pending" "validateGuarantee (pr_guarantee (answerOf None)) = Inr ()"
    by (simp_all add: answerOf_def validateGuarantee_def noGuarantee_def)
  have status: "aggregateStatus [itemFor ''s1'' (answerOf None)] = Mut_pending"
    by (simp add: aggregateStatus_def itemFor_def answer)
  note run = executeCommand_def executeFresh_def demo_checks(1,2) demo_checks(3) [unfolded commandKey_def] targets supports
    bindC_def auditC_def env start callProvider_def answer revokeTarget_def recordAnswer_def updateRegistration_def registerSession_def
    finishOperation_def firstRetry_def status saveOperation_def Let_def
  show "fst demo_pending = Inr (mutationResult demo_command [itemFor ''s1'' (answerOf None)])"
    "cs_operations (snd demo_pending) = [(commandKey demo_context demo_command, demo_operation)]"
    "cs_ticks (snd demo_pending) = 4"
    "cs_registrations (snd demo_pending) = [(''s1'', demo_registration\<lparr>reg_state := Reg_revocation_pending\<rparr>)]"
    "length (cs_calls (snd demo_pending)) = 1"
    unfolding demo_pending_def demo_operation_def commandKey_def by (simp_all add: run) (simp_all add: newOperation_def answerOf_def demo_registration_def)
qed

lemma demo_reach: "control_reachable demo_control demo_registered" "control_reachable demo_control (snd demo_pending)"
proof -
  have "control_step demo_control control_init demo_registered"
    unfolding demo_registered_def by (rule step_register [OF prod.collapse [symmetric]])
  then show registered: "control_reachable demo_control demo_registered" ..
  have "control_step demo_control demo_registered (snd demo_pending)"
    unfolding demo_pending_def by (rule step_execute [OF prod.collapse [symmetric]])
  with registered show "control_reachable demo_control (snd demo_pending)" ..
qed

lemma demo_executed: "executeCommand demo_control demo_context demo_command demo_registered
    = (Inr (mutationResult demo_command [itemFor ''s1'' (answerOf None)]), snd demo_pending)"
  using demo_pending_run(1) unfolding demo_pending_def by (metis prod.collapse)

theorem command_answered_once_witness:
  "\<exists>y. executeCommand demo_control demo_context demo_command demo_retried = (Inr y, demo_retried) \<and> mr_operationId y = ''o1''
    \<and> map ir_sid (mr_results y) = [''s1'']"
proof -
  have "control_step demo_control (snd demo_pending) demo_retried"
    unfolding demo_retried_def by (rule step_reconcile [OF prod.collapse [symmetric]])
  then have "(control_step demo_control)\<^sup>*\<^sup>* (snd demo_pending) demo_retried" ..
  from command_answered_once [OF demo_reach(1) demo_executed this] show ?thesis
    by (auto simp: mutationResult_def itemFor_def demo_command_def Let_def)
qed

theorem command_stays_authorized_witness:
  "\<exists>a. jget (cs_registrations demo_registered) ''s1'' = Some a \<and> mayControl demo_context (commandScope demo_command) a"
proof -
  have "jget (cs_registrations (snd demo_pending)) ''s1'' \<noteq> jget (cs_registrations demo_registered) ''s1''"
    unfolding demo_pending_run(4) demo_registered_state by (simp add: demo_registration_def)
  then show ?thesis
    using command_stays_authorized [OF demo_reach(1) demo_executed] by blast
qed

theorem command_complete_witness:
  "map reg_sid (commandTargets demo_context demo_command demo_registered) = [''s1'']
   \<and> commandTargets demo_context demo_command (snd demo_pending) = []"
proof -
  let ?x = "mutationResult demo_command [itemFor ''s1'' (answerOf None)]"
  have "map ir_sid (mr_results ?x) = [''s1'']" "cmd_action demo_command \<notin> {Logout_current, Revoke_one}"
    by (simp_all add: mutationResult_def itemFor_def demo_command_def Let_def)
  then show ?thesis
    using command_complete [OF demo_reach(1) demo_executed demo_checks(3)] by simp
qed


subsection \<open>Where the code differs from its contract\<close>

text \<open>
  A reconciliation claims the pending operations of every tenant and looks up their sessions in the tenant of the
  context it runs in. Where it finds none it asks nobody, and at the seventh attempt it declares the operation failed.
\<close>

lemma invisible_items:
  "\<forall>i\<in>set items. findRegistration ctx (mr_scope result) (ir_sid i) s = None \<Longrightarrow> eachItem (retryItem E ctx result) items s = (Inr items, s)"
  by (induction items) (auto simp: bindC_def retryItem_def)

lemma invisible_failed:
  "\<forall>i\<in>set items. findRegistration ctx (mr_scope result) (ir_sid i) s = None \<Longrightarrow> \<exists>js. eachItem (failItem E ctx result) items s = (Inr js, s)"
  by (induction items) (auto simp: bindC_def failItem_def)

lemma foreign_reconciliation_fails:
  assumes "\<forall>i\<in>set (mr_results (op_result a)). findRegistration ctx (mr_scope (op_result a)) (ir_sid i) s = None"
    "anyPending (mr_results (op_result a))" "op_attempts a = 6"
  shows "\<exists>b. reconcileOperation E ctx a s = (Inr (), s\<lparr>cs_operations := jset (op_key a) b (cs_operations s)\<rparr>)
    \<and> mr_status (op_result b) = Mut_failed"
proof -
  obtain js where "eachItem (failItem E ctx (op_result a)) (mr_results (op_result a)) s = (Inr js, s)"
    using invisible_failed [OF assms(1)] by blast
  then show ?thesis
    using invisible_items [OF assms(1)] assms(2,3)
    by (intro exI [of _ "closedOperation a Mut_failed js (Some ''SESSION_PROVIDER_FAILED'')"])
      (simp add: reconcileOperation_def bindC_def settleOperation_def RETRY_SECONDS_def saveOperation_def closedOperation_def)
qed

text \<open>
  A session is revoked once more whatever its state: when the provider is out of reach a revoked session is pending
  again and no longer terminal.
\<close>

lemma revoked_session_reopened:
  assumes "supportsAction (reg_capabilities target) (cmd_action command) (commandScope command)"
    "\<forall>n e. ce_audit E n e" "\<forall>n q. ce_provider E n q = None"
  shows "\<exists>item t r. revokeTarget E ctx command target s = (Inr item, t) \<and> jget (cs_registrations t) (reg_sid target) = Some r
    \<and> reg_state r = Reg_revocation_pending \<and> reg_terminalAt r = None"
  using assms by (simp add: revokeTarget_def bindC_def auditC_def Let_def callProvider_def answerOf_def validateGuarantee_def
    noGuarantee_def recordAnswer_def updateRegistration_def registerSession_def)

lemma revoke_one_any_state:
  assumes "cmd_action command = Revoke_one" "cmd_targetSessionId command = Some (reg_sid r)"
    "r \<in> set (listRegistrations ctx (Some (commandScope command)) (Some (orSubject (cmd_targetSubjectId command) ctx)) s)"
  shows "r \<in> set (commandTargets ctx command s)"
  using assms by (simp add: commandTargets_def targetsOf_def)

text \<open>A retry that fails for good settles the operation as unsupported.\<close>

lemma failed_retry_unsupported:
  assumes "\<not> anyPending items" "i \<in> set items" "ir_status i = Mut_failed"
  shows "\<exists>b. settleOperation E ctx a items s = (Inr b, s) \<and> mr_status (op_result b) = Mut_unsupported"
proof -
  have "\<not> (\<forall>i\<in>set items. ir_status i = Mut_revoked)"
    using assms(2,3) by fastforce
  then show ?thesis
    using assms(1) by (simp add: settleOperation_def closedOperation_def)
qed

text \<open>The administrative action for a tenant reaches the sessions of one subject.\<close>

lemma revoke_tenant_one_subject:
  assumes "registry_ok s" "orSubject (cmd_targetSubjectId command) ctx \<noteq> []" "r \<in> set (commandTargets ctx command s)"
  shows "reg_subjectId r = orSubject (cmd_targetSubjectId command) ctx"
  using assms(2,3) subsetD [OF targets_listed assms(3)] unfolding registry_listed [OF assms(1)] by (simp add: truthyText_def)

end
