(* ===== verification/Spec2Isabelle.thy ===== *)
theory Spec2Isabelle
  imports Offline_Numbering_Ops Offline_Sync_Props Offline_Listing_Props Jobs_Cron_Props Session_Props Payload_Canon
    Offline_Service_Props Mobile_Props Sequential_Props Business_Calendar_Props
    Control_Props
begin

text \<open>
  STYNX is a platform of TypeScript packages for multi-tenant services. This library models the parts that carry their
  own logic and state, as the code of each is written, and proves what makes them correct: offline synchronisation
  with its numbering of documents, the offline client of it, user sessions, cron schedules, sequential
  signatures and the business calendar of work items. Paths are below \<open>src/packages\<close>.

  \<^bold>\<open>The base.\<close> \<open>Js_Prelude\<close> has what the code uses of JavaScript: \<open>Map\<close> as an association list in insertion order,
  exceptions as \<open>'e + 'a\<close> with \<open>bindE\<close>, \<open>throwIf\<close> and \<open>require\<close>, strings as the bytes of their UTF-8, safe integers.
  \<open>Js_Json\<close> has JSON trees with \<open>JSON.stringify\<close>, the order of UTF-16 code units and the stable sort; \<open>Js_Buffer\<close> has base64url and
  the reading of bytes as text; \<open>Js_Parse\<close> has \<open>JSON.parse\<close> on arrays of strings; \<open>Iso_Time\<close> has the calendar of \<open>Date\<close>,
  \<open>toISOString\<close>, \<open>Date.parse\<close> and the repository's reader of microseconds; \<open>Instant_Order\<close> shows that the texts of
  instants order as the instants. \<open>Transition_System\<close> holds the two locales through which components state what holds
  in all runs: a step relation with an invariant, and with a preorder that every step respects.

  \<^bold>\<open>Offline synchronisation, the server\<close> (\<open>offline-sync/src\<close>). A device reserves numbers while it is online, issues
  documents under them while it is not, and submits batches of items that the host applies.
  \<^item> Data and state: \<open>Offline_Types\<close> (errors, ranges, reservations, the numbering state), \<open>Offline_Sync_Types\<close> (batches,
    items, conflicts, the whole state of \<open>InMemoryOfflineSyncStore\<close>, the host's ports as functions).
  \<^item> Integrity: \<open>Offline_Payload\<close> has the canonical texts of \<open>payload-integrity.ts\<close> and \<open>transport.ts\<close>; \<open>Payload_Canon\<close> proves
    that the text determines the payload up to the order of members.
  \<^item> Numbering: \<open>Offline_Ranges\<close> (\<open>range-administration.ts\<close> and the range operations of \<open>store.ts\<close>), \<open>Offline_Numbering\<close>
    (admission, reservation, cancellation, settlement, use of numbers, reconciliation). \<open>Offline_Numbering_Inv\<close> proves the
    invariant that a number is held once, per kind of write and then per operation; \<open>Offline_Numbering_Runs\<close> is the step
    relation; \<open>Offline_Numbering_Props\<close> and \<open>Offline_Numbering_Ops\<close> are the properties.
  \<^item> Batches and conflicts: \<open>Offline_Conflicts\<close> (E6 batches, \<open>openConflict\<close>, \<open>resolveConflict\<close>), \<open>Offline_Outcome\<close>
    (\<open>domain-outcome.ts\<close>, \<open>pre-apply.ts\<close>), \<open>Offline_Durable\<close> and \<open>Offline_Batch\<close> (\<open>submitDurableSyncBatch\<close>, one definition
    per stage). \<open>Sync_Orders\<close> has the locale \<open>sync_order\<close>: a relation between the states before and after that each stage
    is shown to respect once. \<open>Batch_Stages\<close>, \<open>Batch_Once\<close>, \<open>Batch_Numbers\<close>, \<open>Sync_Runs\<close>, \<open>Conflict_Runs\<close> and
    \<open>Batch_Sequence\<close> interpret it: what is settled stays settled, a batch on the numbering part of the state is a run of
    the numbering component, conflicts that are resolved stay as they are, sequences of batches have no gap.
    \<open>Offline_Sync_Props\<close> has the properties, at the run of \<open>Sync_Demo\<close>.
  \<^item> Listings: \<open>Offline_Cursor\<close> (\<open>listing.ts\<close>), \<open>Offline_Listing\<close> (the five listings of the store), \<open>Offline_Listing_Props\<close>.
  \<^item> Service: \<open>Offline_Service\<close> is \<open>offline-sync.service.ts\<close>; \<open>Offline_Service_Props\<close> proves that each of its operations is
    at most one operation of the store on a request that meets the preconditions of the store's runs.

  \<^bold>\<open>The offline client\<close> (\<open>mobile-runtime/src\<close>). \<open>Mobile_Types\<close> and \<open>Mobile_Runtime\<close> are \<open>OfflineFirstMobileRuntime\<close> over the
  in-memory encrypted store. \<open>Mobile_Inv\<close> ties drafts, grants and queue items; \<open>Mobile_Runs\<close> shows that every
  operation keeps it, whatever server and printer answer; what it says of numbers is kept until the server grants a
  reservation anew that the device holds (\<open>regrant\<close>). \<open>Mobile_Props\<close> has the properties.

  \<^bold>\<open>Sessions\<close> (\<open>sessions/src\<close>). \<open>Session_Store\<close> is the in-memory store, \<open>Session_Service\<close> the service with the
  revocation list. \<open>Session_Inv\<close> is the invariant of the store; \<open>Session_Runs\<close> has the locale \<open>session_order\<close>, which plays
  the part of \<open>sync_order\<close> here; \<open>Session_Steps\<close> has the step relation; \<open>Session_Effects\<close> says what an operation does when it succeeds;
  \<open>Session_Props\<close> has the properties, at the run of \<open>Session_Demo\<close>. \<open>Control_Types\<close> and \<open>Control_Service\<close> are the session
  control of \<open>sessions/src/control\<close> over its in-memory registry: commands that revoke sessions at a provider, and the
  reconciliation of those left pending. \<open>Control_Runs\<close> has the locale \<open>control_order\<close>, the same interface for this state;
  \<open>Control_Inv\<close> what a retry makes of the items of an operation, the invariant of the operations on record and the step
  relation; \<open>Control_Props\<close> the properties, and the
  places where the code differs from its written contract.

  \<^bold>\<open>Single files.\<close> \<open>Jobs_Cron\<close> is \<open>jobs/src/cron.ts\<close>: parsing, and the search for the next run by days and offsets;
  \<open>Jobs_Cron_Props\<close> proves it equal, in UTC, to the least matching minute. \<open>Sequential_Signing\<close> is
  \<open>signature/src/sequential.ts\<close>; \<open>Sequential_Props\<close> shows that what is signed verifies and what the last digest binds.
  \<open>Business_Calendar\<close> is \<open>worklist/src/tenant-business-calendar.ts\<close>; \<open>Business_Calendar_Props\<close> shows that due dates count
  business days exactly, and where the start of a day is not its first instant.
\<close>

section \<open>Choices of the model\<close>

text \<open>
  \<^item> Operations run one after the other. The locks, the exclusive gate and the queues of the stores only matter where
    operations overlap; an undo log appears as the frame that a throw rolls back. Within an operation the order of reads and
    writes is the code's, and an operation that throws after a write keeps that write unless the code undoes it.
  \<^item> What the host supplies is an argument: ports and appliers, resolvers, signer, mirror, server, printer, clock.
    A port gets a token of the call, or the state counts the calls, so that answers may differ from call to call.
  \<^item> What a library supplies is an argument too: SHA-256, \<open>localeCompare\<close>, the tables of time zones behind
    \<open>Intl.DateTimeFormat\<close>, Unicode lower case. Where a property needs one of its laws, the law is a named
    hypothesis: identifiers do not repeat (\<open>randomUUID\<close>, \<open>distinct_draws\<close>, \<open>distinct_ids\<close>), tenant identifiers hold no colon,
    a local date is at most a day from the date in UTC (\<open>zone_close\<close>, for the instants a search may look at).
    A property about digests says that it holds or exhibits two texts with one digest.
  \<^item> Numbers are integers. The code uses floating-point numbers as integers within the safe range; the
    backoff of jobs, the one real use of fractions, is not modelled. Instants are within the range of \<open>Date\<close>.
  \<^item> Arguments have their declared types, so the code's checks of \<open>typeof\<close> have nothing to refuse; the checks of values are all there.
    Optional members are absent rather than \<open>undefined\<close>, and texts that are hashed have the members of an object in the order in
    which the code that builds the object writes them.
  \<^item> The calls of appliers and event ports on record (\<open>st_effects\<close>) are those that returned.

  Loops that are not structural have measures. The recursion over pages (\<open>allPages\<close>) takes the number of rows plus one as
  its bound, enough since each page but the last shows at least one row; the search of the calendar has the code's own bound of 1098 civil
  dates, and \<open>business_days_counted\<close> says what its exhaustion means; the search of cron has the code's window of
  five years.
\<close>

section \<open>Not modelled\<close>

text \<open>
  \<^item> The stores over PostgreSQL and Redis (offline-sync, sessions, jobs, outbox, idempotency, rate limits): their
    behaviour is that of SQL and of scripts run by the server. The in-memory stores of the same contracts are modelled.
  \<^item> Generated catalogues and schemas, migration and import tooling, build and release scripts, infrastructure.
  \<^item> NestJS modules, controllers, guards, interceptors and decorators, whose behaviour is that of the framework; zod
    schemas; adapters of external services and of cryptographic libraries; user interface packages.
  \<^item> What a server writes to the response of a request: \<open>applyReplayResponse\<close> of \<open>transport.ts\<close> sets status and headers of a
    replayed batch, the result itself is modelled.
  \<^item> Concurrency of operations, timers and the scheduling of promises.
\<close>

end
